(* ===== verification/Prelude.thy ===== *)
theory Prelude
  imports Complex_Main "HOL-Library.Word"
begin

text \<open>Shared vocabulary of the development: Rust strings restricted to ASCII (as lists of
characters), decimal parsing and printing, instants and the epoch conversions of chrono, the
casts between Rust integer types that the code relies on, and the combinators for effectful
code.  An effectful operation is a function from the state to a result and the next state; the
result is a sum whose left side is the error.  \<open>bind_ok\<close> is Rust's \<open>?\<close> (an error returns at
once), \<open>attempt\<close> is a \<open>match\<close> on the result, \<open>ignore\<close> is \<open>let _ = ...\<close>.\<close>

named_theorems effect_simps \<open>unfolding rules of the effect combinators\<close>
named_theorems string_simps \<open>laws of the string functions\<close>
named_theorems cast_simps \<open>casts that do nothing on values in range\<close>

section \<open>Effects\<close>

type_synonym ('e, 'a, 's) eff = "'s \<Rightarrow> ('e + 'a) \<times> 's"

definition ok :: "'a \<Rightarrow> ('e, 'a, 's) eff" where
  [effect_simps]: "ok x s = (Inr x, s)"

definition fail :: "'e \<Rightarrow> ('e, 'a, 's) eff" where
  [effect_simps]: "fail e s = (Inl e, s)"

definition bind_ok :: "('e, 'a, 's) eff \<Rightarrow> ('a \<Rightarrow> ('e, 'b, 's) eff) \<Rightarrow> ('e, 'b, 's) eff" where
  [effect_simps]: "bind_ok m f s = (case m s of (Inl e, s') \<Rightarrow> (Inl e, s') | (Inr x, s') \<Rightarrow> f x s')"

definition attempt :: "('e, 'a, 's) eff \<Rightarrow> ('e + 'a \<Rightarrow> 's \<Rightarrow> 'b \<times> 's) \<Rightarrow> 's \<Rightarrow> 'b \<times> 's" where
  [effect_simps]: "attempt m f s = (case m s of (r, s') \<Rightarrow> f r s')"

definition ignore :: "('e, 'a, 's) eff \<Rightarrow> 's \<Rightarrow> 's" where
  [effect_simps]: "ignore m s = snd (m s)"

fun for_each :: "('a \<Rightarrow> ('e, unit, 's) eff) \<Rightarrow> 'a list \<Rightarrow> ('e, unit, 's) eff" where
  "for_each f [] s = (Inr (), s)"
| "for_each f (x # xs) s = bind_ok (f x) (\<lambda>_. for_each f xs) s"

definition is_ok :: "'e + 'a \<Rightarrow> bool" where
  [effect_simps]: "is_ok r = (case r of Inl _ \<Rightarrow> False | Inr _ \<Rightarrow> True)"

text \<open>\<open>Result::unwrap_or\<close> on both result types of the code.\<close>

definition result_or :: "'a \<Rightarrow> 'e + 'a \<Rightarrow> 'a" where
  [effect_simps]: "result_or d r = (case r of Inl _ \<Rightarrow> d | Inr x \<Rightarrow> x)"

definition option_or :: "'a \<Rightarrow> 'a option \<Rightarrow> 'a" where
  [effect_simps]: "option_or d r = (case r of None \<Rightarrow> d | Some x \<Rightarrow> x)"

lemma bind_ok_assoc:
  "bind_ok (bind_ok m f) g = bind_ok m (\<lambda>x. bind_ok (f x) g)"
  by (rule ext) (auto simp: bind_ok_def split: prod.splits sum.splits)

lemma bind_ok_ok [simp]: "bind_ok (ok x) f = f x"
  by (rule ext) (simp add: bind_ok_def ok_def)

lemma ok_bind [simp]: "bind_ok m ok = m"
  by (rule ext) (auto simp: bind_ok_def ok_def split: prod.splits sum.splits)

lemma bind_ok_fail [simp]: "bind_ok (fail e) f = fail e"
  by (rule ext) (simp add: bind_ok_def fail_def)

lemma bind_ok_InrE:
  assumes "bind_ok m f s = (Inr y, t)"
  obtains x u where "m s = (Inr x, u)" "f x u = (Inr y, t)"
  using assms by (auto simp: bind_ok_def split: prod.splits sum.splits)

lemma for_each_append:
  "for_each f (xs @ ys) = bind_ok (for_each f xs) (\<lambda>_. for_each f ys)"
proof (induction xs)
  case Nil
  show ?case by (rule ext) (simp add: bind_ok_def)
next
  case (Cons x xs)
  show ?case
    by (rule ext) (auto simp: Cons bind_ok_def split: prod.splits sum.splits)
qed

text \<open>A state property kept by every step of a loop is kept by the loop, whether or not it
ends with an error.\<close>

lemma for_each_keeps:
  assumes "\<And>x s. x \<in> set xs \<Longrightarrow> P s \<Longrightarrow> P (snd (f x s))" and "P s"
  shows "P (snd (for_each f xs s))"
  using assms
proof (induction xs arbitrary: s)
  case (Cons x xs)
  have step: "P (snd (f x s))" using Cons.prems by simp
  show ?case
  proof (cases "f x s")
    case (Pair r t)
    then show ?thesis
      using step Cons.IH[of t] Cons.prems by (cases r) (auto simp: bind_ok_def)
  qed
qed simp

section \<open>Casts between integer types\<close>

definition as_u32 :: "nat \<Rightarrow> nat" where
  "as_u32 n = n mod 2 ^ 32"

definition int_as_u32 :: "int \<Rightarrow> nat" where
  "int_as_u32 i = nat (i mod 2 ^ 32)"

definition int_as_u64 :: "int \<Rightarrow> nat" where
  "int_as_u64 i = nat (i mod 2 ^ 64)"

definition u64_as_i64 :: "nat \<Rightarrow> int" where
  "u64_as_i64 n = (let m = n mod 2 ^ 64 in if m < 2 ^ 63 then int m else int m - 2 ^ 64)"

definition sat_add64 :: "nat \<Rightarrow> nat \<Rightarrow> nat" where
  "sat_add64 a b = min (a + b) (2 ^ 64 - 1)"

lemma as_u32_id [cast_simps]: "n < 2 ^ 32 \<Longrightarrow> as_u32 n = n"
  by (simp add: as_u32_def)

lemma int_as_u32_id [cast_simps]: "0 \<le> i \<Longrightarrow> i < 2 ^ 32 \<Longrightarrow> int_as_u32 i = nat i"
  by (simp add: int_as_u32_def)

lemma int_as_u64_id [cast_simps]: "0 \<le> i \<Longrightarrow> i < 2 ^ 64 \<Longrightarrow> int_as_u64 i = nat i"
  by (simp add: int_as_u64_def)

lemma u64_as_i64_id [cast_simps]: "n < 2 ^ 63 \<Longrightarrow> u64_as_i64 n = int n"
  by (simp add: u64_as_i64_def Let_def)

lemma int_as_u32_bound: "int_as_u32 i < 2 ^ 32"
proof -
  have "i mod 2 ^ 32 < (2 ^ 32 :: int)" by simp
  then show ?thesis by (simp add: int_as_u32_def nat_less_iff)
qed

lemma as_u32_bound: "as_u32 n < 2 ^ 32"
  by (simp add: as_u32_def)

section \<open>Instants\<close>

text \<open>A \<open>DateTime<Utc>\<close> is the number of nanoseconds since the epoch; \<open>timestamp()\<close> and
\<open>timestamp_millis()\<close> round towards minus infinity, as chrono does.\<close>

type_synonym instant = int

abbreviation (input) second :: int where "second \<equiv> 1000000000"

definition timestamp :: "instant \<Rightarrow> int" where
  "timestamp t = t div 1000000000"

definition timestamp_millis :: "instant \<Rightarrow> int" where
  "timestamp_millis t = t div 1000000"

definition seconds :: "int \<Rightarrow> int" where
  "seconds n = n * 1000000000"

lemma timestamp_mono: "a \<le> b \<Longrightarrow> timestamp a \<le> timestamp b"
  by (simp add: timestamp_def zdiv_mono1)

lemma timestamp_add_seconds [simp]: "timestamp (t + seconds n) = timestamp t + n"
  by (simp add: timestamp_def seconds_def)

section \<open>Strings\<close>

definition starts_with :: "string \<Rightarrow> string \<Rightarrow> bool" where
  "starts_with s p = (take (length p) s = p)"

definition ends_with :: "string \<Rightarrow> string \<Rightarrow> bool" where
  "ends_with s p = (length p \<le> length s \<and> drop (length s - length p) s = p)"

fun contains :: "string \<Rightarrow> string \<Rightarrow> bool" where
  "contains [] p = (p = [])"
| "contains (c # s) p = (starts_with (c # s) p \<or> contains s p)"

lemma starts_with_iff [string_simps]: "starts_with s p \<longleftrightarrow> (\<exists>r. s = p @ r)"
  unfolding starts_with_def by (metis append_eq_conv_conj append_take_drop_id)

lemma ends_with_iff [string_simps]: "ends_with s p \<longleftrightarrow> (\<exists>r. s = r @ p)"
proof
  assume "ends_with s p"
  then have "s = take (length s - length p) s @ p"
    unfolding ends_with_def by (metis append_take_drop_id)
  then show "\<exists>r. s = r @ p" by blast
next
  assume "\<exists>r. s = r @ p"
  then show "ends_with s p" by (auto simp: ends_with_def)
qed

lemma contains_iff [string_simps]: "contains s p \<longleftrightarrow> (\<exists>a b. s = a @ p @ b)"
proof (induction s)
  case (Cons c s)
  have "(\<exists>a b. c # s = a @ p @ b) \<longleftrightarrow> (\<exists>b. c # s = p @ b) \<or> (\<exists>a b. s = a @ p @ b)"
    by (auto simp: Cons_eq_append_conv)
  then show ?case using Cons by (simp add: starts_with_iff)
qed simp

lemma contains_self [simp]: "contains s s"
  unfolding contains_iff by (rule exI[of _ "[]"], rule exI[of _ "[]"]) simp

lemma contains_trans: "contains s p \<Longrightarrow> contains p q \<Longrightarrow> contains s q"
  unfolding contains_iff by (metis append.assoc)

lemma starts_with_contains: "starts_with s p \<Longrightarrow> contains s p"
  unfolding contains_iff starts_with_iff by (metis append_Nil)

lemma ends_with_contains: "ends_with s p \<Longrightarrow> contains s p"
  unfolding contains_iff ends_with_iff by (metis append_Nil2)

definition char_lower :: "char \<Rightarrow> char" where
  "char_lower c = (let n = (of_char c :: nat) in
     if 65 \<le> n \<and> n \<le> 90 then char_of (n + 32) else c)"

definition char_upper :: "char \<Rightarrow> char" where
  "char_upper c = (let n = (of_char c :: nat) in
     if 97 \<le> n \<and> n \<le> 122 then char_of (n - 32) else c)"

definition is_digit :: "char \<Rightarrow> bool" where
  "is_digit c = (let n = (of_char c :: nat) in 48 \<le> n \<and> n \<le> 57)"

definition is_whitespace :: "char \<Rightarrow> bool" where
  "is_whitespace c = (let n = (of_char c :: nat) in n = 32 \<or> (9 \<le> n \<and> n \<le> 13))"

abbreviation to_lowercase :: "string \<Rightarrow> string" where
  "to_lowercase \<equiv> map char_lower"

abbreviation to_uppercase :: "string \<Rightarrow> string" where
  "to_uppercase \<equiv> map char_upper"

definition trim :: "string \<Rightarrow> string" where
  "trim s = rev (dropWhile is_whitespace (rev (dropWhile is_whitespace s)))"

lemma char_lower_idem [simp]: "char_lower (char_lower c) = char_lower c"
  by (auto simp: char_lower_def Let_def)

lemma char_lower_not_upper:
  "\<not> (65 \<le> (of_char (char_lower c) :: nat) \<and> of_char (char_lower c) \<le> (90 :: nat))"
  by (auto simp: char_lower_def Let_def)

fun split_on :: "char \<Rightarrow> string \<Rightarrow> string list" where
  "split_on d [] = [[]]"
| "split_on d (c # s) = (if c = d then [] # split_on d s
     else case split_on d s of [] \<Rightarrow> [[c]] | w # ws \<Rightarrow> (c # w) # ws)"

lemma split_on_not_Nil [simp]: "split_on d s \<noteq> []"
  by (induction s) (auto split: list.splits)

lemma split_on_no_sep: "d \<notin> set s \<Longrightarrow> split_on d s = [s]"
  by (induction s) auto

lemma split_on_append:
  "d \<notin> set v \<Longrightarrow> split_on d (u @ d # v) = split_on d u @ [v]"
proof (induction u)
  case Nil
  then show ?case by (simp add: split_on_no_sep)
next
  case (Cons c u)
  then show ?case by (auto split: list.splits simp: Cons_eq_append_conv)
qed

lemma last_split_on:
  "d \<notin> set v \<Longrightarrow> last (split_on d (u @ d # v)) = v"
  by (simp add: split_on_append)

text \<open>\<open>Ord\<close> on \<open>str\<close>: lexicographic on the bytes.\<close>

datatype ordering = Less | Equal | Greater

fun compare_strings :: "string \<Rightarrow> string \<Rightarrow> ordering" where
  "compare_strings [] [] = Equal"
| "compare_strings [] (_ # _) = Less"
| "compare_strings (_ # _) [] = Greater"
| "compare_strings (a # as) (b # bs) =
     (if (of_char a :: nat) < of_char b then Less
      else if of_char b < (of_char a :: nat) then Greater
      else compare_strings as bs)"

lemma compare_strings_refl [simp]: "compare_strings s s = Equal"
  by (induction s) auto

lemma compare_strings_Equal: "compare_strings s t = Equal \<longleftrightarrow> s = t"
proof (induction s t rule: compare_strings.induct)
  case (4 a as b bs)
  have "(of_char a :: nat) = of_char b \<longleftrightarrow> a = b" by (rule of_char_eq_iff)
  then show ?case using 4 by auto
qed auto

lemma compare_strings_swap: "compare_strings s t = Less \<longleftrightarrow> compare_strings t s = Greater"
  by (induction s t rule: compare_strings.induct) auto

section \<open>Decimal numerals\<close>

definition digit_char :: "nat \<Rightarrow> char" where
  "digit_char n = char_of (48 + n)"

definition digit_val :: "char \<Rightarrow> nat" where
  "digit_val c = of_char c - 48"

fun show_nat :: "nat \<Rightarrow> string" where
  "show_nat n = (if n < 10 then [digit_char n] else show_nat (n div 10) @ [digit_char (n mod 10)])"

declare show_nat.simps [simp del]

definition digits_val :: "string \<Rightarrow> nat" where
  "digits_val = foldl (\<lambda>a c. 10 * a + digit_val c) 0"

definition parse_nat :: "string \<Rightarrow> nat option" where
  "parse_nat s = (if s \<noteq> [] \<and> list_all is_digit s then Some (digits_val s) else None)"

text \<open>\<open>str::parse\<close> for the unsigned types: an optional plus sign, digits, no overflow.\<close>

definition strip_plus :: "string \<Rightarrow> string" where
  "strip_plus s = (if s \<noteq> [] \<and> hd s = CHR ''+'' then tl s else s)"

definition parse_uint :: "nat \<Rightarrow> string \<Rightarrow> nat option" where
  "parse_uint w s = (case parse_nat (strip_plus s) of None \<Rightarrow> None
     | Some n \<Rightarrow> if n < 2 ^ w then Some n else None)"

definition show_int :: "int \<Rightarrow> string" where
  "show_int i = (if i < 0 then CHR ''-'' # show_nat (nat (- i)) else show_nat (nat i))"

text \<open>\<open>str::parse\<close> for the signed types: an optional sign, digits, no overflow.\<close>

definition parse_int :: "nat \<Rightarrow> string \<Rightarrow> int option" where
  "parse_int w s = (if s \<noteq> [] \<and> hd s = CHR ''-'' then
       (case parse_nat (tl s) of None \<Rightarrow> None
        | Some n \<Rightarrow> if n \<le> 2 ^ (w - 1) then Some (- int n) else None)
     else (case parse_nat (strip_plus s) of None \<Rightarrow> None
        | Some n \<Rightarrow> if n < 2 ^ (w - 1) then Some (int n) else None))"

lemma of_digit_char: "n < 10 \<Longrightarrow> (of_char (digit_char n) :: nat) = 48 + n"
  by (simp add: digit_char_def of_char_of)

lemma is_digit_digit_char [simp]: "n < 10 \<Longrightarrow> is_digit (digit_char n)"
  by (simp add: is_digit_def of_digit_char)

lemma digit_val_digit_char [simp]: "n < 10 \<Longrightarrow> digit_val (digit_char n) = n"
  by (simp add: digit_val_def of_digit_char)

lemma show_nat_digits: "list_all is_digit (show_nat n)"
proof (induction n rule: show_nat.induct)
  case (1 n)
  then show ?case by (cases "n < 10") (simp_all add: show_nat.simps[of n])
qed

lemma show_nat_not_Nil [simp]: "show_nat n \<noteq> []"
  by (simp add: show_nat.simps[of n])

lemma digits_val_show_nat [simp]: "digits_val (show_nat n) = n"
proof (induction n rule: show_nat.induct)
  case (1 n)
  then show ?case
    by (cases "n < 10") (simp_all add: show_nat.simps[of n] digits_val_def)
qed

lemma parse_nat_show_nat [simp]: "parse_nat (show_nat n) = Some n"
  by (simp add: parse_nat_def show_nat_digits)

lemma parse_nat_plus_minus [simp]:
  "parse_nat (CHR ''-'' # s) = None" "parse_nat (CHR ''+'' # s) = None"
  by (simp_all add: parse_nat_def is_digit_def)

lemma show_nat_head: "hd (show_nat n) \<noteq> CHR ''+''" "hd (show_nat n) \<noteq> CHR ''-''"
  by (metis list.collapse option.distinct(1) parse_nat_plus_minus parse_nat_show_nat
      show_nat_not_Nil)+

lemma strip_plus_show_nat [simp]: "strip_plus (show_nat n) = show_nat n"
  by (simp add: strip_plus_def show_nat_head)

lemma parse_uint_show [string_simps]: "n < 2 ^ w \<Longrightarrow> parse_uint w (show_nat n) = Some n"
  by (simp add: parse_uint_def)

lemma parse_uint_show_big: "2 ^ w \<le> n \<Longrightarrow> parse_uint w (show_nat n) = None"
  by (simp add: parse_uint_def)

lemma parse_uint_neg [simp]: "parse_uint w (CHR ''-'' # s) = None"
  by (simp add: parse_uint_def strip_plus_def)

lemma parse_uint_show_neg [string_simps]: "i < 0 \<Longrightarrow> parse_uint w (show_int i) = None"
  by (simp add: show_int_def)

lemma show_nat_inject [simp]: "show_nat m = show_nat n \<longleftrightarrow> m = n"
  by (metis option.inject parse_nat_show_nat)

lemma show_int_inject: "show_int i = show_int j \<longleftrightarrow> i = j"
  using show_nat_head[of "nat i"] show_nat_head[of "nat j"]
  by (auto simp: show_int_def) (metis list.sel(1))+

lemma parse_int_show [string_simps]:
  assumes "- (2 ^ (w - 1)) \<le> i" "i < 2 ^ (w - 1)"
  shows "parse_int w (show_int i) = Some i"
proof (cases "i < 0")
  case True
  then have "nat (- i) \<le> 2 ^ (w - 1)" using assms(1) by (simp add: nat_le_iff)
  then show ?thesis using True by (simp add: parse_int_def show_int_def)
next
  case False
  then have "nat i < 2 ^ (w - 1)" using assms(2) by (simp add: nat_less_iff)
  then show ?thesis using False by (simp add: parse_int_def show_int_def show_nat_head)
qed

section \<open>Association lists\<close>

text \<open>A \<open>HashMap\<close> whose iteration order the code exposes is an association list with distinct
keys; one whose order it does not expose is a map.\<close>

fun al_update :: "'k \<Rightarrow> 'v \<Rightarrow> ('k \<times> 'v) list \<Rightarrow> ('k \<times> 'v) list" where
  "al_update k v [] = [(k, v)]"
| "al_update k v ((k', v') # xs) = (if k = k' then (k, v) # xs else (k', v') # al_update k v xs)"

lemma map_of_al_update [simp]: "map_of (al_update k v xs) = (map_of xs)(k \<mapsto> v)"
  by (induction xs) auto

lemma keys_al_update: "fst ` set (al_update k v xs) = insert k (fst ` set xs)"
  by (induction k v xs rule: al_update.induct) auto

lemma distinct_al_update:
  "distinct (map fst xs) \<Longrightarrow> distinct (map fst (al_update k v xs))"
proof (induction k v xs rule: al_update.induct)
  case (2 k v k' v' xs)
  then show ?case by (auto simp: keys_al_update)
qed simp

end
