(* ===== verification/Types.thy ===== *)
theory Types
  imports Prelude
begin

text \<open>The data model of \<open>types/\<close>: logs, alerts, tags, the normalized (ECS) event and JSON values.
UUIDs are natural numbers and instants are nanoseconds.  \<open>Utc::now()\<close> and \<open>Uuid::new_v4()\<close>
are arguments of the functions that call them.\<close>

section \<open>Errors\<close>

text \<open>The \<open>anyhow::Error\<close> values of the code, by origin.\<close>

datatype error =
    Cache_Error
  | Db_Error
  | Db_Conflict
  | Parse_Error
  | Search_Error
  | Queue_Error
  | Crypto_Error
  | Auth_Error
  | Invalid_Input

section \<open>JSON values (serde\_json)\<close>

text \<open>Numbers keep serde's three representations: a \<open>u64\<close>, a negative \<open>i64\<close>, or a finite \<open>f64\<close>
(an exact rational).  An object is its list of entries in key order.\<close>

datatype json_number = PosInt nat | NegInt int | Float rat

datatype json =
    JNull
  | JBool bool
  | JNum json_number
  | JStr string
  | JArr "json list"
  | JObj "(string \<times> json) list"

definition json_get :: "json \<Rightarrow> string \<Rightarrow> json option" where
  "json_get j k = (case j of JObj m \<Rightarrow> map_of m k | _ \<Rightarrow> None)"

definition as_str :: "json \<Rightarrow> string option" where
  "as_str j = (case j of JStr s \<Rightarrow> Some s | _ \<Rightarrow> None)"

definition as_bool :: "json \<Rightarrow> bool option" where
  "as_bool j = (case j of JBool b \<Rightarrow> Some b | _ \<Rightarrow> None)"

definition as_u64 :: "json \<Rightarrow> nat option" where
  "as_u64 j = (case j of JNum (PosInt n) \<Rightarrow> Some n | _ \<Rightarrow> None)"

definition as_i64 :: "json \<Rightarrow> int option" where
  "as_i64 j = (case j of JNum (PosInt n) \<Rightarrow> if n < 2 ^ 63 then Some (int n) else None
                       | JNum (NegInt i) \<Rightarrow> Some i | _ \<Rightarrow> None)"

text \<open>Conversion of an integer to \<open>f64\<close>: exact up to 53 significant bits, round half to even
above.\<close>

function f64_of_nat :: "nat \<Rightarrow> nat \<Rightarrow> nat" where
  "f64_of_nat e n = (if n div 2 ^ e < 2 ^ 53 then
       (let q = n div 2 ^ e; r = n mod 2 ^ e; up = 2 * r > 2 ^ e \<or> (2 * r = 2 ^ e \<and> odd q)
        in (if up then q + 1 else q) * 2 ^ e)
     else f64_of_nat (e + 1) n)"
  by auto
termination
proof (relation "measure (\<lambda>(e, n). n - e)", goal_cases)
  case (2 e n)
  have "e < 2 ^ e" by (rule less_exp)
  moreover have "2 ^ e \<le> n"
  proof (rule ccontr)
    assume "\<not> 2 ^ e \<le> n"
    then have "n div 2 ^ e = 0" by simp
    with 2 show False by simp
  qed
  ultimately have "e < n" by (rule less_le_trans)
  then show ?case by simp
qed simp

declare f64_of_nat.simps [simp del]

definition f64_of_int :: "int \<Rightarrow> rat" where
  "f64_of_int i = (if i < 0 then - of_nat (f64_of_nat 0 (nat (- i))) else of_nat (f64_of_nat 0 (nat i)))"

definition as_f64 :: "json \<Rightarrow> rat option" where
  "as_f64 j = (case j of
       JNum (PosInt n) \<Rightarrow> Some (f64_of_int (int n))
     | JNum (NegInt i) \<Rightarrow> Some (f64_of_int i)
     | JNum (Float x) \<Rightarrow> Some x
     | _ \<Rightarrow> None)"

lemma f64_of_nat_exact [simp]: "n < 2 ^ 53 \<Longrightarrow> f64_of_nat 0 n = n"
  by (simp add: f64_of_nat.simps)

lemma f64_of_int_exact [simp]: "\<bar>i\<bar> < 2 ^ 53 \<Longrightarrow> f64_of_int i = of_int i"
proof -
  assume a: "\<bar>i\<bar> < 2 ^ 53"
  then have "nat \<bar>i\<bar> < 2 ^ 53" by (simp add: nat_less_iff)
  then show ?thesis by (auto simp: f64_of_int_def simp del: of_nat_nat)
qed

section \<open>Severities, statuses, tags\<close>

datatype alert_severity = Critical | High | Medium | Low | Info

datatype log_severity = LCritical | LHigh | LMedium | LLow | LInfo | LDebug

datatype alert_status = New | Investigating | Resolved | False_Positive

datatype log_tag = Auth | Network | Malware

fun show_alert_severity :: "alert_severity \<Rightarrow> string" where
  "show_alert_severity Critical = ''CRITICAL''"
| "show_alert_severity High = ''HIGH''"
| "show_alert_severity Medium = ''MEDIUM''"
| "show_alert_severity Low = ''LOW''"
| "show_alert_severity Info = ''INFO''"

definition parse_alert_severity :: "string \<Rightarrow> alert_severity option" where
  "parse_alert_severity s = (let u = to_uppercase s in
     if u = ''CRITICAL'' then Some Critical
     else if u = ''HIGH'' then Some High
     else if u = ''MEDIUM'' then Some Medium
     else if u = ''LOW'' then Some Low
     else if u = ''INFO'' then Some Info
     else None)"

fun show_alert_status :: "alert_status \<Rightarrow> string" where
  "show_alert_status New = ''NEW''"
| "show_alert_status Investigating = ''INVESTIGATING''"
| "show_alert_status Resolved = ''RESOLVED''"
| "show_alert_status False_Positive = ''FALSEPOSITIVE''"

definition parse_alert_status :: "string \<Rightarrow> alert_status option" where
  "parse_alert_status s = (let u = to_uppercase s in
     if u = ''NEW'' then Some New
     else if u = ''INVESTIGATING'' then Some Investigating
     else if u = ''RESOLVED'' then Some Resolved
     else if u = ''FALSEPOSITIVE'' then Some False_Positive
     else None)"

fun show_log_severity :: "log_severity \<Rightarrow> string" where
  "show_log_severity LCritical = ''CRITICAL''"
| "show_log_severity LHigh = ''HIGH''"
| "show_log_severity LMedium = ''MEDIUM''"
| "show_log_severity LLow = ''LOW''"
| "show_log_severity LInfo = ''INFO''"
| "show_log_severity LDebug = ''DEBUG''"

fun show_log_tag :: "log_tag \<Rightarrow> string" where
  "show_log_tag Auth = ''auth''"
| "show_log_tag Network = ''network''"
| "show_log_tag Malware = ''malware''"

definition parse_log_tag :: "string \<Rightarrow> log_tag option" where
  "parse_log_tag s =
     (if s = ''auth'' then Some Auth
      else if s = ''network'' then Some Network
      else if s = ''malware'' then Some Malware
      else None)"

section \<open>Logs\<close>

record log =
  l_id :: nat
  l_tenant :: string
  l_timestamp :: instant
  l_event_type :: string
  l_source_ip :: string
  l_target_user :: "string option"
  l_service :: "string option"
  l_message :: string
  l_severity :: log_severity
  l_metadata :: json
  l_received :: instant

definition log_new ::
  "nat \<Rightarrow> instant \<Rightarrow> string \<Rightarrow> string \<Rightarrow> string \<Rightarrow> string \<Rightarrow> log" where
  "log_new uuid now tenant event_type ip msg =
     \<lparr> l_id = uuid, l_tenant = tenant, l_timestamp = now, l_event_type = event_type,
       l_source_ip = ip, l_target_user = None, l_service = None, l_message = msg,
       l_severity = LInfo, l_metadata = JNull, l_received = now \<rparr>"

definition is_failed_login :: "log \<Rightarrow> bool" where
  "is_failed_login l \<longleftrightarrow> contains (l_event_type l) ''login_failed''
     \<or> contains (l_message l) ''Failed password''
     \<or> contains (l_message l) ''authentication failure''"

definition is_successful_login :: "log \<Rightarrow> bool" where
  "is_successful_login l \<longleftrightarrow> contains (l_event_type l) ''login_success''
     \<or> contains (l_message l) ''Accepted password''"

section \<open>Alerts\<close>

record alert =
  a_id :: nat
  a_tenant :: string
  a_rule_id :: string
  a_rule_name :: string
  a_severity :: alert_severity
  a_description :: string
  a_source_ip :: string
  a_events :: "log list"
  a_first_seen :: instant
  a_last_seen :: instant
  a_status :: alert_status
  a_events_count :: nat

definition alert_new ::
  "nat \<Rightarrow> instant \<Rightarrow> string \<Rightarrow> string \<Rightarrow> string \<Rightarrow> alert_severity \<Rightarrow> string \<Rightarrow> string
   \<Rightarrow> log list \<Rightarrow> alert" where
  "alert_new uuid now tenant rule_id rule_name sev descr ip evs =
     \<lparr> a_id = uuid, a_tenant = tenant, a_rule_id = rule_id, a_rule_name = rule_name,
       a_severity = sev, a_description = descr, a_source_ip = ip, a_events = evs,
       a_first_seen = now, a_last_seen = now, a_status = New, a_events_count = length evs \<rparr>"

section \<open>The normalized event\<close>

record ecs_log =
  e_timestamp :: instant
  e_log_level :: "string option"
  e_message :: "string option"
  e_kind :: "string option"
  e_category :: "string list"
  e_type :: "string list"
  e_outcome :: "string option"
  e_source_ip :: "string option"
  e_source_port :: "nat option"
  e_destination_ip :: "string option"
  e_destination_port :: "nat option"
  e_user_name :: "string option"
  e_user_id :: "string option"
  e_host_name :: "string option"
  e_host_ip :: "string list"
  e_process_name :: "string option"
  e_process_pid :: "nat option"
  e_process_executable :: "string option"
  e_process_args :: "string list"
  e_labels :: "string \<rightharpoonup> string"
  e_tags :: "string list"
  e_original :: "string option"
  e_event_id :: nat

definition ecs_new :: "nat \<Rightarrow> instant \<Rightarrow> ecs_log" where
  "ecs_new uuid now =
     \<lparr> e_timestamp = now, e_log_level = None, e_message = None, e_kind = None,
       e_category = [], e_type = [], e_outcome = None, e_source_ip = None,
       e_source_port = None, e_destination_ip = None, e_destination_port = None,
       e_user_name = None, e_user_id = None, e_host_name = None, e_host_ip = [],
       e_process_name = None, e_process_pid = None, e_process_executable = None,
       e_process_args = [], e_labels = Map.empty, e_tags = [], e_original = None,
       e_event_id = uuid \<rparr>"

section \<open>Facts\<close>

instantiation alert_severity :: linorder
begin

definition severity_rank :: "alert_severity \<Rightarrow> nat" where
  "severity_rank s = (case s of Info \<Rightarrow> 0 | Low \<Rightarrow> 1 | Medium \<Rightarrow> 2 | High \<Rightarrow> 3 | Critical \<Rightarrow> 4)"

definition less_eq_alert_severity :: "alert_severity \<Rightarrow> alert_severity \<Rightarrow> bool" where
  "less_eq_alert_severity a b \<longleftrightarrow> severity_rank a \<le> severity_rank b"

definition less_alert_severity :: "alert_severity \<Rightarrow> alert_severity \<Rightarrow> bool" where
  "less_alert_severity a b \<longleftrightarrow> severity_rank a < severity_rank b"

instance
proof
  fix x y :: alert_severity
  show "x \<le> y \<Longrightarrow> y \<le> x \<Longrightarrow> x = y"
    by (cases x; cases y) (simp_all add: less_eq_alert_severity_def severity_rank_def)
qed (auto simp: less_eq_alert_severity_def less_alert_severity_def)

end

lemma upper_literals [simp]:
  "to_uppercase (show_alert_severity s) = show_alert_severity s"
  "to_uppercase (show_alert_status t) = show_alert_status t"
  by (cases s; simp add: char_upper_def) (cases t; simp add: char_upper_def)

lemma parse_show_alert_severity [simp]:
  "parse_alert_severity (show_alert_severity s) = Some s"
  by (cases s) (simp_all add: parse_alert_severity_def char_upper_def)

lemma parse_show_alert_status [simp]:
  "parse_alert_status (show_alert_status s) = Some s"
  by (cases s) (simp_all add: parse_alert_status_def char_upper_def)

lemma show_alert_severity_inject [simp]:
  "show_alert_severity a = show_alert_severity b \<longleftrightarrow> a = b"
  by (metis option.inject parse_show_alert_severity)

lemma show_alert_status_inject [simp]:
  "show_alert_status a = show_alert_status b \<longleftrightarrow> a = b"
  by (metis option.inject parse_show_alert_status)

lemma parse_show_log_tag [simp]: "parse_log_tag (show_log_tag t) = Some t"
  by (cases t) (simp_all add: parse_log_tag_def)

lemma parse_log_tag_Some: "parse_log_tag s = Some t \<longleftrightarrow> s = show_log_tag t"
  by (cases t) (auto simp: parse_log_tag_def split: if_splits)

end
