(* ===== verification/Patterns.thy ===== *)
theory Patterns
  imports Prelude
begin

text \<open>The regular expressions of the code.  The patterns themselves are in the source
(\<open>utils/normalization.rs\<close>, \<open>detection/rules/malware.rs\<close>); the matching is the \<open>regex\<close> crate's, whose
documentation fixes the answer: the match that starts first, and of those the one that a backtracking search
with greedy repetitions finds first.  That search is \<open>find_match\<close>; \<open>matches\<close> is the language of a pattern.\<close>

section \<open>Patterns\<close>

text \<open>A literal, any number or at least one of the characters of a class, concatenation, alternatives, and a named
group.\<close>

datatype pattern =
  Lit string
  | Any_Of "char \<Rightarrow> bool"
  | Some_Of "char \<Rightarrow> bool"
  | Seq pattern pattern
  | Alt pattern pattern
  | Group string pattern

type_synonym captures = "(string \<times> string) list"

inductive matches :: "pattern \<Rightarrow> string \<Rightarrow> captures \<Rightarrow> bool" where
  lit: "matches (Lit s) s []"
| any_of: "list_all P w \<Longrightarrow> matches (Any_Of P) w []"
| some_of: "list_all P w \<Longrightarrow> w \<noteq> [] \<Longrightarrow> matches (Some_Of P) w []"
| seq: "matches p u a \<Longrightarrow> matches q v b \<Longrightarrow> matches (Seq p q) (u @ v) (a @ b)"
| left: "matches p w a \<Longrightarrow> matches (Alt p q) w a"
| right: "matches q w a \<Longrightarrow> matches (Alt p q) w a"
| group: "matches p w a \<Longrightarrow> matches (Group n p) w ((n, w) # a)"

inductive_simps matches_simps [simp]:
  "matches (Lit s) w a" "matches (Any_Of P) w a" "matches (Some_Of P) w a" "matches (Seq p q) w a"
  "matches (Alt p q) w a" "matches (Group n p) w a"

text \<open>A pattern occurs in a text when it matches some part of it.\<close>

definition occurs :: "pattern \<Rightarrow> string \<Rightarrow> bool" where
  "occurs p t \<longleftrightarrow> (\<exists>u w v a. t = u @ w @ v \<and> matches p w a)"

section \<open>The search\<close>

text \<open>The ways to match a prefix of a text, in the order in which they are tried: what was read, what was
captured, and what is left.\<close>

definition prefixes_of :: "(char \<Rightarrow> bool) \<Rightarrow> nat \<Rightarrow> string \<Rightarrow> (string \<times> captures \<times> string) list" where
  "prefixes_of P least t =
     map (\<lambda>n. (take n t, [], drop n t)) (rev [least..<Suc (length (takeWhile P t))])"

fun tries :: "pattern \<Rightarrow> string \<Rightarrow> (string \<times> captures \<times> string) list" where
  "tries (Lit s) t = (if starts_with t s then [(s, [], drop (length s) t)] else [])"
| "tries (Any_Of P) t = prefixes_of P 0 t"
| "tries (Some_Of P) t = prefixes_of P 1 t"
| "tries (Seq p q) t = concat (map (\<lambda>(u, a, r). map (\<lambda>(v, b, r'). (u @ v, a @ b, r')) (tries q r)) (tries p t))"
| "tries (Alt p q) t = tries p t @ tries q t"
| "tries (Group n p) t = map (\<lambda>(w, a, r). (w, (n, w) # a, r)) (tries p t)"

fun find_match :: "pattern \<Rightarrow> string \<Rightarrow> captures option" where
  "find_match p t = (case tries p t of
       (w, a, r) # _ \<Rightarrow> Some a
     | [] \<Rightarrow> (case t of [] \<Rightarrow> None | c # t' \<Rightarrow> find_match p t'))"

declare find_match.simps [simp del]

definition is_match :: "pattern \<Rightarrow> string \<Rightarrow> bool" where
  "is_match p t \<longleftrightarrow> find_match p t \<noteq> None"

section \<open>The search finds what the language has\<close>

lemma prefixes_of_iff:
  "(w, a, r) \<in> set (prefixes_of P n t) \<longleftrightarrow> t = w @ r \<and> a = [] \<and> list_all P w \<and> n \<le> length w"
proof
  assume "(w, a, r) \<in> set (prefixes_of P n t)"
  then obtain m where m: "n \<le> m" "m \<le> length (takeWhile P t)" "w = take m t" "a = []" "r = drop m t"
    by (auto simp: prefixes_of_def)
  then have "m \<le> length t" using length_takeWhile_le[of P t] by linarith
  moreover have "take m t = take m (takeWhile P t)"
    using m(2) by (metis append_eq_conv_conj takeWhile_dropWhile_id take_append take_all_iff diff_is_0_eq take_0 append_Nil2)
  then have "list_all P w" using m(3) set_takeWhileD[of _ P t] by (auto simp: list_all_iff dest!: in_set_takeD)
  ultimately show "t = w @ r \<and> a = [] \<and> list_all P w \<and> n \<le> length w" using m by simp
next
  assume *: "t = w @ r \<and> a = [] \<and> list_all P w \<and> n \<le> length w"
  then have "length w \<le> length (takeWhile P t)" by (simp add: takeWhile_append2 list_all_iff)
  then show "(w, a, r) \<in> set (prefixes_of P n t)"
    using * by (auto simp: prefixes_of_def intro!: image_eqI[of _ _ "length w"])
qed

theorem tries_iff: "(w, a, r) \<in> set (tries p t) \<longleftrightarrow> t = w @ r \<and> matches p w a"
proof (induction p arbitrary: w a r t)
  case (Lit s)
  then show ?case by (auto simp: starts_with_iff)
next
  case (Some_Of P)
  then show ?case by (auto simp: prefixes_of_iff Suc_le_eq)
next
  case (Seq p q)
  show ?case
  proof
    assume "(w, a, r) \<in> set (tries (Seq p q) t)"
    then obtain u b m v c where *: "(u, b, m) \<in> set (tries p t)" "(v, c, r) \<in> set (tries q m)" "w = u @ v" "a = b @ c"
      by auto
    then show "t = w @ r \<and> matches (Seq p q) w a" using Seq.IH by auto
  next
    assume "t = w @ r \<and> matches (Seq p q) w a"
    then obtain u b v c where "t = u @ v @ r" "w = u @ v" "a = b @ c" "matches p u b" "matches q v c" by auto
    then have "(u, b, v @ r) \<in> set (tries p t)" "(v, c, r) \<in> set (tries q (v @ r))" using Seq.IH by auto
    then show "(w, a, r) \<in> set (tries (Seq p q) t)" using \<open>w = u @ v\<close> \<open>a = b @ c\<close> by force
  qed
next
  case (Alt p q)
  then show ?case by auto
next
  case (Group n p)
  show ?case
  proof
    assume "(w, a, r) \<in> set (tries (Group n p) t)"
    then obtain b where "(w, b, r) \<in> set (tries p t)" "a = (n, w) # b" by auto
    then show "t = w @ r \<and> matches (Group n p) w a" using Group.IH by auto
  next
    assume "t = w @ r \<and> matches (Group n p) w a"
    then obtain b where "t = w @ r" "matches p w b" "a = (n, w) # b" by auto
    then have "(w, b, r) \<in> set (tries p t)" using Group.IH by auto
    then show "(w, a, r) \<in> set (tries (Group n p) t)" using \<open>a = (n, w) # b\<close> by force
  qed
qed (auto simp: prefixes_of_iff)

lemma occurs_Cons: "occurs p (c # t) \<longleftrightarrow> tries p (c # t) \<noteq> [] \<or> occurs p t"
proof
  assume "occurs p (c # t)"
  then obtain u w v a where *: "c # t = u @ w @ v" "matches p w a" unfolding occurs_def by blast
  show "tries p (c # t) \<noteq> [] \<or> occurs p t"
  proof (cases u)
    case Nil
    then have "(w, a, v) \<in> set (tries p (c # t))" using * tries_iff by simp
    then show ?thesis by (metis empty_iff empty_set)
  next
    case (Cons d u')
    then show ?thesis using * unfolding occurs_def by auto
  qed
next
  assume "tries p (c # t) \<noteq> [] \<or> occurs p t"
  then show "occurs p (c # t)"
  proof
    assume "tries p (c # t) \<noteq> []"
    then obtain w a r where "(w, a, r) \<in> set (tries p (c # t))" by (metis list.set_intros(1) neq_Nil_conv prod_cases3)
    then show ?thesis unfolding tries_iff occurs_def by (metis append_Nil)
  next
    assume "occurs p t"
    then show ?thesis unfolding occurs_def by (metis append_Cons)
  qed
qed

theorem is_match_occurs: "is_match p t \<longleftrightarrow> occurs p t"
proof (induction t)
  case Nil
  have "tries p [] \<noteq> [] \<longleftrightarrow> (\<exists>a. matches p [] a)"
  proof
    assume "tries p [] \<noteq> []"
    then obtain w a r where "(w, a, r) \<in> set (tries p [])" by (metis list.set_intros(1) neq_Nil_conv prod_cases3)
    then show "\<exists>a. matches p [] a" unfolding tries_iff by auto
  next
    assume "\<exists>a. matches p [] a"
    then obtain a where "([], a, []) \<in> set (tries p [])" unfolding tries_iff by auto
    then show "tries p [] \<noteq> []" by (metis empty_iff empty_set)
  qed
  then show ?case by (auto simp: is_match_def occurs_def find_match.simps split: list.split)
next
  case (Cons c t)
  have "is_match p (c # t) \<longleftrightarrow> tries p (c # t) \<noteq> [] \<or> is_match p t"
    by (auto simp: is_match_def find_match.simps[of p "c # t"] split: list.split)
  then show ?case using Cons.IH by (simp add: occurs_Cons)
qed

section \<open>The first result\<close>

text \<open>What is tried first, for reading a match off a text.\<close>

definition first_try :: "pattern \<Rightarrow> string \<Rightarrow> string \<Rightarrow> captures \<Rightarrow> string \<Rightarrow> bool" where
  "first_try p t w a r \<longleftrightarrow> (\<exists>xs. tries p t = (w, a, r) # xs)"

lemma first_lit: "first_try (Lit s) (s @ t) s [] t"
  by (simp add: first_try_def starts_with_iff)

lemma first_some_of:
  assumes "list_all P w" "w \<noteq> []" "t = [] \<or> \<not> P (hd t)"
  shows "first_try (Some_Of P) (w @ t) w [] t"
proof -
  have "takeWhile P (w @ t) = w"
    using assms by (cases t) (auto simp: list_all_iff takeWhile_append2)
  then show ?thesis using assms(2) by (cases w) (auto simp: first_try_def prefixes_of_def)
qed

lemma first_seq: "first_try p t u a r \<Longrightarrow> first_try q r v b r' \<Longrightarrow> first_try (Seq p q) t (u @ v) (a @ b) r'"
  by (auto simp: first_try_def)

lemma first_group: "first_try p t w a r \<Longrightarrow> first_try (Group n p) t w ((n, w) # a) r"
  by (auto simp: first_try_def)

text \<open>A match that starts at no earlier place is the one that is found.\<close>

lemma find_match_from:
  assumes "\<forall>k < length pre. tries p (drop k (pre @ t)) = []" "first_try p t w a r"
  shows "find_match p (pre @ t) = Some a"
  using assms
proof (induction pre)
  case Nil
  then show ?case by (auto simp: find_match.simps first_try_def)
next
  case (Cons c pre)
  have "tries p (c # pre @ t) = []" using Cons.prems(1)[rule_format, of 0] by simp
  moreover have "find_match p (pre @ t) = Some a"
    by (rule Cons.IH) (use Cons.prems in \<open>auto dest: spec[of _ "Suc _"]\<close>)
  ultimately show ?case by (simp add: find_match.simps[of p "c # pre @ t"])
qed

lemma find_match_none: "(\<And>k. k \<le> length t \<Longrightarrow> tries p (drop k t) = []) \<Longrightarrow> find_match p t = None"
proof (induction t)
  case Nil
  then show ?case using Nil[of 0] by (simp add: find_match.simps)
next
  case (Cons c t)
  have "tries p (drop k t) = []" if "k \<le> length t" for k using Cons.prems[of "Suc k"] that by simp
  then have "find_match p t = None" by (rule Cons.IH)
  then show ?case using Cons.prems[of 0] by (simp add: find_match.simps[of p "c # t"])
qed

lemma no_start: "\<not> starts_with t s \<Longrightarrow> tries (Seq (Lit s) q) t = []"
  by simp

end
