(* ===== verification/Conditions.thy ===== *)
theory Conditions
  imports Types Patterns
begin

text \<open>Event normalization (\<open>utils/normalization.rs\<close>) and the condition language of detection
rules (\<open>detection/evaluator.rs\<close>).  The matcher of the two ssh patterns is a parameter, which gives for a
message the captured user, address and port; \<open>ssh_laws\<close> is its documented behaviour.\<close>

section \<open>Normalization\<close>

record ssh_capture =
  cap_user :: string
  cap_ip :: string
  cap_port :: string

text \<open>What the \<open>regex\<close> crate computes for the two patterns of the module.\<close>

record ssh_regex =
  ssh_accepted :: "string \<Rightarrow> ssh_capture option"
  ssh_failed :: "string \<Rightarrow> ssh_capture option"

text \<open>The two patterns and what the crate documents for them: the groups of the first match.\<close>

definition not_space :: "char \<Rightarrow> bool" where
  "not_space c \<longleftrightarrow> \<not> is_whitespace c"

definition login_pattern :: "string \<Rightarrow> pattern" where
  "login_pattern verb = Seq (Lit verb) (Seq (Group ''user'' (Some_Of not_space))
     (Seq (Lit '' from '') (Seq (Group ''ip'' (Some_Of not_space))
     (Seq (Lit '' port '') (Group ''port'' (Some_Of is_digit))))))"

definition ssh_accepted_pattern :: pattern where
  "ssh_accepted_pattern = login_pattern ''Accepted password for ''"

definition ssh_failed_pattern :: pattern where
  "ssh_failed_pattern = login_pattern ''Failed password for ''"

definition ssh_groups :: "captures \<Rightarrow> ssh_capture" where
  "ssh_groups a = \<lparr> cap_user = option_or [] (map_of a ''user''), cap_ip = option_or [] (map_of a ''ip''),
     cap_port = option_or [] (map_of a ''port'') \<rparr>"

definition ssh_laws :: "ssh_regex \<Rightarrow> bool" where
  "ssh_laws re \<longleftrightarrow> (\<forall>m. ssh_accepted re m = map_option ssh_groups (find_match ssh_accepted_pattern m))
     \<and> (\<forall>m. ssh_failed re m = map_option ssh_groups (find_match ssh_failed_pattern m))"

definition parse_ssh_log :: "ssh_regex \<Rightarrow> string \<Rightarrow> ecs_log \<Rightarrow> ecs_log" where
  "parse_ssh_log re msg ecs =
     (case ssh_accepted re msg of
        Some c \<Rightarrow> ecs \<lparr> e_user_name := Some (cap_user c), e_source_ip := Some (cap_ip c),
                       e_source_port := parse_uint 16 (cap_port c) \<rparr>
      | None \<Rightarrow> (case ssh_failed re msg of
        Some c \<Rightarrow> ecs \<lparr> e_user_name := Some (cap_user c), e_source_ip := Some (cap_ip c),
                       e_source_port := parse_uint 16 (cap_port c) \<rparr>
      | None \<Rightarrow> ecs))"

definition base_ecs :: "log \<Rightarrow> ecs_log" where
  "base_ecs l = (ecs_new (l_id l) (l_timestamp l))
     \<lparr> e_message := Some (l_message l), e_original := Some (l_message l),
       e_source_ip := Some (l_source_ip l),
       e_log_level := Some (show_log_severity (l_severity l)),
       e_kind := Some ''event'' \<rparr>"

definition normalize_log :: "ssh_regex \<Rightarrow> log \<Rightarrow> ecs_log" where
  "normalize_log re l =
     (let ecs = base_ecs l;
          ecs = (if is_failed_login l then
                   ecs \<lparr> e_category := e_category ecs @ [''authentication''],
                         e_type := e_type ecs @ [''authentication_failure''],
                         e_outcome := Some ''failure'' \<rparr>
                 else if is_successful_login l then
                   ecs \<lparr> e_category := e_category ecs @ [''authentication''],
                         e_type := e_type ecs @ [''authentication_success''],
                         e_outcome := Some ''success'' \<rparr>
                 else ecs);
          ecs = (case l_service l of None \<Rightarrow> ecs
                 | Some svc \<Rightarrow>
                     let ecs = ecs \<lparr> e_labels := (e_labels ecs)(''service'' \<mapsto> svc) \<rparr>
                     in if svc = ''ssh'' \<or> svc = ''sshd''
                        then parse_ssh_log re (l_message l) ecs else ecs)
      in case l_target_user l of None \<Rightarrow> ecs
         | Some user \<Rightarrow> ecs \<lparr> e_user_name := Some user \<rparr>)"

lemmas normalize_defs = normalize_log_def base_ecs_def ecs_new_def parse_ssh_log_def Let_def

text \<open>The outcome field depends on the login tests alone.\<close>

lemma normalize_outcome:
  "e_outcome (normalize_log re l) =
     (if is_failed_login l then Some ''failure''
      else if is_successful_login l then Some ''success'' else None)"
  by (simp add: normalize_defs split: option.splits)

lemma normalize_level:
  "e_log_level (normalize_log re l) = Some (show_log_severity (l_severity l))"
  by (simp add: normalize_defs split: option.splits)

text \<open>An explicit target user wins over the captured one.\<close>

lemma normalize_user_explicit:
  "l_target_user l = Some u \<Longrightarrow> e_user_name (normalize_log re l) = Some u"
  by (simp add: normalize_defs)

lemma normalize_source_ip_not_ssh:
  "l_service l \<noteq> Some ''ssh'' \<Longrightarrow> l_service l \<noteq> Some ''sshd''
   \<Longrightarrow> e_source_ip (normalize_log re l) = Some (l_source_ip l)"
  by (auto simp: normalize_defs split: option.splits)

lemma normalize_source_ip_Some: "e_source_ip (normalize_log re l) \<noteq> None"
  by (auto simp: normalize_defs split: option.splits)

lemma normalize_port_bound:
  assumes "e_source_port (normalize_log re l) = Some p"
  shows "p < 2 ^ 16"
proof -
  have "parse_uint 16 s = Some p \<Longrightarrow> p < 2 ^ 16" for s
    by (auto simp: parse_uint_def split: option.splits if_splits)
  with assms show ?thesis
    by (auto simp: normalize_defs split: option.splits if_splits)
qed

text \<open>A login line of the ssh daemon, read at the first place where its phrase occurs.\<close>

definition login_line :: "string \<Rightarrow> string \<Rightarrow> string \<Rightarrow> string \<Rightarrow> string \<Rightarrow> string" where
  "login_line verb user ip port rest = verb @ user @ '' from '' @ ip @ '' port '' @ port @ rest"

definition first_in :: "string \<Rightarrow> string \<Rightarrow> string \<Rightarrow> bool" where
  "first_in phrase pre m \<longleftrightarrow> (\<forall>k < length pre. \<not> starts_with (drop k (pre @ m)) phrase)"

lemma login_first:
  assumes "list_all not_space user" "user \<noteq> []" "list_all not_space ip" "ip \<noteq> []"
    and "list_all is_digit port" "port \<noteq> []" "rest = [] \<or> \<not> is_digit (hd rest)"
  shows "\<exists>w. first_try (login_pattern verb) (login_line verb user ip port rest) w
    [(''user'', user), (''ip'', ip), (''port'', port)] rest"
proof -
  have stop: "\<not> not_space (hd ('' from '' @ t))" "\<not> not_space (hd ('' port '' @ t))" for t
    by (simp_all add: not_space_def is_whitespace_def)
  have port: "first_try (Group ''port'' (Some_Of is_digit)) (port @ rest) port [(''port'', port)] rest"
    by (intro first_group first_some_of assms)
  have ip: "first_try (Group ''ip'' (Some_Of not_space)) (ip @ '' port '' @ port @ rest) ip [(''ip'', ip)] ('' port '' @ port @ rest)"
    by (intro first_group first_some_of assms) (simp only: stop simp_thms)
  have user: "first_try (Group ''user'' (Some_Of not_space)) (user @ '' from '' @ ip @ '' port '' @ port @ rest) user
      [(''user'', user)] ('' from '' @ ip @ '' port '' @ port @ rest)"
    by (intro first_group first_some_of assms) (simp only: stop simp_thms)
  from first_seq[OF first_lit first_seq[OF user first_seq[OF first_lit first_seq[OF ip first_seq[OF first_lit port]]]], of verb]
  show ?thesis unfolding login_pattern_def login_line_def by (intro exI) simp
qed

lemma login_found:
  assumes "list_all not_space user" "user \<noteq> []" "list_all not_space ip" "ip \<noteq> []"
    and "list_all is_digit port" "port \<noteq> []" "rest = [] \<or> \<not> is_digit (hd rest)"
    and "first_in verb pre (login_line verb user ip port rest)"
  shows "find_match (login_pattern verb) (pre @ login_line verb user ip port rest)
    = Some [(''user'', user), (''ip'', ip), (''port'', port)]"
proof -
  obtain w where "first_try (login_pattern verb) (login_line verb user ip port rest) w
      [(''user'', user), (''ip'', ip), (''port'', port)] rest"
    using login_first[OF assms(1-7)] by blast
  moreover have "\<forall>k < length pre. tries (login_pattern verb) (drop k (pre @ login_line verb user ip port rest)) = []"
    using assms(8) unfolding first_in_def login_pattern_def by (metis no_start)
  ultimately show ?thesis by (intro find_match_from)
qed

lemma login_not_found: "\<not> contains m verb \<Longrightarrow> find_match (login_pattern verb) m = None"
proof (rule find_match_none)
  fix k assume "\<not> contains m verb" "k \<le> length m"
  then have "\<not> starts_with (drop k m) verb"
    unfolding contains_iff starts_with_iff by (metis append_take_drop_id)
  then show "tries (login_pattern verb) (drop k m) = []" unfolding login_pattern_def by (rule no_start)
qed

section \<open>Conditions\<close>

datatype rule_condition =
    All "rule_condition list"
  | Any "rule_condition list"
  | Not rule_condition
  | Field string string json

definition compare_json_values :: "json \<Rightarrow> json \<Rightarrow> ordering option" where
  "compare_json_values a b =
     (case (as_f64 a, as_f64 b) of
        (Some x, Some y) \<Rightarrow> Some (if x < y then Less else if y < x then Greater else Equal)
      | _ \<Rightarrow> (case (as_str a, as_str b) of
                (Some s, Some t) \<Rightarrow> Some (compare_strings s t)
              | _ \<Rightarrow> None))"

definition opt_string :: "string option \<Rightarrow> json" where
  "opt_string s = (case s of None \<Rightarrow> JNull | Some x \<Rightarrow> JStr x)"

definition field_value :: "ssh_regex \<Rightarrow> log \<Rightarrow> string \<Rightarrow> json" where
  "field_value re l field =
     (let ecs = normalize_log re l in
      if field = ''user.name'' then opt_string (e_user_name ecs)
      else if field = ''source.ip'' then opt_string (e_source_ip ecs)
      else if field = ''event.outcome'' then opt_string (e_outcome ecs)
      else if field = ''log.level'' then opt_string (e_log_level ecs)
      else if field = ''event_type'' then JStr (l_event_type l)
      else if field = ''source_ip'' then JStr (l_source_ip l)
      else if field = ''target_user'' then opt_string (l_target_user l)
      else if field = ''service'' then opt_string (l_service l)
      else if field = ''message'' then JStr (l_message l)
      else if field = ''severity'' then JStr (show_log_severity (l_severity l))
      else option_or JNull (json_get (l_metadata l) field))"

definition str_op :: "(string \<Rightarrow> string \<Rightarrow> bool) \<Rightarrow> json \<Rightarrow> json \<Rightarrow> bool" where
  "str_op f a b = (case (as_str a, as_str b) of (Some s, Some t) \<Rightarrow> f s t | _ \<Rightarrow> False)"

definition apply_op :: "string \<Rightarrow> json \<Rightarrow> json \<Rightarrow> bool" where
  "apply_op op a b =
     (if op = ''=='' \<or> op = ''eq'' then a = b
      else if op = ''!='' \<or> op = ''ne'' then a \<noteq> b
      else if op = ''contains'' then str_op contains a b
      else if op = ''startswith'' then str_op starts_with a b
      else if op = ''endswith'' then str_op ends_with a b
      else if op = ''>'' \<or> op = ''gt'' then compare_json_values a b = Some Greater
      else if op = ''<'' \<or> op = ''lt'' then compare_json_values a b = Some Less
      else if op = ''>='' \<or> op = ''ge'' then
        compare_json_values a b = Some Greater \<or> compare_json_values a b = Some Equal
      else if op = ''<='' \<or> op = ''le'' then
        compare_json_values a b = Some Less \<or> compare_json_values a b = Some Equal
      else False)"

fun evaluate :: "ssh_regex \<Rightarrow> rule_condition \<Rightarrow> log \<Rightarrow> bool" where
  "evaluate re (All cs) l = list_all (\<lambda>c. evaluate re c l) cs"
| "evaluate re (Any cs) l = list_ex (\<lambda>c. evaluate re c l) cs"
| "evaluate re (Not c) l = (\<not> evaluate re c l)"
| "evaluate re (Field field op v) l = apply_op op (field_value re l field) v"

subsection \<open>Ordering\<close>

lemma compare_json_swap:
  "compare_json_values a b = Some Less \<longleftrightarrow> compare_json_values b a = Some Greater"
  by (auto simp: compare_json_values_def compare_strings_swap split: option.splits)

lemma compare_json_total:
  "compare_json_values a b \<noteq> None \<longleftrightarrow> compare_json_values b a \<noteq> None"
  by (auto simp: compare_json_values_def split: option.splits)

subsection \<open>Laws of the language\<close>

lemma evaluate_Not_All: "evaluate re (Not (All cs)) l = evaluate re (Any (map Not cs)) l"
  by (simp add: list_all_iff list_ex_iff)

lemma evaluate_append:
  "evaluate re (All (xs @ ys)) l \<longleftrightarrow> evaluate re (All xs) l \<and> evaluate re (All ys) l"
  "evaluate re (Any (xs @ ys)) l \<longleftrightarrow> evaluate re (Any xs) l \<or> evaluate re (Any ys) l"
  by simp_all

text \<open>Negation normal form: pushing \<open>Not\<close> to the leaves changes no verdict.\<close>

fun nnf :: "bool \<Rightarrow> rule_condition \<Rightarrow> rule_condition" where
  "nnf True (All cs) = All (map (nnf True) cs)"
| "nnf True (Any cs) = Any (map (nnf True) cs)"
| "nnf False (All cs) = Any (map (nnf False) cs)"
| "nnf False (Any cs) = All (map (nnf False) cs)"
| "nnf b (Not c) = nnf (\<not> b) c"
| "nnf True (Field f p v) = Field f p v"
| "nnf False (Field f p v) = Not (Field f p v)"

lemma evaluate_nnf: "evaluate re (nnf b c) l = (evaluate re c l = b)"
  by (induction b c rule: nnf.induct) (auto simp: list_all_iff list_ex_iff)

text \<open>The comparison operators agree with each other where both sides compare.\<close>

lemma apply_op_ge: "apply_op ''ge'' a b \<longleftrightarrow> apply_op ''gt'' a b \<or> compare_json_values a b = Some Equal"
  by (simp add: apply_op_def)

lemma apply_op_lt_gt: "apply_op ''lt'' a b \<longleftrightarrow> apply_op ''gt'' b a"
  by (simp add: apply_op_def compare_json_swap)

lemma apply_op_le_not_gt:
  "compare_json_values a b \<noteq> None \<Longrightarrow> apply_op ''le'' a b \<longleftrightarrow> \<not> apply_op ''gt'' a b"
  by (cases "compare_json_values a b") (auto simp: apply_op_def intro: ordering.exhaust)

end
