(* ===== verification/Redis_Server.thy ===== *)
theory Redis_Server
  imports Types
begin

text \<open>The Redis server as the code sees it: the commands it sends, as a record of operations on
an unknown server state, and the documented meaning of each command on a keyspace.  The locale
\<open>redis_server\<close> says that a server, while it is up, behaves like the keyspace; the keyspace itself
is its standard instance.  Every value has a type (using a key at another type is an error), a
key without elements does not exist, and a time to live is kept in milliseconds and runs down in
\<open>ks_advance\<close>.  Scores are \<open>f64\<close> on the server and exact rationals here.\<close>

section \<open>The keyspace\<close>

datatype rval =
    RStr string
  | RSet "string list"
  | RZSet "(string \<times> rat) list"
  | RList "string list"

record keyspace =
  ks_val :: "string \<Rightarrow> rval option"
  ks_ttl :: "string \<Rightarrow> nat option"

definition ks_empty :: keyspace where
  "ks_empty = \<lparr> ks_val = Map.empty, ks_ttl = Map.empty \<rparr>"

definition ks_put :: "string \<Rightarrow> rval \<Rightarrow> keyspace \<Rightarrow> keyspace" where
  "ks_put k v s = s \<lparr> ks_val := (ks_val s)(k := Some v) \<rparr>"

definition ks_del :: "string \<Rightarrow> keyspace \<Rightarrow> keyspace" where
  "ks_del k s = \<lparr> ks_val = (ks_val s)(k := None), ks_ttl = (ks_ttl s)(k := None) \<rparr>"

text \<open>One millisecond clock tick of size \<open>d\<close>: the keys whose time is up disappear.\<close>

definition ks_advance :: "nat \<Rightarrow> keyspace \<Rightarrow> keyspace" where
  "ks_advance d s =
     \<lparr> ks_val = (\<lambda>k. case ks_ttl s k of Some t \<Rightarrow> if t \<le> d then None else ks_val s k
                                     | None \<Rightarrow> ks_val s k),
       ks_ttl = (\<lambda>k. case ks_ttl s k of Some t \<Rightarrow> if t \<le> d then None else Some (t - d)
                                     | None \<Rightarrow> None) \<rparr>"

type_synonym ('a, 's) cmd = "(error, 'a, 's) eff"

subsection \<open>Strings and keys\<close>

definition ks_get :: "string \<Rightarrow> (string option, keyspace) cmd" where
  "ks_get k s = (case ks_val s k of
      None \<Rightarrow> (Inr None, s) | Some (RStr v) \<Rightarrow> (Inr (Some v), s) | _ \<Rightarrow> (Inl Cache_Error, s))"

definition ks_set :: "string \<Rightarrow> string \<Rightarrow> (unit, keyspace) cmd" where
  "ks_set k v s = (Inr (), ks_put k (RStr v) (ks_del k s))"

definition ks_expire_ms :: "string \<Rightarrow> int \<Rightarrow> (unit, keyspace) cmd" where
  "ks_expire_ms k ms s = (Inr (),
      if ks_val s k = None then s
      else if ms \<le> 0 then ks_del k s
      else s \<lparr> ks_ttl := (ks_ttl s)(k := Some (nat ms)) \<rparr>)"

definition ks_setex :: "string \<Rightarrow> string \<Rightarrow> nat \<Rightarrow> (unit, keyspace) cmd" where
  "ks_setex k v secs s = (if secs = 0 then (Inl Cache_Error, s)
      else (Inr (), (ks_put k (RStr v) s) \<lparr> ks_ttl := (ks_ttl s)(k := Some (secs * 1000)) \<rparr>))"

definition ks_incrby :: "string \<Rightarrow> int \<Rightarrow> (int, keyspace) cmd" where
  "ks_incrby k d s = (case ks_val s k of
      None \<Rightarrow> (Inr d, ks_put k (RStr (show_int d)) s)
    | Some (RStr v) \<Rightarrow> (case parse_int 64 v of
          None \<Rightarrow> (Inl Cache_Error, s)
        | Some n \<Rightarrow> if n + d < - (2 ^ 63) \<or> 2 ^ 63 \<le> n + d then (Inl Cache_Error, s)
                    else (Inr (n + d), ks_put k (RStr (show_int (n + d))) s))
    | _ \<Rightarrow> (Inl Cache_Error, s))"

definition ks_exists :: "string \<Rightarrow> (bool, keyspace) cmd" where
  "ks_exists k s = (Inr (ks_val s k \<noteq> None), s)"

definition ks_delete :: "string \<Rightarrow> (unit, keyspace) cmd" where
  "ks_delete k s = (Inr (), ks_del k s)"

subsection \<open>Sets\<close>

definition ks_sadd :: "string \<Rightarrow> string \<Rightarrow> (unit, keyspace) cmd" where
  "ks_sadd k m s = (case ks_val s k of
      None \<Rightarrow> (Inr (), ks_put k (RSet [m]) s)
    | Some (RSet xs) \<Rightarrow> (Inr (), ks_put k (RSet (if m \<in> set xs then xs else xs @ [m])) s)
    | _ \<Rightarrow> (Inl Cache_Error, s))"

definition ks_srem :: "string \<Rightarrow> string \<Rightarrow> (unit, keyspace) cmd" where
  "ks_srem k m s = (case ks_val s k of
      None \<Rightarrow> (Inr (), s)
    | Some (RSet xs) \<Rightarrow> (let ys = removeAll m xs in
        (Inr (), if ys = [] then ks_del k s else ks_put k (RSet ys) s))
    | _ \<Rightarrow> (Inl Cache_Error, s))"

definition ks_smembers :: "string \<Rightarrow> (string list, keyspace) cmd" where
  "ks_smembers k s = (case ks_val s k of
      None \<Rightarrow> (Inr [], s) | Some (RSet xs) \<Rightarrow> (Inr xs, s) | _ \<Rightarrow> (Inl Cache_Error, s))"

subsection \<open>Sorted sets\<close>

definition zset_of :: "string \<Rightarrow> keyspace \<Rightarrow> (string \<times> rat) list option" where
  "zset_of k s = (case ks_val s k of None \<Rightarrow> Some [] | Some (RZSet z) \<Rightarrow> Some z | _ \<Rightarrow> None)"

definition zset_put :: "string \<Rightarrow> (string \<times> rat) list \<Rightarrow> keyspace \<Rightarrow> keyspace" where
  "zset_put k z s = (if z = [] then ks_del k s else ks_put k (RZSet z) s)"

definition zle :: "string \<times> rat \<Rightarrow> string \<times> rat \<Rightarrow> bool" where
  "zle a b \<longleftrightarrow> snd a < snd b \<or> (snd a = snd b \<and> compare_strings (fst a) (fst b) \<noteq> Greater)"

fun zinsert :: "string \<times> rat \<Rightarrow> (string \<times> rat) list \<Rightarrow> (string \<times> rat) list" where
  "zinsert a [] = [a]"
| "zinsert a (b # z) = (if zle a b then a # b # z else b # zinsert a z)"

fun zsort :: "(string \<times> rat) list \<Rightarrow> (string \<times> rat) list" where
  "zsort [] = []"
| "zsort (a # z) = zinsert a (zsort z)"

definition ks_zadd :: "string \<Rightarrow> string \<Rightarrow> rat \<Rightarrow> (unit, keyspace) cmd" where
  "ks_zadd k m x s = (case zset_of k s of None \<Rightarrow> (Inl Cache_Error, s)
     | Some z \<Rightarrow> (Inr (), zset_put k (al_update m x z) s))"

definition ks_zincrby :: "string \<Rightarrow> string \<Rightarrow> rat \<Rightarrow> (rat, keyspace) cmd" where
  "ks_zincrby k m d s = (case zset_of k s of None \<Rightarrow> (Inl Cache_Error, s)
     | Some z \<Rightarrow> (let x = option_or 0 (map_of z m) + d in
         (Inr x, zset_put k (al_update m x z) s)))"

definition ks_zrem :: "string \<Rightarrow> string \<Rightarrow> (unit, keyspace) cmd" where
  "ks_zrem k m s = (case zset_of k s of None \<Rightarrow> (Inl Cache_Error, s)
     | Some z \<Rightarrow> (Inr (), zset_put k (filter (\<lambda>e. fst e \<noteq> m) z) s))"

definition ks_zcard :: "string \<Rightarrow> (nat, keyspace) cmd" where
  "ks_zcard k s = (case zset_of k s of None \<Rightarrow> (Inl Cache_Error, s)
     | Some z \<Rightarrow> (Inr (length z), s))"

definition ks_zremrangebyscore :: "string \<Rightarrow> rat \<Rightarrow> rat \<Rightarrow> (unit, keyspace) cmd" where
  "ks_zremrangebyscore k lo hi s = (case zset_of k s of None \<Rightarrow> (Inl Cache_Error, s)
     | Some z \<Rightarrow> (Inr (), zset_put k (filter (\<lambda>e. \<not> (lo \<le> snd e \<and> snd e \<le> hi)) z) s))"

definition ks_zpopmin :: "string \<Rightarrow> ((string \<times> rat) option, keyspace) cmd" where
  "ks_zpopmin k s = (case zset_of k s of None \<Rightarrow> (Inl Cache_Error, s)
     | Some z \<Rightarrow> (case zsort z of [] \<Rightarrow> (Inr None, s)
         | e # _ \<Rightarrow> (Inr (Some e), zset_put k (filter (\<lambda>e'. fst e' \<noteq> fst e) z) s)))"

text \<open>Index ranges of \<open>ZREVRANGE\<close>, \<open>LRANGE\<close> and \<open>LTRIM\<close>: inclusive, negative from the end.\<close>

definition index_range :: "int \<Rightarrow> int \<Rightarrow> 'a list \<Rightarrow> 'a list" where
  "index_range start stop xs =
     (let n = int (length xs);
          a = (if start < 0 then max 0 (start + n) else start);
          b = (if stop < 0 then stop + n else min stop (n - 1))
      in if a > b then [] else take (nat (b - a + 1)) (drop (nat a) xs))"

definition ks_zrevrange :: "string \<Rightarrow> int \<Rightarrow> int \<Rightarrow> ((string \<times> rat) list, keyspace) cmd" where
  "ks_zrevrange k a b s = (case zset_of k s of None \<Rightarrow> (Inl Cache_Error, s)
     | Some z \<Rightarrow> (Inr (index_range a b (rev (zsort z))), s))"

subsection \<open>Lists\<close>

definition list_of :: "string \<Rightarrow> keyspace \<Rightarrow> string list option" where
  "list_of k s = (case ks_val s k of None \<Rightarrow> Some [] | Some (RList xs) \<Rightarrow> Some xs | _ \<Rightarrow> None)"

definition list_put :: "string \<Rightarrow> string list \<Rightarrow> keyspace \<Rightarrow> keyspace" where
  "list_put k xs s = (if xs = [] then ks_del k s else ks_put k (RList xs) s)"

definition ks_lpush :: "string \<Rightarrow> string \<Rightarrow> (unit, keyspace) cmd" where
  "ks_lpush k v s = (case list_of k s of None \<Rightarrow> (Inl Cache_Error, s)
     | Some xs \<Rightarrow> (Inr (), list_put k (v # xs) s))"

definition ks_ltrim :: "string \<Rightarrow> int \<Rightarrow> int \<Rightarrow> (unit, keyspace) cmd" where
  "ks_ltrim k a b s = (case list_of k s of None \<Rightarrow> (Inl Cache_Error, s)
     | Some xs \<Rightarrow> (Inr (), list_put k (index_range a b xs) s))"

definition ks_lrange :: "string \<Rightarrow> int \<Rightarrow> int \<Rightarrow> (string list, keyspace) cmd" where
  "ks_lrange k a b s = (case list_of k s of None \<Rightarrow> (Inl Cache_Error, s)
     | Some xs \<Rightarrow> (Inr (index_range a b xs), s))"

section \<open>The client's view of a server\<close>

text \<open>\<open>rd_u32\<close> and \<open>rd_parse\<close> are the reply conversions of the client library: an integer reply to
a \<open>u32\<close>, and a bulk string reply to an unsigned integer of a width.\<close>

record 's redis =
  rd_get :: "string \<Rightarrow> (string option, 's) cmd"
  rd_set :: "string \<Rightarrow> string \<Rightarrow> (unit, 's) cmd"
  rd_setex :: "string \<Rightarrow> string \<Rightarrow> nat \<Rightarrow> (unit, 's) cmd"
  rd_expire_ms :: "string \<Rightarrow> int \<Rightarrow> (unit, 's) cmd"
  rd_incrby :: "string \<Rightarrow> int \<Rightarrow> (int, 's) cmd"
  rd_exists :: "string \<Rightarrow> (bool, 's) cmd"
  rd_del :: "string \<Rightarrow> (unit, 's) cmd"
  rd_sadd :: "string \<Rightarrow> string \<Rightarrow> (unit, 's) cmd"
  rd_srem :: "string \<Rightarrow> string \<Rightarrow> (unit, 's) cmd"
  rd_smembers :: "string \<Rightarrow> (string list, 's) cmd"
  rd_zadd :: "string \<Rightarrow> string \<Rightarrow> rat \<Rightarrow> (unit, 's) cmd"
  rd_zincrby :: "string \<Rightarrow> string \<Rightarrow> rat \<Rightarrow> (rat, 's) cmd"
  rd_zrem :: "string \<Rightarrow> string \<Rightarrow> (unit, 's) cmd"
  rd_zcard :: "string \<Rightarrow> (nat, 's) cmd"
  rd_zremrangebyscore :: "string \<Rightarrow> rat \<Rightarrow> rat \<Rightarrow> (unit, 's) cmd"
  rd_zpopmin :: "string \<Rightarrow> ((string \<times> rat) option, 's) cmd"
  rd_zrevrange :: "string \<Rightarrow> int \<Rightarrow> int \<Rightarrow> ((string \<times> rat) list, 's) cmd"
  rd_lpush :: "string \<Rightarrow> string \<Rightarrow> (unit, 's) cmd"
  rd_ltrim :: "string \<Rightarrow> int \<Rightarrow> int \<Rightarrow> (unit, 's) cmd"
  rd_lrange :: "string \<Rightarrow> int \<Rightarrow> int \<Rightarrow> (string list, 's) cmd"
  rd_ping :: "(unit, 's) cmd"
  rd_u32 :: "int \<Rightarrow> error + nat"
  rd_parse :: "nat \<Rightarrow> string \<Rightarrow> error + nat"

definition parse_reply :: "nat \<Rightarrow> string \<Rightarrow> error + nat" where
  "parse_reply w v = (case parse_uint w v of None \<Rightarrow> Inl Parse_Error | Some n \<Rightarrow> Inr n)"

definition mem_redis :: "keyspace redis" where
  "mem_redis = \<lparr> rd_get = ks_get, rd_set = ks_set, rd_setex = ks_setex,
     rd_expire_ms = ks_expire_ms, rd_incrby = ks_incrby, rd_exists = ks_exists,
     rd_del = ks_delete, rd_sadd = ks_sadd, rd_srem = ks_srem, rd_smembers = ks_smembers,
     rd_zadd = ks_zadd, rd_zincrby = ks_zincrby, rd_zrem = ks_zrem, rd_zcard = ks_zcard,
     rd_zremrangebyscore = ks_zremrangebyscore, rd_zpopmin = ks_zpopmin,
     rd_zrevrange = ks_zrevrange, rd_lpush = ks_lpush, rd_ltrim = ks_ltrim,
     rd_lrange = ks_lrange, rd_ping = ok (), rd_u32 = (\<lambda>i. Inr (int_as_u32 i)),
     rd_parse = parse_reply \<rparr>"

section \<open>Simulation of effects\<close>

text \<open>\<open>simulates up A f g\<close>: from a state that is up, \<open>f\<close> gives the result that \<open>g\<close> gives on the
abstract state, moves to a state whose abstraction is \<open>g\<close>'s, and stays up.\<close>

definition simulates ::
  "('s \<Rightarrow> bool) \<Rightarrow> ('s \<Rightarrow> 't) \<Rightarrow> ('s \<Rightarrow> 'r \<times> 's) \<Rightarrow> ('t \<Rightarrow> 'r \<times> 't) \<Rightarrow> bool" where
  "simulates up A f g \<longleftrightarrow>
     (\<forall>s. up s \<longrightarrow> g (A s) = (fst (f s), A (snd (f s))) \<and> up (snd (f s)))"

lemma simulatesD:
  assumes "simulates up A f g" "up s"
  shows "g (A s) = (fst (f s), A (snd (f s)))" "up (snd (f s))"
  using assms by (auto simp: simulates_def)

lemma simulates_ok [simp, intro]: "simulates up A (ok x) (ok x)"
  by (simp add: simulates_def ok_def)

lemma simulates_fail [simp, intro]: "simulates up A (fail x) (fail x)"
  by (simp add: simulates_def fail_def)

lemma simulates_bind:
  assumes "simulates up A m m'" "\<And>x. simulates up A (f x) (f' x)"
  shows "simulates up A (bind_ok m f) (bind_ok m' f')"
  unfolding simulates_def
proof (intro allI impI)
  fix s
  assume u: "up s"
  note M = simulatesD[OF assms(1) u]
  obtain r t where m: "m s = (r, t)" by (cases "m s")
  then have m': "m' (A s) = (r, A t)" and ut: "up t" using M by auto
  show "bind_ok m' f' (A s) = (fst (bind_ok m f s), A (snd (bind_ok m f s)))
        \<and> up (snd (bind_ok m f s))"
  proof (cases r)
    case (Inl e)
    then show ?thesis using m m' ut by (simp add: bind_ok_def)
  next
    case (Inr x)
    then show ?thesis using m m' simulatesD[OF assms(2)[of x] ut] by (simp add: bind_ok_def)
  qed
qed

lemma simulates_for_each:
  assumes "\<And>x. simulates up A (f x) (g x)"
  shows "simulates up A (for_each f xs) (for_each g xs)"
proof (induction xs)
  case Nil
  have "for_each f [] = ok ()" "for_each g [] = ok ()" by (auto simp: ok_def)
  then show ?case by (metis simulates_ok)
next
  case (Cons x xs)
  have "for_each f (x # xs) = bind_ok (f x) (\<lambda>_. for_each f xs)"
       "for_each g (x # xs) = bind_ok (g x) (\<lambda>_. for_each g xs)" by auto
  then show ?case using simulates_bind[OF assms Cons] by metis
qed

locale redis_server =
  fixes rd :: "'s redis" and up :: "'s \<Rightarrow> bool" and view :: "'s \<Rightarrow> keyspace"
  assumes sim_get: "simulates up view (rd_get rd k) (ks_get k)"
    and sim_set: "simulates up view (rd_set rd k v) (ks_set k v)"
    and sim_setex: "simulates up view (rd_setex rd k v n) (ks_setex k v n)"
    and sim_expire: "simulates up view (rd_expire_ms rd k i) (ks_expire_ms k i)"
    and sim_incrby: "simulates up view (rd_incrby rd k i) (ks_incrby k i)"
    and sim_exists: "simulates up view (rd_exists rd k) (ks_exists k)"
    and sim_del: "simulates up view (rd_del rd k) (ks_delete k)"
    and sim_sadd: "simulates up view (rd_sadd rd k v) (ks_sadd k v)"
    and sim_srem: "simulates up view (rd_srem rd k v) (ks_srem k v)"
    and sim_smembers: "simulates up view (rd_smembers rd k) (ks_smembers k)"
    and sim_zadd: "simulates up view (rd_zadd rd k v x) (ks_zadd k v x)"
    and sim_zincrby: "simulates up view (rd_zincrby rd k v x) (ks_zincrby k v x)"
    and sim_zrem: "simulates up view (rd_zrem rd k v) (ks_zrem k v)"
    and sim_zcard: "simulates up view (rd_zcard rd k) (ks_zcard k)"
    and sim_zremrange: "simulates up view (rd_zremrangebyscore rd k x y) (ks_zremrangebyscore k x y)"
    and sim_zpopmin: "simulates up view (rd_zpopmin rd k) (ks_zpopmin k)"
    and sim_zrevrange: "simulates up view (rd_zrevrange rd k i j) (ks_zrevrange k i j)"
    and sim_lpush: "simulates up view (rd_lpush rd k v) (ks_lpush k v)"
    and sim_ltrim: "simulates up view (rd_ltrim rd k i j) (ks_ltrim k i j)"
    and sim_lrange: "simulates up view (rd_lrange rd k i j) (ks_lrange k i j)"
    and sim_ping: "simulates up view (rd_ping rd) (ok ())"
    and conv_u32: "rd_u32 rd i = Inr (int_as_u32 i)"
    and conv_parse: "rd_parse rd w v = parse_reply w v"
begin

lemmas sims = sim_get sim_set sim_setex sim_expire sim_incrby sim_exists sim_del sim_sadd sim_srem
  sim_smembers sim_zadd sim_zincrby sim_zrem sim_zcard sim_zremrange sim_zpopmin sim_zrevrange
  sim_lpush sim_ltrim sim_lrange sim_ping

end

interpretation mem: redis_server mem_redis "\<lambda>_. True" "\<lambda>s. s"
  by unfold_locales (simp_all add: simulates_def mem_redis_def)

section \<open>Laws of the keyspace\<close>

named_theorems ks_simps \<open>values of keys after commands\<close>

lemma ks_val_put [simp, ks_simps]: "ks_val (ks_put k v s) k' = (if k' = k then Some v else ks_val s k')"
  by (simp add: ks_put_def)

lemma ks_ttl_put [simp, ks_simps]: "ks_ttl (ks_put k v s) = ks_ttl s"
  by (simp add: ks_put_def)

lemma ks_val_del [simp, ks_simps]: "ks_val (ks_del k s) k' = (if k' = k then None else ks_val s k')"
  by (simp add: ks_del_def)

lemma ks_ttl_del [simp, ks_simps]: "ks_ttl (ks_del k s) k' = (if k' = k then None else ks_ttl s k')"
  by (simp add: ks_del_def)

lemma ks_val_expire [simp, ks_simps]:
  "0 < ms \<Longrightarrow> ks_val (snd (ks_expire_ms k ms s)) = ks_val s"
  by (simp add: ks_expire_ms_def)

lemma ks_get_set: "fst (ks_get k (snd (ks_set k v s))) = Inr (Some v)"
  by (simp add: ks_get_def ks_set_def)

lemma ks_get_frame:
  "k' \<noteq> k \<Longrightarrow> ks_get k' (snd (ks_set k v s)) = (fst (ks_get k' s), snd (ks_set k v s))"
  by (simp add: ks_get_def ks_set_def split: option.splits rval.splits)

lemma zinsert_set [simp]: "set (zinsert a z) = insert a (set z)"
  by (induction z) auto

lemma zsort_set [simp]: "set (zsort z) = set z"
  by (induction z) auto

lemma zinsert_length [simp]: "length (zinsert a z) = Suc (length z)"
  by (induction z) auto

lemma zsort_length [simp]: "length (zsort z) = length z"
  by (induction z) auto

lemma zle_total: "zle a b \<or> zle b a"
  using compare_strings_swap[of "fst b" "fst a"]
  by (cases "compare_strings (fst a) (fst b)") (auto simp: zle_def)

lemma zset_of_put [simp]: "zset_of k (zset_put k z s) = Some z"
  by (simp add: zset_of_def zset_put_def)

lemma zset_of_put_other [simp]: "k' \<noteq> k \<Longrightarrow> zset_of k' (zset_put k z s) = zset_of k' s"
  by (simp add: zset_of_def zset_put_def)

lemma zset_of_put_str [simp]: "k' \<noteq> k \<Longrightarrow> zset_of k' (ks_put k v s) = zset_of k' s"
  by (simp add: zset_of_def)

lemma list_of_put [simp]: "list_of k (list_put k xs s) = Some xs"
  by (simp add: list_of_def list_put_def)

lemma index_range_length: "length (index_range a b xs) \<le> length xs"
  by (auto simp: index_range_def Let_def min_def max_def)

lemma index_range_prefix: "0 \<le> b \<Longrightarrow> index_range 0 b xs = take (nat (b + 1)) xs"
  by (auto simp: index_range_def Let_def min_def)

lemma index_range_all: "index_range 0 (-1) xs = xs"
  by (auto simp: index_range_def Let_def)

lemma index_range_subset: "set (index_range a b xs) \<subseteq> set xs"
  by (auto simp: index_range_def Let_def dest: in_set_takeD in_set_dropD)

end
