(* ===== verification/Redis_Cache.thy ===== *)
theory Redis_Cache
  imports Redis_Server
begin

text \<open>The cache (\<open>db/cache.rs\<close>, \<open>db/redis.rs\<close>): the trait \<open>Cache\<close> as a record of operations, and
\<open>RedisCache\<close>, which implements it over a Redis server with an in-process L1 map for counters.
The state holds the server, the L1 entries, the per-key refresh locks, the clock the operations
read, and the keys whose background refresh was spawned and has not run yet.\<close>

section \<open>The interface\<close>

text \<open>\<open>trait Cache\<close>.  Expiry arguments are in seconds unless the name says milliseconds.\<close>

record 's cache =
  c_increment_counter :: "string \<Rightarrow> nat \<Rightarrow> (nat, 's) cmd"
  c_get_counter :: "string \<Rightarrow> (nat option, 's) cmd"
  c_decrement_counter :: "string \<Rightarrow> (nat, 's) cmd"
  c_set_counter :: "string \<Rightarrow> nat \<Rightarrow> nat option \<Rightarrow> (unit, 's) cmd"
  c_set_suppression :: "string \<Rightarrow> string \<Rightarrow> nat \<Rightarrow> (unit, 's) cmd"
  c_is_suppressed :: "string \<Rightarrow> string \<Rightarrow> (bool, 's) cmd"
  c_set_ip_reputation :: "string \<Rightarrow> nat \<Rightarrow> nat \<Rightarrow> (unit, 's) cmd"
  c_get_ip_reputation :: "string \<Rightarrow> (nat option, 's) cmd"
  c_allow_sliding_window :: "string \<Rightarrow> nat \<Rightarrow> nat \<Rightarrow> (bool, 's) cmd"
  c_allow_fixed_window :: "string \<Rightarrow> nat \<Rightarrow> nat \<Rightarrow> nat \<Rightarrow> (bool, 's) cmd"
  c_store_refresh_token :: "string \<Rightarrow> string \<Rightarrow> string \<Rightarrow> nat \<Rightarrow> (unit, 's) cmd"
  c_get_user_id_by_refresh_token :: "string \<Rightarrow> (string option, 's) cmd"
  c_revoke_refresh_token :: "string \<Rightarrow> (unit, 's) cmd"
  c_revoke_all_user_tokens :: "string \<Rightarrow> (unit, 's) cmd"
  c_delete_key :: "string \<Rightarrow> (unit, 's) cmd"
  c_expire_key :: "string \<Rightarrow> nat \<Rightarrow> (unit, 's) cmd"
  c_zadd :: "string \<Rightarrow> string \<Rightarrow> int \<Rightarrow> (unit, 's) cmd"
  c_zincrby :: "string \<Rightarrow> string \<Rightarrow> rat \<Rightarrow> (rat, 's) cmd"
  c_zcard :: "string \<Rightarrow> (nat, 's) cmd"
  c_zrevrange_withscores :: "string \<Rightarrow> int \<Rightarrow> int \<Rightarrow> ((string \<times> rat) list, 's) cmd"
  c_zpopmin :: "string \<Rightarrow> (string option, 's) cmd"
  c_zrem :: "string \<Rightarrow> string \<Rightarrow> (unit, 's) cmd"
  c_lpush_trim :: "string \<Rightarrow> string \<Rightarrow> nat \<Rightarrow> nat option \<Rightarrow> (unit, 's) cmd"
  c_lrange :: "string \<Rightarrow> int \<Rightarrow> int \<Rightarrow> (string list, 's) cmd"
  c_set_string :: "string \<Rightarrow> string \<Rightarrow> nat option \<Rightarrow> (unit, 's) cmd"
  c_get_string :: "string \<Rightarrow> (string option, 's) cmd"
  c_ping :: "(unit, 's) cmd"

section \<open>RedisCache\<close>

record l1_entry =
  l1_value :: nat
  l1_ts :: int
  l1_hits :: nat

record 's rcache =
  rc_srv :: 's
  rc_l1 :: "(string \<times> l1_entry) list"
  rc_locks :: "string list"
  rc_now :: instant
  rc_spawned :: "string list"

definition on_server :: "('a, 's) cmd \<Rightarrow> ('a, 's rcache) cmd" where
  "on_server m st = (case m (rc_srv st) of (r, s') \<Rightarrow> (r, st \<lparr> rc_srv := s' \<rparr>))"

definition l1_insert :: "string \<Rightarrow> nat \<Rightarrow> nat \<Rightarrow> 's rcache \<Rightarrow> 's rcache" where
  "l1_insert k v hits st = st \<lparr> rc_l1 := al_update k
     \<lparr> l1_value = v, l1_ts = timestamp (rc_now st), l1_hits = hits \<rparr> (rc_l1 st) \<rparr>"

definition update_l1 :: "string \<Rightarrow> nat \<Rightarrow> (unit, 's rcache) cmd" where
  "update_l1 k v st = (Inr (), l1_insert k v 1 st)"

definition lift_result :: "error + 'a \<Rightarrow> ('a, 's) cmd" where
  "lift_result r st = (r, st)"

subsection \<open>Counters\<close>

definition increment_counter :: "'s redis \<Rightarrow> string \<Rightarrow> nat \<Rightarrow> (nat, 's rcache) cmd" where
  "increment_counter rd key expiry =
     bind_ok (on_server (rd_incrby rd key 1)) (\<lambda>i.
     bind_ok (lift_result (rd_u32 rd i)) (\<lambda>count.
     bind_ok (if count = 1 then on_server (rd_expire_ms rd key (u64_as_i64 expiry * 1000))
              else ok ()) (\<lambda>_.
     bind_ok (update_l1 key count) (\<lambda>_. ok count))))"

definition fetch_counter :: "'s redis \<Rightarrow> string \<Rightarrow> (nat option, 's rcache) cmd" where
  "fetch_counter rd key =
     bind_ok (on_server (rd_get rd key)) (\<lambda>r. case r of
         None \<Rightarrow> ok None
       | Some v \<Rightarrow> bind_ok (lift_result (rd_parse rd 32 v)) (\<lambda>c.
           bind_ok (update_l1 key c) (\<lambda>_. ok (Some c))))"

definition get_counter :: "'s redis \<Rightarrow> string \<Rightarrow> (nat option, 's rcache) cmd" where
  "get_counter rd key st =
     (case map_of (rc_l1 st) key of
        Some e \<Rightarrow>
          (let st1 = st \<lparr> rc_l1 := al_update key
                 (e \<lparr> l1_hits := sat_add64 (l1_hits e) 1 \<rparr>) (rc_l1 st) \<rparr>;
               st2 = (if timestamp (rc_now st) - l1_ts e > 30
                      then st1 \<lparr> rc_spawned := rc_spawned st1 @ [key] \<rparr> else st1)
           in (Inr (Some (as_u32 (l1_value e))), st2))
      | None \<Rightarrow> fetch_counter rd key st)"

definition set_counter ::
  "'s redis \<Rightarrow> string \<Rightarrow> nat \<Rightarrow> nat option \<Rightarrow> (unit, 's rcache) cmd" where
  "set_counter rd key v expiry =
     bind_ok (on_server (rd_set rd key (show_nat v))) (\<lambda>_.
     bind_ok (case expiry of None \<Rightarrow> ok ()
              | Some e \<Rightarrow> on_server (rd_expire_ms rd key (u64_as_i64 e * 1000))) (\<lambda>_.
     update_l1 key v))"

definition decrement_counter :: "'s redis \<Rightarrow> string \<Rightarrow> (nat, 's rcache) cmd" where
  "decrement_counter rd key =
     bind_ok (on_server (rd_incrby rd key (-1))) (\<lambda>val.
       let v = (if val < 0 then 0 else int_as_u32 val) in
       bind_ok (update_l1 key v) (\<lambda>_. ok v))"

subsection \<open>Suppression and reputation\<close>

definition set_suppression ::
  "'s redis \<Rightarrow> string \<Rightarrow> string \<Rightarrow> nat \<Rightarrow> (unit, 's rcache) cmd" where
  "set_suppression rd rule_id ip ttl =
     on_server (rd_setex rd (''suppress:'' @ rule_id @ '':'' @ ip) ''1'' ttl)"

definition is_suppressed :: "'s redis \<Rightarrow> string \<Rightarrow> string \<Rightarrow> (bool, 's rcache) cmd" where
  "is_suppressed rd rule_id ip =
     on_server (rd_exists rd (''suppress:'' @ rule_id @ '':'' @ ip))"

definition set_ip_reputation ::
  "'s redis \<Rightarrow> string \<Rightarrow> nat \<Rightarrow> nat \<Rightarrow> (unit, 's rcache) cmd" where
  "set_ip_reputation rd ip score ttl =
     on_server (rd_setex rd (''reputation:'' @ ip) (show_nat score) ttl)"

definition get_ip_reputation :: "'s redis \<Rightarrow> string \<Rightarrow> (nat option, 's rcache) cmd" where
  "get_ip_reputation rd ip =
     bind_ok (on_server (rd_get rd (''reputation:'' @ ip))) (\<lambda>r. case r of
        None \<Rightarrow> ok None
      | Some v \<Rightarrow> bind_ok (lift_result (rd_parse rd 8 v)) (\<lambda>n. ok (Some n)))"

subsection \<open>Rate-limit windows (the Lua scripts, run atomically)\<close>

definition sliding_window_script ::
  "'s redis \<Rightarrow> string \<Rightarrow> int \<Rightarrow> nat \<Rightarrow> nat \<Rightarrow> (int, 's) cmd" where
  "sliding_window_script rd key now window limit =
     bind_ok (rd_zremrangebyscore rd key 0 (of_int (now - int window))) (\<lambda>_.
     bind_ok (rd_zcard rd key) (\<lambda>current.
     if current < limit then
       bind_ok (rd_zadd rd key (show_int now) (of_int now)) (\<lambda>_.
       bind_ok (rd_expire_ms rd key (int window)) (\<lambda>_. ok 1))
     else ok 0))"

definition allow_sliding_window ::
  "'s redis \<Rightarrow> string \<Rightarrow> nat \<Rightarrow> nat \<Rightarrow> (bool, 's rcache) cmd" where
  "allow_sliding_window rd key window_ms limit st =
     bind_ok (on_server (sliding_window_script rd key (timestamp_millis (rc_now st)) window_ms limit))
       (\<lambda>res. ok (res = 1)) st"

definition fixed_window_script ::
  "'s redis \<Rightarrow> string \<Rightarrow> nat \<Rightarrow> nat \<Rightarrow> nat \<Rightarrow> (int, 's) cmd" where
  "fixed_window_script rd key window limit cost =
     bind_ok (rd_get rd key) (\<lambda>v.
     case parse_int 64 (option_or ''0'' v) of
       None \<Rightarrow> fail Cache_Error
     | Some current \<Rightarrow>
         if current + int cost \<le> int limit then
           bind_ok (rd_incrby rd key (int cost)) (\<lambda>_.
           bind_ok (rd_expire_ms rd key (int window * 1000)) (\<lambda>_. ok 1))
         else ok 0)"

definition allow_fixed_window ::
  "'s redis \<Rightarrow> string \<Rightarrow> nat \<Rightarrow> nat \<Rightarrow> nat \<Rightarrow> (bool, 's rcache) cmd" where
  "allow_fixed_window rd key window limit cost =
     bind_ok (on_server (fixed_window_script rd key window limit cost)) (\<lambda>res. ok (res = 1))"

subsection \<open>Refresh tokens\<close>

text \<open>The keyed hash of \<open>auth/tokens.rs\<close> is a parameter \<open>hash\<close> here; \<open>Tokens\<close> builds it from the
environment and the MAC.\<close>

definition token_key :: "string \<Rightarrow> string" where
  "token_key h = ''refresh_token:'' @ h"

definition user_tokens_key :: "string \<Rightarrow> string" where
  "user_tokens_key u = ''user_tokens:'' @ u"

definition store_refresh_token ::
  "(string \<Rightarrow> error + string) \<Rightarrow> 's redis \<Rightarrow> string \<Rightarrow> string \<Rightarrow> string \<Rightarrow> nat
   \<Rightarrow> (unit, 's rcache) cmd" where
  "store_refresh_token hash rd user tenant token ttl =
     bind_ok (lift_result (hash token)) (\<lambda>h.
     bind_ok (on_server (rd_setex rd (token_key h) (tenant @ '':'' @ user) ttl)) (\<lambda>_.
     bind_ok (on_server (rd_sadd rd (user_tokens_key user) h)) (\<lambda>_.
     on_server (rd_expire_ms rd (user_tokens_key user) (u64_as_i64 ttl * 1000)))))"

definition get_user_id_by_refresh_token ::
  "(string \<Rightarrow> error + string) \<Rightarrow> 's redis \<Rightarrow> string \<Rightarrow> (string option, 's rcache) cmd" where
  "get_user_id_by_refresh_token hash rd token =
     bind_ok (lift_result (hash token)) (\<lambda>h. on_server (rd_get rd (token_key h)))"

definition revoke_refresh_token ::
  "(string \<Rightarrow> error + string) \<Rightarrow> 's redis \<Rightarrow> string \<Rightarrow> (unit, 's rcache) cmd" where
  "revoke_refresh_token hash rd token =
     bind_ok (lift_result (hash token)) (\<lambda>h.
     bind_ok (get_user_id_by_refresh_token hash rd token) (\<lambda>r. case r of
         None \<Rightarrow> ok ()
       | Some v \<Rightarrow> (let user = last (split_on CHR '':'' v) in
           bind_ok (on_server (rd_del rd (token_key h))) (\<lambda>_.
           on_server (rd_srem rd (user_tokens_key user) h)))))"

definition revoke_all_user_tokens :: "'s redis \<Rightarrow> string \<Rightarrow> (unit, 's rcache) cmd" where
  "revoke_all_user_tokens rd user =
     bind_ok (on_server (rd_smembers rd (user_tokens_key user))) (\<lambda>hs.
     bind_ok (for_each (\<lambda>h. on_server (rd_del rd (token_key h))) hs) (\<lambda>_.
     on_server (rd_del rd (user_tokens_key user))))"

subsection \<open>Keys, sorted sets, lists, strings\<close>

definition delete_key :: "'s redis \<Rightarrow> string \<Rightarrow> (unit, 's rcache) cmd" where
  "delete_key rd key = on_server (rd_del rd key)"

definition expire_key :: "'s redis \<Rightarrow> string \<Rightarrow> nat \<Rightarrow> (unit, 's rcache) cmd" where
  "expire_key rd key ttl = on_server (rd_expire_ms rd key (u64_as_i64 ttl * 1000))"

definition zadd :: "'s redis \<Rightarrow> string \<Rightarrow> string \<Rightarrow> int \<Rightarrow> (unit, 's rcache) cmd" where
  "zadd rd key m score = on_server (rd_zadd rd key m (of_int score))"

definition zincrby :: "'s redis \<Rightarrow> string \<Rightarrow> string \<Rightarrow> rat \<Rightarrow> (rat, 's rcache) cmd" where
  "zincrby rd key m d = on_server (rd_zincrby rd key m d)"

definition zcard :: "'s redis \<Rightarrow> string \<Rightarrow> (nat, 's rcache) cmd" where
  "zcard rd key = on_server (rd_zcard rd key)"

definition zrevrange_withscores ::
  "'s redis \<Rightarrow> string \<Rightarrow> int \<Rightarrow> int \<Rightarrow> ((string \<times> rat) list, 's rcache) cmd" where
  "zrevrange_withscores rd key a b = on_server (rd_zrevrange rd key a b)"

definition zpopmin :: "'s redis \<Rightarrow> string \<Rightarrow> (string option, 's rcache) cmd" where
  "zpopmin rd key = bind_ok (on_server (rd_zpopmin rd key)) (\<lambda>r. ok (map_option fst r))"

definition zrem :: "'s redis \<Rightarrow> string \<Rightarrow> string \<Rightarrow> (unit, 's rcache) cmd" where
  "zrem rd key m = on_server (rd_zrem rd key m)"

definition lpush_trim ::
  "'s redis \<Rightarrow> string \<Rightarrow> string \<Rightarrow> nat \<Rightarrow> nat option \<Rightarrow> (unit, 's rcache) cmd" where
  "lpush_trim rd key v max_len expiry =
     bind_ok (on_server (rd_lpush rd key v)) (\<lambda>_.
     bind_ok (on_server (rd_ltrim rd key 0 (u64_as_i64 (max_len - 1)))) (\<lambda>_.
     case expiry of None \<Rightarrow> ok ()
     | Some e \<Rightarrow> on_server (rd_expire_ms rd key (u64_as_i64 e * 1000))))"

definition lrange :: "'s redis \<Rightarrow> string \<Rightarrow> int \<Rightarrow> int \<Rightarrow> (string list, 's rcache) cmd" where
  "lrange rd key a b = on_server (rd_lrange rd key a b)"

definition set_string ::
  "'s redis \<Rightarrow> string \<Rightarrow> string \<Rightarrow> nat option \<Rightarrow> (unit, 's rcache) cmd" where
  "set_string rd key v expiry =
     bind_ok (on_server (rd_set rd key v)) (\<lambda>_.
     case expiry of None \<Rightarrow> ok ()
     | Some e \<Rightarrow> on_server (rd_expire_ms rd key (u64_as_i64 e * 1000)))"

definition get_string :: "'s redis \<Rightarrow> string \<Rightarrow> (string option, 's rcache) cmd" where
  "get_string rd key = on_server (rd_get rd key)"

definition ping :: "'s redis \<Rightarrow> (unit, 's rcache) cmd" where
  "ping rd = on_server (rd_ping rd)"

definition redis_cache ::
  "(string \<Rightarrow> error + string) \<Rightarrow> 's redis \<Rightarrow> 's rcache cache" where
  "redis_cache hash rd =
     \<lparr> c_increment_counter = increment_counter rd,
       c_get_counter = get_counter rd,
       c_decrement_counter = decrement_counter rd,
       c_set_counter = set_counter rd,
       c_set_suppression = set_suppression rd,
       c_is_suppressed = is_suppressed rd,
       c_set_ip_reputation = set_ip_reputation rd,
       c_get_ip_reputation = get_ip_reputation rd,
       c_allow_sliding_window = allow_sliding_window rd,
       c_allow_fixed_window = allow_fixed_window rd,
       c_store_refresh_token = store_refresh_token hash rd,
       c_get_user_id_by_refresh_token = get_user_id_by_refresh_token hash rd,
       c_revoke_refresh_token = revoke_refresh_token hash rd,
       c_revoke_all_user_tokens = revoke_all_user_tokens rd,
       c_delete_key = delete_key rd,
       c_expire_key = expire_key rd,
       c_zadd = zadd rd,
       c_zincrby = zincrby rd,
       c_zcard = zcard rd,
       c_zrevrange_withscores = zrevrange_withscores rd,
       c_zpopmin = zpopmin rd,
       c_zrem = zrem rd,
       c_lpush_trim = lpush_trim rd,
       c_lrange = lrange rd,
       c_set_string = set_string rd,
       c_get_string = get_string rd,
       c_ping = ping rd \<rparr>"

subsection \<open>Operations of \<open>RedisCache\<close> outside the trait\<close>

definition rcache_new :: "'s \<Rightarrow> instant \<Rightarrow> 's rcache" where
  "rcache_new s now = \<lparr> rc_srv = s, rc_l1 = [], rc_locks = [], rc_now = now, rc_spawned = [] \<rparr>"

definition total_alerts_key :: string where "total_alerts_key = ''siem:stats:total_alerts''"
definition active_alerts_key :: string where "active_alerts_key = ''siem:stats:active_alerts''"
definition critical_alerts_key :: string where
  "critical_alerts_key = ''siem:stats:critical_alerts''"

text \<open>The script's third result is an integer reply, a bulk string, or the number 0.\<close>

definition inc_alert_script ::
  "'s redis \<Rightarrow> bool \<Rightarrow> nat \<Rightarrow> (int \<times> int \<times> int, 's) cmd" where
  "inc_alert_script rd is_critical expiry =
     bind_ok (rd_incrby rd total_alerts_key 1) (\<lambda>ta.
     bind_ok (rd_expire_ms rd total_alerts_key (int expiry * 1000)) (\<lambda>_.
     bind_ok (rd_incrby rd active_alerts_key 1) (\<lambda>aa.
     bind_ok (rd_expire_ms rd active_alerts_key (int expiry * 1000)) (\<lambda>_.
     bind_ok (if is_critical then
                bind_ok (rd_incrby rd critical_alerts_key 1) (\<lambda>ca.
                bind_ok (rd_expire_ms rd critical_alerts_key (int expiry * 1000)) (\<lambda>_. ok ca))
              else bind_ok (rd_get rd critical_alerts_key) (\<lambda>v.
                case parse_int 64 (option_or ''0'' v) of
                  None \<Rightarrow> fail Cache_Error | Some ca \<Rightarrow> ok ca)) (\<lambda>ca.
     ok (ta, aa, ca))))))"

definition inc_alert_counters ::
  "'s redis \<Rightarrow> bool \<Rightarrow> nat \<Rightarrow> (nat \<times> nat \<times> nat, 's rcache) cmd" where
  "inc_alert_counters rd is_critical expiry =
     bind_ok (on_server (inc_alert_script rd is_critical expiry)) (\<lambda>(ta, aa, ca).
     bind_ok (update_l1 total_alerts_key (int_as_u64 ta)) (\<lambda>_.
     bind_ok (update_l1 active_alerts_key (int_as_u64 aa)) (\<lambda>_.
     bind_ok (update_l1 critical_alerts_key (int_as_u64 ca)) (\<lambda>_.
     ok (int_as_u32 ta, int_as_u32 aa, int_as_u32 ca)))))"

definition incr_by :: "'s redis \<Rightarrow> string \<Rightarrow> nat \<Rightarrow> nat \<Rightarrow> (nat, 's rcache) cmd" where
  "incr_by rd key delta expiry =
     bind_ok (on_server (rd_incrby rd key (u64_as_i64 delta))) (\<lambda>new.
     bind_ok (on_server (rd_expire_ms rd key (u64_as_i64 expiry * 1000))) (\<lambda>_.
     bind_ok (update_l1 key (int_as_u64 new)) (\<lambda>_.
     ok (if new < 0 then 0 else int_as_u32 new))))"

definition refresh_key :: "'s redis \<Rightarrow> string \<Rightarrow> (unit, 's rcache) cmd" where
  "refresh_key rd key st0 =
     (let st = (if key \<in> set (rc_locks st0) then st0
                else st0 \<lparr> rc_locks := rc_locks st0 @ [key] \<rparr>)
      in bind_ok (on_server (rd_get rd key)) (\<lambda>r. case r of
           None \<Rightarrow> ok ()
         | Some v \<Rightarrow> bind_ok (lift_result (rd_parse rd 64 v)) (\<lambda>n st'.
             (Inr (), l1_insert key n
                (case map_of (rc_l1 st') key of None \<Rightarrow> 1 | Some e \<Rightarrow> l1_hits e) st'))) st)"

text \<open>One pass of the maintenance loop after its sleep.  Eviction runs over a snapshot of the
keys; the hottest entries (a stable descending sort by hits) older than the bound get a spawned
refresh.  \<open>run_spawned\<close> runs the refreshes that were spawned, whose errors are ignored.\<close>

definition evict_l1 :: "nat \<Rightarrow> 's rcache \<Rightarrow> 's rcache" where
  "evict_l1 max_age st = st \<lparr> rc_l1 := filter
     (\<lambda>(k, e). \<not> timestamp (rc_now st) - l1_ts e > u64_as_i64 max_age) (rc_l1 st) \<rparr>"

definition hottest :: "nat \<Rightarrow> (string \<times> l1_entry) list \<Rightarrow> string list" where
  "hottest n es = take n (map fst (sort_key (\<lambda>(k, e). - int (l1_hits e)) es))"

definition l1_maintenance :: "nat \<Rightarrow> nat \<Rightarrow> nat \<Rightarrow> 's rcache \<Rightarrow> 's rcache" where
  "l1_maintenance max_age refresh_if_older top_n st0 =
     (let st = evict_l1 max_age st0;
          due = filter (\<lambda>k. case map_of (rc_l1 st) k of None \<Rightarrow> False
                  | Some e \<Rightarrow> timestamp (rc_now st) - l1_ts e > u64_as_i64 refresh_if_older)
                (hottest top_n (rc_l1 st))
      in st \<lparr> rc_spawned := rc_spawned st @ due \<rparr>)"

definition run_spawned :: "'s redis \<Rightarrow> 's rcache \<Rightarrow> 's rcache" where
  "run_spawned rd st = fold (\<lambda>k. ignore (refresh_key rd k)) (rc_spawned st) (st \<lparr> rc_spawned := [] \<rparr>)"

end
