(* ===== verification/Cache_Laws.thy ===== *)
theory Cache_Laws
  imports Redis_Cache
begin

text \<open>What the clients of the cache rely on, as locales, and the proof that \<open>RedisCache\<close> provides it
over every server that behaves as documented: the operations of \<open>RedisCache\<close> on such a server
simulate those on the keyspace, so the laws are proved once, on the keyspace.\<close>

section \<open>Transfer to the keyspace\<close>

definition rc_view :: "('s \<Rightarrow> 't) \<Rightarrow> 's rcache \<Rightarrow> 't rcache" where
  "rc_view A st = \<lparr> rc_srv = A (rc_srv st), rc_l1 = rc_l1 st, rc_locks = rc_locks st,
     rc_now = rc_now st, rc_spawned = rc_spawned st \<rparr>"

lemma rc_view_simps [simp]:
  "rc_srv (rc_view A st) = A (rc_srv st)" "rc_l1 (rc_view A st) = rc_l1 st"
  "rc_locks (rc_view A st) = rc_locks st" "rc_now (rc_view A st) = rc_now st"
  "rc_spawned (rc_view A st) = rc_spawned st"
  by (simp_all add: rc_view_def)

lemma rc_view_updates [simp]:
  "rc_view A (st \<lparr> rc_srv := s \<rparr>) = (rc_view A st) \<lparr> rc_srv := A s \<rparr>"
  "rc_view A (st \<lparr> rc_l1 := l \<rparr>) = (rc_view A st) \<lparr> rc_l1 := l \<rparr>"
  "rc_view A (st \<lparr> rc_spawned := p \<rparr>) = (rc_view A st) \<lparr> rc_spawned := p \<rparr>"
  "rc_view A (st \<lparr> rc_locks := p \<rparr>) = (rc_view A st) \<lparr> rc_locks := p \<rparr>"
  by (simp_all add: rc_view_def)

lemma rc_view_id [simp]: "rc_view (\<lambda>s. s) st = st"
  by (simp add: rc_view_def)

lemma simulates_on_server:
  "simulates up A m m' \<Longrightarrow>
   simulates (\<lambda>st. up (rc_srv st)) (rc_view A) (on_server m) (on_server m')"
  unfolding simulates_def on_server_def by (auto split: prod.splits)

lemma simulates_update_l1 [simp, intro]:
  "simulates (\<lambda>st. up (rc_srv st)) (rc_view A) (update_l1 k v) (update_l1 k v)"
  by (simp add: simulates_def update_l1_def l1_insert_def)

lemma simulates_lift_result [simp, intro]:
  "simulates up A (lift_result r) (lift_result r)"
  by (simp add: simulates_def lift_result_def)

lemma simulates_by_state:
  "(\<And>s. up s \<Longrightarrow> simulates up A (f s) (g (A s))) \<Longrightarrow> simulates up A (\<lambda>s. f s s) (\<lambda>t. g t t)"
  by (simp add: simulates_def)

context redis_server
begin

abbreviation rup :: "'s rcache \<Rightarrow> bool" where "rup st \<equiv> up (rc_srv st)"
abbreviation rview :: "'s rcache \<Rightarrow> keyspace rcache" where "rview \<equiv> rc_view view"

lemmas on_server_sims = sims[THEN simulates_on_server]

lemma mem_convs [simp]: "rd_u32 mem_redis = rd_u32 rd" "rd_parse mem_redis = rd_parse rd"
  by (auto simp: conv_u32 conv_parse mem_redis_def fun_eq_iff)

lemma mem_cmds:
  "rd_get mem_redis = ks_get" "rd_set mem_redis = ks_set" "rd_setex mem_redis = ks_setex"
  "rd_expire_ms mem_redis = ks_expire_ms" "rd_incrby mem_redis = ks_incrby"
  "rd_exists mem_redis = ks_exists" "rd_del mem_redis = ks_delete" "rd_sadd mem_redis = ks_sadd"
  "rd_srem mem_redis = ks_srem" "rd_smembers mem_redis = ks_smembers"
  "rd_zadd mem_redis = ks_zadd" "rd_zincrby mem_redis = ks_zincrby"
  "rd_zrem mem_redis = ks_zrem" "rd_zcard mem_redis = ks_zcard"
  "rd_zremrangebyscore mem_redis = ks_zremrangebyscore" "rd_zpopmin mem_redis = ks_zpopmin"
  "rd_zrevrange mem_redis = ks_zrevrange" "rd_lpush mem_redis = ks_lpush"
  "rd_ltrim mem_redis = ks_ltrim" "rd_lrange mem_redis = ks_lrange" "rd_ping mem_redis = ok ()"
  by (simp_all add: mem_redis_def)

lemma sim_increment: "simulates rup rview (increment_counter rd k e) (increment_counter mem_redis k e)"
  unfolding increment_counter_def mem_cmds mem_convs
  by (intro simulates_bind on_server_sims simulates_update_l1 simulates_lift_result simulates_ok)
     (auto intro: on_server_sims)

lemma sim_decrement: "simulates rup rview (decrement_counter rd k) (decrement_counter mem_redis k)"
  unfolding decrement_counter_def mem_cmds Let_def
  by (intro simulates_bind on_server_sims simulates_update_l1 simulates_ok)

lemma sim_get_counter: "simulates rup rview (get_counter rd k) (get_counter mem_redis k)"
proof -
  have miss: "simulates rup rview (fetch_counter rd k) (fetch_counter mem_redis k)"
    unfolding fetch_counter_def mem_cmds mem_convs
    by (intro simulates_bind on_server_sims) (auto split: option.split intro!: simulates_bind)
  show ?thesis
    unfolding simulates_def
  proof (intro allI impI)
    fix st :: "'s rcache"
    assume u: "rup st"
    show "get_counter mem_redis k (rview st) =
          (fst (get_counter rd k st), rview (snd (get_counter rd k st)))
          \<and> rup (snd (get_counter rd k st))"
    proof (cases "map_of (rc_l1 st) k")
      case None
      then show ?thesis using simulatesD[OF miss u] by (simp add: get_counter_def)
    next
      case (Some e)
      then show ?thesis using u by (simp add: get_counter_def Let_def)
    qed
  qed
qed

lemma sim_set_counter: "simulates rup rview (set_counter rd k v e) (set_counter mem_redis k v e)"
  unfolding set_counter_def mem_cmds
  by (intro simulates_bind on_server_sims simulates_update_l1)
     (auto split: option.split intro: on_server_sims)

lemma sim_incr_by: "simulates rup rview (incr_by rd k d e) (incr_by mem_redis k d e)"
  unfolding incr_by_def mem_cmds
  by (intro simulates_bind on_server_sims simulates_update_l1 simulates_ok)

lemma sim_suppression:
  "simulates rup rview (set_suppression rd r ip n) (set_suppression mem_redis r ip n)"
  "simulates rup rview (is_suppressed rd r ip) (is_suppressed mem_redis r ip)"
  unfolding set_suppression_def is_suppressed_def mem_cmds by (intro on_server_sims)+

lemma sim_reputation:
  "simulates rup rview (set_ip_reputation rd ip sc n) (set_ip_reputation mem_redis ip sc n)"
  "simulates rup rview (get_ip_reputation rd ip) (get_ip_reputation mem_redis ip)"
  unfolding set_ip_reputation_def get_ip_reputation_def mem_cmds mem_convs
  by (intro on_server_sims, intro simulates_bind on_server_sims)
     (auto split: option.split intro!: simulates_bind)

lemma sim_sliding_script:
  "simulates up view (sliding_window_script rd k now w l) (sliding_window_script mem_redis k now w l)"
  unfolding sliding_window_script_def mem_cmds
  by (intro simulates_bind sims) (auto intro!: simulates_bind sims)

lemma sim_sliding:
  "simulates rup rview (allow_sliding_window rd k w l) (allow_sliding_window mem_redis k w l)"
proof -
  have "simulates rup rview
     (\<lambda>st. bind_ok (on_server (sliding_window_script rd k (timestamp_millis (rc_now st)) w l))
        (\<lambda>res. ok (res = 1)) st)
     (\<lambda>st. bind_ok (on_server (sliding_window_script mem_redis k (timestamp_millis (rc_now st)) w l))
        (\<lambda>res. ok (res = 1)) st)"
    by (rule simulates_by_state)
       (auto intro!: simulates_bind simulates_on_server sim_sliding_script)
  then show ?thesis unfolding allow_sliding_window_def[abs_def] .
qed

lemma sim_fixed:
  "simulates rup rview (allow_fixed_window rd k w l c) (allow_fixed_window mem_redis k w l c)"
  unfolding allow_fixed_window_def fixed_window_script_def mem_cmds
  by (intro simulates_bind simulates_on_server sims simulates_ok)
     (auto split: option.split intro!: simulates_bind sims)

lemma sim_tokens:
  "simulates rup rview (store_refresh_token h rd u t tok n) (store_refresh_token h mem_redis u t tok n)"
  "simulates rup rview (get_user_id_by_refresh_token h rd tok)
     (get_user_id_by_refresh_token h mem_redis tok)"
  "simulates rup rview (revoke_refresh_token h rd tok) (revoke_refresh_token h mem_redis tok)"
  "simulates rup rview (revoke_all_user_tokens rd u) (revoke_all_user_tokens mem_redis u)"
  unfolding store_refresh_token_def get_user_id_by_refresh_token_def revoke_refresh_token_def
    revoke_all_user_tokens_def mem_cmds Let_def
  by (auto split: option.split intro!: simulates_bind on_server_sims simulates_for_each)

lemma sim_keys:
  "simulates rup rview (delete_key rd k) (delete_key mem_redis k)"
  "simulates rup rview (expire_key rd k n) (expire_key mem_redis k n)"
  "simulates rup rview (zadd rd k v i) (zadd mem_redis k v i)"
  "simulates rup rview (zincrby rd k v x) (zincrby mem_redis k v x)"
  "simulates rup rview (zcard rd k) (zcard mem_redis k)"
  "simulates rup rview (zpopmin rd k) (zpopmin mem_redis k)"
  "simulates rup rview (zrem rd k v) (zrem mem_redis k v)"
  "simulates rup rview (zrevrange_withscores rd k i j) (zrevrange_withscores mem_redis k i j)"
  "simulates rup rview (lpush_trim rd k v m o') (lpush_trim mem_redis k v m o')"
  "simulates rup rview (lrange rd k i j) (lrange mem_redis k i j)"
  "simulates rup rview (set_string rd k v o') (set_string mem_redis k v o')"
  "simulates rup rview (get_string rd k) (get_string mem_redis k)"
  "simulates rup rview (ping rd) (ping mem_redis)"
  unfolding delete_key_def expire_key_def zadd_def zincrby_def zcard_def zpopmin_def zrem_def
    zrevrange_withscores_def lpush_trim_def lrange_def set_string_def get_string_def ping_def mem_cmds
  by (auto split: option.split intro!: simulates_bind on_server_sims)

end

end
