(* ===== verification/Cache_Contracts.thy ===== *)
theory Cache_Contracts
  imports Cache_Laws
begin

text \<open>The two contracts the detection rules use: a counter (\<open>increment_counter\<close>), and a store of
strings beside bounded sorted-set indexes (the correlation state).  Each is a locale; both are
shown for \<open>RedisCache\<close> over any server that meets \<open>redis_server\<close>.\<close>

section \<open>Counters\<close>

locale counter_cache =
  fixes C :: "'s cache" and cnt :: "'s \<Rightarrow> string \<Rightarrow> nat option"
  assumes inc_law:
    "cnt s k = Some n \<Longrightarrow> n + 1 < 2 ^ 32 \<Longrightarrow> 0 < e \<Longrightarrow> e < 2 ^ 63 \<Longrightarrow>
     \<exists>s'. c_increment_counter C k e s = (Inr (n + 1), s') \<and> cnt s' = (cnt s)(k \<mapsto> n + 1)"
begin

lemma inc_result:
  assumes "cnt s k = Some n" "n + 1 < 2 ^ 32" "0 < e" "e < 2 ^ 63"
  obtains s' where "c_increment_counter C k e s = (Inr (n + 1), s')" "cnt s' = (cnt s)(k \<mapsto> n + 1)"
  using inc_law[OF assms] by blast

end

text \<open>The value of a counter key on the keyspace: absent is zero; a key of another type, or one
whose text is not a number in range, is no counter.\<close>

definition counter_at :: "keyspace \<Rightarrow> string \<Rightarrow> nat option" where
  "counter_at s k = (case ks_val s k of
      None \<Rightarrow> Some 0
    | Some (RStr v) \<Rightarrow> (case parse_int 64 v of
          None \<Rightarrow> None | Some i \<Rightarrow> if 0 \<le> i then Some (nat i) else None)
    | _ \<Rightarrow> None)"

lemma parse_int_show_nat [simp]: "n < 2 ^ 63 \<Longrightarrow> parse_int 64 (show_int (int n)) = Some (int n)"
  by (rule parse_int_show) simp_all

lemma ks_incrby_counter:
  assumes "counter_at s k = Some n" "n + d < 2 ^ 63"
  shows "ks_incrby k (int d) s = (Inr (int (n + d)), ks_put k (RStr (show_int (int (n + d)))) s)"
  using assms by (auto simp: counter_at_def ks_incrby_def split: option.splits rval.splits if_splits)

lemma counter_at_put:
  "n < 2 ^ 63 \<Longrightarrow> counter_at (ks_put k (RStr (show_int (int n))) s) = (counter_at s)(k \<mapsto> n)"
  by (rule ext) (simp add: counter_at_def)

lemma counter_at_expire:
  "0 < ms \<Longrightarrow> counter_at (snd (ks_expire_ms k ms s)) = counter_at s"
  by (rule ext) (simp add: counter_at_def)

lemma mem_increment_eq:
  assumes c: "counter_at (rc_srv st) k = Some n" and m: "m = n + 1" "m < 2 ^ 32"
    and e: "e < 2 ^ 63" and S: "S = ks_put k (RStr (show_int (int m))) (rc_srv st)"
  shows "increment_counter mem_redis k e st = (Inr m, l1_insert k m 1
     (st \<lparr> rc_srv := if m = 1 then snd (ks_expire_ms k (int e * 1000) S) else S \<rparr>))"
proof -
  have inc: "ks_incrby k 1 (rc_srv st) = (Inr (int m), S)"
    using ks_incrby_counter[OF c, of 1] m S by simp
  have u: "int_as_u32 (int m) = m" using m(2) by (simp add: int_as_u32_def nat_mod_as_int)
  have x: "u64_as_i64 e = int e" using e by (rule u64_as_i64_id)
  obtain s2 where ex: "ks_expire_ms k (int e * 1000) S = (Inr (), s2)"
    by (simp add: ks_expire_ms_def)
  show ?thesis
  proof (cases "m = 1")
    case True
    then show ?thesis using inc u ex
      by (simp add: increment_counter_def mem_redis_def bind_ok_def on_server_def lift_result_def
          update_l1_def ok_def x)
  next
    case False
    then show ?thesis using inc u
      by (simp add: increment_counter_def mem_redis_def bind_ok_def on_server_def lift_result_def
          update_l1_def ok_def)
  qed
qed

lemma mem_increment:
  assumes "counter_at (rc_srv st) k = Some n" "n + 1 < 2 ^ 32" "0 < e" "e < 2 ^ 63"
  shows "fst (increment_counter mem_redis k e st) = Inr (n + 1)"
    and "counter_at (rc_srv (snd (increment_counter mem_redis k e st)))
           = (counter_at (rc_srv st))(k \<mapsto> n + 1)"
    and "map_of (rc_l1 (snd (increment_counter mem_redis k e st))) k
           = Some \<lparr> l1_value = n + 1, l1_ts = timestamp (rc_now st), l1_hits = 1 \<rparr>"
proof -
  define m where "m = n + 1"
  have m: "m < 2 ^ 32" "m < 2 ^ 63" using assms(2) by (simp_all add: m_def)
  define S where "S = ks_put k (RStr (show_int (int m))) (rc_srv st)"
  note E = mem_increment_eq[OF assms(1) m_def m(1) assms(4) S_def]
  have "0 < int e * 1000" using assms(3) by simp
  note X = counter_at_expire[OF this, of k S]
  have "counter_at S = (counter_at (rc_srv st))(k \<mapsto> m)"
    unfolding S_def by (rule counter_at_put[OF m(2)])
  with X have "counter_at (if m = 1 then snd (ks_expire_ms k (int e * 1000) S) else S)
      = (counter_at (rc_srv st))(k \<mapsto> m)" by (simp split: if_split)
  with E show "fst (increment_counter mem_redis k e st) = Inr (n + 1)"
    and "counter_at (rc_srv (snd (increment_counter mem_redis k e st)))
           = (counter_at (rc_srv st))(k \<mapsto> n + 1)"
    and "map_of (rc_l1 (snd (increment_counter mem_redis k e st))) k
           = Some \<lparr> l1_value = n + 1, l1_ts = timestamp (rc_now st), l1_hits = 1 \<rparr>"
    unfolding m_def[symmetric] by (simp_all add: l1_insert_def)
qed

locale redis_client = redis_server +
  fixes hash :: "string \<Rightarrow> error + string"

sublocale redis_client \<subseteq> counter: counter_cache "redis_cache hash rd"
  "\<lambda>st k. if up (rc_srv st) then counter_at (view (rc_srv st)) k else None"
proof
  fix st :: "'a rcache" and k n e
  assume c: "(if up (rc_srv st) then counter_at (view (rc_srv st)) k else None) = Some n"
    and b: "n + 1 < 2 ^ 32" "0 < e" "e < (2 :: nat) ^ 63"
  then have u: "up (rc_srv st)" and c': "counter_at (rc_srv (rview st)) k = Some n"
    by (auto split: if_splits)
  note S = simulatesD[OF sim_increment[of k e], of st] and M = mem_increment[OF c' b]
  show "\<exists>s'. c_increment_counter (redis_cache hash rd) k e st = (Inr (n + 1), s') \<and>
     (\<lambda>k. if up (rc_srv s') then counter_at (view (rc_srv s')) k else None)
       = (\<lambda>k. if up (rc_srv st) then counter_at (view (rc_srv st)) k else None)(k \<mapsto> n + 1)"
    using S M u
    by (intro exI[of _ "snd (increment_counter rd k e st)"]) (auto simp: redis_cache_def fun_eq_iff prod_eq_iff)
qed

section \<open>Strings and indexes\<close>

locale index_cache =
  fixes C :: "'s cache"
    and ready :: "'s \<Rightarrow> bool"
    and str :: "'s \<Rightarrow> string \<Rightarrow> string option"
    and idx :: "'s \<Rightarrow> string \<Rightarrow> (string \<times> rat) list"
    and skey :: "string \<Rightarrow> bool" and zkey :: "string \<Rightarrow> bool"
  assumes get_law: "ready s \<Longrightarrow> skey k \<Longrightarrow>
      \<exists>s'. c_get_string C k s = (Inr (str s k), s') \<and> ready s' \<and> str s' = str s \<and> idx s' = idx s"
    and set_law: "ready s \<Longrightarrow> skey k \<Longrightarrow> 0 < e \<Longrightarrow> e < 2 ^ 63 \<Longrightarrow>
      \<exists>s'. c_set_string C k v (Some e) s = (Inr (), s') \<and> ready s'
         \<and> str s' = (str s)(k \<mapsto> v) \<and> idx s' = idx s"
    and del_law: "ready s \<Longrightarrow>
      \<exists>s'. c_delete_key C k s = (Inr (), s') \<and> ready s'
         \<and> str s' = (str s)(k := None) \<and> idx s' = (idx s)(k := [])"
    and zcard_law: "ready s \<Longrightarrow> zkey z \<Longrightarrow>
      \<exists>s'. c_zcard C z s = (Inr (length (idx s z)), s') \<and> ready s' \<and> str s' = str s \<and> idx s' = idx s"
    and zadd_law: "ready s \<Longrightarrow> zkey z \<Longrightarrow>
      \<exists>s'. c_zadd C z m x s = (Inr (), s') \<and> ready s' \<and> str s' = str s
         \<and> idx s' = (idx s)(z := al_update m (of_int x) (idx s z))"
    and zrem_law: "ready s \<Longrightarrow> zkey z \<Longrightarrow>
      \<exists>s'. c_zrem C z m s = (Inr (), s') \<and> ready s' \<and> str s' = str s
         \<and> idx s' = (idx s)(z := filter (\<lambda>e. fst e \<noteq> m) (idx s z))"
    and zpopmin_law: "ready s \<Longrightarrow> zkey z \<Longrightarrow>
      \<exists>s'. c_zpopmin C z s = (Inr (case zsort (idx s z) of [] \<Rightarrow> None | e # _ \<Rightarrow> Some (fst e)), s')
         \<and> ready s' \<and> str s' = str s
         \<and> idx s' = (idx s)(z := (case zsort (idx s z) of [] \<Rightarrow> idx s z
              | e # _ \<Rightarrow> filter (\<lambda>e'. fst e' \<noteq> fst e) (idx s z)))"
    and expire_law: "ready s \<Longrightarrow> zkey z \<Longrightarrow> 0 < e \<Longrightarrow> e < 2 ^ 63 \<Longrightarrow>
      \<exists>s'. c_expire_key C z e s = (Inr (), s') \<and> ready s' \<and> str s' = str s \<and> idx s' = idx s"
    and disjoint: "\<not> (skey k \<and> zkey k)"

definition str_at :: "keyspace \<Rightarrow> string \<Rightarrow> string option" where
  "str_at s k = (case ks_val s k of Some (RStr v) \<Rightarrow> Some v | _ \<Rightarrow> None)"

definition idx_at :: "keyspace \<Rightarrow> string \<Rightarrow> (string \<times> rat) list" where
  "idx_at s k = option_or [] (zset_of k s)"

definition well_typed :: "(string \<Rightarrow> bool) \<Rightarrow> (string \<Rightarrow> bool) \<Rightarrow> keyspace \<Rightarrow> bool" where
  "well_typed sk zk s \<longleftrightarrow>
     (\<forall>k. (sk k \<longrightarrow> ks_val s k = None \<or> (\<exists>v. ks_val s k = Some (RStr v)))
        \<and> (zk k \<longrightarrow> zset_of k s \<noteq> None))"

lemma str_at_simps [simp]:
  "str_at (ks_put k (RStr v) s) = (str_at s)(k \<mapsto> v)"
  "str_at (ks_del k s) = (str_at s)(k := None)"
  by (auto simp: str_at_def fun_eq_iff)

lemma idx_at_simps [simp]:
  "zset_of k s \<noteq> None \<Longrightarrow> idx_at (zset_put k z s) = (idx_at s)(k := z)"
  "idx_at (ks_del k s) = (idx_at s)(k := [])"
  by (auto simp: idx_at_def option_or_def zset_of_def zset_put_def fun_eq_iff)

lemma idx_at_put_str [simp]:
  "idx_at (ks_put k (RStr v) s) = (idx_at s)(k := [])"
  by (auto simp: idx_at_def option_or_def zset_of_def fun_eq_iff)

lemma str_at_zset_put [simp]:
  "zset_of k s \<noteq> None \<Longrightarrow> str_at (zset_put k z s) = str_at s"
  by (auto simp: str_at_def zset_put_def zset_of_def fun_eq_iff split: option.splits rval.splits)

lemma idx_at_str: "ks_val s k = None \<or> (\<exists>v. ks_val s k = Some (RStr v)) \<Longrightarrow> idx_at s k = []"
  by (auto simp: idx_at_def zset_of_def option_or_def)

lemma well_typed_put_str:
  "well_typed sk zk s \<Longrightarrow> \<not> zk k \<Longrightarrow> well_typed sk zk (ks_put k (RStr v) s)"
  by (auto simp: well_typed_def zset_of_def)

lemma well_typed_del: "well_typed sk zk s \<Longrightarrow> well_typed sk zk (ks_del k s)"
  by (auto simp: well_typed_def zset_of_def)

lemma well_typed_zset_put:
  "well_typed sk zk s \<Longrightarrow> \<not> sk k \<Longrightarrow> well_typed sk zk (zset_put k z s)"
  by (auto simp: well_typed_def zset_put_def zset_of_def)

lemma view_expire:
  assumes "0 < ms"
  shows "str_at (snd (ks_expire_ms k ms s)) = str_at s" "idx_at (snd (ks_expire_ms k ms s)) = idx_at s"
    "well_typed sk zk (snd (ks_expire_ms k ms s)) = well_typed sk zk s"
  using assms by (auto simp: str_at_def idx_at_def zset_of_def well_typed_def fun_eq_iff)

text \<open>The operations on the keyspace, under the typing discipline.\<close>

lemma mem_get_string:
  "well_typed sk zk (rc_srv st) \<Longrightarrow> sk k \<Longrightarrow>
   get_string mem_redis k st = (Inr (str_at (rc_srv st) k), st)"
  by (auto simp: well_typed_def get_string_def on_server_def mem_redis_def ks_get_def str_at_def
      split: option.splits rval.splits)

lemma mem_set_string:
  assumes "0 < e" "e < 2 ^ 63"
  shows "set_string mem_redis k v (Some e) st = (Inr (), st \<lparr> rc_srv :=
           snd (ks_expire_ms k (int e * 1000) (ks_put k (RStr v) (ks_del k (rc_srv st)))) \<rparr>)"
  using assms
  by (simp add: set_string_def on_server_def mem_redis_def ks_set_def ks_expire_ms_def bind_ok_def
      u64_as_i64_id)

lemma mem_zset_ops:
  assumes "zset_of z (rc_srv st) = Some x"
  shows "zcard mem_redis z st = (Inr (length x), st)"
    and "zadd mem_redis z m i st
           = (Inr (), st \<lparr> rc_srv := zset_put z (al_update m (of_int i) x) (rc_srv st) \<rparr>)"
    and "zrem mem_redis z m st
           = (Inr (), st \<lparr> rc_srv := zset_put z (filter (\<lambda>e. fst e \<noteq> m) x) (rc_srv st) \<rparr>)"
    and "zpopmin mem_redis z st
           = (Inr (case zsort x of [] \<Rightarrow> None | e # _ \<Rightarrow> Some (fst e)),
              case zsort x of [] \<Rightarrow> st
              | e # _ \<Rightarrow> st \<lparr> rc_srv := zset_put z (filter (\<lambda>e'. fst e' \<noteq> fst e) x) (rc_srv st) \<rparr>)"
  using assms
  by (simp_all add: zcard_def zadd_def zrem_def zpopmin_def on_server_def mem_redis_def
      ks_zcard_def ks_zadd_def ks_zrem_def ks_zpopmin_def bind_ok_def ok_def split: list.split)

lemma mem_expire_delete:
  "delete_key mem_redis k st = (Inr (), st \<lparr> rc_srv := ks_del k (rc_srv st) \<rparr>)"
  "e < 2 ^ 63 \<Longrightarrow> expire_key mem_redis k e st
     = (Inr (), st \<lparr> rc_srv := snd (ks_expire_ms k (int e * 1000) (rc_srv st)) \<rparr>)"
  by (simp_all add: delete_key_def expire_key_def on_server_def mem_redis_def ks_delete_def
      ks_expire_ms_def u64_as_i64_id)

lemma zset_idx: "zset_of k s = Some x \<Longrightarrow> idx_at s k = x"
  by (simp add: idx_at_def option_or_def)

locale typed_client = redis_client +
  fixes skey :: "string \<Rightarrow> bool" and zkey :: "string \<Rightarrow> bool"
  assumes keys_disjoint: "\<not> (skey k \<and> zkey k)"
begin

definition tready :: "'a rcache \<Rightarrow> bool" where
  "tready st \<longleftrightarrow> up (rc_srv st) \<and> well_typed skey zkey (view (rc_srv st))"

lemma transfer:
  assumes "simulates rup rview f g" "tready st" "g (rview st) = (r, t)"
    "well_typed skey zkey (rc_srv t)"
    "str_at (rc_srv t) = S" "idx_at (rc_srv t) = I"
  shows "\<exists>s'. f st = (r, s') \<and> tready s' \<and> str_at (view (rc_srv s')) = S
    \<and> idx_at (view (rc_srv s')) = I"
proof -
  have u: "up (rc_srv st)" using assms(2) by (simp add: tready_def)
  note D = simulatesD[OF assms(1) u]
  have "fst (f st) = r" "rview (snd (f st)) = t" "up (rc_srv (snd (f st)))"
    using D assms(3) by auto
  then show ?thesis using assms(4-6)
    by (intro exI[of _ "snd (f st)"]) (auto simp: tready_def prod_eq_iff)
qed

lemma zkey_zset: "tready st \<Longrightarrow> zkey z \<Longrightarrow> \<exists>x. zset_of z (view (rc_srv st)) = Some x"
  by (auto simp: tready_def well_typed_def)

end

sublocale typed_client \<subseteq> index: index_cache "redis_cache hash rd" tready
  "\<lambda>st. str_at (view (rc_srv st))" "\<lambda>st. idx_at (view (rc_srv st))" skey zkey
proof
  fix st :: "'a rcache" and k z m v :: string and e :: nat and i :: int
  assume r: "tready st"
  let ?w = "view (rc_srv st)"
  have w: "well_typed skey zkey ?w" using r by (simp add: tready_def)
  show "\<exists>s'. c_delete_key (redis_cache hash rd) k st = (Inr (), s') \<and> tready s'
     \<and> str_at (view (rc_srv s')) = (str_at ?w)(k := None)
     \<and> idx_at (view (rc_srv s')) = (idx_at ?w)(k := [])"
    unfolding redis_cache_def cache.simps
    by (rule transfer[OF sim_keys(1) r mem_expire_delete(1)]) (simp_all add: w well_typed_del)
  show "skey k \<Longrightarrow> \<exists>s'. c_get_string (redis_cache hash rd) k st = (Inr (str_at ?w k), s') \<and> tready s'
     \<and> str_at (view (rc_srv s')) = str_at ?w \<and> idx_at (view (rc_srv s')) = idx_at ?w"
    unfolding redis_cache_def cache.simps
    using mem_get_string[of skey zkey "rview st" k] w
    by (intro transfer[where t = "rview st", OF sim_keys(12) r]) simp_all
  show "\<exists>s'. c_set_string (redis_cache hash rd) k v (Some e) st = (Inr (), s') \<and> tready s'
     \<and> str_at (view (rc_srv s')) = (str_at ?w)(k \<mapsto> v) \<and> idx_at (view (rc_srv s')) = idx_at ?w"
    if "skey k" "0 < e" "e < 2 ^ 63"
  proof -
    have "\<not> zkey k" using keys_disjoint that(1) by blast
    moreover have "idx_at ?w k = []" using w that(1) by (intro idx_at_str) (auto simp: well_typed_def)
    moreover have "0 < int e * 1000" using that(2) by simp
    ultimately show ?thesis
      unfolding redis_cache_def cache.simps
      by (intro transfer[OF sim_keys(11) r mem_set_string[OF that(2,3)]])
         (simp_all add: view_expire well_typed_put_str well_typed_del w fun_upd_idem)
  qed
  show "zkey z \<Longrightarrow> 0 < e \<Longrightarrow> e < 2 ^ 63 \<Longrightarrow>
     \<exists>s'. c_expire_key (redis_cache hash rd) z e st = (Inr (), s') \<and> tready s'
     \<and> str_at (view (rc_srv s')) = str_at ?w \<and> idx_at (view (rc_srv s')) = idx_at ?w"
    unfolding redis_cache_def cache.simps
    by (rule transfer[OF sim_keys(2) r mem_expire_delete(2)]) (simp_all add: view_expire w)
  assume z: "zkey z"
  then obtain x where x: "zset_of z ?w = Some x" using zkey_zset[OF r] by blast
  have ns: "\<not> skey z" using keys_disjoint z by blast
  have x': "zset_of z (rc_srv (rview st)) = Some x" using x by simp
  note ops = mem_zset_ops[OF x'] and put = well_typed_zset_put[OF w ns]
  have i: "idx_at ?w z = x" using x by (rule zset_idx)
  show "\<exists>s'. c_zcard (redis_cache hash rd) z st = (Inr (length (idx_at ?w z)), s') \<and> tready s'
     \<and> str_at (view (rc_srv s')) = str_at ?w \<and> idx_at (view (rc_srv s')) = idx_at ?w"
    unfolding redis_cache_def cache.simps i
    by (rule transfer[OF sim_keys(5) r ops(1)]) (simp_all add: w)
  show "\<exists>s'. c_zadd (redis_cache hash rd) z m i st = (Inr (), s') \<and> tready s'
     \<and> str_at (view (rc_srv s')) = str_at ?w
     \<and> idx_at (view (rc_srv s')) = (idx_at ?w)(z := al_update m (of_int i) (idx_at ?w z))"
    unfolding redis_cache_def cache.simps i
    by (rule transfer[OF sim_keys(3) r ops(2)]) (simp_all add: put x)
  show "\<exists>s'. c_zrem (redis_cache hash rd) z m st = (Inr (), s') \<and> tready s'
     \<and> str_at (view (rc_srv s')) = str_at ?w
     \<and> idx_at (view (rc_srv s')) = (idx_at ?w)(z := filter (\<lambda>e. fst e \<noteq> m) (idx_at ?w z))"
    unfolding redis_cache_def cache.simps i
    by (rule transfer[OF sim_keys(7) r ops(3)]) (simp_all add: put x)
  show "\<exists>s'. c_zpopmin (redis_cache hash rd) z st
        = (Inr (case zsort (idx_at ?w z) of [] \<Rightarrow> None | e # _ \<Rightarrow> Some (fst e)), s') \<and> tready s'
     \<and> str_at (view (rc_srv s')) = str_at ?w
     \<and> idx_at (view (rc_srv s')) = (idx_at ?w)(z := (case zsort (idx_at ?w z) of [] \<Rightarrow> idx_at ?w z
              | e # _ \<Rightarrow> filter (\<lambda>e'. fst e' \<noteq> fst e) (idx_at ?w z)))"
    unfolding redis_cache_def cache.simps i
    by (rule transfer[OF sim_keys(6) r ops(4)]) (simp_all add: put x w fun_upd_idem[where f = "idx_at ?w", OF i] split: list.split)
next
  show "\<not> (skey k \<and> zkey k)" for k by (rule keys_disjoint)
qed

interpretation memc: redis_client mem_redis "\<lambda>_. True" "\<lambda>s. s" Inr
  by unfold_locales

end
