(* ===== verification/Rules.thy ===== *)
theory Rules
  imports Conditions Cache_Contracts
begin

text \<open>The single-event and counting rules of \<open>detection/rules/\<close>: brute force, port scan (a stub in
the code), generic conditions and malware indicators.  A rule is evaluated over a cache \<open>C\<close>; the
identifier and the instant of the alert it may build are arguments.\<close>

text \<open>Severity of a configured rule: the text, upper-cased, with everything unknown \<open>Info\<close>
(\<open>GenericRule::new\<close>, \<open>CorrelationRule::new\<close>).\<close>

definition rule_severity :: "string \<Rightarrow> alert_severity" where
  "rule_severity s = (let u = to_uppercase s in
     if u = ''CRITICAL'' then Critical else if u = ''HIGH'' then High
     else if u = ''MEDIUM'' then Medium else if u = ''LOW'' then Low else Info)"

lemma rule_severity_parse: "rule_severity s = option_or Info (parse_alert_severity s)"
  by (simp add: rule_severity_def parse_alert_severity_def option_or_def Let_def)

section \<open>Brute force\<close>

record brute_force_rule =
  bf_tenant :: string
  bf_id :: string
  bf_name :: string
  bf_threshold :: nat
  bf_window :: int

definition bf_log_types :: "log_tag list" where "bf_log_types = [Auth]"

definition bf_evaluate ::
  "'s cache \<Rightarrow> brute_force_rule \<Rightarrow> nat \<Rightarrow> instant \<Rightarrow> log \<Rightarrow> (alert option, 's) cmd" where
  "bf_evaluate C r uuid now l =
     (if \<not> is_failed_login l then ok None
      else bind_ok (c_increment_counter C (l_source_ip l) (int_as_u64 (bf_window r))) (\<lambda>count.
        ok (if bf_threshold r \<le> count then
              Some (alert_new uuid now (l_tenant l) (bf_id r) (bf_name r) High
                (''Possible brute force attack from '' @ l_source_ip l @ '': '' @ show_nat count
                   @ '' failed attempts'')
                (l_source_ip l) [l])
            else None)))"

text \<open>Several evaluations in a row, of any rules on any logs.\<close>

fun bf_run ::
  "'s cache \<Rightarrow> (brute_force_rule \<times> log) list \<Rightarrow> nat \<Rightarrow> instant \<Rightarrow> 's
   \<Rightarrow> (error + alert option) list \<times> 's" where
  "bf_run C [] uuid now s = ([], s)"
| "bf_run C ((r, l) # xs) uuid now s =
     (case bf_evaluate C r uuid now l s of (res, s') \<Rightarrow>
        (case bf_run C xs (uuid + 1) now s' of (ress, s'') \<Rightarrow> (res # ress, s'')))"

definition failed_from :: "string \<Rightarrow> (brute_force_rule \<times> log) list \<Rightarrow> nat" where
  "failed_from ip xs = length (filter (\<lambda>(r, l). is_failed_login l \<and> l_source_ip l = ip) xs)"

definition window_ok :: "brute_force_rule \<Rightarrow> bool" where
  "window_ok r \<longleftrightarrow> 0 < bf_window r \<and> bf_window r < 2 ^ 63"

context counter_cache
begin

lemma bf_evaluate_counts:
  assumes "window_ok r" "is_failed_login l" "cnt s (l_source_ip l) = Some n" "n + 1 < 2 ^ 32"
  shows "\<exists>s'. bf_evaluate C r uuid now l s = (Inr (if bf_threshold r \<le> n + 1 then
              Some (alert_new uuid now (l_tenant l) (bf_id r) (bf_name r) High
                (''Possible brute force attack from '' @ l_source_ip l @ '': '' @ show_nat (n + 1)
                   @ '' failed attempts'')
                (l_source_ip l) [l]) else None), s')
     \<and> cnt s' = (cnt s)(l_source_ip l \<mapsto> n + 1)"
proof -
  have w: "0 < int_as_u64 (bf_window r)" "int_as_u64 (bf_window r) < 2 ^ 63"
    using assms(1) by (simp_all add: window_ok_def int_as_u64_id nat_less_iff)
  obtain s' where "c_increment_counter C (l_source_ip l) (int_as_u64 (bf_window r)) s = (Inr (n + 1), s')"
    "cnt s' = (cnt s)(l_source_ip l \<mapsto> n + 1)"
    using inc_result[OF assms(3,4) w] .
  then show ?thesis using assms(2) by (simp add: bf_evaluate_def bind_ok_def ok_def)
qed

lemma bf_evaluate_other: "\<not> is_failed_login l \<Longrightarrow> bf_evaluate C r uuid now l s = (Inr None, s)"
  by (simp add: bf_evaluate_def ok_def)

lemma bf_run_verdicts:
  assumes "\<forall>(r, l) \<in> set xs. window_ok r"
    and "\<forall>ip. \<exists>n. cnt s ip = Some n \<and> n + failed_from ip xs < 2 ^ 32"
    and "j < length xs" "xs ! j = (r, l)"
  shows "\<exists>a. fst (bf_run C xs uuid now s) ! j = Inr a \<and>
     ((a \<noteq> None) = (is_failed_login l \<and>
        bf_threshold r \<le> the (cnt s (l_source_ip l)) + failed_from (l_source_ip l) (take (Suc j) xs)))"
  using assms
proof (induction xs arbitrary: s uuid j)
  case (Cons x xs)
  obtain r0 l0 where x: "x = (r0, l0)" by (cases x)
  show ?case
  proof (cases "is_failed_login l0")
    case False
    have ev: "bf_evaluate C r0 uuid now l0 s = (Inr None, s)" using False by (rule bf_evaluate_other)
    have ff: "failed_from ip (x # ys) = failed_from ip ys" for ip ys
      using False by (simp add: failed_from_def x)
    show ?thesis
    proof (cases j)
      case 0
      then show ?thesis using Cons.prems ev x False by (auto split: prod.splits)
    next
      case (Suc i)
      have "\<exists>a. fst (bf_run C xs (uuid + 1) now s) ! i = Inr a \<and>
        ((a \<noteq> None) = (is_failed_login l \<and>
          bf_threshold r \<le> the (cnt s (l_source_ip l)) + failed_from (l_source_ip l) (take (Suc i) xs)))"
        by (rule Cons.IH) (use Cons.prems Suc ff in auto)
      then show ?thesis using ev x Suc ff by (auto split: prod.splits)
    qed
  next
    case True
    obtain n where n: "cnt s (l_source_ip l0) = Some n"
      and nb: "n + failed_from (l_source_ip l0) (x # xs) < 2 ^ 32" using Cons.prems(2) by blast
    have ff: "failed_from ip (x # ys) = failed_from ip ys + (if ip = l_source_ip l0 then 1 else 0)"
      for ip ys using True by (simp add: failed_from_def x)
    have w: "window_ok r0" using Cons.prems(1) x by simp
    have n1: "n + 1 < 2 ^ 32" using nb ff[of "l_source_ip l0" xs] by simp
    obtain a s' where ev: "bf_evaluate C r0 uuid now l0 s = (Inr a, s')"
      and a: "(a \<noteq> None) = (bf_threshold r0 \<le> n + 1)"
      and s': "cnt s' = (cnt s)(l_source_ip l0 \<mapsto> n + 1)"
      using bf_evaluate_counts[OF w True n n1, of uuid now] by auto
    show ?thesis
    proof (cases j)
      case 0
      then show ?thesis using Cons.prems ev x True a n ff[of "l_source_ip l0" "[]"]
        by (auto simp: failed_from_def split: prod.splits)
    next
      case (Suc i)
      have b: "\<forall>ip. \<exists>n. cnt s' ip = Some n \<and> n + failed_from ip xs < 2 ^ 32"
      proof
        fix ip
        obtain m where "cnt s ip = Some m" "m + failed_from ip (x # xs) < 2 ^ 32"
          using Cons.prems(2) by blast
        then show "\<exists>n. cnt s' ip = Some n \<and> n + failed_from ip xs < 2 ^ 32"
          using s' ff[of ip xs] n by (auto split: if_splits)
      qed
      have "\<exists>a. fst (bf_run C xs (uuid + 1) now s') ! i = Inr a \<and>
        ((a \<noteq> None) = (is_failed_login l \<and>
          bf_threshold r \<le> the (cnt s' (l_source_ip l)) + failed_from (l_source_ip l) (take (Suc i) xs)))"
        by (rule Cons.IH) (use Cons.prems Suc b in auto)
      moreover have "the (cnt s' (l_source_ip l)) + failed_from (l_source_ip l) (take (Suc i) xs)
          = the (cnt s (l_source_ip l)) + failed_from (l_source_ip l) (take (Suc j) (x # xs))"
        using s' n Suc ff[of "l_source_ip l" "take (Suc i) xs"] by simp
      ultimately show ?thesis using ev x Suc by (auto split: prod.splits)
    qed
  qed
qed simp

end

section \<open>Port scan\<close>

record port_scan_rule =
  ps_tenant :: string
  ps_id :: string
  ps_name :: string
  ps_port_threshold :: nat
  ps_window :: int

definition ps_log_types :: "log_tag list" where "ps_log_types = [Network]"

definition ps_evaluate :: "port_scan_rule \<Rightarrow> log \<Rightarrow> (alert option, 's) cmd" where
  "ps_evaluate r l = ok None"

section \<open>Generic conditions\<close>

record generic_rule =
  gr_tenant :: string
  gr_id :: string
  gr_name :: string
  gr_severity :: alert_severity
  gr_condition :: rule_condition

definition generic_new :: "string \<Rightarrow> string \<Rightarrow> string \<Rightarrow> string \<Rightarrow> rule_condition \<Rightarrow> generic_rule" where
  "generic_new tenant i name sev c = \<lparr> gr_tenant = tenant, gr_id = i, gr_name = name,
     gr_severity = rule_severity sev, gr_condition = c \<rparr>"

definition gr_log_types :: "log_tag list" where "gr_log_types = [Auth, Network, Malware]"

text \<open>The alert of a generic or correlation rule: one event, its own timestamps.\<close>

definition event_alert ::
  "nat \<Rightarrow> string \<Rightarrow> string \<Rightarrow> alert_severity \<Rightarrow> string \<Rightarrow> log \<Rightarrow> alert" where
  "event_alert uuid rule_id name sev descr l =
     \<lparr> a_id = uuid, a_tenant = l_tenant l, a_rule_id = rule_id, a_rule_name = name,
       a_severity = sev, a_description = descr, a_source_ip = l_source_ip l, a_events = [l],
       a_first_seen = l_timestamp l, a_last_seen = l_timestamp l, a_status = New,
       a_events_count = 1 \<rparr>"

definition gr_evaluate :: "ssh_regex \<Rightarrow> generic_rule \<Rightarrow> nat \<Rightarrow> log \<Rightarrow> (alert option, 's) cmd" where
  "gr_evaluate re r uuid l =
     ok (if evaluate re (gr_condition r) l then
           Some (event_alert uuid (gr_id r) (gr_name r) (gr_severity r)
                   (''Rule triggered: '' @ gr_name r) l)
         else None)"

section \<open>Malware indicators\<close>

definition malicious_domains :: "string list" where
  "malicious_domains = [''malware.com'', ''evil.org'', ''c2-server.net'', ''ransomware.biz'']"

definition malicious_ips :: "string list" where
  "malicious_ips = [''185.23.44.2'', ''45.33.22.11'']"

definition malicious_simple_iocs :: "string list" where
  "malicious_simple_iocs =
     [''malware.com'', ''evil.org'', ''c2-server.net'', ''ransomware.biz'', ''powershell'',
      ''-enc'', ''certutil'', ''-urlcache'', ''wget'', ''curl'', ''cmd /c'']"

text \<open>The regex set of the command patterns; \<open>.\<close> is any character but a newline.\<close>

definition within_line :: "pattern \<Rightarrow> pattern" where
  "within_line p = Seq (Any_Of (\<lambda>c. c \<noteq> CHR 0x0A)) p"

definition malicious_complex_patterns :: "pattern list" where
  "malicious_complex_patterns =
     [Seq (Lit ''powershell'') (within_line (Lit ''-enc'')),
      Seq (Lit ''certutil'') (within_line (Lit ''-urlcache'')),
      Seq (Lit ''wget'') (within_line (Alt (Lit ''malware'') (Lit ''evil''))),
      Seq (Lit ''curl'') (within_line (Alt (Lit ''malware'') (Lit ''evil''))),
      Seq (Lit ''cmd'') (within_line (Seq (Lit ''/c'') (within_line (Alt (Lit ''malware'') (Lit ''evil'')))))]"

text \<open>The libraries this rule calls: the pattern indices an Aho-Corasick automaton built from a
list of patterns reports on a text, the complex regex set, and the iteration order of a hash
set of indices.\<close>

record ioc_match =
  ac_find :: "string list \<Rightarrow> string \<Rightarrow> nat list"
  complex_match :: "string \<Rightarrow> bool"
  hash_order :: "nat set \<Rightarrow> nat list"

text \<open>Their documented behaviour: a reported pattern occurs in the text, some pattern is reported
when one occurs, the regex set matches when one of its patterns does somewhere in the text, and iterating a
finite set yields its elements once each.\<close>

definition ioc_laws :: "ioc_match \<Rightarrow> bool" where
  "ioc_laws M \<longleftrightarrow>
     (\<forall>ps t i. i \<in> set (ac_find M ps t) \<longrightarrow> i < length ps \<and> contains t (ps ! i)) \<and>
     (\<forall>ps t. (\<exists>p \<in> set ps. contains t p) \<longrightarrow> ac_find M ps t \<noteq> []) \<and>
     (\<forall>t. complex_match M t \<longleftrightarrow> (\<exists>p \<in> set malicious_complex_patterns. occurs p t)) \<and>
     (\<forall>A. finite A \<longrightarrow> set (hash_order M A) = A \<and> distinct (hash_order M A))"

record malware_rule =
  mr_tenant :: string
  mr_id :: string
  mr_name :: string

definition mr_log_types :: "log_tag list" where "mr_log_types = [Malware, Network, Auth]"

definition check_ip :: "string \<Rightarrow> bool" where
  "check_ip ip \<longleftrightarrow> ip \<in> set malicious_ips"

definition find_simple_iocs :: "ioc_match \<Rightarrow> string \<Rightarrow> string list" where
  "find_simple_iocs M msg =
     map (\<lambda>i. malicious_simple_iocs ! i)
       (hash_order M (set (ac_find M malicious_simple_iocs (to_lowercase msg))))"

definition static_reasons :: "ioc_match \<Rightarrow> log \<Rightarrow> string list" where
  "static_reasons M l =
     (if check_ip (l_source_ip l) then [''Known malicious IP: '' @ l_source_ip l] else [])
     @ map (\<lambda>ioc. if ioc \<in> set malicious_domains
              then ''Communication with malicious domain: '' @ ioc
              else ''Suspicious IOC fragment detected: '' @ ioc) (find_simple_iocs M (l_message l))
     @ (if complex_match M (l_message l) then [''Suspicious command pattern detected''] else [])"

fun join :: "string \<Rightarrow> string list \<Rightarrow> string" where
  "join sep [] = []"
| "join sep [x] = x"
| "join sep (x # y # zs) = x @ sep @ join sep (y # zs)"

definition mr_evaluate ::
  "ioc_match \<Rightarrow> 's cache \<Rightarrow> malware_rule \<Rightarrow> nat \<Rightarrow> instant \<Rightarrow> log \<Rightarrow> (alert option, 's) cmd" where
  "mr_evaluate M C r uuid now l =
     (let reasons = static_reasons M l in
      bind_ok (c_get_ip_reputation C (l_source_ip l)) (\<lambda>score.
        let reasons = reasons @ (case score of None \<Rightarrow> []
              | Some n \<Rightarrow> if 80 \<le> n then [''High-risk IP (reputation score: '' @ show_nat n @ '')'']
                          else [])
        in ok (if reasons \<noteq> [] then
             Some (alert_new uuid now (l_tenant l) (mr_id r) (mr_name r) High
               (''Potential malware activity: '' @ join '', '' reasons) (l_source_ip l) [l])
           else None)))"

lemma find_simple_iocs_nonempty:
  assumes "ioc_laws M"
  shows "find_simple_iocs M msg \<noteq> [] \<longleftrightarrow>
     (\<exists>p \<in> set malicious_simple_iocs. contains (to_lowercase msg) p)"
proof -
  let ?I = "ac_find M malicious_simple_iocs (to_lowercase msg)"
  have "set (hash_order M (set ?I)) = set ?I" using assms by (simp add: ioc_laws_def)
  then have "find_simple_iocs M msg \<noteq> [] \<longleftrightarrow> ?I \<noteq> []"
    unfolding find_simple_iocs_def by (metis map_is_Nil_conv set_empty)
  moreover have "?I \<noteq> [] \<Longrightarrow> \<exists>p \<in> set malicious_simple_iocs. contains (to_lowercase msg) p"
    using assms unfolding ioc_laws_def by (metis list.set_intros(1) neq_Nil_conv nth_mem)
  ultimately show ?thesis using assms unfolding ioc_laws_def by blast
qed

lemma find_simple_iocs_sound:
  assumes "ioc_laws M" "p \<in> set (find_simple_iocs M msg)"
  shows "p \<in> set malicious_simple_iocs \<and> contains (to_lowercase msg) p"
proof -
  let ?I = "ac_find M malicious_simple_iocs (to_lowercase msg)"
  have "set (hash_order M (set ?I)) = set ?I" using assms(1) by (simp add: ioc_laws_def)
  then obtain i where "i \<in> set ?I" "p = malicious_simple_iocs ! i"
    using assms(2) by (auto simp: find_simple_iocs_def)
  then show ?thesis using assms(1) unfolding ioc_laws_def by (metis nth_mem)
qed

lemma static_reasons_nonempty:
  assumes "ioc_laws M"
  shows "static_reasons M l \<noteq> [] \<longleftrightarrow> check_ip (l_source_ip l)
     \<or> (\<exists>p \<in> set malicious_simple_iocs. contains (to_lowercase (l_message l)) p)
     \<or> (\<exists>p \<in> set malicious_complex_patterns. occurs p (l_message l))"
proof -
  have "complex_match M (l_message l) \<longleftrightarrow> (\<exists>p \<in> set malicious_complex_patterns. occurs p (l_message l))"
    using assms by (simp add: ioc_laws_def)
  then show ?thesis using find_simple_iocs_nonempty[OF assms, of "l_message l"] by (auto simp: static_reasons_def)
qed

text \<open>The verdicts for a client of any server, ready to use outside.\<close>

context redis_client
begin

lemmas bf_verdicts = counter.bf_run_verdicts

end

end
