(* ===== verification/Correlation.thy ===== *)
theory Correlation
  imports Rules
begin

text \<open>The correlation rule (\<open>detection/rules/correlation.rs\<close>): a staged match per group of events,
kept in the cache as a serialized state beside an index of the active groups, with event-time
windows, a watermark for late events and a bound on the number of groups.  The hash of a group
key and the serializer of the state are parameters.\<close>

section \<open>Definitions and state\<close>

datatype eviction_policy = Oldest_First | Drop_Newest

record corr_stage =
  cs_name :: string
  cs_condition :: rule_condition
  cs_min_count :: nat

record corr_definition =
  cd_window_seconds :: nat
  cd_version :: nat
  cd_max_active_groups :: nat
  cd_lateness :: int
  cd_state_ttl :: nat
  cd_eviction :: eviction_policy
  cd_group_by :: "string list"
  cd_stages :: "corr_stage list"

text \<open>What a stored definition leaves out is filled in with these.\<close>

definition default_version :: nat where "default_version = 1"

definition default_max_active_groups :: nat where "default_max_active_groups = 4096"

definition default_watermark_lateness_seconds :: int where "default_watermark_lateness_seconds = 30"

definition default_state_ttl_seconds :: nat where "default_state_ttl_seconds = 900"

record corr_state =
  st_group_key :: string
  st_stage :: nat
  st_events :: nat
  st_window_start :: int
  st_max_ts :: int
  st_last_ts :: int

record corr_rule =
  cr_tenant :: string
  cr_id :: string
  cr_name :: string
  cr_severity :: alert_severity
  cr_def :: corr_definition

record corr_ext =
  cx_hash :: "string \<Rightarrow> nat"
  cx_ser :: "corr_state \<Rightarrow> string"
  cx_de :: "string \<Rightarrow> corr_state option"
  cx_re :: ssh_regex

text \<open>\<open>i64\<close> arithmetic: saturating and wrapping subtraction.\<close>

definition sat_sub_i64 :: "int \<Rightarrow> int \<Rightarrow> int" where
  "sat_sub_i64 a b = max (- (2 ^ 63)) (min (2 ^ 63 - 1) (a - b))"

definition wrap_i64 :: "int \<Rightarrow> int" where
  "wrap_i64 i = (i + 2 ^ 63) mod 2 ^ 64 - 2 ^ 63"

definition corr_new ::
  "string \<Rightarrow> string \<Rightarrow> string \<Rightarrow> string \<Rightarrow> corr_definition \<Rightarrow> corr_rule" where
  "corr_new tenant i name sev d = \<lparr> cr_tenant = tenant, cr_id = i, cr_name = name,
     cr_severity = rule_severity sev, cr_def = d \<rparr>"

definition group_part :: "log \<Rightarrow> string \<Rightarrow> string" where
  "group_part l field =
     (if field = ''source_ip'' then l_source_ip l
      else if field = ''target_user'' then option_or [] (l_target_user l)
      else if field = ''event_type'' then l_event_type l
      else [])"

definition get_group_key :: "corr_rule \<Rightarrow> log \<Rightarrow> string" where
  "get_group_key r l = join '':'' (map (group_part l) (cd_group_by (cr_def r)))"

definition namespace :: "corr_rule \<Rightarrow> string" where
  "namespace r = ''cep:'' @ cr_tenant r @ '':'' @ cr_id r @ '':v'' @ show_nat (cd_version (cr_def r))"

definition hex_digit :: "nat \<Rightarrow> char" where
  "hex_digit n = (if n < 10 then char_of (48 + n) else char_of (87 + n))"

fun show_hex :: "nat \<Rightarrow> nat \<Rightarrow> string" where
  "show_hex 0 n = []"
| "show_hex (Suc w) n = show_hex w (n div 16) @ [hex_digit (n mod 16)]"

definition state_key :: "corr_ext \<Rightarrow> corr_rule \<Rightarrow> string \<Rightarrow> string" where
  "state_key X r gk = namespace r @ '':state:'' @ show_hex 16 (cx_hash X gk)"

definition active_index_key :: "corr_rule \<Rightarrow> string" where
  "active_index_key r = namespace r @ '':active''"

definition lateness :: "corr_rule \<Rightarrow> int" where
  "lateness r = max (cd_lateness (cr_def r)) 0"

definition state_ttl_seconds :: "corr_rule \<Rightarrow> nat" where
  "state_ttl_seconds r = max (cd_state_ttl (cr_def r))
     (sat_add64 (sat_add64 (cd_window_seconds (cr_def r)) (nat (lateness r))) 60)"

definition is_stale_by_watermark :: "corr_rule \<Rightarrow> corr_state \<Rightarrow> int \<Rightarrow> bool" where
  "is_stale_by_watermark r st ts \<longleftrightarrow> ts < sat_sub_i64 (st_max_ts st) (lateness r)"

definition reset_state :: "string \<Rightarrow> int \<Rightarrow> corr_state" where
  "reset_state gk ts = \<lparr> st_group_key = gk, st_stage = 0, st_events = 0, st_window_start = ts,
     st_max_ts = ts, st_last_ts = ts \<rparr>"

section \<open>The steps over the cache\<close>

definition decode_state :: "corr_ext \<Rightarrow> string \<Rightarrow> int \<Rightarrow> string option \<Rightarrow> corr_state" where
  "decode_state X gk ts v = (case v of None \<Rightarrow> reset_state gk ts
     | Some j \<Rightarrow> (case cx_de X j of
           Some st \<Rightarrow> if st_group_key st = gk then st else reset_state gk ts
         | None \<Rightarrow> reset_state gk ts))"

definition load_state ::
  "corr_ext \<Rightarrow> 's cache \<Rightarrow> string \<Rightarrow> string \<Rightarrow> int \<Rightarrow> (corr_state, 's) cmd" where
  "load_state X C sk gk ts =
     bind_ok (c_get_string C sk) (\<lambda>v. ok (decode_state X gk ts v))"

definition evict_if_needed :: "'s cache \<Rightarrow> corr_rule \<Rightarrow> string \<Rightarrow> (bool, 's) cmd" where
  "evict_if_needed C r sk =
     bind_ok (c_zcard C (active_index_key r)) (\<lambda>n.
       if n < cd_max_active_groups (cr_def r) then ok True
       else (case cd_eviction (cr_def r) of
           Oldest_First \<Rightarrow> bind_ok (c_zpopmin C (active_index_key r)) (\<lambda>old s.
             (case old of
                Some k \<Rightarrow> ok True (ignore (c_delete_key C k) s)
              | None \<Rightarrow> ok True s))
         | Drop_Newest \<Rightarrow> (\<lambda>s. ok False (ignore (c_zrem C (active_index_key r) sk) s))))"

definition persist_state :: "corr_ext \<Rightarrow> 's cache \<Rightarrow> corr_rule \<Rightarrow> string \<Rightarrow> corr_state \<Rightarrow> (unit, 's) cmd" where
  "persist_state X C r sk st =
     bind_ok (c_set_string C sk (cx_ser X st) (Some (state_ttl_seconds r))) (\<lambda>_.
     bind_ok (c_zadd C (active_index_key r) sk (st_last_ts st)) (\<lambda>_.
     c_expire_key C (active_index_key r) (state_ttl_seconds r)))"

text \<open>The part of \<open>evaluate\<close> that moves the watermark and closes an expired window.\<close>

definition advance_window :: "corr_rule \<Rightarrow> string \<Rightarrow> int \<Rightarrow> corr_state \<Rightarrow> corr_state" where
  "advance_window r gk ts st0 =
     (let st = st0 \<lparr> st_max_ts := (if ts > st_max_ts st0 then ts else st_max_ts st0), st_last_ts := ts \<rparr>;
          watermark = sat_sub_i64 (st_max_ts st) (lateness r)
      in if wrap_i64 (watermark - st_window_start st) > u64_as_i64 (cd_window_seconds (cr_def r))
         then reset_state gk ts else st)"

definition looks_new :: "int \<Rightarrow> corr_state \<Rightarrow> bool" where
  "looks_new ts st \<longleftrightarrow> st_stage st = 0 \<and> st_events st = 0 \<and> st_window_start st = ts \<and> st_max_ts st = ts"

text \<open>The part that matches the event against the current stage: the next state, or \<open>None\<close> when
the last stage completes.\<close>

definition match_stage :: "ssh_regex \<Rightarrow> corr_rule \<Rightarrow> int \<Rightarrow> log \<Rightarrow> corr_state \<Rightarrow> corr_state option" where
  "match_stage re r ts l st =
     (let stages = cd_stages (cr_def r) in
      if st_stage st < length stages \<and> evaluate re (cs_condition (stages ! st_stage st)) l then
        (let n = (st_events st + 1) mod 2 ^ 32; st1 = st \<lparr> st_events := n, st_last_ts := ts \<rparr> in
         if cs_min_count (stages ! st_stage st) \<le> n then
           (let st2 = st1 \<lparr> st_stage := st_stage st + 1, st_events := 0 \<rparr> in
            if length stages \<le> st_stage st2 then None else Some st2)
         else Some st1)
      else Some st)"

definition corr_alert :: "corr_rule \<Rightarrow> nat \<Rightarrow> log \<Rightarrow> alert" where
  "corr_alert r uuid l = event_alert uuid (cr_id r) (cr_name r) (cr_severity r)
     (''Correlation rule triggered: '' @ cr_name r) l"

definition cr_log_types :: "log_tag list" where "cr_log_types = [Auth, Network, Malware]"

definition corr_evaluate ::
  "corr_ext \<Rightarrow> 's cache \<Rightarrow> corr_rule \<Rightarrow> nat \<Rightarrow> log \<Rightarrow> (alert option, 's) cmd" where
  "corr_evaluate X C r uuid l =
     (let gk = get_group_key r l in
      if gk = [] then ok None
      else
        (let ts = timestamp (l_timestamp l); sk = state_key X r gk in
         bind_ok (load_state X C sk gk ts) (\<lambda>st0.
         if is_stale_by_watermark r st0 ts then ok None
         else
           (let st = advance_window r gk ts st0 in
            bind_ok (if looks_new ts st then evict_if_needed C r sk else ok True) (\<lambda>allowed.
            if \<not> allowed then ok None
            else (case match_stage (cx_re X) r ts l st of
                None \<Rightarrow> (\<lambda>s. ok (Some (corr_alert r uuid l))
                   (ignore (c_zrem C (active_index_key r) sk) (ignore (c_delete_key C sk) s)))
              | Some st' \<Rightarrow> bind_ok (persist_state X C r sk st') (\<lambda>_. ok None)))))))"

section \<open>The specification: one group as a pure machine\<close>

datatype corr_outcome = Late | Keep corr_state | Fire

definition corr_step :: "ssh_regex \<Rightarrow> corr_rule \<Rightarrow> string \<Rightarrow> int \<Rightarrow> log \<Rightarrow> corr_state \<Rightarrow> corr_outcome" where
  "corr_step re r gk ts l st0 =
     (if is_stale_by_watermark r st0 ts then Late
      else case match_stage re r ts l (advance_window r gk ts st0) of
             None \<Rightarrow> Fire | Some st \<Rightarrow> Keep st)"

text \<open>Well-formed states: the stage is one of the rule's, the count is below the stage's minimum
(one at least), and the watermark is not behind the window start.\<close>

definition corr_wf :: "corr_rule \<Rightarrow> corr_state \<Rightarrow> bool" where
  "corr_wf r st \<longleftrightarrow> st_stage st < length (cd_stages (cr_def r))
     \<and> st_events st < max 1 (cs_min_count (cd_stages (cr_def r) ! st_stage st))
     \<and> st_window_start st \<le> st_max_ts st"

lemma reset_wf: "cd_stages (cr_def r) \<noteq> [] \<Longrightarrow> corr_wf r (reset_state gk ts)"
  by (simp add: corr_wf_def reset_state_def)

lemma advance_wf:
  "corr_wf r st \<Longrightarrow> cd_stages (cr_def r) \<noteq> [] \<Longrightarrow> corr_wf r (advance_window r gk ts st)"
  using reset_wf[of r gk ts] by (auto simp: advance_window_def Let_def corr_wf_def)

lemma match_wf:
  assumes "corr_wf r st" "match_stage re r ts l st = Some st'"
  shows "corr_wf r st'"
  using assms by (auto simp: match_stage_def corr_wf_def Let_def split: if_splits)

lemma match_group: "match_stage re r ts l st = Some st' \<Longrightarrow> st_group_key st' = st_group_key st"
  by (auto simp: match_stage_def Let_def split: if_splits)

lemma advance_group: "st_group_key st = gk \<Longrightarrow> st_group_key (advance_window r gk ts st) = gk"
  by (auto simp: advance_window_def Let_def reset_state_def)

lemma corr_step_Keep:
  "corr_step re r gk ts l st = Keep st' \<longleftrightarrow> \<not> is_stale_by_watermark r st ts
     \<and> match_stage re r ts l (advance_window r gk ts st) = Some st'"
  by (simp add: corr_step_def split: option.splits)

lemma corr_step_Fire:
  "corr_step re r gk ts l st = Fire \<longleftrightarrow> \<not> is_stale_by_watermark r st ts
     \<and> match_stage re r ts l (advance_window r gk ts st) = None"
  by (simp add: corr_step_def split: option.splits)

lemma corr_step_Late: "corr_step re r gk ts l st = Late \<longleftrightarrow> is_stale_by_watermark r st ts"
  by (simp add: corr_step_def split: option.splits)

lemmas corr_step_cases = corr_step_Keep corr_step_Fire corr_step_Late

lemma corr_step_wf:
  assumes "corr_wf r st" "corr_step re r gk ts l st = Keep st'"
  shows "corr_wf r st'"
proof -
  have "cd_stages (cr_def r) \<noteq> []" using assms(1) by (auto simp: corr_wf_def)
  from advance_wf[OF assms(1) this] match_wf assms(2) show ?thesis
    unfolding corr_step_Keep by blast
qed

lemma corr_step_group:
  "st_group_key st = gk \<Longrightarrow> corr_step re r gk ts l st = Keep st' \<Longrightarrow> st_group_key st' = gk"
  using match_group[of re r ts l "advance_window r gk ts st" st'] advance_group[of st gk r ts]
  by (simp add: corr_step_Keep)

text \<open>A step moves at most one stage, and fires only from the last one, on an event that satisfies
its condition.\<close>

lemma match_stage_progress:
  "match_stage re r ts l st = Some st' \<Longrightarrow> st_stage st' = st_stage st \<or> st_stage st' = Suc (st_stage st)"
  by (auto simp: match_stage_def Let_def split: if_splits)

lemma match_stage_fire:
  "match_stage re r ts l st = None \<Longrightarrow>
     Suc (st_stage st) = length (cd_stages (cr_def r))
     \<and> evaluate re (cs_condition (cd_stages (cr_def r) ! st_stage st)) l
     \<and> cs_min_count (cd_stages (cr_def r) ! st_stage st) \<le> (st_events st + 1) mod 2 ^ 32"
  by (auto simp: match_stage_def Let_def split: if_splits)

lemma advance_stage: "st_stage (advance_window r gk ts st) \<le> st_stage st"
  by (simp add: advance_window_def Let_def reset_state_def)

text \<open>The machine of one group over a sequence of events: the state starts fresh at the first event
and after each alert.\<close>

fun corr_run :: "ssh_regex \<Rightarrow> corr_rule \<Rightarrow> string \<Rightarrow> corr_state option \<Rightarrow> log list \<Rightarrow> bool list" where
  "corr_run re r gk so [] = []"
| "corr_run re r gk so (l # ls) =
     (let ts = timestamp (l_timestamp l);
          st = (case so of None \<Rightarrow> reset_state gk ts | Some st \<Rightarrow> st)
      in case corr_step re r gk ts l st of
           Late \<Rightarrow> False # corr_run re r gk (Some st) ls
         | Keep st' \<Rightarrow> False # corr_run re r gk (Some st') ls
         | Fire \<Rightarrow> True # corr_run re r gk None ls)"

text \<open>Soundness against the plain reading of a correlation: when the machine fires, the events so far
contain, in order, a match of every stage.  \<open>stages_matched k ls\<close> says that the first \<open>k\<close> stages
have matching events in order within \<open>ls\<close>.\<close>

fun matched_in_order :: "ssh_regex \<Rightarrow> rule_condition list \<Rightarrow> log list \<Rightarrow> bool" where
  "matched_in_order re [] ls = True"
| "matched_in_order re (c # cs) [] = False"
| "matched_in_order re (c # cs) (l # ls) =
     ((evaluate re c l \<and> matched_in_order re cs ls) \<or> matched_in_order re (c # cs) ls)"

lemma matched_weaken: "matched_in_order re cs ls \<Longrightarrow> matched_in_order re cs (ls' @ ls)"
proof (induction ls')
  case (Cons l ls')
  then show ?case by (cases cs) auto
qed simp

lemma matched_append:
  "matched_in_order re cs xs \<Longrightarrow> matched_in_order re ds ys \<Longrightarrow> matched_in_order re (cs @ ds) (xs @ ys)"
proof (induction re cs xs rule: matched_in_order.induct)
  case (1 re ls)
  then show ?case by (simp add: matched_weaken)
next
  case (3 re c cs l ls)
  then show ?case by auto
qed simp

lemma matched_extend: "matched_in_order re cs ls \<Longrightarrow> matched_in_order re cs (ls @ ys)"
  using matched_append[of re cs ls "[]" ys] by simp

lemma matched_take:
  "matched_in_order re (cs @ ds) ls \<Longrightarrow> matched_in_order re cs ls"
proof (induction re cs ls rule: matched_in_order.induct)
  case (3 re c cs l ls)
  then show ?case by auto
qed auto

definition expand_stages :: "corr_stage list \<Rightarrow> rule_condition list" where
  "expand_stages ss = concat (map (\<lambda>s. replicate (max 1 (cs_min_count s)) (cs_condition s)) ss)"

text \<open>The progress a state claims is backed by the events seen so far.\<close>

definition backed :: "ssh_regex \<Rightarrow> corr_rule \<Rightarrow> log list \<Rightarrow> corr_state \<Rightarrow> bool" where
  "backed re r pre st \<longleftrightarrow> (let ss = cd_stages (cr_def r) in
     st_stage st < length ss \<and>
     matched_in_order re (expand_stages (take (st_stage st) ss)
        @ replicate (st_events st) (cs_condition (ss ! st_stage st))) pre)"

lemma matched_fewer:
  assumes "matched_in_order re (cs @ replicate n c) ls" "m \<le> n"
  shows "matched_in_order re (cs @ replicate m c) ls"
proof -
  have "replicate n c = replicate m c @ replicate (n - m) c"
    using assms(2) by (simp add: replicate_add[symmetric])
  then show ?thesis using assms(1) matched_take[of re "cs @ replicate m c"] by simp
qed

lemma backed_reset: "cd_stages (cr_def r) \<noteq> [] \<Longrightarrow> backed re r pre (reset_state gk ts)"
  by (simp add: backed_def reset_state_def expand_stages_def)

lemma backed_advance:
  assumes "backed re r pre st"
  shows "backed re r pre (advance_window r gk ts st)"
proof -
  have "cd_stages (cr_def r) \<noteq> []" using assms by (auto simp: backed_def Let_def)
  then have "backed re r pre (reset_state gk ts)" by (rule backed_reset)
  then show ?thesis using assms by (auto simp: advance_window_def Let_def backed_def)
qed

lemma backed_more:
  assumes "backed re r pre st"
  shows "backed re r (pre @ ls) st"
  using assms matched_extend unfolding backed_def Let_def by blast

lemma backed_one:
  assumes "backed re r pre st" "evaluate re (cs_condition (cd_stages (cr_def r) ! st_stage st)) l"
  shows "matched_in_order re (expand_stages (take (st_stage st) (cd_stages (cr_def r)))
     @ replicate (Suc (st_events st)) (cs_condition (cd_stages (cr_def r) ! st_stage st))) (pre @ [l])"
proof -
  let ?c = "cs_condition (cd_stages (cr_def r) ! st_stage st)"
  have "matched_in_order re [?c] [l]" using assms(2) by simp
  moreover have "matched_in_order re (expand_stages (take (st_stage st) (cd_stages (cr_def r)))
     @ replicate (st_events st) ?c) pre"
    using assms(1) by (simp add: backed_def Let_def)
  ultimately have "matched_in_order re ((expand_stages (take (st_stage st) (cd_stages (cr_def r)))
     @ replicate (st_events st) ?c) @ [?c]) (pre @ [l])"
    by (intro matched_append)
  then show ?thesis by (simp add: replicate_append_same)
qed

lemma backed_stage_done:
  assumes "backed re r pre st" "evaluate re (cs_condition (cd_stages (cr_def r) ! st_stage st)) l"
    and "cs_min_count (cd_stages (cr_def r) ! st_stage st) \<le> Suc (st_events st)"
  shows "matched_in_order re (expand_stages (take (Suc (st_stage st)) (cd_stages (cr_def r)))) (pre @ [l])"
proof -
  let ?s = "cd_stages (cr_def r) ! st_stage st"
  have "st_stage st < length (cd_stages (cr_def r))" using assms(1) by (simp add: backed_def Let_def)
  then have "expand_stages (take (Suc (st_stage st)) (cd_stages (cr_def r)))
      = expand_stages (take (st_stage st) (cd_stages (cr_def r)))
        @ replicate (max 1 (cs_min_count ?s)) (cs_condition ?s)"
    by (simp add: expand_stages_def take_Suc_conv_app_nth)
  then show ?thesis using matched_fewer[OF backed_one[OF assms(1,2)]] assms(3) by simp
qed

lemma match_stage_backed:
  assumes "backed re r pre st"
  shows "case match_stage re r ts l st of
       None \<Rightarrow> matched_in_order re (expand_stages (cd_stages (cr_def r))) (pre @ [l])
     | Some st' \<Rightarrow> backed re r (pre @ [l]) st'"
proof -
  let ?ss = "cd_stages (cr_def r)" let ?n = "(st_events st + 1) mod 2 ^ 32"
  have n: "?n \<le> Suc (st_events st)" using mod_less_eq_dividend[of "st_events st + 1"] by simp
  have i: "st_stage st < length ?ss" using assms by (simp add: backed_def Let_def)
  show ?thesis
  proof (cases "evaluate re (cs_condition (?ss ! st_stage st)) l")
    case False
    then show ?thesis using backed_more[OF assms] by (simp add: match_stage_def)
  next
    case True
    show ?thesis
    proof (cases "cs_min_count (?ss ! st_stage st) \<le> ?n")
      case full: True
      have m: "matched_in_order re (expand_stages (take (Suc (st_stage st)) ?ss)) (pre @ [l])"
        using backed_stage_done[OF assms True] full n by simp
      show ?thesis
      proof (cases "Suc (st_stage st) < length ?ss")
        case True': True
        then show ?thesis using m True full i by (simp add: match_stage_def Let_def backed_def)
      next
        case False
        then have "take (Suc (st_stage st)) ?ss = ?ss" by simp
        then show ?thesis using m True full i False by (simp add: match_stage_def Let_def)
      qed
    next
      case False
      have "matched_in_order re (expand_stages (take (st_stage st) ?ss)
         @ replicate ?n (cs_condition (?ss ! st_stage st))) (pre @ [l])"
        by (rule matched_fewer[OF backed_one[OF assms True] n])
      then show ?thesis using True False i by (simp add: match_stage_def Let_def backed_def)
    qed
  qed
qed

lemma corr_run_backed:
  assumes "cd_stages (cr_def r) \<noteq> []" "\<And>st. so = Some st \<Longrightarrow> backed re r pre st"
    and "j < length ls" "corr_run re r gk so ls ! j"
  shows "matched_in_order re (expand_stages (cd_stages (cr_def r))) (pre @ take (Suc j) ls)"
  using assms
proof (induction ls arbitrary: so pre j)
  case (Cons l ls)
  define ts where "ts = timestamp (l_timestamp l)"
  define st where "st = (case so of None \<Rightarrow> reset_state gk ts | Some st \<Rightarrow> st)"
  have b: "backed re r pre st"
    using Cons.prems(1,2) by (cases so) (simp_all add: st_def backed_reset)
  note M = match_stage_backed[OF backed_advance[OF b, of gk ts], where ts = ts and l = l]
  have run: "corr_run re r gk so (l # ls) = (case corr_step re r gk ts l st of
        Late \<Rightarrow> False # corr_run re r gk (Some st) ls
      | Keep st' \<Rightarrow> False # corr_run re r gk (Some st') ls
      | Fire \<Rightarrow> True # corr_run re r gk None ls)"
    by (simp only: corr_run.simps Let_def ts_def st_def)
  have later: "matched_in_order re (expand_stages (cd_stages (cr_def r))) (pre @ take (Suc j) (l # ls))"
    if "j = Suc i" "corr_run re r gk so' ls ! i" "\<And>st'. so' = Some st' \<Longrightarrow> backed re r (pre @ [l]) st'"
    for i so'
    using Cons.IH[OF Cons.prems(1) that(3) _ that(2)] Cons.prems(3) that(1) by simp
  show ?case
  proof (cases "corr_step re r gk ts l st")
    case Late
    then show ?thesis using Cons.prems(4) run backed_more[OF b] later
      by (cases j) auto
  next
    case (Keep st')
    then have "backed re r (pre @ [l]) st'" using M by (simp add: corr_step_Keep)
    then show ?thesis using Cons.prems(4) run later Keep by (cases j) auto
  next
    case Fire
    then have "matched_in_order re (expand_stages (cd_stages (cr_def r))) (pre @ [l])"
      using M by (simp add: corr_step_Fire)
    then show ?thesis using Cons.prems(4) run later[of _ None] Fire by (cases j) auto
  qed
qed simp

end
