(* ===== verification/Correlation_Store.thy ===== *)
theory Correlation_Store
  imports Correlation
begin

text \<open>The correlation rule over a cache that keeps its contract: the effectful evaluation refines the
pure machine of the group, and the index of active groups stays within its bound when the
oldest group is evicted.\<close>

section \<open>Keys\<close>

lemma hex_digit_not_colon: "n < 16 \<Longrightarrow> hex_digit n \<noteq> CHR '':''"
proof -
  assume "n < 16"
  then have "(of_char (hex_digit n) :: nat) = (if n < 10 then 48 + n else 87 + n)"
    by (simp add: hex_digit_def of_char_of)
  then show ?thesis using \<open>n < 16\<close> by (auto split: if_splits)
qed

lemma show_hex_length [simp]: "length (show_hex w n) = w"
  by (induction w arbitrary: n) auto

lemma show_hex_no_colon: "CHR '':'' \<notin> set (show_hex w n)"
proof (induction w arbitrary: n)
  case (Suc w)
  then show ?case using hex_digit_not_colon[of "n mod 16"] by fastforce
qed simp

definition is_state_key :: "string \<Rightarrow> bool" where
  "is_state_key k \<longleftrightarrow> (\<exists>p h. k = p @ '':state:'' @ show_hex 16 h)"

definition is_active_key :: "string \<Rightarrow> bool" where
  "is_active_key k \<longleftrightarrow> ends_with k '':active''"

lemma state_key_ok [simp]: "is_state_key (state_key X r gk)"
  unfolding is_state_key_def state_key_def by blast

lemma active_key_ok [simp]: "is_active_key (active_index_key r)"
  unfolding is_active_key_def active_index_key_def ends_with_iff by blast

lemma key_kinds_disjoint: "\<not> (is_state_key k \<and> is_active_key k)"
proof
  assume "is_state_key k \<and> is_active_key k"
  then obtain p h where k: "k = p @ '':state:'' @ show_hex 16 h" and e: "ends_with k '':active''"
    by (auto simp: is_state_key_def is_active_key_def)
  have "drop (length k - 7) k = drop 9 (show_hex 16 h)" by (simp add: k)
  moreover have "length '':active'' = 7" by simp
  then have "drop (length k - 7) k = '':active''" using e unfolding ends_with_def by metis
  ultimately have "CHR '':'' \<in> set (drop 9 (show_hex 16 h))" by (metis list.set_intros(1))
  then show False using show_hex_no_colon in_set_dropD by metis
qed

lemma state_not_active: "state_key X r gk \<noteq> active_index_key r'"
  using key_kinds_disjoint state_key_ok active_key_ok by metis

lemma hex_digit_inject:
  assumes "hex_digit a = hex_digit b" "a < 16" "b < 16"
  shows "a = b"
proof -
  have v: "(of_char (hex_digit n) :: nat) = (if n < 10 then 48 + n else 87 + n)" if "n < 16" for n
    using that by (simp add: hex_digit_def of_char_of)
  from assms(1) v[OF assms(2)] v[OF assms(3)]
  have "(if a < 10 then 48 + a else 87 + a) = (if b < 10 then 48 + b else 87 + b)" by simp
  then show ?thesis by (simp split: if_splits)
qed

lemma show_hex_inject: "m < 16 ^ w \<Longrightarrow> n < 16 ^ w \<Longrightarrow> show_hex w m = show_hex w n \<Longrightarrow> m = n"
proof (induction w arbitrary: m n)
  case (Suc w)
  have "m div 16 < 16 ^ w" "n div 16 < 16 ^ w"
    using Suc.prems(1,2) by (simp_all add: less_mult_imp_div_less mult.commute)
  then have "m div 16 = n div 16" using Suc.IH Suc.prems(3) by simp
  moreover have "m mod 16 = n mod 16" using Suc.prems(3) by (intro hex_digit_inject) auto
  ultimately show ?case by (metis div_mult_mod_eq)
qed simp

lemma state_key_inject:
  "cx_hash X a < 2 ^ 64 \<Longrightarrow> cx_hash X b < 2 ^ 64 \<Longrightarrow>
   state_key X r a = state_key X r b \<longleftrightarrow> cx_hash X a = cx_hash X b"
  using show_hex_inject[of "cx_hash X a" 16 "cx_hash X b"] by (auto simp: state_key_def)

section \<open>Over the contract\<close>

text \<open>The settings under which a rule runs as intended: the serializer reads back what it writes and
the lifetime of a state fits the server's range.\<close>

definition corr_ready :: "corr_ext \<Rightarrow> corr_rule \<Rightarrow> bool" where
  "corr_ready X r \<longleftrightarrow> (\<forall>st. cx_de X (cx_ser X st) = Some st) \<and> state_ttl_seconds r < 2 ^ 63"

lemma ttl_positive: "0 < state_ttl_seconds r"
  by (simp add: state_ttl_seconds_def sat_add64_def)

definition stored_state :: "corr_ext \<Rightarrow> string \<Rightarrow> string option \<Rightarrow> corr_state option" where
  "stored_state X gk v = (case v of None \<Rightarrow> None
     | Some j \<Rightarrow> (case cx_de X j of None \<Rightarrow> None
         | Some st \<Rightarrow> if st_group_key st = gk then Some st else None))"

lemma decode_stored:
  "decode_state X gk ts v = (case stored_state X gk v of None \<Rightarrow> reset_state gk ts | Some st \<Rightarrow> st)"
  by (simp add: decode_state_def stored_state_def split: option.splits)

context index_cache
begin

lemma load_ok:
  assumes "ready s" "skey sk"
  obtains s' where "load_state X C sk gk ts s = (Inr (decode_state X gk ts (str s sk)), s')"
    "ready s'" "str s' = str s" "idx s' = idx s"
  using get_law[OF assms] by (auto simp: load_state_def bind_ok_def ok_def)

lemma persist_ok:
  assumes "ready s" "skey sk" "zkey (active_index_key r)" "state_ttl_seconds r < 2 ^ 63"
  obtains s' where "persist_state X C r sk st s = (Inr (), s')" "ready s'"
    "str s' = (str s)(sk \<mapsto> cx_ser X st)"
    "idx s' = (idx s)(active_index_key r :=
        al_update sk (of_int (st_last_ts st)) (idx s (active_index_key r)))"
proof -
  obtain s1 where s1: "c_set_string C sk (cx_ser X st) (Some (state_ttl_seconds r)) s = (Inr (), s1)"
    "ready s1" "str s1 = (str s)(sk \<mapsto> cx_ser X st)" "idx s1 = idx s"
    using set_law[OF assms(1,2) ttl_positive assms(4)] by blast
  obtain s2 where s2: "c_zadd C (active_index_key r) sk (st_last_ts st) s1 = (Inr (), s2)"
    "ready s2" "str s2 = str s1"
    "idx s2 = (idx s1)(active_index_key r :=
        al_update sk (of_int (st_last_ts st)) (idx s1 (active_index_key r)))"
    using zadd_law[OF s1(2) assms(3)] by blast
  obtain s3 where s3: "c_expire_key C (active_index_key r) (state_ttl_seconds r) s2 = (Inr (), s3)"
    "ready s3" "str s3 = str s2" "idx s3 = idx s2"
    using expire_law[OF s2(2) assms(3) ttl_positive assms(4)] by blast
  show thesis
    by (rule that[of s3]) (simp_all add: s1 s2 s3 persist_state_def bind_ok_def)
qed

lemma clear_ok:
  assumes "ready s" "zkey A" "A \<noteq> sk"
  obtains s' where "ignore (c_zrem C A sk) (ignore (c_delete_key C sk) s) = s'" "ready s'"
    "str s' = (str s)(sk := None)" "idx s' A = filter (\<lambda>e. fst e \<noteq> sk) (idx s A)"
    "\<And>z. z \<noteq> A \<Longrightarrow> z \<noteq> sk \<Longrightarrow> idx s' z = idx s z"
proof -
  obtain s1 where s1: "c_delete_key C sk s = (Inr (), s1)" "ready s1"
    "str s1 = (str s)(sk := None)" "idx s1 = (idx s)(sk := [])"
    using del_law[OF assms(1)] by blast
  obtain s2 where s2: "c_zrem C A sk s1 = (Inr (), s2)" "ready s2" "str s2 = str s1"
    "idx s2 = (idx s1)(A := filter (\<lambda>e. fst e \<noteq> sk) (idx s1 A))"
    using zrem_law[OF s1(2) assms(2)] by blast
  show thesis
    by (rule that[of s2]) (use assms(3) in \<open>simp_all add: s1 s2 ignore_def\<close>)
qed

lemma evict_room:
  assumes "ready s" "zkey (active_index_key r)"
    "length (idx s (active_index_key r)) < cd_max_active_groups (cr_def r)"
  obtains s' where "evict_if_needed C r sk s = (Inr True, s')" "ready s'" "str s' = str s" "idx s' = idx s"
  using zcard_law[OF assms(1,2)] assms(3) by (auto simp: evict_if_needed_def bind_ok_def ok_def)

text \<open>One evaluation with room in the index is one step of the pure machine on the stored state of
the group, and touches nothing else.\<close>

lemma evaluate_refines:
  assumes R: "ready s" "corr_ready X r" "skey (state_key X r gk)" "zkey (active_index_key r)"
    and gk: "get_group_key r l = gk" "gk \<noteq> []"
    and room: "length (idx s (active_index_key r)) < cd_max_active_groups (cr_def r)"
    and step: "step = corr_step (cx_re X) r gk (timestamp (l_timestamp l)) l
       (decode_state X gk (timestamp (l_timestamp l)) (str s (state_key X r gk)))"
  shows "\<exists>s'. corr_evaluate X C r uuid l s
        = (Inr (if step = Fire then Some (corr_alert r uuid l) else None), s')
     \<and> ready s'
     \<and> str s' = (case step of Late \<Rightarrow> str s
           | Keep st \<Rightarrow> (str s)(state_key X r gk \<mapsto> cx_ser X st)
           | Fire \<Rightarrow> (str s)(state_key X r gk := None))
     \<and> idx s' (active_index_key r) = (case step of Late \<Rightarrow> idx s (active_index_key r)
           | Keep st \<Rightarrow> al_update (state_key X r gk) (of_int (st_last_ts st)) (idx s (active_index_key r))
           | Fire \<Rightarrow> filter (\<lambda>e. fst e \<noteq> state_key X r gk) (idx s (active_index_key r)))"
proof -
  define ts where "ts = timestamp (l_timestamp l)"
  define sk where "sk = state_key X r gk"
  define A where "A = active_index_key r"
  define st0 where "st0 = decode_state X gk ts (str s sk)"
  define st where "st = advance_window r gk ts st0"
  have keys: "skey sk" "zkey A" using R by (simp_all add: sk_def A_def)
  then have ne: "A \<noteq> sk" using disjoint by blast
  have ttl: "state_ttl_seconds r < 2 ^ 63" using R(2) by (simp add: corr_ready_def)
  have step': "step = corr_step (cx_re X) r gk ts l st0"
    by (simp add: step ts_def st0_def sk_def)
  obtain s1 where s1: "load_state X C sk gk ts s = (Inr st0, s1)" "ready s1" "str s1 = str s"
    "idx s1 = idx s"
    using load_ok[OF R(1) keys(1)] unfolding st0_def .
  note unf = corr_evaluate_def gk Let_def ts_def[symmetric] sk_def[symmetric] A_def[symmetric]
  show ?thesis
  proof (cases "is_stale_by_watermark r st0 ts")
    case True
    then have "step = Late" by (simp add: step' corr_step_Late)
    then show ?thesis using s1 True gk(2) by (simp add: unf bind_ok_def ok_def)
  next
    case False
    obtain s2 where s2: "(if looks_new ts st then evict_if_needed C r sk else ok True) s1 = (Inr True, s2)"
      "ready s2" "str s2 = str s" "idx s2 = idx s"
    proof (cases "looks_new ts st")
      case True
      obtain s' where "evict_if_needed C r sk s1 = (Inr True, s')" "ready s'" "str s' = str s1"
        "idx s' = idx s1"
        using evict_room[OF s1(2) R(4)] room s1(4) by metis
      then show thesis using that s1 True by simp
    next
      case False
      then show thesis using that s1 by (simp add: ok_def)
    qed
    have run: "corr_evaluate X C r uuid l s = (case match_stage (cx_re X) r ts l st of
        None \<Rightarrow> ok (Some (corr_alert r uuid l)) (ignore (c_zrem C A sk) (ignore (c_delete_key C sk) s2))
      | Some st' \<Rightarrow> bind_ok (persist_state X C r sk st') (\<lambda>_. ok None) s2)"
      using s1 s2(1) False gk(2)
      by (auto simp: unf bind_ok_def st_def[symmetric] ok_def split: option.splits if_splits)
    show ?thesis
    proof (cases "match_stage (cx_re X) r ts l st")
      case None
      then have "step = Fire" using False by (simp add: step' corr_step_Fire st_def)
      moreover obtain s' where "ignore (c_zrem C A sk) (ignore (c_delete_key C sk) s2) = s'"
        "ready s'" "str s' = (str s2)(sk := None)" "idx s' A = filter (\<lambda>e. fst e \<noteq> sk) (idx s2 A)"
        using clear_ok[OF s2(2) keys(2) ne] by metis
      ultimately show ?thesis using run None s2(3,4) by (simp add: ok_def sk_def A_def)
    next
      case (Some st')
      then have "step = Keep st'" using False by (simp add: step' corr_step_Keep st_def)
      moreover obtain s' where "persist_state X C r sk st' s2 = (Inr (), s')" "ready s'"
        "str s' = (str s2)(sk \<mapsto> cx_ser X st')"
        "idx s' = (idx s2)(active_index_key r :=
            al_update sk (of_int (st_last_ts st')) (idx s2 (active_index_key r)))"
        using persist_ok[OF s2(2) keys(1) R(4) ttl, of X st'] .
      ultimately show ?thesis using run Some s2(3,4) by (simp add: ok_def bind_ok_def sk_def A_def)
    qed
  qed
qed

end

section \<open>The bound on active groups\<close>

lemma length_al_update:
  "length (al_update k v xs) = (if k \<in> fst ` set xs then length xs else Suc (length xs))"
  by (induction k v xs rule: al_update.induct) auto

lemma distinct_filter_fst: "distinct (map fst xs) \<Longrightarrow> distinct (map fst (filter P xs))"
  by (induction xs) auto

lemma length_filter_one:
  assumes "distinct (map fst xs)" "e \<in> set xs"
  shows "Suc (length (filter (\<lambda>e'. fst e' \<noteq> fst e) xs)) = length xs"
  using assms
proof (induction xs)
  case (Cons x xs)
  show ?case
  proof (cases "fst x = fst e")
    case True
    then have "filter (\<lambda>e'. fst e' \<noteq> fst e) xs = xs"
      using Cons.prems by (auto simp: filter_id_conv image_iff)
    then show ?thesis using True by simp
  next
    case False
    then show ?thesis using Cons by auto
  qed
qed simp

lemma looks_new_fresh: "looks_new ts (advance_window r gk ts (reset_state gk ts))"
  by (simp add: looks_new_def advance_window_def reset_state_def Let_def)

text \<open>The groups of a rule are indexed when every stored state is in the index; members are state
keys, once each; the bound holds.\<close>

definition indexed ::
  "corr_ext \<Rightarrow> corr_rule \<Rightarrow> (string \<Rightarrow> string option) \<Rightarrow> (string \<times> rat) list \<Rightarrow> bool" where
  "indexed X r st ix \<longleftrightarrow>
     (\<forall>gk. st (state_key X r gk) \<noteq> None \<longrightarrow> state_key X r gk \<in> fst ` set ix)
     \<and> (\<forall>k \<in> fst ` set ix. is_state_key k) \<and> distinct (map fst ix)
     \<and> length ix \<le> cd_max_active_groups (cr_def r)"

lemma indexed_remove:
  "indexed X r st ix \<Longrightarrow> indexed X r (st(k := None)) (filter (\<lambda>e. fst e \<noteq> k) ix)"
  unfolding indexed_def by (auto simp: distinct_filter_fst intro: le_trans[OF length_filter_le])

lemma indexed_add:
  assumes "indexed X r st ix" "is_state_key sk"
    and "sk \<in> fst ` set ix \<or> length ix < cd_max_active_groups (cr_def r)"
  shows "indexed X r (st(sk \<mapsto> v)) (al_update sk x ix)"
  using assms unfolding indexed_def
  by (auto simp: keys_al_update distinct_al_update length_al_update)

lemma indexed_pop:
  assumes "indexed X r st ix" "e \<in> set ix"
  shows "indexed X r (st(fst e := None)) (filter (\<lambda>e'. fst e' \<noteq> fst e) ix)"
    and "length (filter (\<lambda>e'. fst e' \<noteq> fst e) ix) < cd_max_active_groups (cr_def r)"
  using indexed_remove[OF assms(1)] length_filter_one[of ix e] assms
  by (auto simp: indexed_def)

context index_cache
begin

lemma evict_oldest:
  assumes "ready s" "zkey (active_index_key r)" "cd_eviction (cr_def r) = Oldest_First"
    and "indexed X r (str s) (idx s (active_index_key r))" "0 < cd_max_active_groups (cr_def r)"
  obtains s' where "evict_if_needed C r sk s = (Inr True, s')" "ready s'"
    "indexed X r (str s') (idx s' (active_index_key r))"
    "length (idx s' (active_index_key r)) < cd_max_active_groups (cr_def r)"
proof -
  let ?A = "active_index_key r"
  obtain s1 where s1: "c_zcard C ?A s = (Inr (length (idx s ?A)), s1)" "ready s1" "str s1 = str s"
    "idx s1 = idx s" using zcard_law[OF assms(1,2)] by blast
  show thesis
  proof (cases "length (idx s ?A) < cd_max_active_groups (cr_def r)")
    case True
    then show thesis
      by (intro that[of s1]) (simp_all add: s1 evict_if_needed_def bind_ok_def ok_def assms)
  next
    case False
    with assms(5) have "zsort (idx s ?A) \<noteq> []" by (metis gr_zeroI length_0_conv zsort_length)
    then obtain e rest where e: "zsort (idx s ?A) = e # rest" by (cases "zsort (idx s ?A)") auto
    then have e_in: "e \<in> set (idx s ?A)" by (metis list.set_intros(1) zsort_set)
    obtain s2 where s2: "c_zpopmin C ?A s1 = (Inr (Some (fst e)), s2)" "ready s2" "str s2 = str s1"
      "idx s2 = (idx s1)(?A := filter (\<lambda>e'. fst e' \<noteq> fst e) (idx s ?A))"
      using zpopmin_law[OF s1(2) assms(2)] e s1(4) by auto
    obtain s3 where s3: "c_delete_key C (fst e) s2 = (Inr (), s3)" "ready s3"
      "str s3 = (str s2)(fst e := None)" "idx s3 = (idx s2)(fst e := [])"
      using del_law[OF s2(2)] by blast
    have "is_state_key (fst e)" using assms(4) e_in by (auto simp: indexed_def)
    then have ne: "?A \<noteq> fst e" using key_kinds_disjoint active_key_ok by metis
    note pop = indexed_pop[OF assms(4) e_in]
    show thesis
      by (rule that[of s3])
         (use pop False ne assms(3) in
           \<open>simp_all add: s1 s2 s3 evict_if_needed_def bind_ok_def ok_def ignore_def\<close>)
  qed
qed

lemma evaluate_bounded:
  assumes R: "ready s" "corr_ready X r" "skey (state_key X r (get_group_key r l))" "zkey (active_index_key r)"
    and pol: "cd_eviction (cr_def r) = Oldest_First" "0 < cd_max_active_groups (cr_def r)"
    and ix: "indexed X r (str s) (idx s (active_index_key r))"
  shows "\<exists>v s'. corr_evaluate X C r uuid l s = (Inr v, s') \<and> ready s'
     \<and> indexed X r (str s') (idx s' (active_index_key r))"
proof (cases "get_group_key r l = []")
  case True
  then show ?thesis using R(1) ix by (simp add: corr_evaluate_def ok_def Let_def)
next
  case gk: False
  define gk where "gk = get_group_key r l"
  define ts where "ts = timestamp (l_timestamp l)"
  define sk where "sk = state_key X r gk"
  define A where "A = active_index_key r"
  define st0 where "st0 = decode_state X gk ts (str s sk)"
  define st where "st = advance_window r gk ts st0"
  have keys: "skey sk" "zkey A" "is_state_key sk" using R by (simp_all add: sk_def A_def gk_def)
  have neA: "A \<noteq> sk" using keys disjoint by blast
  have ttl: "state_ttl_seconds r < 2 ^ 63" using R(2) by (simp add: corr_ready_def)
  note ixA = ix[folded A_def]
  obtain s1 where s1: "load_state X C sk gk ts s = (Inr st0, s1)" "ready s1" "str s1 = str s"
    "idx s1 = idx s"
    using load_ok[OF R(1) keys(1)] unfolding st0_def .
  note unf = corr_evaluate_def gk_def[symmetric] Let_def ts_def[symmetric] sk_def[symmetric]
    A_def[symmetric]
  have gk': "gk \<noteq> []" using gk by (simp add: gk_def)
  show ?thesis
  proof (cases "is_stale_by_watermark r st0 ts")
    case True
    then show ?thesis using s1 gk' ixA by (simp add: unf bind_ok_def ok_def)
  next
    case False
    obtain s2 where s2: "(if looks_new ts st then evict_if_needed C r sk else ok True) s1 = (Inr True, s2)"
      "ready s2" "indexed X r (str s2) (idx s2 A)"
      "sk \<in> fst ` set (idx s2 A) \<or> length (idx s2 A) < cd_max_active_groups (cr_def r)"
    proof (cases "looks_new ts st")
      case True
      obtain s' where "evict_if_needed C r sk s1 = (Inr True, s')" "ready s'"
        "indexed X r (str s') (idx s' A)" "length (idx s' A) < cd_max_active_groups (cr_def r)"
        using evict_oldest[of s1 r X sk] R(4) pol ixA s1 unfolding A_def by metis
      then show thesis using that True by simp
    next
      case False
      have "str s sk \<noteq> None"
      proof
        assume "str s sk = None"
        then have "st0 = reset_state gk ts" by (simp add: st0_def decode_state_def)
        then show False using False looks_new_fresh by (simp add: st_def)
      qed
      then have "sk \<in> fst ` set (idx s A)" using ixA by (auto simp: indexed_def sk_def)
      then show thesis using that s1 False ixA by (simp add: ok_def)
    qed
    have run: "corr_evaluate X C r uuid l s = (case match_stage (cx_re X) r ts l st of
        None \<Rightarrow> ok (Some (corr_alert r uuid l)) (ignore (c_zrem C A sk) (ignore (c_delete_key C sk) s2))
      | Some st' \<Rightarrow> bind_ok (persist_state X C r sk st') (\<lambda>_. ok None) s2)"
      using s1 s2(1) False gk'
      by (auto simp: unf bind_ok_def st_def[symmetric] ok_def split: option.splits if_splits)
    show ?thesis
    proof (cases "match_stage (cx_re X) r ts l st")
      case None
      obtain s' where "ignore (c_zrem C A sk) (ignore (c_delete_key C sk) s2) = s'" "ready s'"
        "str s' = (str s2)(sk := None)" "idx s' A = filter (\<lambda>e. fst e \<noteq> sk) (idx s2 A)"
        using clear_ok[OF s2(2) keys(2) neA] by metis
      then show ?thesis using run None indexed_remove[OF s2(3)] by (simp add: ok_def A_def)
    next
      case (Some st')
      obtain s' where "persist_state X C r sk st' s2 = (Inr (), s')" "ready s'"
        "str s' = (str s2)(sk \<mapsto> cx_ser X st')"
        "idx s' = (idx s2)(A := al_update sk (of_int (st_last_ts st')) (idx s2 A))"
        using persist_ok[OF s2(2) keys(1) R(4) ttl] unfolding A_def by metis
      then show ?thesis using run Some indexed_add[OF s2(3) keys(3) s2(4)]
        by (simp add: ok_def bind_ok_def A_def)
    qed
  qed
qed

end

text \<open>The cache of the model keeps the contract, for the two kinds of keys of this rule.\<close>

interpretation corr_mem: typed_client mem_redis "\<lambda>_. True" "\<lambda>s. s" Inr is_state_key is_active_key
  by unfold_locales (rule key_kinds_disjoint)

text \<open>The refinement and the bound for a typed client of any server, ready to use outside.\<close>

context typed_client
begin

lemmas corr_refines = index.evaluate_refines

lemmas corr_bounded = index.evaluate_bounded

end

end
