(* ===== verification/Database.thy ===== *)
theory Database
  imports Types Conditions
begin

text \<open>The relational store (\<open>db/postgres.rs\<close> over the schema of \<open>db/migrations/\<close>): its tables as
lists of rows, and the SQL statements of the code as functions on them.  A statement can fail
(the oracle \<open>db_fault\<close> says which executions do), and a failing statement changes no table: each
is its own transaction.  \<open>NOW()\<close> reads \<open>db_now\<close>, fresh UUIDs come from \<open>db_next\<close>.  A
\<open>timestamptz\<close> column keeps microseconds.  Rows that an \<open>ORDER BY\<close> leaves tied keep the table's
order.\<close>

section \<open>Rows\<close>

record alert_row =
  ar_id :: nat
  ar_tenant :: string
  ar_rule_id :: string
  ar_rule_name :: string
  ar_severity :: string
  ar_description :: string
  ar_source_ip :: string
  ar_events :: "log list"
  ar_first_seen :: instant
  ar_last_seen :: instant
  ar_status :: string
  ar_events_count :: int
  ar_created :: instant
  ar_updated :: instant

record stats_row =
  sr_tenant :: string
  sr_logs :: int
  sr_alerts :: int
  sr_active :: int
  sr_critical :: int

record user_row =
  u_id :: nat
  u_tenant :: string
  u_email :: string
  u_password_hash :: string
  u_role :: string
  u_created :: instant
  u_updated :: instant

text \<open>\<open>DetectionRule\<close>, \<open>RuleCreate\<close>, \<open>RuleUpdate\<close> of \<open>db/models/rule.rs\<close>.\<close>

record detection_rule =
  dr_id :: nat
  dr_tenant :: string
  dr_name :: string
  dr_description :: "string option"
  dr_rule_type :: string
  dr_severity :: string
  dr_threshold :: "int option"
  dr_window :: "int option"
  dr_condition :: "json option"
  dr_enabled :: bool
  dr_created :: instant
  dr_updated :: instant

record rule_create =
  rc_tenant :: string
  rc_name :: string
  rc_description :: "string option"
  rc_rule_type :: string
  rc_severity :: string
  rc_threshold :: "int option"
  rc_window :: "int option"
  rc_condition :: "json option"

record rule_update =
  ru_name :: "string option"
  ru_description :: "string option"
  ru_severity :: "string option"
  ru_threshold :: "int option"
  ru_window :: "int option"
  ru_condition :: "json option"
  ru_enabled :: "bool option"

record audit_event =
  ae_id :: nat
  ae_tenant :: string
  ae_actor_user_id :: string
  ae_actor_email :: string
  ae_actor_roles :: "string list"
  ae_action :: string
  ae_resource_type :: string
  ae_resource_id :: "string option"
  ae_target_tenant :: "string option"
  ae_request_id :: "string option"
  ae_metadata :: json
  ae_previous_hash :: "string option"
  ae_event_hash :: string
  ae_signature :: string
  ae_created :: instant

record compliance_policy =
  cp_tenant :: string
  cp_retention_days :: int
  cp_legal_hold :: bool
  cp_hold_reason :: "string option"
  cp_hold_until :: "instant option"
  cp_review_days :: int
  cp_rotation_days :: int
  cp_last_rotation :: "instant option"
  cp_export_enabled :: bool
  cp_updated :: instant

record cost_policy =
  kp_tenant :: string
  kp_daily_budget :: int
  kp_hot_budget :: int
  kp_warm_budget :: int
  kp_cold_budget :: int
  kp_sampling_enabled :: bool
  kp_low_percent :: int
  kp_high_percent :: int
  kp_drop_low_value :: bool
  kp_schema_rules :: json
  kp_source_budgets :: json
  kp_integration_budgets :: json
  kp_team_budgets :: json
  kp_updated :: instant

record reliability_report =
  rr_id :: nat
  rr_tenant :: string
  rr_type :: string
  rr_drill :: string
  rr_status :: string
  rr_started :: instant
  rr_completed :: instant
  rr_duration_ms :: int
  rr_summary :: json
  rr_created :: instant

record playbook =
  pb_id :: nat
  pb_tenant :: string
  pb_name :: string
  pb_description :: string
  pb_severity :: string
  pb_sla_minutes :: int
  pb_escalate_minutes :: int
  pb_steps :: json
  pb_enabled :: bool
  pb_created :: instant
  pb_updated :: instant

record case_record =
  ca_id :: nat
  ca_tenant :: string
  ca_alert_id :: nat
  ca_title :: string
  ca_summary :: string
  ca_severity :: string
  ca_status :: string
  ca_owner_id :: "string option"
  ca_owner_email :: "string option"
  ca_playbook_id :: "nat option"
  ca_sla_due :: "instant option"
  ca_escalation :: "instant option"
  ca_escalated :: "instant option"
  ca_resolved :: "instant option"
  ca_outcome :: "string option"
  ca_postmortem :: "string option"
  ca_created :: instant
  ca_updated :: instant

record alert_link =
  li_case :: nat
  li_alert :: nat
  li_tenant :: string
  li_created :: instant

record timeline_event =
  te_id :: nat
  te_case :: nat
  te_tenant :: string
  te_type :: string
  te_message :: string
  te_actor_id :: "string option"
  te_actor_email :: "string option"
  te_metadata :: json
  te_created :: instant

record db =
  db_alerts :: "alert_row list"
  db_stats :: "stats_row list"
  db_users :: "user_row list"
  db_rules :: "detection_rule list"
  db_audit :: "audit_event list"
  db_compliance :: "compliance_policy list"
  db_cost :: "cost_policy list"
  db_reports :: "reliability_report list"
  db_playbooks :: "playbook list"
  db_cases :: "case_record list"
  db_links :: "alert_link list"
  db_timeline :: "timeline_event list"
  db_now :: instant
  db_next :: nat
  db_calls :: nat
  db_fault :: "nat \<Rightarrow> bool"

type_synonym 'a dbop = "(error, 'a, db) eff"

definition db_empty :: "instant \<Rightarrow> db" where
  "db_empty now = \<lparr> db_alerts = [], db_stats = [], db_users = [], db_rules = [], db_audit = [],
     db_compliance = [], db_cost = [], db_reports = [], db_playbooks = [], db_cases = [],
     db_links = [], db_timeline = [], db_now = now, db_next = 0, db_calls = 0,
     db_fault = (\<lambda>_. False) \<rparr>"

section \<open>Statements\<close>

definition pg_time :: "instant \<Rightarrow> instant" where
  "pg_time t = (t div 1000) * 1000"

definition i32_of :: "int \<Rightarrow> int" where
  "i32_of n = (n + 2 ^ 31) mod 2 ^ 32 - 2 ^ 31"

definition stmt :: "'a dbop \<Rightarrow> 'a dbop" where
  "stmt f d = (let d' = d \<lparr> db_calls := db_calls d + 1 \<rparr> in
     if db_fault d (db_calls d) then (Inl Db_Error, d') else f d')"

definition select :: "(db \<Rightarrow> 'a) \<Rightarrow> 'a dbop" where
  "select f = stmt (\<lambda>d. (Inr (f d), d))"

definition execute :: "(db \<Rightarrow> db) \<Rightarrow> unit dbop" where
  "execute f = stmt (\<lambda>d. (Inr (), f d))"

definition fresh_uuid :: "nat dbop" where
  "fresh_uuid d = (Inr (db_next d), d \<lparr> db_next := db_next d + 1 \<rparr>)"

definition first_row :: "('a \<Rightarrow> bool) \<Rightarrow> 'a list \<Rightarrow> 'a option" where
  "first_row P xs = List.find P xs"

section \<open>Alerts\<close>

text \<open>The JSONB column of the events holds them as they are: the way through \<open>serde\_json\<close> and back, which
normalizes numbers, rejects NUL characters and falls back to no events when the column cannot be read, is left out.\<close>

definition row_of_alert :: "alert \<Rightarrow> alert_row" where
  "row_of_alert a = \<lparr> ar_id = a_id a, ar_tenant = a_tenant a, ar_rule_id = a_rule_id a,
     ar_rule_name = a_rule_name a, ar_severity = show_alert_severity (a_severity a),
     ar_description = a_description a, ar_source_ip = a_source_ip a, ar_events = a_events a,
     ar_first_seen = pg_time (a_first_seen a), ar_last_seen = pg_time (a_last_seen a),
     ar_status = show_alert_status (a_status a), ar_events_count = i32_of (int (a_events_count a)),
     ar_created = pg_time (a_first_seen a), ar_updated = pg_time (a_last_seen a) \<rparr>"

text \<open>\<open>DbAlert::into\_alert\<close>: an unreadable severity or status falls back to a default.\<close>

definition alert_of_row :: "alert_row \<Rightarrow> alert" where
  "alert_of_row r = \<lparr> a_id = ar_id r, a_tenant = ar_tenant r, a_rule_id = ar_rule_id r,
     a_rule_name = ar_rule_name r,
     a_severity = option_or Info (parse_alert_severity (ar_severity r)),
     a_description = ar_description r, a_source_ip = ar_source_ip r, a_events = ar_events r,
     a_first_seen = ar_first_seen r, a_last_seen = ar_last_seen r,
     a_status = option_or New (parse_alert_status (ar_status r)),
     a_events_count = nat (ar_events_count r mod 2 ^ 64) \<rparr>"

text \<open>The columns with a length bound; a longer value makes the statement fail.\<close>

definition alert_fits :: "alert \<Rightarrow> bool" where
  "alert_fits a \<longleftrightarrow> length (a_rule_id a) \<le> 255 \<and> length (a_rule_name a) \<le> 255
     \<and> length (a_source_ip a) \<le> 45"

text \<open>A multi-row insert: all rows or none; the primary key is the id alone.\<close>

definition insert_alerts :: "alert list \<Rightarrow> unit dbop" where
  "insert_alerts as = stmt (\<lambda>d.
     if list_all alert_fits as \<and> distinct (map a_id as)
        \<and> list_all (\<lambda>a. a_id a \<notin> set (map ar_id (db_alerts d))) as
     then (Inr (), d \<lparr> db_alerts := db_alerts d @ map row_of_alert as \<rparr>)
     else (Inl Db_Error, d))"

definition create_alert :: "alert \<Rightarrow> unit dbop" where
  "create_alert a = insert_alerts [a]"

definition create_alerts_batch :: "alert list \<Rightarrow> unit dbop" where
  "create_alerts_batch as = (if as = [] then ok () else insert_alerts as)"

definition upsert_row :: "alert \<Rightarrow> alert_row list \<Rightarrow> alert_row list" where
  "upsert_row a rows =
     (if \<exists>r \<in> set rows. ar_tenant r = a_tenant a \<and> ar_id r = a_id a then
        map (\<lambda>r. if ar_tenant r = a_tenant a \<and> ar_id r = a_id a then
           r \<lparr> ar_last_seen := pg_time (a_last_seen a), ar_status := show_alert_status (a_status a),
               ar_events_count := i32_of (int (a_events_count a)), ar_events := a_events a,
               ar_updated := pg_time (a_last_seen a) \<rparr> else r) rows
      else rows @ [row_of_alert a])"

text \<open>\<open>ON CONFLICT (tenant\_id, id) DO UPDATE\<close>: a row twice in one statement, or an id taken by
another tenant, makes it fail.\<close>

definition upsert_alerts_batch :: "alert list \<Rightarrow> unit dbop" where
  "upsert_alerts_batch as = (if as = [] then ok () else stmt (\<lambda>d.
     if list_all alert_fits as \<and> distinct (map a_id as)
        \<and> list_all (\<lambda>a. \<forall>r \<in> set (db_alerts d). ar_id r = a_id a \<longrightarrow> ar_tenant r = a_tenant a) as
     then (Inr (), d \<lparr> db_alerts := fold upsert_row as (db_alerts d) \<rparr>)
     else (Inl Db_Error, d)))"

definition is_open_status :: "string \<Rightarrow> bool" where
  "is_open_status s \<longleftrightarrow> s = ''NEW'' \<or> s = ''INVESTIGATING''"

definition by_last_seen :: "alert_row list \<Rightarrow> alert_row list" where
  "by_last_seen rows = sort_key (\<lambda>r. - ar_last_seen r) rows"

definition get_alert :: "string \<Rightarrow> nat \<Rightarrow> alert option dbop" where
  "get_alert t i = select (\<lambda>d. map_option alert_of_row
     (first_row (\<lambda>r. ar_tenant r = t \<and> ar_id r = i) (db_alerts d)))"

definition get_open_alerts_by_ip :: "string \<Rightarrow> string \<Rightarrow> alert list dbop" where
  "get_open_alerts_by_ip t ip = select (\<lambda>d. map alert_of_row (take 10 (by_last_seen
     (filter (\<lambda>r. ar_tenant r = t \<and> ar_source_ip r = ip \<and> is_open_status (ar_status r))
        (db_alerts d)))))"

definition get_open_alerts_by_ips :: "string \<Rightarrow> string list \<Rightarrow> alert list dbop" where
  "get_open_alerts_by_ips t ips = (if ips = [] then ok [] else select (\<lambda>d. map alert_of_row
     (by_last_seen (filter (\<lambda>r. ar_tenant r = t \<and> ar_source_ip r \<in> set ips
        \<and> is_open_status (ar_status r)) (db_alerts d)))))"

definition get_recent_alerts :: "string \<Rightarrow> int \<Rightarrow> alert list dbop" where
  "get_recent_alerts t limit = stmt (\<lambda>d. if limit < 0 then (Inl Db_Error, d)
     else (Inr (map alert_of_row (take (nat limit) (by_last_seen
        (filter (\<lambda>r. ar_tenant r = t) (db_alerts d))))), d))"

text \<open>\<open>update\_alert\<close> reads the old status and writes the row, both by id alone; the second
component of the result says whether the alert left the open states, in which case the caller's
cache counter is decremented.\<close>

definition update_alert_rows :: "alert \<Rightarrow> db \<Rightarrow> db" where
  "update_alert_rows a d = d \<lparr> db_alerts := map (\<lambda>r. if ar_id r = a_id a then
     r \<lparr> ar_last_seen := pg_time (a_last_seen a), ar_status := show_alert_status (a_status a),
         ar_events_count := i32_of (int (a_events_count a)), ar_updated := pg_time (a_last_seen a) \<rparr>
     else r) (db_alerts d) \<rparr>"

definition update_alert :: "alert \<Rightarrow> bool dbop" where
  "update_alert a =
     bind_ok (select (\<lambda>d. map_option ar_status (first_row (\<lambda>r. ar_id r = a_id a) (db_alerts d)))) (\<lambda>prev.
     bind_ok (execute (update_alert_rows a)) (\<lambda>_.
     ok (case prev of None \<Rightarrow> False
         | Some s \<Rightarrow> is_open_status s \<and> \<not> is_open_status (show_alert_status (a_status a)))))"

definition purge_alerts_before :: "string \<Rightarrow> instant \<Rightarrow> nat dbop" where
  "purge_alerts_before t cutoff = stmt (\<lambda>d.
     let gone = filter (\<lambda>r. ar_tenant r = t \<and> ar_created r < pg_time cutoff) (db_alerts d) in
     (Inr (length gone), d \<lparr> db_alerts :=
        filter (\<lambda>r. \<not> (ar_tenant r = t \<and> ar_created r < pg_time cutoff)) (db_alerts d) \<rparr>))"

section \<open>Statistics\<close>

definition get_stats :: "string \<Rightarrow> (int \<times> int \<times> int \<times> int) dbop" where
  "get_stats t = select (\<lambda>d. case first_row (\<lambda>r. sr_tenant r = t) (db_stats d) of
      None \<Rightarrow> (0, 0, 0, 0)
    | Some r \<Rightarrow> (sr_logs r, sr_alerts r, sr_active r, sr_critical r))"

definition save_stats :: "string \<Rightarrow> int \<Rightarrow> int \<Rightarrow> int \<Rightarrow> int \<Rightarrow> unit dbop" where
  "save_stats t n_logs n_alerts n_active n_critical = execute (\<lambda>d.
     let row = \<lparr> sr_tenant = t, sr_logs = n_logs, sr_alerts = n_alerts, sr_active = n_active,
                  sr_critical = n_critical \<rparr> in
     d \<lparr> db_stats := (if t \<in> set (map sr_tenant (db_stats d))
          then map (\<lambda>r. if sr_tenant r = t then row else r) (db_stats d)
          else db_stats d @ [row]) \<rparr>)"

section \<open>Users\<close>

definition create_user :: "string \<Rightarrow> string \<Rightarrow> string \<Rightarrow> string \<Rightarrow> user_row dbop" where
  "create_user t email hash role = stmt (\<lambda>d.
     if \<exists>u \<in> set (db_users d). u_tenant u = t \<and> u_email u = email then (Inl Db_Conflict, d)
     else (let u = \<lparr> u_id = db_next d, u_tenant = t, u_email = email, u_password_hash = hash,
                 u_role = role, u_created = pg_time (db_now d), u_updated = pg_time (db_now d) \<rparr>
           in (Inr u, d \<lparr> db_users := db_users d @ [u], db_next := db_next d + 1 \<rparr>)))"

definition get_user_by_email :: "string \<Rightarrow> string \<Rightarrow> user_row option dbop" where
  "get_user_by_email t email =
     select (\<lambda>d. first_row (\<lambda>u. u_tenant u = t \<and> u_email u = email) (db_users d))"

definition get_user_by_id :: "string \<Rightarrow> nat \<Rightarrow> user_row option dbop" where
  "get_user_by_id t i = select (\<lambda>d. first_row (\<lambda>u. u_tenant u = t \<and> u_id u = i) (db_users d))"

definition list_users_by_tenant :: "string \<Rightarrow> user_row list dbop" where
  "list_users_by_tenant t =
     select (\<lambda>d. sort_key u_created (filter (\<lambda>u. u_tenant u = t) (db_users d)))"

section \<open>Detection rules\<close>

definition get_all_rules :: "string \<Rightarrow> detection_rule list dbop" where
  "get_all_rules t = select (\<lambda>d. if t = [] then db_rules d
     else filter (\<lambda>r. dr_tenant r = t) (db_rules d))"

definition get_enabled_rules :: "string \<Rightarrow> detection_rule list dbop" where
  "get_enabled_rules t = select (\<lambda>d. if t = [] then filter dr_enabled (db_rules d)
     else filter (\<lambda>r. dr_tenant r = t \<and> dr_enabled r) (db_rules d))"

definition create_rule :: "rule_create \<Rightarrow> detection_rule dbop" where
  "create_rule c = stmt (\<lambda>d.
     if \<exists>r \<in> set (db_rules d). dr_tenant r = rc_tenant c \<and> dr_name r = rc_name c
     then (Inl Db_Error, d)
     else (let r = \<lparr> dr_id = db_next d, dr_tenant = rc_tenant c, dr_name = rc_name c,
                 dr_description = rc_description c, dr_rule_type = rc_rule_type c,
                 dr_severity = rc_severity c, dr_threshold = rc_threshold c,
                 dr_window = rc_window c, dr_condition = rc_condition c, dr_enabled = True,
                 dr_created = pg_time (db_now d), dr_updated = pg_time (db_now d) \<rparr>
           in (Inr r, d \<lparr> db_rules := db_rules d @ [r], db_next := db_next d + 1 \<rparr>)))"

definition get_rule_by_id :: "string \<Rightarrow> nat \<Rightarrow> detection_rule option dbop" where
  "get_rule_by_id t i = select (\<lambda>d. first_row (\<lambda>r. dr_tenant r = t \<and> dr_id r = i) (db_rules d))"

definition opt_orelse :: "'a option \<Rightarrow> 'a option \<Rightarrow> 'a option" where
  "opt_orelse a b = (case a of None \<Rightarrow> b | Some x \<Rightarrow> Some x)"

definition merge_rule :: "rule_update \<Rightarrow> detection_rule \<Rightarrow> detection_rule" where
  "merge_rule u r = r \<lparr> dr_name := option_or (dr_name r) (ru_name u),
     dr_description := opt_orelse (ru_description u) (dr_description r),
     dr_severity := option_or (dr_severity r) (ru_severity u),
     dr_threshold := opt_orelse (ru_threshold u) (dr_threshold r),
     dr_window := opt_orelse (ru_window u) (dr_window r),
     dr_condition := opt_orelse (ru_condition u) (dr_condition r),
     dr_enabled := option_or (dr_enabled r) (ru_enabled u) \<rparr>"

text \<open>The update writes the merged columns into the row as it is when the second statement runs.\<close>

definition write_rule :: "string \<Rightarrow> nat \<Rightarrow> detection_rule \<Rightarrow> detection_rule dbop" where
  "write_rule t i m = stmt (\<lambda>d.
     case first_row (\<lambda>r. dr_tenant r = t \<and> dr_id r = i) (db_rules d) of
       None \<Rightarrow> (Inl Db_Error, d)
     | Some cur \<Rightarrow>
         if \<exists>r \<in> set (db_rules d). dr_tenant r = t \<and> dr_name r = dr_name m \<and> dr_id r \<noteq> i
         then (Inl Db_Error, d)
         else (let w = (\<lambda>r. r \<lparr> dr_name := dr_name m, dr_description := dr_description m,
                   dr_severity := dr_severity m, dr_threshold := dr_threshold m,
                   dr_window := dr_window m, dr_condition := dr_condition m,
                   dr_enabled := dr_enabled m, dr_updated := pg_time (db_now d) \<rparr>)
               in (Inr (w cur), d \<lparr> db_rules :=
                    map (\<lambda>r. if dr_tenant r = t \<and> dr_id r = i then w r else r) (db_rules d) \<rparr>)))"

definition update_rule :: "string \<Rightarrow> nat \<Rightarrow> rule_update \<Rightarrow> detection_rule dbop" where
  "update_rule t i u =
     bind_ok (get_rule_by_id t i) (\<lambda>ex. case ex of None \<Rightarrow> fail Invalid_Input
       | Some r \<Rightarrow> write_rule t i (merge_rule u r))"

definition delete_rule :: "string \<Rightarrow> nat \<Rightarrow> unit dbop" where
  "delete_rule t i = execute (\<lambda>d. d \<lparr> db_rules :=
     filter (\<lambda>r. \<not> (dr_tenant r = t \<and> dr_id r = i)) (db_rules d) \<rparr>)"

section \<open>Facts\<close>

named_theorems db_simps \<open>values of the tables after statements\<close>

text \<open>A database that answers every statement.\<close>

definition no_faults :: "db \<Rightarrow> bool" where
  "no_faults d \<longleftrightarrow> (\<forall>n. \<not> db_fault d n)"

lemma stmt_ok: "\<not> db_fault d (db_calls d) \<Longrightarrow> stmt f d = f (d \<lparr> db_calls := db_calls d + 1 \<rparr>)"
  by (simp add: stmt_def Let_def)

lemma stmt_fail: "db_fault d (db_calls d) \<Longrightarrow> stmt f d = (Inl Db_Error, d \<lparr> db_calls := db_calls d + 1 \<rparr>)"
  by (simp add: stmt_def Let_def)

lemma select_cases:
  "select f d = (if db_fault d (db_calls d) then Inl Db_Error else Inr (f (d \<lparr> db_calls := db_calls d + 1 \<rparr>)),
     d \<lparr> db_calls := db_calls d + 1 \<rparr>)"
  by (simp add: select_def stmt_def Let_def)

lemma first_row_Some: "first_row P xs = Some x \<Longrightarrow> x \<in> set xs \<and> P x"
  by (auto simp: first_row_def find_Some_iff)

lemma first_row_None: "first_row P xs = None \<longleftrightarrow> (\<forall>x \<in> set xs. \<not> P x)"
  by (auto simp: first_row_def find_None_iff)

lemma pg_time_idem [simp]: "pg_time (pg_time t) = pg_time t"
  by (simp add: pg_time_def)

lemma pg_time_mono: "a \<le> b \<Longrightarrow> pg_time a \<le> pg_time b"
  by (simp add: pg_time_def zdiv_mono1)

lemma pg_time_le: "pg_time t \<le> t"
proof -
  have "t = t div 1000 * 1000 + t mod 1000" by simp
  moreover have "0 \<le> t mod 1000" by simp
  ultimately show ?thesis unfolding pg_time_def by linarith
qed

lemma i32_of_id: "- (2 ^ 31) \<le> n \<Longrightarrow> n < 2 ^ 31 \<Longrightarrow> i32_of n = n"
  by (simp add: i32_of_def)

text \<open>Writing an alert and reading it back loses the sub-microsecond part of its instants, and
nothing else while its count fits.\<close>

lemma alert_row_roundtrip:
  "a_events_count a < 2 ^ 31 \<Longrightarrow> alert_of_row (row_of_alert a)
     = a \<lparr> a_first_seen := pg_time (a_first_seen a), a_last_seen := pg_time (a_last_seen a) \<rparr>"
  by (simp add: alert_of_row_def row_of_alert_def option_or_def i32_of_id)

end
