(* ===== verification/Engine.thy ===== *)
theory Engine
  imports Correlation_Store Database
begin

text \<open>The detection engine (\<open>detection/compiled\_rule.rs\<close>, \<open>detection/engine.rs\<close>): compiled rules,
their index by tag, the selection of candidate rules for a log, their evaluation, and the
counters kept beside it.\<close>

section \<open>Compiled rules\<close>

datatype compiled_rule =
    Brute_Force brute_force_rule
  | Port_Scan port_scan_rule
  | Malware_Rule malware_rule
  | Generic generic_rule
  | Correlation corr_rule

record engine_ext =
  en_re :: ssh_regex
  en_ioc :: ioc_match
  en_corr :: corr_ext

fun cr_rule_name :: "compiled_rule \<Rightarrow> string" where
  "cr_rule_name (Brute_Force r) = bf_name r"
| "cr_rule_name (Port_Scan r) = ps_name r"
| "cr_rule_name (Malware_Rule r) = mr_name r"
| "cr_rule_name (Generic r) = gr_name r"
| "cr_rule_name (Correlation r) = cr_name r"

fun cr_rule_id :: "compiled_rule \<Rightarrow> string" where
  "cr_rule_id (Brute_Force r) = bf_id r"
| "cr_rule_id (Port_Scan r) = ps_id r"
| "cr_rule_id (Malware_Rule r) = mr_id r"
| "cr_rule_id (Generic r) = gr_id r"
| "cr_rule_id (Correlation r) = cr_id r"

fun log_types :: "compiled_rule \<Rightarrow> log_tag list" where
  "log_types (Brute_Force r) = bf_log_types"
| "log_types (Port_Scan r) = ps_log_types"
| "log_types (Malware_Rule r) = mr_log_types"
| "log_types (Generic r) = gr_log_types"
| "log_types (Correlation r) = cr_log_types"

fun rule_tenant :: "compiled_rule \<Rightarrow> string" where
  "rule_tenant (Brute_Force r) = bf_tenant r"
| "rule_tenant (Port_Scan r) = ps_tenant r"
| "rule_tenant (Malware_Rule r) = mr_tenant r"
| "rule_tenant (Generic r) = gr_tenant r"
| "rule_tenant (Correlation r) = cr_tenant r"

fun rule_evaluate ::
  "engine_ext \<Rightarrow> 's cache \<Rightarrow> compiled_rule \<Rightarrow> nat \<Rightarrow> instant \<Rightarrow> log \<Rightarrow> (alert option, 's) cmd" where
  "rule_evaluate X C (Brute_Force r) uuid now l = bf_evaluate C r uuid now l"
| "rule_evaluate X C (Port_Scan r) uuid now l = ps_evaluate r l"
| "rule_evaluate X C (Malware_Rule r) uuid now l = mr_evaluate (en_ioc X) C r uuid now l"
| "rule_evaluate X C (Generic r) uuid now l = gr_evaluate (en_re X) r uuid l"
| "rule_evaluate X C (Correlation r) uuid now l = corr_evaluate (en_corr X) C r uuid l"

section \<open>Stored rules and the tag index\<close>

text \<open>The serde derive for the two JSON documents, and the text of a UUID, are parameters.\<close>

record rule_codec =
  rcx_condition :: "json \<Rightarrow> rule_condition option"
  rcx_definition :: "json \<Rightarrow> corr_definition option"
  rcx_uuid :: "nat \<Rightarrow> string"

definition compile_rule :: "rule_codec \<Rightarrow> detection_rule \<Rightarrow> compiled_rule option" where
  "compile_rule K d =
     (if dr_rule_type d = ''brute_force'' then
        Some (Brute_Force \<lparr> bf_tenant = dr_tenant d, bf_id = rcx_uuid K (dr_id d), bf_name = dr_name d,
          bf_threshold = int_as_u32 (option_or 5 (dr_threshold d)),
          bf_window = option_or 300 (dr_window d) \<rparr>)
      else if dr_rule_type d = ''port_scan'' then
        Some (Port_Scan \<lparr> ps_tenant = dr_tenant d, ps_id = rcx_uuid K (dr_id d), ps_name = dr_name d,
          ps_port_threshold = int_as_u32 (option_or 20 (dr_threshold d)),
          ps_window = option_or 60 (dr_window d) \<rparr>)
      else if dr_rule_type d = ''malware'' then
        Some (Malware_Rule \<lparr> mr_tenant = dr_tenant d, mr_id = rcx_uuid K (dr_id d),
          mr_name = dr_name d \<rparr>)
      else if dr_rule_type d = ''generic'' then
        (case dr_condition d of None \<Rightarrow> None
         | Some j \<Rightarrow> (case rcx_condition K j of None \<Rightarrow> None
             | Some c \<Rightarrow> Some (Generic (generic_new (dr_tenant d) (rcx_uuid K (dr_id d)) (dr_name d)
                 (dr_severity d) c))))
      else if dr_rule_type d = ''correlation'' then
        (case dr_condition d of None \<Rightarrow> None
         | Some j \<Rightarrow> (case rcx_definition K j of None \<Rightarrow> None
             | Some cd \<Rightarrow> Some (Correlation (corr_new (dr_tenant d) (rcx_uuid K (dr_id d)) (dr_name d)
                 (dr_severity d) cd))))
      else None)"

type_synonym rule_index = "log_tag \<Rightarrow> compiled_rule list"

definition index_rule :: "compiled_rule \<Rightarrow> rule_index \<Rightarrow> rule_index" where
  "index_rule c ix = fold (\<lambda>t ix. ix(t := ix t @ [c])) (log_types c) ix"

fun index_rules :: "rule_codec \<Rightarrow> detection_rule list \<Rightarrow> rule_index \<Rightarrow> rule_index" where
  "index_rules K [] ix = ix"
| "index_rules K (d # ds) ix =
     index_rules K ds (case compile_rule K d of None \<Rightarrow> ix | Some c \<Rightarrow> index_rule c ix)"

section \<open>Candidates\<close>

definition infer_tags :: "log \<Rightarrow> log_tag list" where
  "infer_tags l =
     (if is_failed_login l \<or> contains (l_event_type l) ''auth'' \<or> contains (l_event_type l) ''login''
      then [Auth] else [])
     @ (if contains (l_event_type l) ''network'' \<or> contains (l_event_type l) ''port''
           \<or> contains (option_or [] (l_service l)) ''ssh''
        then [Network] else [])
     @ (if contains (l_message l) ''http'' \<or> CHR ''.'' \<in> set (l_message l)
           \<or> contains (l_message l) ''powershell'' \<or> contains (l_message l) ''wget''
        then [Malware] else [])"

definition candidate_rules :: "rule_index \<Rightarrow> log \<Rightarrow> compiled_rule list" where
  "candidate_rules ix l =
     (let cands = concat (map ix (infer_tags l));
          cands = (if cands = [] then ix Malware else cands)
      in filter (\<lambda>c. rule_tenant c = l_tenant l) cands)"

section \<open>Local statistics (64-bit atomics)\<close>

record local_stats =
  ls_logs :: "64 word"
  ls_alerts :: "64 word"
  ls_active :: "64 word"
  ls_critical :: "64 word"

definition stats_zero :: local_stats where
  "stats_zero = \<lparr> ls_logs = 0, ls_alerts = 0, ls_active = 0, ls_critical = 0 \<rparr>"

definition incr_log :: "local_stats \<Rightarrow> local_stats" where
  "incr_log s = s \<lparr> ls_logs := ls_logs s + 1 \<rparr>"

definition incr_alert :: "bool \<Rightarrow> local_stats \<Rightarrow> local_stats" where
  "incr_alert crit s = (let s = s \<lparr> ls_alerts := ls_alerts s + 1, ls_active := ls_active s + 1 \<rparr>
     in if crit then s \<lparr> ls_critical := ls_critical s + 1 \<rparr> else s)"

definition take_and_reset ::
  "local_stats \<Rightarrow> (64 word \<times> 64 word \<times> 64 word \<times> 64 word) \<times> local_stats" where
  "take_and_reset s = ((ls_logs s, ls_alerts s, ls_active s, ls_critical s), stats_zero)"

definition week_seconds :: nat where "week_seconds = 60 * 60 * 24 * 7"

text \<open>One round of the flush task: the counters move from memory to the cache; errors of the cache
are ignored, after the counters were reset.\<close>

definition flush_one :: "'s redis \<Rightarrow> string \<Rightarrow> 64 word \<Rightarrow> 's rcache \<Rightarrow> 's rcache" where
  "flush_one rd key v c =
     (if v > 0 then ignore (incr_by rd key (unat v) week_seconds) c else c)"

definition flush_stats ::
  "'s redis \<Rightarrow> local_stats \<times> 's rcache \<Rightarrow> local_stats \<times> 's rcache" where
  "flush_stats rd p =
     (case p of (s, c) \<Rightarrow> (case take_and_reset s of ((n_logs, n_alerts, n_active, n_critical), s') \<Rightarrow>
       (s', flush_one rd ''siem:stats:critical_alerts'' n_critical
             (flush_one rd ''siem:stats:active_alerts'' n_active
               (flush_one rd ''siem:stats:total_alerts'' n_alerts
                 (flush_one rd ''siem:stats:total_logs'' n_logs c))))))"

section \<open>Evaluating the candidates\<close>

text \<open>The candidates are evaluated concurrently and their results are taken in completion order.  The
model runs them one after the other in an order \<open>sched\<close> chosen by the scheduler.  An error of a
rule is logged and skipped.\<close>

fun evaluate_rules ::
  "engine_ext \<Rightarrow> 's cache \<Rightarrow> compiled_rule list \<Rightarrow> nat \<Rightarrow> instant \<Rightarrow> log \<Rightarrow> 's
   \<Rightarrow> (error + alert option) list \<times> 's" where
  "evaluate_rules X C [] uuid now l s = ([], s)"
| "evaluate_rules X C (c # cs) uuid now l s =
     (case rule_evaluate X C c uuid now l s of (r, s') \<Rightarrow>
        (case evaluate_rules X C cs (uuid + 1) now l s' of (rs, s'') \<Rightarrow> (r # rs, s'')))"

definition alerts_of :: "(error + alert option) list \<Rightarrow> alert list" where
  "alerts_of rs = concat (map (\<lambda>r. case r of Inr (Some a) \<Rightarrow> [a] | _ \<Rightarrow> []) rs)"

definition count_alerts :: "alert list \<Rightarrow> local_stats \<Rightarrow> local_stats" where
  "count_alerts as s = fold (\<lambda>a. incr_alert (a_severity a = Critical)) as s"

text \<open>\<open>process_log\<close> up to the hand-over of the alerts.\<close>

definition detect ::
  "engine_ext \<Rightarrow> 's cache \<Rightarrow> (compiled_rule list \<Rightarrow> compiled_rule list) \<Rightarrow> rule_index
   \<Rightarrow> nat \<Rightarrow> instant \<Rightarrow> log \<Rightarrow> local_stats \<times> 's \<Rightarrow> alert list \<times> (local_stats \<times> 's)" where
  "detect X C sched ix uuid now l p =
     (case p of (st, s) \<Rightarrow>
       (case evaluate_rules X C (sched (candidate_rules ix l)) uuid now l s of (rs, s') \<Rightarrow>
          (alerts_of rs, (count_alerts (alerts_of rs) (incr_log st), s'))))"

section \<open>Facts about the index\<close>

lemma index_rule_apply:
  "index_rule c ix t = ix t @ replicate (count_list (log_types c) t) c"
proof -
  have "fold (\<lambda>t ix. ix(t := ix t @ [c])) ts ix t = ix t @ replicate (count_list ts t) c" for ts ix
    by (induction ts arbitrary: ix) (auto simp: replicate_append_same[symmetric])
  then show ?thesis by (simp add: index_rule_def)
qed

lemma log_types_distinct: "distinct (log_types c)"
  by (cases c) (simp_all add: bf_log_types_def ps_log_types_def mr_log_types_def gr_log_types_def
      cr_log_types_def)

lemma index_rule_once:
  "index_rule c ix t = ix t @ (if t \<in> set (log_types c) then [c] else [])"
  using log_types_distinct[of c] by (cases c; cases t)
    (simp_all add: index_rule_apply bf_log_types_def ps_log_types_def mr_log_types_def gr_log_types_def
      cr_log_types_def)

lemma index_rules_apply:
  "index_rules K ds ix t = ix t @ filter (\<lambda>c. t \<in> set (log_types c)) (List.map_filter (compile_rule K) ds)"
  by (induction ds arbitrary: ix)
    (auto simp: List.map_filter_simps index_rule_once split: option.splits)

lemma map_filter_set: "c \<in> set (List.map_filter f ds) \<longleftrightarrow> (\<exists>d \<in> set ds. f d = Some c)"
  by (force simp: List.map_filter_def image_iff)

lemma compile_tenant: "compile_rule K d = Some c \<Longrightarrow> rule_tenant c = dr_tenant d"
  by (auto simp: compile_rule_def generic_new_def corr_new_def split: if_splits option.splits)

lemma compile_id: "compile_rule K d = Some c \<Longrightarrow> cr_rule_id c = rcx_uuid K (dr_id d)"
  by (auto simp: compile_rule_def generic_new_def corr_new_def split: if_splits option.splits)

lemma candidate_tenant: "c \<in> set (candidate_rules ix l) \<Longrightarrow> rule_tenant c = l_tenant l"
  by (simp add: candidate_rules_def Let_def)

lemma alerts_of_simps [simp]:
  "alerts_of [] = []"
  "alerts_of (r # rs) = (case r of Inr (Some a) \<Rightarrow> [a] | _ \<Rightarrow> []) @ alerts_of rs"
  by (simp_all add: alerts_of_def)

text \<open>Every alert a rule builds names the tenant of the log, the rule, and the log's source address.\<close>

definition alert_for :: "compiled_rule \<Rightarrow> log \<Rightarrow> alert \<Rightarrow> bool" where
  "alert_for c l a \<longleftrightarrow> a_tenant a = l_tenant l \<and> a_rule_id a = cr_rule_id c
     \<and> a_rule_name a = cr_rule_name c \<and> a_source_ip a = l_source_ip l \<and> a_events a = [l]
     \<and> a_events_count a = 1 \<and> a_status a = New"

lemma rule_evaluate_alert:
  "fst (rule_evaluate X C c uuid now l s) = Inr (Some a) \<Longrightarrow> alert_for c l a"
  by (cases c)
    (auto simp: bf_evaluate_def ps_evaluate_def mr_evaluate_def gr_evaluate_def corr_evaluate_def
      alert_for_def alert_new_def event_alert_def corr_alert_def bind_ok_def ok_def Let_def
      split: prod.splits sum.splits if_splits option.splits)

lemma evaluate_rules_Cons:
  "fst (evaluate_rules X C (c # cs) uuid now l s) = fst (rule_evaluate X C c uuid now l s)
     # fst (evaluate_rules X C cs (uuid + 1) now l (snd (rule_evaluate X C c uuid now l s)))"
  "snd (evaluate_rules X C (c # cs) uuid now l s)
     = snd (evaluate_rules X C cs (uuid + 1) now l (snd (rule_evaluate X C c uuid now l s)))"
  by (simp_all split: prod.splits)

lemma evaluate_rules_alerts:
  assumes "a \<in> set (alerts_of (fst (evaluate_rules X C cs uuid now l s)))"
  shows "\<exists>c \<in> set cs. alert_for c l a"
  using assms
proof (induction cs arbitrary: uuid s)
  case (Cons c cs)
  let ?r = "fst (rule_evaluate X C c uuid now l s)"
  consider "?r = Inr (Some a)"
    | "a \<in> set (alerts_of (fst (evaluate_rules X C cs (uuid + 1) now l
          (snd (rule_evaluate X C c uuid now l s)))))"
    using Cons.prems unfolding evaluate_rules_Cons alerts_of_simps
    by (cases ?r) (auto split: option.splits)
  then show ?case
  proof cases
    case 1
    then show ?thesis using rule_evaluate_alert by auto
  next
    case 2
    then show ?thesis using Cons.IH by auto
  qed
qed simp

lemma evaluate_rules_length: "length (fst (evaluate_rules X C cs uuid now l s)) = length cs"
  by (induction cs arbitrary: uuid s) (simp_all add: evaluate_rules_Cons del: evaluate_rules.simps(2))

lemma count_alerts_counts:
  "ls_alerts (count_alerts as s) = ls_alerts s + of_nat (length as)"
  "ls_active (count_alerts as s) = ls_active s + of_nat (length as)"
  "ls_critical (count_alerts as s)
     = ls_critical s + of_nat (length (filter (\<lambda>a. a_severity a = Critical) as))"
  "ls_logs (count_alerts as s) = ls_logs s"
  by (induction as arbitrary: s)
    (simp_all add: count_alerts_def incr_alert_def Let_def)

end
