(* ===== verification/Correlation_Run.thy ===== *)
theory Correlation_Run
  imports Correlation_Store
begin

text \<open>A correlation rule over a stream of logs of many groups: the evaluations over the cache agree
with one machine per group, and a machine that fires has seen every stage in order.\<close>

fun corr_evaluations ::
  "corr_ext \<Rightarrow> 's cache \<Rightarrow> corr_rule \<Rightarrow> nat \<Rightarrow> log list \<Rightarrow> 's \<Rightarrow> (error + alert option) list" where
  "corr_evaluations X C r uuid [] s = []"
| "corr_evaluations X C r uuid (l # ls) s =
     fst (corr_evaluate X C r uuid l s)
     # corr_evaluations X C r (uuid + 1) ls (snd (corr_evaluate X C r uuid l s))"

section \<open>One machine per group\<close>

type_synonym corr_groups = "string \<Rightarrow> corr_state option"

definition group_state :: "corr_groups \<Rightarrow> string \<Rightarrow> int \<Rightarrow> corr_state" where
  "group_state m gk ts = (case m gk of None \<Rightarrow> reset_state gk ts | Some st \<Rightarrow> st)"

definition groups_step ::
  "ssh_regex \<Rightarrow> corr_rule \<Rightarrow> corr_groups \<Rightarrow> log \<Rightarrow> bool \<times> corr_groups" where
  "groups_step re r m l =
     (let gk = get_group_key r l; ts = timestamp (l_timestamp l) in
      if gk = [] then (False, m)
      else (case corr_step re r gk ts l (group_state m gk ts) of
          Late \<Rightarrow> (False, m) | Keep st \<Rightarrow> (False, m(gk \<mapsto> st)) | Fire \<Rightarrow> (True, m(gk := None))))"

fun groups_run :: "ssh_regex \<Rightarrow> corr_rule \<Rightarrow> corr_groups \<Rightarrow> log list \<Rightarrow> bool list" where
  "groups_run re r m [] = []"
| "groups_run re r m (l # ls) =
     fst (groups_step re r m l) # groups_run re r (snd (groups_step re r m l)) ls"

definition same_group :: "corr_rule \<Rightarrow> log \<Rightarrow> log list \<Rightarrow> log list" where
  "same_group r l ls = filter (\<lambda>x. get_group_key r x = get_group_key r l) ls"

definition groups_backed ::
  "ssh_regex \<Rightarrow> corr_rule \<Rightarrow> log list \<Rightarrow> corr_groups \<Rightarrow> bool" where
  "groups_backed re r pre m \<longleftrightarrow>
     (\<forall>gk st. m gk = Some st \<longrightarrow> backed re r (filter (\<lambda>x. get_group_key r x = gk) pre) st)"

lemma groups_step_backed:
  assumes "cd_stages (cr_def r) \<noteq> []" "groups_backed re r pre m"
  shows "groups_backed re r (pre @ [l]) (snd (groups_step re r m l))"
    and "fst (groups_step re r m l) \<Longrightarrow> get_group_key r l \<noteq> []
       \<and> matched_in_order re (expand_stages (cd_stages (cr_def r))) (same_group r l (pre @ [l]))"
proof -
  let ?gk = "get_group_key r l" let ?ts = "timestamp (l_timestamp l)"
  let ?pre = "filter (\<lambda>x. get_group_key r x = ?gk) pre"
  let ?st = "advance_window r ?gk ?ts (group_state m ?gk ?ts)"
  have "backed re r ?pre (group_state m ?gk ?ts)"
    using assms by (auto simp: group_state_def groups_backed_def backed_reset split: option.split)
  note M = match_stage_backed[OF backed_advance[OF this, of ?gk ?ts], where ts = ?ts and l = l]
  have keep: "backed re r (filter (\<lambda>x. get_group_key r x = gk) (pre @ [l])) st"
    if "m gk = Some st" for gk st
    using assms(2) that backed_more[of re r "filter (\<lambda>x. get_group_key r x = gk) pre" st "[l]"]
    by (auto simp: groups_backed_def)
  show "groups_backed re r (pre @ [l]) (snd (groups_step re r m l))"
    unfolding groups_backed_def
  proof (intro allI impI)
    fix gk st
    assume "snd (groups_step re r m l) gk = Some st"
    then consider "m gk = Some st" | "gk = ?gk" "match_stage re r ?ts l ?st = Some st"
      by (auto simp: groups_step_def Let_def corr_step_def split: if_splits option.splits)
    then show "backed re r (filter (\<lambda>x. get_group_key r x = gk) (pre @ [l])) st"
      by cases (use keep M in simp_all)
  qed
  show "?gk \<noteq> [] \<and> matched_in_order re (expand_stages (cd_stages (cr_def r))) (same_group r l (pre @ [l]))"
    if "fst (groups_step re r m l)"
    using M that
    by (auto simp: groups_step_def Let_def corr_step_def same_group_def split: if_splits option.splits)
qed

lemma groups_run_backed:
  assumes "cd_stages (cr_def r) \<noteq> []" "groups_backed re r pre m"
    and "j < length ls" "groups_run re r m ls ! j"
  shows "get_group_key r (ls ! j) \<noteq> [] \<and> matched_in_order re (expand_stages (cd_stages (cr_def r)))
     (same_group r (ls ! j) (pre @ take (Suc j) ls))"
  using assms(2-)
proof (induction ls arbitrary: pre m j)
  case (Cons l ls)
  note S = groups_step_backed[OF assms(1) Cons.prems(1), of l]
  show ?case
  proof (cases j)
    case 0
    then show ?thesis using S(2) Cons.prems(3) by simp
  next
    case (Suc i)
    then show ?thesis using Cons.IH[OF S(1), of i] Cons.prems(2,3) by simp
  qed
qed simp

section \<open>The cache holds the machines\<close>

definition groups_of :: "corr_ext \<Rightarrow> corr_rule \<Rightarrow> (string \<Rightarrow> string option) \<Rightarrow> corr_groups" where
  "groups_of X r str gk = stored_state X gk (str (state_key X r gk))"

text \<open>The groups of the stream have different state keys, and the index holds keys of these only.\<close>

definition groups_fit :: "corr_ext \<Rightarrow> corr_rule \<Rightarrow> string set \<Rightarrow> bool" where
  "groups_fit X r G \<longleftrightarrow> finite G \<and> inj_on (state_key X r) G \<and> card G < cd_max_active_groups (cr_def r)"

definition index_within :: "corr_ext \<Rightarrow> corr_rule \<Rightarrow> string set \<Rightarrow> (string \<times> rat) list \<Rightarrow> bool" where
  "index_within X r G ix \<longleftrightarrow> distinct (map fst ix) \<and> fst ` set ix \<subseteq> state_key X r ` G"

lemma index_within_room:
  assumes "groups_fit X r G" "index_within X r G ix"
  shows "length ix < cd_max_active_groups (cr_def r)"
proof -
  have "length ix = card (fst ` set ix)"
    using assms(2) distinct_card[of "map fst ix"] by (simp add: index_within_def)
  also have "\<dots> \<le> card (state_key X r ` G)"
    using assms by (intro card_mono) (auto simp: index_within_def groups_fit_def)
  also have "\<dots> \<le> card G" using assms(1) by (intro card_image_le) (simp add: groups_fit_def)
  finally show ?thesis using assms(1) by (simp add: groups_fit_def)
qed

lemma index_within_update:
  "index_within X r G ix \<Longrightarrow> gk \<in> G \<Longrightarrow> index_within X r G (al_update (state_key X r gk) x ix)"
  by (auto simp: index_within_def distinct_al_update keys_al_update)

lemma index_within_filter: "index_within X r G ix \<Longrightarrow> index_within X r G (filter P ix)"
  by (auto simp: index_within_def distinct_filter_fst[of ix P] distinct_map_filter)

context index_cache
begin

lemma evaluate_groups_step:
  assumes R: "ready s" "corr_ready X r" "skey (state_key X r (get_group_key r l))" "zkey (active_index_key r)"
    and fit: "groups_fit X r G" "get_group_key r l = [] \<or> get_group_key r l \<in> G"
    and ix: "index_within X r G (idx s (active_index_key r))"
    and m: "\<And>gk. gk \<in> G \<Longrightarrow> m gk = groups_of X r (str s) gk"
    and st: "groups_step (cx_re X) r m l = (b, m')"
  shows "\<exists>s'. corr_evaluate X C r uuid l s = (Inr (if b then Some (corr_alert r uuid l) else None), s')
     \<and> ready s' \<and> index_within X r G (idx s' (active_index_key r))
     \<and> (\<forall>gk \<in> G. m' gk = groups_of X r (str s') gk)"
proof (cases "get_group_key r l = []")
  case True
  have "(b, m') = (False, m)" using st True by (simp add: groups_step_def)
  moreover have "corr_evaluate X C r uuid l s = (Inr None, s)" using True by (simp add: corr_evaluate_def ok_def)
  ultimately show ?thesis using R(1) ix m by simp
next
  case False
  define gk where "gk = get_group_key r l"
  define ts where "ts = timestamp (l_timestamp l)"
  define step where "step = corr_step (cx_re X) r gk ts l
     (decode_state X gk ts (str s (state_key X r gk)))"
  have G: "gk \<in> G" and ne: "gk \<noteq> []" using False fit(2) by (auto simp: gk_def)
  have gs: "group_state m gk ts = decode_state X gk ts (str s (state_key X r gk))"
    using m[OF G] by (simp add: group_state_def groups_of_def decode_stored)
  have k: "skey (state_key X r gk)" using R(3) by (simp add: gk_def)
  have stp: "step = corr_step (cx_re X) r gk (timestamp (l_timestamp l)) l
      (decode_state X gk (timestamp (l_timestamp l)) (str s (state_key X r gk)))"
    by (simp add: step_def ts_def)
  obtain s' where s': "corr_evaluate X C r uuid l s
        = (Inr (if step = Fire then Some (corr_alert r uuid l) else None), s')" "ready s'"
    "str s' = (case step of Late \<Rightarrow> str s | Keep st \<Rightarrow> (str s)(state_key X r gk \<mapsto> cx_ser X st)
        | Fire \<Rightarrow> (str s)(state_key X r gk := None))"
    "idx s' (active_index_key r) = (case step of Late \<Rightarrow> idx s (active_index_key r)
        | Keep st \<Rightarrow> al_update (state_key X r gk) (of_int (st_last_ts st)) (idx s (active_index_key r))
        | Fire \<Rightarrow> filter (\<lambda>e. fst e \<noteq> state_key X r gk) (idx s (active_index_key r)))"
    using evaluate_refines[OF R(1,2) k R(4) gk_def[symmetric] ne index_within_room[OF fit(1) ix] stp]
    by blast
  have other: "state_key X r g \<noteq> state_key X r gk" if "g \<in> G" "g \<noteq> gk" for g
    using fit(1) that G by (auto simp: groups_fit_def dest: inj_onD)
  have bm: "(b, m') = (case step of Late \<Rightarrow> (False, m) | Keep st \<Rightarrow> (False, m(gk \<mapsto> st))
      | Fire \<Rightarrow> (True, m(gk := None)))"
    using st ne by (simp add: groups_step_def Let_def gk_def[symmetric] ts_def[symmetric] gs step_def)
  have own: "stored_state X gk (Some (cx_ser X st)) = Some st" if "step = Keep st" for st
  proof -
    have "st_group_key (decode_state X gk ts (str s (state_key X r gk))) = gk"
      by (auto simp: decode_state_def reset_state_def split: option.split)
    then have "st_group_key st = gk" using that corr_step_group unfolding step_def by blast
    then show ?thesis using R(2) by (simp add: stored_state_def corr_ready_def)
  qed
  have "m' g = groups_of X r (str s') g" if "g \<in> G" for g
    using bm m[OF that] other[OF that] own s'(3)
    by (cases step; cases "g = gk") (auto simp: groups_of_def stored_state_def)
  moreover have "index_within X r G (idx s' (active_index_key r))"
    using s'(4) ix G by (cases step) (simp_all add: index_within_update index_within_filter)
  moreover have "b = (step = Fire)" using bm by (cases step) simp_all
  ultimately show ?thesis using s'(1,2) by auto
qed

lemma evaluations_groups_run:
  assumes R: "ready s" "corr_ready X r" "\<And>gk. skey (state_key X r gk)" "zkey (active_index_key r)"
    and fit: "groups_fit X r G" "get_group_key r ` set ls \<subseteq> insert [] G"
    and ix: "index_within X r G (idx s (active_index_key r))"
    and m: "\<And>gk. gk \<in> G \<Longrightarrow> m gk = groups_of X r (str s) gk"
  shows "map (\<lambda>v. \<exists>a. v = Inr (Some a)) (corr_evaluations X C r uuid ls s) = groups_run (cx_re X) r m ls
     \<and> (\<forall>v \<in> set (corr_evaluations X C r uuid ls s). is_ok v)"
  using assms(1,6-)
proof (induction ls arbitrary: s m uuid)
  case (Cons l ls)
  obtain b m' where st: "groups_step (cx_re X) r m l = (b, m')" by fastforce
  obtain s' where s': "corr_evaluate X C r uuid l s = (Inr (if b then Some (corr_alert r uuid l) else None), s')"
    "ready s'" "index_within X r G (idx s' (active_index_key r))"
    "\<forall>gk \<in> G. m' gk = groups_of X r (str s') gk"
    using evaluate_groups_step[OF Cons.prems(1) R(2,3,4) fit(1) _ Cons.prems(3,4) st, where uuid = uuid]
      Cons.prems(2) by auto
  have "map (\<lambda>v. \<exists>a. v = Inr (Some a)) (corr_evaluations X C r (uuid + 1) ls s')
      = groups_run (cx_re X) r m' ls
    \<and> (\<forall>v \<in> set (corr_evaluations X C r (uuid + 1) ls s'). is_ok v)"
    by (rule Cons.IH) (use s' Cons.prems(2) in auto)
  then show ?case by (simp add: s'(1) st is_ok_def)
qed simp

end

context typed_client
begin

lemmas corr_stream = index.evaluations_groups_run

end

end
