(* ===== verification/Samples.thy ===== *)
theory Samples
  imports Engine Correlation_Run
begin

text \<open>Concrete values of the model's parameters, at which the witnesses evaluate the properties: logs, a
codec of correlation states that reads back what it writes, an indicator matcher that meets its
laws, and rule codecs.\<close>

section \<open>Logs\<close>

definition sample_log :: "string \<Rightarrow> string \<Rightarrow> string \<Rightarrow> string \<Rightarrow> int \<Rightarrow> log" where
  "sample_log tenant ip event msg t = log_new 7 (seconds t) tenant event ip msg"

definition no_ssh :: ssh_regex where
  "no_ssh = \<lparr> ssh_accepted = (\<lambda>_. None), ssh_failed = (\<lambda>_. None) \<rparr>"

text \<open>The matcher that does what the crate documents.\<close>

definition pattern_ssh :: ssh_regex where
  "pattern_ssh = \<lparr> ssh_accepted = (\<lambda>m. map_option ssh_groups (find_match ssh_accepted_pattern m)),
     ssh_failed = (\<lambda>m. map_option ssh_groups (find_match ssh_failed_pattern m)) \<rparr>"

lemma pattern_ssh_laws: "ssh_laws pattern_ssh"
  by (simp add: ssh_laws_def pattern_ssh_def)

lemma sample_log_simps [simp]:
  "l_tenant (sample_log tn ip ev msg t) = tn" "l_source_ip (sample_log tn ip ev msg t) = ip"
  "l_event_type (sample_log tn ip ev msg t) = ev" "l_message (sample_log tn ip ev msg t) = msg"
  "l_timestamp (sample_log tn ip ev msg t) = seconds t" "l_service (sample_log tn ip ev msg t) = None"
  "l_target_user (sample_log tn ip ev msg t) = None" "l_severity (sample_log tn ip ev msg t) = LInfo"
  "l_metadata (sample_log tn ip ev msg t) = JNull"
  by (simp_all add: sample_log_def log_new_def)

section \<open>A codec of correlation states\<close>

definition zigzag :: "int \<Rightarrow> nat" where
  "zigzag i = (if 0 \<le> i then 2 * nat i else 2 * nat (- i) + 1)"

definition field_of_int :: "int \<Rightarrow> string" where
  "field_of_int i = show_nat (zigzag i) @ '',''"

definition int_of_field :: "string \<Rightarrow> int" where
  "int_of_field s = (let n = digits_val s in if even n then int (n div 2) else - int (n div 2))"

definition next_field :: "string \<Rightarrow> string \<times> string" where
  "next_field s = (takeWhile (\<lambda>c. c \<noteq> CHR '','') s, drop 1 (dropWhile (\<lambda>c. c \<noteq> CHR '','') s))"

definition sample_ser :: "corr_state \<Rightarrow> string" where
  "sample_ser st = field_of_int (int (st_stage st)) @ field_of_int (int (st_events st))
     @ field_of_int (st_window_start st) @ field_of_int (st_max_ts st) @ field_of_int (st_last_ts st)
     @ st_group_key st"

definition sample_de :: "string \<Rightarrow> corr_state option" where
  "sample_de s = (case next_field s of (a, s) \<Rightarrow> case next_field s of (b, s) \<Rightarrow>
     case next_field s of (c, s) \<Rightarrow> case next_field s of (d, s) \<Rightarrow> case next_field s of (e, s) \<Rightarrow>
     Some \<lparr> st_group_key = s, st_stage = nat (int_of_field a), st_events = nat (int_of_field b),
       st_window_start = int_of_field c, st_max_ts = int_of_field d, st_last_ts = int_of_field e \<rparr>)"

lemma is_digit_comma: "\<not> is_digit (CHR '','')"
  by (simp add: is_digit_def)

lemma next_field_of_int:
  "next_field (field_of_int i @ s) = (show_nat (zigzag i), s)"
proof -
  let ?d = "show_nat (zigzag i)"
  have "\<forall>c \<in> set ?d. c \<noteq> CHR '',''"
    using show_nat_digits[of "zigzag i"]
    unfolding list_all_iff by (metis is_digit_comma)
  then show ?thesis
    by (simp add: next_field_def field_of_int_def takeWhile_append dropWhile_append)
qed

lemma int_of_field_show [simp]:
  "int_of_field (show_nat (zigzag i)) = i"
  by (simp add: int_of_field_def zigzag_def Let_def)

lemma sample_de_ser [simp]: "sample_de (sample_ser st) = Some st"
  by (simp add: sample_de_def sample_ser_def next_field_of_int)

definition sample_hash :: "string \<Rightarrow> nat" where
  "sample_hash s = foldl (\<lambda>h c. (31 * h + of_char c) mod 2 ^ 64) 0 s"

definition sample_corr :: corr_ext where
  "sample_corr = \<lparr> cx_hash = sample_hash, cx_ser = sample_ser, cx_de = sample_de, cx_re = no_ssh \<rparr>"

section \<open>An indicator matcher\<close>

definition sample_ioc :: ioc_match where
  "sample_ioc = \<lparr> ac_find = (\<lambda>ps t. filter (\<lambda>i. contains t (ps ! i)) [0..<length ps]),
     complex_match = (\<lambda>t. list_ex (\<lambda>p. is_match p t) malicious_complex_patterns), hash_order = sorted_list_of_set \<rparr>"

lemma sample_ioc_laws: "ioc_laws sample_ioc"
proof -
  have "complex_match sample_ioc t \<longleftrightarrow> (\<exists>p \<in> set malicious_complex_patterns. occurs p t)" for t
    by (simp add: sample_ioc_def is_match_occurs list_ex_iff)
  moreover have "\<forall>ps t i. i \<in> set (ac_find sample_ioc ps t) \<longrightarrow> i < length ps \<and> contains t (ps ! i)"
    "\<forall>ps t. (\<exists>p \<in> set ps. contains t p) \<longrightarrow> ac_find sample_ioc ps t \<noteq> []"
    "\<forall>A. finite A \<longrightarrow> set (hash_order sample_ioc A) = A \<and> distinct (hash_order sample_ioc A)"
    by (force simp: sample_ioc_def filter_empty_conv in_set_conv_nth)+
  ultimately show ?thesis unfolding ioc_laws_def by blast
qed

definition sample_engine :: engine_ext where
  "sample_engine = \<lparr> en_re = no_ssh, en_ioc = sample_ioc, en_corr = sample_corr \<rparr>"

section \<open>Stored rules\<close>

definition sample_rule :: "nat \<Rightarrow> string \<Rightarrow> string \<Rightarrow> string \<Rightarrow> detection_rule" where
  "sample_rule i tenant name type = \<lparr> dr_id = i, dr_tenant = tenant, dr_name = name,
     dr_description = None, dr_rule_type = type, dr_severity = ''high'', dr_threshold = Some 2,
     dr_window = Some 60, dr_condition = Some JNull, dr_enabled = True, dr_created = 0,
     dr_updated = 0 \<rparr>"

definition login_condition :: rule_condition where
  "login_condition = Field ''event_type'' ''eq'' (JStr ''login_failed'')"

definition sample_codec :: rule_codec where
  "sample_codec = \<lparr> rcx_condition = (\<lambda>_. Some login_condition), rcx_definition = (\<lambda>_. None),
     rcx_uuid = show_nat \<rparr>"

section \<open>A correlation rule\<close>

definition sample_stage :: "string \<Rightarrow> nat \<Rightarrow> corr_stage" where
  "sample_stage event n = \<lparr> cs_name = event, cs_condition = Field ''event_type'' ''eq'' (JStr event),
     cs_min_count = n \<rparr>"

definition sample_correlation :: corr_rule where
  "sample_correlation = corr_new ''acme'' ''9'' ''takeover'' ''critical''
     \<lparr> cd_window_seconds = 300, cd_version = 1, cd_max_active_groups = 10, cd_lateness = 30,
       cd_state_ttl = 600, cd_eviction = Oldest_First, cd_group_by = [''source_ip''],
       cd_stages = [sample_stage ''login_failed'' 2, sample_stage ''login_success'' 1] \<rparr>"

definition sample_stream :: "log list" where
  "sample_stream = [sample_log ''acme'' ''9.9.9.9'' ''login_failed'' ''x'' 100,
     sample_log ''acme'' ''9.9.9.9'' ''login_failed'' ''x'' 101,
     sample_log ''acme'' ''9.9.9.9'' ''login_success'' ''x'' 102]"

lemma sample_correlation_ready: "corr_ready sample_corr sample_correlation"
  by (simp add: corr_ready_def sample_corr_def sample_correlation_def corr_new_def
      state_ttl_seconds_def sat_add64_def lateness_def)

lemma sample_correlation_fit: "groups_fit sample_corr sample_correlation {''9.9.9.9''}"
  by (simp add: groups_fit_def sample_correlation_def corr_new_def)

lemma sample_stream_groups: "get_group_key sample_correlation ` set sample_stream \<subseteq> insert [] {''9.9.9.9''}"
  by (simp add: sample_stream_def sample_correlation_def corr_new_def get_group_key_def group_part_def)

lemma ks_empty_facts:
  "well_typed sk zk ks_empty" "idx_at ks_empty k = []" "str_at ks_empty k = None"
  by (simp_all add: well_typed_def ks_empty_def idx_at_def str_at_def zset_of_def option_or_def)

lemma sample_corr_simps [simp]:
  "cx_re sample_corr = no_ssh" "cx_ser sample_corr = sample_ser" "cx_de sample_corr = sample_de"
  by (simp_all add: sample_corr_def)

lemma sample_correlation_def_simps [simp]:
  "cd_max_active_groups (cr_def sample_correlation) = 10"
  "cd_stages (cr_def sample_correlation) = [sample_stage ''login_failed'' 2, sample_stage ''login_success'' 1]"
  by (simp_all add: sample_correlation_def corr_new_def)

lemma rcache_new_simps [simp]:
  "rc_srv (rcache_new s now) = s" "rc_now (rcache_new s now) = now" "rc_l1 (rcache_new s now) = []"
  by (simp_all add: rcache_new_def)

lemma timestamp_seconds [simp]: "timestamp (seconds n) = n"
  by (simp add: timestamp_def seconds_def)

lemma sample_conditions [simp]:
  "evaluate re (cs_condition (sample_stage ev n)) l = (l_event_type l = ev)"
  "cs_min_count (sample_stage ev n) = n"
  by (simp_all add: sample_stage_def field_value_def apply_op_def Let_def)
lemma sample_window:
  "lateness sample_correlation = 30" "cd_window_seconds (cr_def sample_correlation) = 300"
  by (simp_all add: lateness_def sample_correlation_def corr_new_def)
lemmas sample_steps = corr_step_def is_stale_by_watermark_def sat_sub_i64_def sample_window reset_state_def
  match_stage_def advance_window_def wrap_i64_def u64_as_i64_def Let_def
lemma sample_step:
  "corr_step no_ssh sample_correlation ''9.9.9.9'' 100 (hd sample_stream) (reset_state ''9.9.9.9'' 100)
     = Keep ((reset_state ''9.9.9.9'' 100) \<lparr> st_events := 1 \<rparr>)"
  by (simp add: sample_steps sample_stream_def)
lemma sample_group [simp]: "get_group_key sample_correlation l = l_source_ip l"
  by (simp add: sample_correlation_def corr_new_def get_group_key_def group_part_def)
lemma sample_run:
  "groups_run no_ssh sample_correlation (\<lambda>_. None) sample_stream = [False, False, True]"
  by (simp add: sample_stream_def groups_step_def group_state_def sample_steps)

end
