(* ===== verification/Detection_Properties.thy ===== *)
theory Detection_Properties
  imports Samples
begin

text \<open>What the detection engine promises: which rules a log is evaluated against and how often, whom
an alert concerns, when the brute-force, malware and correlation rules fire, and how the
condition language compares values.\<close>

section \<open>Candidates\<close>

definition tag_hit :: "rule_codec \<Rightarrow> detection_rule list \<Rightarrow> log \<Rightarrow> bool" where
  "tag_hit K ds l \<longleftrightarrow> list_ex (\<lambda>d. case compile_rule K d of None \<Rightarrow> False
     | Some c \<Rightarrow> list_ex (\<lambda>t. t \<in> set (log_types c)) (infer_tags l)) ds"

lemma set_map_filter: "set (List.map_filter f ds) = {c. \<exists>d \<in> set ds. f d = Some c}"
  using map_filter_set by fast

lemma tag_hit_index:
  "concat (map (index_rules K ds (\<lambda>_. [])) (infer_tags l)) = [] \<longleftrightarrow> \<not> tag_hit K ds l"
  by (force simp: tag_hit_def index_rules_apply list_ex_iff set_map_filter filter_empty_conv
      split: option.splits)

lemma count_list_filter: "count_list (filter P xs) x = (if P x then count_list xs x else 0)"
  by (induction xs) auto

lemma count_list_concat: "count_list (concat xss) x = sum_list (map (\<lambda>xs. count_list xs x) xss)"
  by (induction xss) auto

lemma sum_list_indicator:
  "sum_list (map (\<lambda>t. if P t then n else 0) ts) = n * length (filter P ts)"
  for n :: nat
  by (induction ts) auto

text \<open>C38. A rule of the store is evaluated on a log once for every inferred tag it is indexed under.\<close>

theorem candidate_multiplicity:
  "count_list (candidate_rules (index_rules K ds (\<lambda>_. [])) l) c
     = (if rule_tenant c \<noteq> l_tenant l then 0
        else count_list (List.map_filter (compile_rule K) ds) c
           * length (filter (\<lambda>t. t \<in> set (log_types c))
               (if tag_hit K ds l then infer_tags l else [Malware])))"
  using tag_hit_index[of K ds l]
  by (auto simp: candidate_rules_def Let_def count_list_filter count_list_concat comp_def
      index_rules_apply sum_list_indicator)

section \<open>Alerts\<close>

text \<open>Every alert of a log concerns the log's tenant and address and one of that tenant's
enabled rules.\<close>

theorem detect_alerts_sound:
  assumes "set (sched (candidate_rules (index_rules K ds (\<lambda>_. [])) l))
      \<subseteq> set (candidate_rules (index_rules K ds (\<lambda>_. [])) l)"
    and "a \<in> set (fst (detect X C sched (index_rules K ds (\<lambda>_. [])) uuid now l p))"
  shows "\<exists>d \<in> set ds. dr_tenant d = l_tenant l \<and> a_rule_id a = rcx_uuid K (dr_id d)
     \<and> a_tenant a = l_tenant l \<and> a_source_ip a = l_source_ip l \<and> a_events a = [l] \<and> a_status a = New"
proof -
  let ?ix = "index_rules K ds (\<lambda>_. [])"
  obtain c where c: "c \<in> set (sched (candidate_rules ?ix l))" "alert_for c l a"
    using assms(2) evaluate_rules_alerts[of a X C "sched (candidate_rules ?ix l)" uuid now l "snd p"]
    by (auto simp: detect_def split: prod.splits)
  then have cand: "c \<in> set (candidate_rules ?ix l)" using assms(1) by blast
  then have t: "rule_tenant c = l_tenant l" by (rule candidate_tenant)
  obtain d where "d \<in> set ds" "compile_rule K d = Some c"
    using cand by (auto simp: candidate_rules_def Let_def index_rules_apply map_filter_set
        split: if_splits)
  then show ?thesis using t c(2) compile_tenant compile_id by (force simp: alert_for_def)
qed

lemma detect_alerts_sound_witness:
  "\<exists>d \<in> set [sample_rule 1 ''acme'' ''bf'' ''brute_force'', sample_rule 2 ''acme'' ''gen'' ''generic''].
     dr_tenant d = ''acme'' \<and> rcx_uuid sample_codec (dr_id d) = ''2''"
proof -
  let ?ds = "[sample_rule 1 ''acme'' ''bf'' ''brute_force'', sample_rule 2 ''acme'' ''gen'' ''generic'']"
  let ?l = "sample_log ''acme'' ''10.0.0.9'' ''login_failed'' ''bad'' 100"
  let ?C = "redis_cache Inr mem_redis"
  let ?p = "(stats_zero, rcache_new ks_empty (seconds 100))"
  let ?c = "Generic (generic_new ''acme'' ''2'' ''gen'' ''high'' login_condition)"
  let ?D = "detect sample_engine ?C (\<lambda>cs. [?c]) (index_rules sample_codec ?ds (\<lambda>_. [])) 5 0 ?l ?p"
  have cand: "?c \<in> set (candidate_rules (index_rules sample_codec ?ds (\<lambda>_. [])) ?l)"
  proof -
    have "infer_tags ?l = [Auth]" by code_simp
    moreover have "compile_rule sample_codec (sample_rule 2 ''acme'' ''gen'' ''generic'') = Some ?c"
      by code_simp
    ultimately show ?thesis
      by (simp add: candidate_rules_def Let_def index_rule_once gr_log_types_def
          generic_new_def)
  qed
  have ev: "evaluate no_ssh login_condition ?l"
    by (simp add: login_condition_def field_value_def apply_op_def Let_def)
  have show_high: "rule_severity ''high'' = High" by code_simp
  let ?a = "event_alert 5 ''2'' ''gen'' High (''Rule triggered: '' @ ''gen'') ?l"
  have "?a \<in> set (fst ?D)"
    using ev by (simp add: detect_def gr_evaluate_def generic_new_def ok_def sample_engine_def
        show_high)
  from detect_alerts_sound[where sched = "\<lambda>cs. [?c]", OF _ this] cand
  show ?thesis by (force simp: event_alert_def)
qed

text \<open>One processed log adds one to the log counter, and every alert it raises is counted once as
alert, as active and, when critical, as critical, modulo \<open>2 ^ 64\<close>.\<close>

theorem detect_counts:
  "case detect X C sched ix uuid now l (st, s) of (as, (st', s')) \<Rightarrow>
     ls_logs st' = ls_logs st + 1 \<and> ls_alerts st' = ls_alerts st + of_nat (length as)
     \<and> ls_active st' = ls_active st + of_nat (length as)
     \<and> ls_critical st' = ls_critical st + of_nat (length (filter (\<lambda>a. a_severity a = Critical) as))"
  by (simp add: detect_def count_alerts_counts incr_log_def split: prod.splits)

section \<open>Brute force\<close>

text \<open>C39. Whatever rules and tenants the evaluations are for, a failed login raises an alert exactly
when the failures counted for its source address, this one included, reach the rule's
threshold.\<close>

theorem brute_force_verdicts:
  assumes "redis_server rd up view" "up (rc_srv st)"
    and "\<forall>ip. \<exists>n. counter_at (view (rc_srv st)) ip = Some n \<and> n + failed_from ip xs < 2 ^ 32"
    and "\<forall>(r, l) \<in> set xs. window_ok r"
    and "j < length xs" "xs ! j = (r, l)"
  shows "\<exists>a. fst (bf_run (redis_cache hash rd) xs uuid now st) ! j = Inr a \<and>
     ((a \<noteq> None) = (is_failed_login l \<and> bf_threshold r
        \<le> the (counter_at (view (rc_srv st)) (l_source_ip l))
          + failed_from (l_source_ip l) (take (Suc j) xs)))"
  using redis_client.bf_verdicts[OF redis_client.intro[OF assms(1)] assms(4) _ assms(5,6), of st] assms(2,3)
  by simp

lemma brute_force_verdicts_witness:
  "\<exists>a. fst (bf_run (redis_cache Inr mem_redis)
       [(\<lparr> bf_tenant = ''a'', bf_id = ''1'', bf_name = ''r'', bf_threshold = 5, bf_window = 60 \<rparr>,
          sample_log ''a'' ''9.9.9.9'' ''login_failed'' ''x'' 0),
        (\<lparr> bf_tenant = ''b'', bf_id = ''2'', bf_name = ''s'', bf_threshold = 2, bf_window = 60 \<rparr>,
          sample_log ''b'' ''9.9.9.9'' ''login_failed'' ''x'' 0)]
       0 0 (rcache_new ks_empty 0)) ! 1 = Inr a \<and> a \<noteq> None"
proof -
  let ?r1 = "\<lparr> bf_tenant = ''a'', bf_id = ''1'', bf_name = ''r'', bf_threshold = 5, bf_window = 60 \<rparr>"
  let ?r2 = "\<lparr> bf_tenant = ''b'', bf_id = ''2'', bf_name = ''s'', bf_threshold = 2, bf_window = 60 \<rparr>"
  let ?l1 = "sample_log ''a'' ''9.9.9.9'' ''login_failed'' ''x'' 0"
  let ?l2 = "sample_log ''b'' ''9.9.9.9'' ''login_failed'' ''x'' 0"
  have fl: "is_failed_login ?l1" "is_failed_login ?l2" by (simp_all add: is_failed_login_def)
  have zero: "counter_at ks_empty ip = Some 0" for ip by (simp add: counter_at_def ks_empty_def)
  have small: "failed_from ip [(?r1, ?l1), (?r2, ?l2)] \<le> 2" for ip by (simp add: failed_from_def)
  have "\<forall>ip. \<exists>n. counter_at (rc_srv (rcache_new ks_empty 0)) ip = Some n
      \<and> n + failed_from ip [(?r1, ?l1), (?r2, ?l2)] < 2 ^ 32"
  proof
    fix ip
    show "\<exists>n. counter_at (rc_srv (rcache_new ks_empty 0)) ip = Some n
      \<and> n + failed_from ip [(?r1, ?l1), (?r2, ?l2)] < 2 ^ 32"
      using zero[of ip] le_less_trans[OF small[of ip]] by (simp add: rcache_new_def)
  qed
  from brute_force_verdicts[OF mem.redis_server_axioms _ this, where j = 1 and r = ?r2 and l = ?l2
      and uuid = 0 and now = 0 and hash = Inr] zero fl
  show ?thesis by (auto simp: window_ok_def rcache_new_def failed_from_def)
qed

section \<open>Malware indicators\<close>

text \<open>C35. The malware rule alerts exactly when the source address is on the list, some indicator
occurs in the lower-cased message, one of the command patterns occurs in the message as it is, or the
reputation is at least 80.\<close>

theorem malware_verdict:
  assumes "ioc_laws M" "c_get_ip_reputation C (l_source_ip l) s = (Inr score, s')"
  shows "\<exists>a. mr_evaluate M C r uuid now l s = (Inr a, s') \<and>
     ((a \<noteq> None) = (check_ip (l_source_ip l)
        \<or> (\<exists>p \<in> set malicious_simple_iocs. contains (to_lowercase (l_message l)) p)
        \<or> (\<exists>p \<in> set malicious_complex_patterns. occurs p (l_message l)) \<or> (\<exists>n. score = Some n \<and> 80 \<le> n)))"
  using static_reasons_nonempty[OF assms(1), of l] assms(2)
  by (auto simp: mr_evaluate_def Let_def bind_ok_def ok_def split: option.split)

lemma malware_verdict_witness:
  "\<exists>a. mr_evaluate sample_ioc (redis_cache Inr mem_redis) \<lparr> mr_tenant = ''a'', mr_id = ''1'', mr_name = ''m'' \<rparr>
     0 0 (sample_log ''a'' ''10.0.0.1'' ''process'' ''run PowerShell'' 0) (rcache_new ks_empty 0)
     = (Inr a, rcache_new ks_empty 0) \<and> a \<noteq> None"
proof -
  let ?l = "sample_log ''a'' ''10.0.0.1'' ''process'' ''run PowerShell'' 0"
  have "c_get_ip_reputation (redis_cache Inr mem_redis) (l_source_ip ?l) (rcache_new ks_empty 0)
      = (Inr None, rcache_new ks_empty 0)"
    by (simp add: redis_cache_def get_ip_reputation_def on_server_def bind_ok_def ok_def
        rcache_new_def mem_redis_def ks_get_def ks_empty_def)
  from malware_verdict[OF sample_ioc_laws this, of "\<lparr> mr_tenant = ''a'', mr_id = ''1'', mr_name = ''m'' \<rparr>" 0 0]
  have "\<exists>a. mr_evaluate sample_ioc (redis_cache Inr mem_redis) \<lparr> mr_tenant = ''a'', mr_id = ''1'', mr_name = ''m'' \<rparr>
     0 0 ?l (rcache_new ks_empty 0) = (Inr a, rcache_new ks_empty 0)
     \<and> ((a \<noteq> None) = (check_ip (l_source_ip ?l)
        \<or> (\<exists>p \<in> set malicious_simple_iocs. contains (to_lowercase (l_message ?l)) p)
        \<or> (\<exists>p \<in> set malicious_complex_patterns. occurs p (l_message ?l)) \<or> (\<exists>n. None = Some n \<and> 80 \<le> (n :: nat))))" .
  moreover have "''powershell'' \<in> set malicious_simple_iocs"
    "contains (to_lowercase (l_message ?l)) ''powershell''"
    unfolding sample_log_simps by code_simp+
  ultimately show ?thesis by metis
qed

section \<open>Ssh logins\<close>

text \<open>C33. The normalized event of an ssh login, accepted or failed, has the user, the address and the port of the
first such line of the message, whatever comes before and after it; an address of the log itself gives way to
the one of the line.\<close>

theorem ssh_login_read:
  assumes "ssh_laws re" "l_service l = Some svc" "svc = ''ssh'' \<or> svc = ''sshd''" "l_target_user l = None"
    and "verb = ''Accepted password for ''
       \<or> verb = ''Failed password for '' \<and> \<not> contains (l_message l) ''Accepted password for ''"
    and "l_message l = pre @ login_line verb user ip port rest"
    and "first_in verb pre (login_line verb user ip port rest)"
    and "list_all not_space user" "user \<noteq> []" "list_all not_space ip" "ip \<noteq> []"
    and "list_all is_digit port" "port \<noteq> []" "rest = [] \<or> \<not> is_digit (hd rest)"
  shows "e_user_name (normalize_log re l) = Some user \<and> e_source_ip (normalize_log re l) = Some ip
    \<and> e_source_port (normalize_log re l) = parse_uint 16 port
    \<and> e_outcome (normalize_log re l) = Some (if is_failed_login l then ''failure'' else ''success'')"
proof -
  have found: "find_match (login_pattern verb) (l_message l) = Some [(''user'', user), (''ip'', ip), (''port'', port)]"
    using login_found[OF assms(8-14,7)] assms(6) by simp
  have phrase: "contains (l_message l) verb"
    unfolding assms(6) login_line_def contains_iff by (metis append.assoc)
  from assms(5) show ?thesis
  proof (elim disjE conjE)
    assume v: "verb = ''Accepted password for ''"
    then have "ssh_accepted re (l_message l) = Some (ssh_groups [(''user'', user), (''ip'', ip), (''port'', port)])"
      using assms(1) found by (simp add: ssh_laws_def ssh_accepted_pattern_def)
    moreover have "is_successful_login l"
      using contains_trans[OF phrase, of "''Accepted password''"] v by (simp add: is_successful_login_def starts_with_def)
    ultimately show ?thesis using assms(2-4)
      by (auto simp: normalize_outcome normalize_log_def parse_ssh_log_def ssh_groups_def Let_def option_or_def)
  next
    assume v: "verb = ''Failed password for ''" "\<not> contains (l_message l) ''Accepted password for ''"
    then have "ssh_accepted re (l_message l) = None"
      "ssh_failed re (l_message l) = Some (ssh_groups [(''user'', user), (''ip'', ip), (''port'', port)])"
      using assms(1) found login_not_found[OF v(2)] by (simp_all add: ssh_laws_def ssh_accepted_pattern_def ssh_failed_pattern_def)
    moreover have "is_failed_login l"
      using contains_trans[OF phrase, of "''Failed password''"] v by (simp add: is_failed_login_def starts_with_def)
    ultimately show ?thesis using assms(2-4)
      by (auto simp: normalize_outcome normalize_log_def parse_ssh_log_def ssh_groups_def Let_def option_or_def)
  qed
qed

definition ssh_log :: "string \<Rightarrow> log" where
  "ssh_log m = (sample_log ''acme'' ''10.0.0.9'' ''auth'' m 0) \<lparr> l_service := Some ''sshd'' \<rparr>"

lemma ssh_login_read_witness:
  "e_user_name (normalize_log pattern_ssh (ssh_log ''sshd: Failed password for root from 6.6.6.6 port 22 ssh2'')) = Some ''root''
   \<and> e_source_ip (normalize_log pattern_ssh (ssh_log ''sshd: Failed password for root from 6.6.6.6 port 22 ssh2'')) = Some ''6.6.6.6''"
proof -
  let ?m = "''sshd: Failed password for root from 6.6.6.6 port 22 ssh2''"
  have "l_service (ssh_log ?m) = Some ''sshd''" "l_target_user (ssh_log ?m) = None" "l_message (ssh_log ?m) = ?m"
    by (simp_all add: ssh_log_def sample_log_def log_new_def)
  moreover have "\<not> contains ?m ''Accepted password for ''"
    "?m = ''sshd: '' @ login_line ''Failed password for '' ''root'' ''6.6.6.6'' ''22'' '' ssh2''"
    "list_all not_space ''root''" "list_all not_space ''6.6.6.6''" "list_all is_digit ''22''" "\<not> is_digit (hd '' ssh2'')"
    by code_simp+
  moreover have "first_in ''Failed password for '' ''sshd: '' (login_line ''Failed password for '' ''root'' ''6.6.6.6'' ''22'' '' ssh2'')"
    unfolding first_in_def by code_simp
  ultimately show ?thesis
    using ssh_login_read[OF pattern_ssh_laws, of "ssh_log ?m" "''sshd''" "''Failed password for ''" "''sshd: ''" "''root''" "''6.6.6.6''" "''22''" "'' ssh2''"]
    by simp
qed

text \<open>The line of an unknown user is not read: the word \<open>invalid\<close> stands where the user is expected.\<close>

theorem ssh_unknown_user_unread:
  assumes "ssh_laws re" "l_target_user l = None" "l_message l = ''Failed password for invalid user '' @ rest"
    and "\<not> contains (l_message l) ''Accepted password for ''"
    and "\<forall>k \<in> {0<..length (l_message l)}. \<not> starts_with (drop k (l_message l)) ''Failed password for ''"
  shows "e_user_name (normalize_log re l) = None \<and> e_source_ip (normalize_log re l) = Some (l_source_ip l)"
proof -
  have start: "tries ssh_failed_pattern (l_message l) = []"
  proof (rule ccontr)
    assume "tries ssh_failed_pattern (l_message l) \<noteq> []"
    then obtain w a r where "(w, a, r) \<in> set (tries ssh_failed_pattern (l_message l))"
      by (metis list.set_intros(1) neq_Nil_conv prod_cases3)
    then obtain u x where "''invalid user '' @ rest = u @ '' from '' @ x" "list_all not_space u"
      unfolding tries_iff assms(3) ssh_failed_pattern_def login_pattern_def by auto
    then have "takeWhile not_space (''invalid user '' @ rest) = u" "dropWhile not_space (''invalid user '' @ rest) = '' from '' @ x"
      by (simp_all add: list_all_iff takeWhile_append2 dropWhile_append2 not_space_def is_whitespace_def)
    moreover have "dropWhile not_space (''invalid user '' @ rest) = '' user '' @ rest"
      by (simp add: not_space_def is_whitespace_def)
    ultimately show False by simp
  qed
  have "find_match ssh_failed_pattern (l_message l) = None"
  proof (rule find_match_none)
    fix k assume "k \<le> length (l_message l)"
    then show "tries ssh_failed_pattern (drop k (l_message l)) = []"
      using start assms(5) no_start unfolding ssh_failed_pattern_def login_pattern_def
      by (cases "k = 0") (simp, metis greaterThanAtMost_iff neq0_conv)
  qed
  moreover have "find_match ssh_accepted_pattern (l_message l) = None"
    unfolding ssh_accepted_pattern_def by (rule login_not_found[OF assms(4)])
  ultimately show ?thesis using assms(1,2)
    by (auto simp: normalize_defs ssh_laws_def split: option.split)
qed

section \<open>Correlation\<close>

lemma correlation_typed:
  assumes "redis_server rd up view"
  shows "typed_client rd up view is_state_key is_active_key"
  by (intro typed_client.intro redis_client.intro typed_client_axioms.intro assms key_kinds_disjoint)

lemma correlation_stream:
  assumes "redis_server rd up view" "up (rc_srv st)" "corr_ready X r"
    and "well_typed is_state_key is_active_key (view (rc_srv st))"
    and "groups_fit X r G" "get_group_key r ` set ls \<subseteq> insert [] G"
    and "index_within X r G (idx_at (view (rc_srv st)) (active_index_key r))"
  shows "map (\<lambda>v. \<exists>a. v = Inr (Some a)) (corr_evaluations X (redis_cache hash rd) r uuid ls st)
      = groups_run (cx_re X) r (groups_of X r (str_at (view (rc_srv st)))) ls
    \<and> (\<forall>v \<in> set (corr_evaluations X (redis_cache hash rd) r uuid ls st). is_ok v)"
proof -
  note T = correlation_typed[OF assms(1)]
  have "typed_client.tready up view is_state_key is_active_key st"
    using assms(2,4) by (simp add: typed_client.tready_def[OF T])
  from typed_client.corr_stream[OF T this assms(3) state_key_ok active_key_ok assms(5,6,7)]
  show ?thesis by blast
qed

lemma corr_evaluations_length: "length (corr_evaluations X C r uuid ls s) = length ls"
  by (induction ls arbitrary: uuid s) simp_all



text \<open>C1. Over a stream of logs of fewer groups than the bound, the evaluations over the cache never
fail and alert exactly where one machine per group, started from the stored states, fires.\<close>

theorem correlation_stream_exact:
  assumes "redis_server rd up view" "up (rc_srv st)" "corr_ready X r"
    and "well_typed is_state_key is_active_key (view (rc_srv st))"
    and "groups_fit X r G" "get_group_key r ` set ls \<subseteq> insert [] G"
    and "index_within X r G (idx_at (view (rc_srv st)) (active_index_key r))"
  shows "map (\<lambda>v. \<exists>a. v = Inr (Some a)) (corr_evaluations X (redis_cache hash rd) r uuid ls st)
      = groups_run (cx_re X) r (groups_of X r (str_at (view (rc_srv st)))) ls
    \<and> list_all is_ok (corr_evaluations X (redis_cache hash rd) r uuid ls st)"
  using correlation_stream[OF assms] by (simp add: list_all_iff)

lemma correlation_stream_exact_witness:
  "map (\<lambda>v. \<exists>a. v = Inr (Some a)) (corr_evaluations sample_corr (redis_cache Inr mem_redis)
     sample_correlation 1 sample_stream (rcache_new ks_empty 0)) = [False, False, True]"
proof -
  have g: "groups_of sample_corr sample_correlation (str_at ks_empty) = (\<lambda>_. None)"
    by (rule ext) (simp add: groups_of_def ks_empty_facts stored_state_def)
  show ?thesis
    using correlation_stream_exact[OF mem.redis_server_axioms TrueI sample_correlation_ready _
        sample_correlation_fit sample_stream_groups, of "rcache_new ks_empty 0" Inr 1] sample_run
    by (simp add: g ks_empty_facts index_within_def)
qed

text \<open>C16. On a cache without earlier states of the rule, an alert at a log means that the logs of its
group up to it hold, in order, the required number of matches of every stage.\<close>

theorem correlation_stream_sound:
  assumes "redis_server rd up view" "up (rc_srv st)" "corr_ready X r" "cd_stages (cr_def r) \<noteq> []"
    and "well_typed is_state_key is_active_key (view (rc_srv st))"
    and "groups_fit X r G" "get_group_key r ` set ls \<subseteq> insert [] G"
    and "idx_at (view (rc_srv st)) (active_index_key r) = []"
    and "\<forall>gk. str_at (view (rc_srv st)) (state_key X r gk) = None"
    and "j < length ls" "corr_evaluations X (redis_cache hash rd) r uuid ls st ! j = Inr (Some a)"
  shows "matched_in_order (cx_re X) (expand_stages (cd_stages (cr_def r)))
     (same_group r (ls ! j) (take (Suc j) ls))"
proof -
  have "index_within X r G (idx_at (view (rc_srv st)) (active_index_key r))"
    using assms(8) by (simp add: index_within_def)
  note run = correlation_stream[OF assms(1-3,5-7) this, of hash uuid]
  have len: "length (corr_evaluations X (redis_cache hash rd) r uuid ls st) = length ls"
    by (rule corr_evaluations_length)
  have none: "groups_of X r (str_at (view (rc_srv st))) = (\<lambda>_. None)"
    by (rule ext) (simp add: groups_of_def stored_state_def assms(9))
  have "map (\<lambda>v. \<exists>a. v = Inr (Some a)) (corr_evaluations X (redis_cache hash rd) r uuid ls st) ! j"
    using assms(10,11) len by simp
  then have "groups_run (cx_re X) r (\<lambda>_. None) ls ! j" using run none by simp
  then show ?thesis using groups_run_backed[OF assms(4) _ assms(10), of "cx_re X" "[]" "\<lambda>_. None"]
    by (simp add: groups_backed_def)
qed

lemma correlation_stream_sound_witness:
  "matched_in_order no_ssh (expand_stages (cd_stages (cr_def sample_correlation)))
     (same_group sample_correlation (sample_stream ! 2) (take 3 sample_stream))"
proof -
  let ?c = "redis_cache Inr mem_redis" let ?s0 = "rcache_new ks_empty 0"
  have g: "groups_of sample_corr sample_correlation (str_at ks_empty) = (\<lambda>_. None)"
    by (rule ext) (simp add: groups_of_def ks_empty_facts stored_state_def)
  have "index_within sample_corr sample_correlation {''9.9.9.9''}
      (idx_at (rc_srv ?s0) (active_index_key sample_correlation))"
    by (simp add: ks_empty_facts index_within_def)
  from correlation_stream[OF mem.redis_server_axioms TrueI sample_correlation_ready _
      sample_correlation_fit sample_stream_groups this, of Inr 1] sample_run
  have ev: "map (\<lambda>v. \<exists>a. v = Inr (Some a)) (corr_evaluations sample_corr ?c sample_correlation 1 sample_stream ?s0)
      = [False, False, True]"
    by (simp add: g ks_empty_facts)
  have "length (corr_evaluations sample_corr ?c sample_correlation 1 sample_stream ?s0) = 3"
    using arg_cong[OF ev, of length] by simp
  then obtain a where "corr_evaluations sample_corr ?c sample_correlation 1 sample_stream ?s0 ! 2 = Inr (Some a)"
    using arg_cong[OF ev, of "\<lambda>xs. xs ! 2"] by auto
  from correlation_stream_sound[OF mem.redis_server_axioms TrueI sample_correlation_ready _ _
      sample_correlation_fit sample_stream_groups _ _ _ this]
  show ?thesis
    by (simp add: ks_empty_facts sample_stream_def numeral_3_eq_3)
qed

end
