(* ===== verification/Windows.thy ===== *)
theory Windows
  imports Cache_Contracts
begin

text \<open>What the rate-limit windows and the token store of the cache promise, over any server that
meets its documentation: the laws of single calls on the keyspace, carried over to the server,
and what follows for sequences of calls.\<close>

section \<open>Carrying a result over to the server\<close>

context redis_server
begin

lemma carry:
  assumes "simulates rup rview f g" "up (rc_srv st)" "g (rview st) = (r, t)"
  shows "fst (f st) = r" "view (rc_srv (snd (f st))) = rc_srv t" "up (rc_srv (snd (f st)))"
    "rc_l1 (snd (f st)) = rc_l1 t" "rc_now (snd (f st)) = rc_now t"
proof -
  note D = simulatesD[OF assms(1,2)]
  have v: "rview (snd (f st)) = t" and r: "fst (f st) = r" using D(1) assms(3) by auto
  then show "fst (f st) = r" "view (rc_srv (snd (f st))) = rc_srv t" "up (rc_srv (snd (f st)))"
    "rc_l1 (snd (f st)) = rc_l1 t" "rc_now (snd (f st)) = rc_now t"
    using D(2) by auto
qed

end

section \<open>The fixed window\<close>

lemma parse_zero: "parse_int 64 ''0'' = Some 0"
proof -
  have "show_int (int 0) = ''0''" by code_simp
  then show ?thesis using parse_int_show_nat[of 0] by simp
qed

lemma counter_at_parse:
  "counter_at s k = Some c \<Longrightarrow>
   ks_get k s = (Inr (case ks_val s k of Some (RStr v) \<Rightarrow> Some v | _ \<Rightarrow> None), s)
   \<and> parse_int 64 (option_or ''0'' (case ks_val s k of Some (RStr v) \<Rightarrow> Some v | _ \<Rightarrow> None)) = Some (int c)"
  by (auto simp: counter_at_def ks_get_def option_or_def parse_zero split: option.splits rval.splits if_splits)

definition window_put :: "string \<Rightarrow> nat \<Rightarrow> nat \<Rightarrow> keyspace \<Rightarrow> keyspace" where
  "window_put k w n s = (ks_put k (RStr (show_int (int n))) s)
     \<lparr> ks_ttl := (ks_ttl s)(k := Some (w * 1000)) \<rparr>"

lemma mem_fixed_window:
  assumes "counter_at (rc_srv st) k = Some c" "c + cost < 2 ^ 63" "0 < w"
  shows "allow_fixed_window mem_redis k w limit cost st = (Inr (c + cost \<le> limit),
     if c + cost \<le> limit then st \<lparr> rc_srv := window_put k w (c + cost) (rc_srv st) \<rparr> else st)"
proof -
  note G = counter_at_parse[OF assms(1)]
  have I: "ks_incrby k (int cost) (rc_srv st)
      = (Inr (int (c + cost)), ks_put k (RStr (show_int (int (c + cost)))) (rc_srv st))"
    by (rule ks_incrby_counter[OF assms(1,2)])
  have X: "ks_expire_ms k (int w * 1000) (ks_put k (RStr (show_int (int (c + cost)))) (rc_srv st))
      = (Inr (), window_put k w (c + cost) (rc_srv st))"
    using assms(3) by (simp add: ks_expire_ms_def window_put_def nat_mult_distrib ks_put_def)
  have le: "int c + int cost \<le> int limit \<longleftrightarrow> c + cost \<le> limit" by linarith
  show ?thesis using G I X le
    by (simp add: allow_fixed_window_def fixed_window_script_def mem_redis_def bind_ok_def
        on_server_def ok_def)
qed

lemma counter_at_window:
  "n < 2 ^ 63 \<Longrightarrow> counter_at (window_put k w n s) = (counter_at s)(k \<mapsto> n)"
  using counter_at_put[of n k s] by (auto simp: window_put_def counter_at_def fun_eq_iff ks_put_def)

fun fixed_window_run ::
  "'s redis \<Rightarrow> string \<Rightarrow> nat \<Rightarrow> nat \<Rightarrow> nat list \<Rightarrow> 's rcache \<Rightarrow> bool list" where
  "fixed_window_run rd k w limit [] st = []"
| "fixed_window_run rd k w limit (cost # costs) st =
     (case allow_fixed_window rd k w limit cost st of
        (r, st') \<Rightarrow> (r = Inr True) # fixed_window_run rd k w limit costs st')"

text \<open>What the run admits, as a function of the counter.\<close>

fun admitted :: "nat \<Rightarrow> nat \<Rightarrow> nat list \<Rightarrow> bool list" where
  "admitted limit c [] = []"
| "admitted limit c (cost # costs) =
     (c + cost \<le> limit) # admitted limit (if c + cost \<le> limit then c + cost else c) costs"

definition admitted_cost :: "bool list \<Rightarrow> nat list \<Rightarrow> nat" where
  "admitted_cost bs costs = sum_list (map snd (filter fst (zip bs costs)))"

lemma admitted_length [simp]: "length (admitted limit c costs) = length costs"
  by (induction costs arbitrary: c) simp_all

lemma admitted_budget: "c + admitted_cost (admitted limit c costs) costs \<le> max c limit"
proof (induction costs arbitrary: c)
  case (Cons x xs)
  show ?case using Cons[of "if c + x \<le> limit then c + x else c"]
    by (auto simp: admitted_cost_def)
qed (simp add: admitted_cost_def)

context redis_server
begin

lemma fixed_window_run_admitted:
  assumes "up (rc_srv st)" "counter_at (view (rc_srv st)) k = Some c" "0 < w"
    and "c + sum_list costs < 2 ^ 63"
  shows "fixed_window_run rd k w limit costs st = admitted limit c costs"
  using assms
proof (induction costs arbitrary: st c)
  case (Cons x xs)
  have c: "counter_at (rc_srv (rview st)) k = Some c" using Cons.prems(2) by simp
  have b: "c + x < 2 ^ 63" using Cons.prems(4) by simp
  note M = mem_fixed_window[OF c b Cons.prems(3), of limit]
  note K = carry[OF sim_fixed Cons.prems(1) M]
  let ?c' = "if c + x \<le> limit then c + x else c"
  have "counter_at (view (rc_srv (snd (allow_fixed_window rd k w limit x st)))) k = Some ?c'"
    unfolding K(2) using c counter_at_window[OF b] by simp
  moreover have "?c' + sum_list xs < 2 ^ 63" using Cons.prems(4) by simp
  ultimately have "fixed_window_run rd k w limit xs (snd (allow_fixed_window rd k w limit x st))
      = admitted limit ?c' xs"
    using Cons.IH[OF K(3)] Cons.prems(3) by blast
  then show ?case using K(1) by (auto split: prod.split)
qed simp

end

section \<open>The fixed window over time\<close>

text \<open>On the keyspace with its clock: a gap in milliseconds before each call.\<close>

fun timed_window_run ::
  "string \<Rightarrow> nat \<Rightarrow> nat \<Rightarrow> (nat \<times> nat) list \<Rightarrow> keyspace rcache \<Rightarrow> bool list" where
  "timed_window_run k w limit [] st = []"
| "timed_window_run k w limit ((gap, cost) # calls) st =
     (case allow_fixed_window mem_redis k w limit cost (st \<lparr> rc_srv := ks_advance gap (rc_srv st) \<rparr>) of
        (r, st') \<Rightarrow> (r = Inr True) # timed_window_run k w limit calls st')"

definition window_open :: "string \<Rightarrow> nat \<Rightarrow> nat \<Rightarrow> keyspace \<Rightarrow> bool" where
  "window_open k w c s \<longleftrightarrow> counter_at s k = Some c \<and> ks_val s k \<noteq> None \<and> ks_ttl s k = Some (w * 1000)"

lemma advance_open:
  "window_open k w c s \<Longrightarrow> gap < w * 1000 \<Longrightarrow> counter_at (ks_advance gap s) k = Some c"
  by (simp add: window_open_def ks_advance_def counter_at_def)

lemma window_put_open:
  "n < 2 ^ 63 \<Longrightarrow> window_open k w n (window_put k w n s)"
  using counter_at_window[of n k w s] by (simp add: window_open_def) (simp add: window_put_def ks_put_def)

lemma timed_run_from_open:
  assumes "window_open k w c (rc_srv st)" "0 < w" "list_all (\<lambda>(gap, cost). gap < w * 1000) calls"
    and "c + sum_list (map snd calls) < 2 ^ 63"
    and "list_all (\<lambda>b. b) (timed_window_run k w limit calls st)" "calls \<noteq> []"
  shows "c + sum_list (map snd calls) \<le> limit"
  using assms
proof (induction calls arbitrary: st c)
  case (Cons x calls)
  obtain gap cost where x: "x = (gap, cost)" by (cases x)
  let ?st = "st \<lparr> rc_srv := ks_advance gap (rc_srv st) \<rparr>"
  have "counter_at (rc_srv ?st) k = Some c"
    using advance_open[OF Cons.prems(1)] Cons.prems(3) x by simp
  moreover have b: "c + cost < 2 ^ 63" using Cons.prems(4) x by simp
  ultimately have M: "allow_fixed_window mem_redis k w limit cost ?st = (Inr (c + cost \<le> limit),
      if c + cost \<le> limit then ?st \<lparr> rc_srv := window_put k w (c + cost) (rc_srv ?st) \<rparr> else ?st)"
    using mem_fixed_window Cons.prems(2) by blast
  then have le: "c + cost \<le> limit" using Cons.prems(5) x by (simp split: if_splits)
  let ?st' = "?st \<lparr> rc_srv := window_put k w (c + cost) (rc_srv ?st) \<rparr>"
  have "list_all (\<lambda>b. b) (timed_window_run k w limit calls ?st')"
    using Cons.prems(5) x M le by simp
  moreover have "window_open k w (c + cost) (rc_srv ?st')" using window_put_open[OF b] by simp
  ultimately have "calls \<noteq> [] \<Longrightarrow> c + cost + sum_list (map snd calls) \<le> limit"
    using Cons.IH[of "c + cost" ?st'] Cons.prems(2,3,4) x by (simp add: add.assoc)
  then show ?case using le x by (cases "calls = []") (simp_all add: add.assoc)
qed simp

section \<open>The sliding window\<close>

text \<open>The entries of the window are instants; those not older than the window count.\<close>

definition live_entries :: "int \<Rightarrow> nat \<Rightarrow> (string \<times> rat) list \<Rightarrow> (string \<times> rat) list" where
  "live_entries now w z = filter (\<lambda>e. \<not> (0 \<le> snd e \<and> snd e \<le> of_int (now - int w))) z"

lemma zset_put_put: "zset_of k (zset_put k z s) = Some z"
  by simp

lemma mem_sliding_window:
  assumes "zset_of k (rc_srv st) = Some z" "0 < w"
  defines "now \<equiv> timestamp_millis (rc_now st)"
  defines "live \<equiv> live_entries now w z"
  shows "fst (allow_sliding_window mem_redis k w limit st) = Inr (length live < limit)"
    and "zset_of k (rc_srv (snd (allow_sliding_window mem_redis k w limit st)))
       = Some (if length live < limit then al_update (show_int now) (of_int now) live else live)"
proof -
  let ?s1 = "zset_put k live (rc_srv st)"
  have r: "ks_zremrangebyscore k 0 (of_int (now - int w)) (rc_srv st) = (Inr (), ?s1)"
    using assms(1) by (simp add: ks_zremrangebyscore_def live_def live_entries_def)
  have c: "ks_zcard k ?s1 = (Inr (length live), ?s1)" by (simp add: ks_zcard_def)
  let ?s2 = "zset_put k (al_update (show_int now) (of_int now) live) ?s1"
  have a: "ks_zadd k (show_int now) (of_int now) ?s1 = (Inr (), ?s2)" by (simp add: ks_zadd_def)
  have ne: "al_update (show_int now) (of_int now :: rat) live \<noteq> []"
    by (cases live) (auto split: if_splits)
  obtain s3 where x: "ks_expire_ms k (int w) ?s2 = (Inr (), s3)" by (simp add: ks_expire_ms_def)
  have z3: "zset_of k s3 = zset_of k ?s2"
    using x assms(2) ks_val_expire[of "int w" k ?s2] by (simp add: zset_of_def)
  show "fst (allow_sliding_window mem_redis k w limit st) = Inr (length live < limit)"
    and "zset_of k (rc_srv (snd (allow_sliding_window mem_redis k w limit st)))
       = Some (if length live < limit then al_update (show_int now) (of_int now) live else live)"
    using r c a x z3
    by (simp_all add: allow_sliding_window_def sliding_window_script_def mem_redis_def bind_ok_def
        on_server_def ok_def now_def[symmetric])
qed

lemma length_al_update_le: "length (al_update k v xs) \<le> Suc (length xs)"
  by (induction k v xs rule: al_update.induct) auto

end
