(* ===== verification/Token_Store.thy ===== *)
theory Token_Store
  imports Windows
begin

text \<open>The refresh tokens in the cache: what storing, looking up and revoking a token do to the server's
keys, over any server that meets its documentation.\<close>

section \<open>On the keyspace\<close>

definition issued_to :: "keyspace \<Rightarrow> string \<Rightarrow> string list option" where
  "issued_to s user = (case ks_val s (user_tokens_key user) of
      None \<Rightarrow> Some [] | Some (RSet hs) \<Rightarrow> Some hs | _ \<Rightarrow> None)"

definition token_entry :: "keyspace \<Rightarrow> string \<Rightarrow> string option" where
  "token_entry s h = (case ks_val s (token_key h) of Some (RStr v) \<Rightarrow> Some v | _ \<Rightarrow> None)"

definition token_typed :: "keyspace \<Rightarrow> string \<Rightarrow> bool" where
  "token_typed s h \<longleftrightarrow> ks_val s (token_key h) = None \<or> (\<exists>v. ks_val s (token_key h) = Some (RStr v))"

lemma token_keys [simp]:
  "token_key h \<noteq> user_tokens_key u" "user_tokens_key u \<noteq> token_key h"
  "token_key h = token_key h' \<longleftrightarrow> h = h'" "user_tokens_key u = user_tokens_key v \<longleftrightarrow> u = v"
  by (simp_all add: token_key_def user_tokens_key_def)

lemma mem_get_token:
  assumes "hash tok = Inr h" "token_typed (rc_srv st) h"
  shows "get_user_id_by_refresh_token hash mem_redis tok st = (Inr (token_entry (rc_srv st) h), st)"
  using assms by (auto simp: get_user_id_by_refresh_token_def lift_result_def bind_ok_def on_server_def
      mem_redis_def ks_get_def token_entry_def token_typed_def)

definition stored :: "string \<Rightarrow> string \<Rightarrow> string \<Rightarrow> string list \<Rightarrow> (string \<Rightarrow> rval option) \<Rightarrow> string \<Rightarrow> rval option" where
  "stored h user v hs f = f(token_key h \<mapsto> RStr v,
     user_tokens_key user \<mapsto> RSet (if h \<in> set hs then hs else hs @ [h]))"

lemma mem_store_token:
  assumes "hash tok = Inr h" "issued_to (rc_srv st) user = Some hs" "0 < ttl" "ttl < 2 ^ 63"
  shows "\<exists>s'. store_refresh_token hash mem_redis user tenant tok ttl st = (Inr (), st \<lparr> rc_srv := s' \<rparr>)
     \<and> ks_val s' = stored h user (tenant @ '':'' @ user) hs (ks_val (rc_srv st))"
proof -
  obtain s1 where s1: "ks_setex (token_key h) (tenant @ '':'' @ user) ttl (rc_srv st) = (Inr (), s1)"
    "ks_val s1 = (ks_val (rc_srv st))(token_key h \<mapsto> RStr (tenant @ '':'' @ user))"
    using assms(3) by (simp add: ks_setex_def ks_put_def)
  let ?hs = "if h \<in> set hs then hs else hs @ [h]"
  have s2: "ks_sadd (user_tokens_key user) h s1 = (Inr (), ks_put (user_tokens_key user) (RSet ?hs) s1)"
    using assms(2) s1(2) by (auto simp: ks_sadd_def issued_to_def split: option.splits rval.splits)
  have ms: "0 < int ttl * 1000" using assms(3) by simp
  obtain s3 where s3: "ks_expire_ms (user_tokens_key user) (int ttl * 1000)
      (ks_put (user_tokens_key user) (RSet ?hs) s1) = (Inr (), s3)"
    by (simp add: ks_expire_ms_def)
  have v3: "ks_val s3 = (ks_val s1)(user_tokens_key user \<mapsto> RSet ?hs)"
    using s3 ks_val_expire[OF ms, of "user_tokens_key user" "ks_put (user_tokens_key user) (RSet ?hs) s1"]
    by (simp add: ks_put_def)
  show ?thesis
    using assms(1,4) s1 s2 s3 v3
    by (intro exI[of _ s3]) (simp add: store_refresh_token_def lift_result_def bind_ok_def on_server_def
        mem_redis_def u64_as_i64_id stored_def)
qed

lemma mem_revoke_token:
  assumes "hash tok = Inr h" "token_entry (rc_srv st) h = Some v"
    and "last (split_on CHR '':'' v) = user" "issued_to (rc_srv st) user = Some hs"
  shows "\<exists>s'. revoke_refresh_token hash mem_redis tok st = (Inr (), st \<lparr> rc_srv := s' \<rparr>)
     \<and> token_entry s' h = None \<and> token_typed s' h
     \<and> issued_to s' user = Some (removeAll h hs)
     \<and> (\<forall>h'. h' \<noteq> h \<longrightarrow> token_entry s' h' = token_entry (rc_srv st) h')"
proof -
  have t: "token_typed (rc_srv st) h"
    using assms(2) by (auto simp: token_entry_def token_typed_def split: option.splits rval.splits)
  note G = mem_get_token[of hash tok h st, OF assms(1) t]
  let ?s1 = "ks_del (token_key h) (rc_srv st)"
  have i1: "issued_to ?s1 user = Some hs" using assms(4) by (simp add: issued_to_def)
  obtain s2 where s2: "ks_srem (user_tokens_key user) h ?s1 = (Inr (), s2)"
    and i2: "issued_to s2 user = Some (removeAll h hs)"
    and f2: "\<And>k. k \<noteq> user_tokens_key user \<Longrightarrow> ks_val s2 k = ks_val ?s1 k"
  proof (cases "ks_val ?s1 (user_tokens_key user)")
    case None
    then have "hs = []" using i1 by (simp add: issued_to_def)
    then show thesis using None that[of ?s1] i1 by (simp add: ks_srem_def)
  next
    case (Some v)
    then have v: "v = RSet hs" using i1 by (auto simp: issued_to_def split: rval.splits)
    show thesis
    proof (cases "removeAll h hs = []")
      case True
      then show thesis using Some v that[of "ks_del (user_tokens_key user) ?s1"]
        by (simp add: ks_srem_def issued_to_def)
    next
      case False
      then show thesis using Some v that[of "ks_put (user_tokens_key user) (RSet (removeAll h hs)) ?s1"]
        by (simp add: ks_srem_def issued_to_def Let_def)
    qed
  qed
  show ?thesis
    using G s2 i2 f2 assms(1,2,3)
    by (intro exI[of _ s2])
       (auto simp: revoke_refresh_token_def lift_result_def bind_ok_def on_server_def mem_redis_def
         ks_delete_def Let_def token_entry_def token_typed_def)
qed

lemma mem_delete_tokens:
  "for_each (\<lambda>h. on_server (rd_del mem_redis (token_key h))) hs st
     = (Inr (), st \<lparr> rc_srv := fold (\<lambda>h. ks_del (token_key h)) hs (rc_srv st) \<rparr>)"
  by (induction hs arbitrary: st)
    (simp_all add: bind_ok_def on_server_def mem_redis_def ks_delete_def ok_def)

lemma fold_del_val:
  "ks_val (fold (\<lambda>h. ks_del (token_key h)) hs s) k = (if k \<in> token_key ` set hs then None else ks_val s k)"
  by (induction hs arbitrary: s) auto

lemma mem_revoke_all:
  assumes "issued_to (rc_srv st) user = Some hs"
  shows "\<exists>s'. revoke_all_user_tokens mem_redis user st = (Inr (), st \<lparr> rc_srv := s' \<rparr>)
     \<and> issued_to s' user = Some []
     \<and> (\<forall>h. token_entry s' h = (if h \<in> set hs then None else token_entry (rc_srv st) h))"
proof -
  have m: "ks_smembers (user_tokens_key user) (rc_srv st) = (Inr hs, rc_srv st)"
    using assms by (auto simp: ks_smembers_def issued_to_def split: option.splits rval.splits)
  let ?s = "ks_del (user_tokens_key user) (fold (\<lambda>h. ks_del (token_key h)) hs (rc_srv st))"
  have "revoke_all_user_tokens mem_redis user st = (Inr (), st \<lparr> rc_srv := ?s \<rparr>)"
    using m mem_delete_tokens[of hs st]
    by (simp add: revoke_all_user_tokens_def bind_ok_def on_server_def mem_redis_def ks_delete_def)
  then show ?thesis
    by (intro exI[of _ ?s]) (auto simp: issued_to_def token_entry_def fold_del_val)
qed

section \<open>Over the server\<close>

context redis_server
begin

lemma get_token:
  assumes "up (rc_srv st)" "hash tok = Inr h" "token_typed (view (rc_srv st)) h"
  shows "fst (get_user_id_by_refresh_token hash rd tok st) = Inr (token_entry (view (rc_srv st)) h)"
    and "view (rc_srv (snd (get_user_id_by_refresh_token hash rd tok st))) = view (rc_srv st)"
    and "up (rc_srv (snd (get_user_id_by_refresh_token hash rd tok st)))"
  using carry[OF sim_tokens(2) assms(1) mem_get_token[of hash tok h "rview st"]] assms(2,3) by simp_all

lemma store_token:
  assumes "up (rc_srv st)" "hash tok = Inr h" "issued_to (view (rc_srv st)) user = Some hs"
    and "0 < ttl" "ttl < 2 ^ 63"
  shows "fst (store_refresh_token hash rd user tenant tok ttl st) = Inr ()"
    and "ks_val (view (rc_srv (snd (store_refresh_token hash rd user tenant tok ttl st))))
       = stored h user (tenant @ '':'' @ user) hs (ks_val (view (rc_srv st)))"
    and "up (rc_srv (snd (store_refresh_token hash rd user tenant tok ttl st)))"
proof -
  obtain s' where s': "store_refresh_token hash mem_redis user tenant tok ttl (rview st)
      = (Inr (), (rview st) \<lparr> rc_srv := s' \<rparr>)"
    "ks_val s' = stored h user (tenant @ '':'' @ user) hs (ks_val (view (rc_srv st)))"
    using mem_store_token[of hash tok h "rview st" user hs ttl tenant] assms by auto
  show "fst (store_refresh_token hash rd user tenant tok ttl st) = Inr ()"
    and "ks_val (view (rc_srv (snd (store_refresh_token hash rd user tenant tok ttl st))))
       = stored h user (tenant @ '':'' @ user) hs (ks_val (view (rc_srv st)))"
    and "up (rc_srv (snd (store_refresh_token hash rd user tenant tok ttl st)))"
    using carry[OF sim_tokens(1) assms(1) s'(1)] s'(2) by simp_all
qed

lemma revoke_token:
  assumes "up (rc_srv st)" "hash tok = Inr h" "token_entry (view (rc_srv st)) h = Some v"
    and "last (split_on CHR '':'' v) = user" "issued_to (view (rc_srv st)) user = Some hs"
  shows "fst (revoke_refresh_token hash rd tok st) = Inr ()"
    and "up (rc_srv (snd (revoke_refresh_token hash rd tok st)))"
    and "token_entry (view (rc_srv (snd (revoke_refresh_token hash rd tok st)))) h = None"
    and "token_typed (view (rc_srv (snd (revoke_refresh_token hash rd tok st)))) h"
    and "issued_to (view (rc_srv (snd (revoke_refresh_token hash rd tok st)))) user = Some (removeAll h hs)"
    and "h' \<noteq> h \<Longrightarrow> token_entry (view (rc_srv (snd (revoke_refresh_token hash rd tok st)))) h'
       = token_entry (view (rc_srv st)) h'"
proof -
  obtain s' where s': "revoke_refresh_token hash mem_redis tok (rview st)
      = (Inr (), (rview st) \<lparr> rc_srv := s' \<rparr>)" "token_entry s' h = None" "token_typed s' h"
    "issued_to s' user = Some (removeAll h hs)"
    "\<And>h'. h' \<noteq> h \<Longrightarrow> token_entry s' h' = token_entry (view (rc_srv st)) h'"
    using mem_revoke_token[of hash tok h "rview st" v user hs] assms by auto
  note K = carry[OF sim_tokens(3) assms(1) s'(1)]
  show "fst (revoke_refresh_token hash rd tok st) = Inr ()"
    and "up (rc_srv (snd (revoke_refresh_token hash rd tok st)))"
    and "token_entry (view (rc_srv (snd (revoke_refresh_token hash rd tok st)))) h = None"
    and "token_typed (view (rc_srv (snd (revoke_refresh_token hash rd tok st)))) h"
    and "issued_to (view (rc_srv (snd (revoke_refresh_token hash rd tok st)))) user = Some (removeAll h hs)"
    and "h' \<noteq> h \<Longrightarrow> token_entry (view (rc_srv (snd (revoke_refresh_token hash rd tok st)))) h'
       = token_entry (view (rc_srv st)) h'"
    using K s'(2-5) by simp_all
qed

lemma revoke_all:
  assumes "up (rc_srv st)" "issued_to (view (rc_srv st)) user = Some hs"
  shows "fst (revoke_all_user_tokens rd user st) = Inr ()"
    and "token_entry (view (rc_srv (snd (revoke_all_user_tokens rd user st)))) h
       = (if h \<in> set hs then None else token_entry (view (rc_srv st)) h)"
proof -
  obtain s' where s': "revoke_all_user_tokens mem_redis user (rview st)
      = (Inr (), (rview st) \<lparr> rc_srv := s' \<rparr>)"
    "\<And>h. token_entry s' h = (if h \<in> set hs then None else token_entry (view (rc_srv st)) h)"
    using mem_revoke_all[of "rview st" user hs] assms(2) by auto
  show "fst (revoke_all_user_tokens rd user st) = Inr ()"
    and "token_entry (view (rc_srv (snd (revoke_all_user_tokens rd user st)))) h
       = (if h \<in> set hs then None else token_entry (view (rc_srv st)) h)"
    using carry[OF sim_tokens(4) assms(1) s'(1)] s'(2)[of h] by simp_all
qed

end

lemma stored_facts:
  assumes "ks_val s' = stored h user v hs (ks_val s)"
  shows "token_entry s' h = Some v" "token_typed s' h"
    and "issued_to s' user = Some (if h \<in> set hs then hs else hs @ [h])"
    and "h' \<noteq> h \<Longrightarrow> token_entry s' h' = token_entry s h'"
  using assms by (simp_all add: token_entry_def token_typed_def issued_to_def stored_def)

end
