(* ===== verification/Token_Life.thy ===== *)
theory Token_Life
  imports Token_Store
begin

text \<open>The life of a refresh token while others are stored, looked up and revoked and time passes: until its time to
live is over, or it is revoked, it is known; from then on it is not.\<close>

section \<open>Histories\<close>

datatype token_event =
    Issued string string string nat
  | Looked_Up string
  | Revoked string
  | All_Revoked string
  | Waited nat

text \<open>The server's own clock: \<open>tick n\<close> is what \<open>n\<close> milliseconds do to its state.\<close>

fun token_step ::
  "(string \<Rightarrow> error + string) \<Rightarrow> 's redis \<Rightarrow> (nat \<Rightarrow> 's \<Rightarrow> 's) \<Rightarrow> token_event \<Rightarrow> 's rcache \<Rightarrow> 's rcache" where
  "token_step hash rd tick (Issued user tenant tok ttl) st = snd (store_refresh_token hash rd user tenant tok ttl st)"
| "token_step hash rd tick (Looked_Up tok) st = snd (get_user_id_by_refresh_token hash rd tok st)"
| "token_step hash rd tick (Revoked tok) st = snd (revoke_refresh_token hash rd tok st)"
| "token_step hash rd tick (All_Revoked user) st = snd (revoke_all_user_tokens rd user st)"
| "token_step hash rd tick (Waited n) st = st \<lparr> rc_srv := tick n (rc_srv st) \<rparr>"

definition token_run ::
  "(string \<Rightarrow> error + string) \<Rightarrow> 's redis \<Rightarrow> (nat \<Rightarrow> 's \<Rightarrow> 's) \<Rightarrow> token_event list \<Rightarrow> 's rcache \<Rightarrow> 's rcache" where
  "token_run hash rd tick evs st = fold (token_step hash rd tick) evs st"

definition waited :: "token_event list \<Rightarrow> nat" where
  "waited evs = sum_list (map (\<lambda>ev. case ev of Waited n \<Rightarrow> n | _ \<Rightarrow> 0) evs)"

text \<open>The events that leave the token with the hash \<open>h\<close> of \<open>user\<close> alone.\<close>

fun spares :: "(string \<Rightarrow> error + string) \<Rightarrow> string \<Rightarrow> string \<Rightarrow> token_event \<Rightarrow> bool" where
  "spares hash h user (Issued u tenant tok ttl) = (hash tok \<noteq> Inr h)"
| "spares hash h user (Looked_Up tok) = True"
| "spares hash h user (Revoked tok) = (hash tok \<noteq> Inr h)"
| "spares hash h user (All_Revoked u) = (u \<noteq> user)"
| "spares hash h user (Waited n) = True"

section \<open>On the keyspace\<close>

text \<open>The token is in the set of no other user.\<close>

definition unlisted :: "string \<Rightarrow> string \<Rightarrow> keyspace \<Rightarrow> bool" where
  "unlisted h user s \<longleftrightarrow> (\<forall>u hs. u \<noteq> user \<longrightarrow> ks_val s (user_tokens_key u) = Some (RSet hs) \<longrightarrow> h \<notin> set hs)"

text \<open>A command that leaves the token's key and keeps it so.\<close>

definition apart_from :: "string \<Rightarrow> string \<Rightarrow> keyspace \<Rightarrow> keyspace \<Rightarrow> bool" where
  "apart_from h user s s' \<longleftrightarrow> ks_val s' (token_key h) = ks_val s (token_key h)
     \<and> ks_ttl s' (token_key h) = ks_ttl s (token_key h) \<and> (unlisted h user s \<longrightarrow> unlisted h user s')"

lemma apart_refl [simp]: "apart_from h user s s"
  by (simp add: apart_from_def)

lemma apart_trans: "apart_from h user s s' \<Longrightarrow> apart_from h user s' s'' \<Longrightarrow> apart_from h user s s''"
  by (simp add: apart_from_def)

lemma apart_set_key: "h' \<noteq> h \<Longrightarrow> apart_from h user s (snd (ks_setex (token_key h') v n s))"
  by (auto simp: apart_from_def unlisted_def ks_setex_def)

lemma apart_del_token: "h' \<noteq> h \<Longrightarrow> apart_from h user s (ks_del (token_key h') s)"
  by (simp add: apart_from_def unlisted_def)

lemma apart_del_set: "apart_from h user s (ks_del (user_tokens_key u) s)"
  by (simp add: apart_from_def unlisted_def)

lemma apart_expire: "apart_from h user s (snd (ks_expire_ms (user_tokens_key u) ms s))"
  by (simp add: apart_from_def unlisted_def ks_expire_ms_def)

lemma apart_sadd: "h' \<noteq> h \<Longrightarrow> apart_from h user s (snd (ks_sadd (user_tokens_key u) h' s))"
  by (auto simp: apart_from_def unlisted_def ks_sadd_def split: option.splits rval.splits)

lemma apart_srem: "apart_from h user s (snd (ks_srem (user_tokens_key u) h' s))"
  by (auto simp: apart_from_def unlisted_def ks_srem_def Let_def split: option.splits rval.splits)

lemma ks_reads: "snd (ks_get k s) = s" "snd (ks_smembers k s) = s"
  by (simp_all add: ks_get_def ks_smembers_def split: option.split rval.split)

definition apart_op :: "string \<Rightarrow> string \<Rightarrow> (error, 'a, keyspace rcache) eff \<Rightarrow> bool" where
  "apart_op h user m \<longleftrightarrow> (\<forall>st. apart_from h user (rc_srv st) (rc_srv (snd (m st))))"

lemma apart_op_bind: "apart_op h user m \<Longrightarrow> (\<And>x. apart_op h user (f x)) \<Longrightarrow> apart_op h user (bind_ok m f)"
  by (auto simp: apart_op_def bind_ok_def split: prod.split sum.split) (metis apart_trans snd_conv)+

lemma apart_op_server: "(\<And>s. apart_from h user s (snd (c s))) \<Longrightarrow> apart_op h user (on_server c)"
  by (simp add: apart_op_def on_server_def split: prod.split) (metis snd_conv)

lemma apart_op_ok: "apart_op h user (ok x)"
  by (simp add: apart_op_def ok_def)

lemma apart_hashed: "(\<And>h'. hash tok = Inr h' \<Longrightarrow> apart_op h user (f h')) \<Longrightarrow> apart_op h user (bind_ok (lift_result (hash tok)) f)"
  by (cases "hash tok") (simp_all add: apart_op_def lift_result_def bind_ok_def)

lemma apart_issue: "hash tok \<noteq> Inr h \<Longrightarrow> apart_op h user (store_refresh_token hash mem_redis u tenant tok ttl)"
  unfolding store_refresh_token_def mem.mem_cmds
  by (intro apart_hashed apart_op_bind apart_op_server) (auto intro: apart_set_key apart_sadd apart_expire)

lemma apart_look_up: "apart_op h user (get_user_id_by_refresh_token hash mem_redis tok)"
  unfolding get_user_id_by_refresh_token_def mem.mem_cmds
  by (intro apart_hashed apart_op_server) (simp add: ks_reads)

lemma apart_revoke: "hash tok \<noteq> Inr h \<Longrightarrow> apart_op h user (revoke_refresh_token hash mem_redis tok)"
  unfolding revoke_refresh_token_def mem.mem_cmds Let_def
  by (intro apart_hashed apart_op_bind apart_look_up)
    (auto simp: ks_delete_def intro!: apart_op_bind apart_op_server apart_op_ok apart_del_token apart_srem split: option.split)

lemma apart_delete_tokens: "h \<notin> set hs \<Longrightarrow> apart_from h user s (fold (\<lambda>h. ks_del (token_key h)) hs s)"
proof (induction hs arbitrary: s)
  case (Cons x hs)
  then have "apart_from h user s (ks_del (token_key x) s)" by (intro apart_del_token) auto
  from apart_trans[OF this] Cons show ?case by simp
qed simp

lemma apart_revoke_all:
  assumes "u \<noteq> user" "unlisted h user (rc_srv st)"
  shows "apart_from h user (rc_srv st) (rc_srv (snd (revoke_all_user_tokens mem_redis u st)))"
proof (cases "ks_smembers (user_tokens_key u) (rc_srv st)")
  case (Pair r s')
  then have s': "s' = rc_srv st" using ks_reads(2)[of "user_tokens_key u" "rc_srv st"] by simp
  show ?thesis
  proof (cases r)
    case (Inl e)
    then show ?thesis using Pair s'
      by (simp add: revoke_all_user_tokens_def bind_ok_def on_server_def mem_redis_def)
  next
    case (Inr hs)
    then have "h \<notin> set hs" using Pair assms
      by (fastforce simp: ks_smembers_def unlisted_def split: option.splits rval.splits)
    then have "apart_from h user (rc_srv st) (ks_del (user_tokens_key u) (fold (\<lambda>h. ks_del (token_key h)) hs (rc_srv st)))"
      by (rule apart_trans[OF apart_delete_tokens apart_del_set])
    then show ?thesis using Pair Inr s' mem_delete_tokens[of hs st]
      by (simp add: revoke_all_user_tokens_def bind_ok_def on_server_def ks_delete_def mem_redis_def)
  qed
qed

section \<open>The life of a token\<close>

text \<open>\<open>t\<close> milliseconds after it was stored for \<open>r\<close>.\<close>

definition token_life :: "string \<Rightarrow> string \<Rightarrow> nat \<Rightarrow> nat \<Rightarrow> keyspace \<Rightarrow> bool" where
  "token_life h v r t s \<longleftrightarrow> (if t < r then ks_val s (token_key h) = Some (RStr v) \<and> ks_ttl s (token_key h) = Some (r - t)
     else ks_val s (token_key h) = None)"

lemma life_apart: "apart_from h user s s' \<Longrightarrow> token_life h v r t s \<Longrightarrow> token_life h v r t s'"
  by (auto simp: apart_from_def token_life_def)

lemma life_advance: "token_life h v r t s \<Longrightarrow> token_life h v r (t + n) (ks_advance n s)"
  by (auto simp: token_life_def ks_advance_def split: if_splits option.splits)

lemma unlisted_advance: "unlisted h user s \<Longrightarrow> unlisted h user (ks_advance n s)"
  by (auto simp: unlisted_def ks_advance_def split: option.splits if_splits)

lemma waited_one: "waited [Waited n] = n" "(\<And>n. ev \<noteq> Waited n) \<Longrightarrow> waited [ev] = 0"
  by (simp add: waited_def) (cases ev, auto simp: waited_def)

lemma apart_step:
  assumes "spares hash h user ev" "\<And>n. ev \<noteq> Waited n" "unlisted h user (rc_srv st)"
  shows "apart_from h user (rc_srv st) (rc_srv (token_step hash mem_redis ks_advance ev st))"
proof (cases ev)
  case (Issued u tenant tok ttl)
  then show ?thesis using assms(1) apart_issue[of hash tok h user u tenant ttl] by (simp add: apart_op_def)
next
  case (Looked_Up tok)
  then show ?thesis using apart_look_up[of h user hash tok] by (simp add: apart_op_def)
next
  case (Revoked tok)
  then show ?thesis using assms(1) apart_revoke[of hash tok h user] by (simp add: apart_op_def)
next
  case (All_Revoked u)
  then show ?thesis using assms(1,3) apart_revoke_all by simp
qed (use assms(2) in simp)

lemma life_step:
  assumes "spares hash h user ev" "token_life h v r t (rc_srv st)" "unlisted h user (rc_srv st)"
  shows "token_life h v r (t + waited [ev]) (rc_srv (token_step hash mem_redis ks_advance ev st))
    \<and> unlisted h user (rc_srv (token_step hash mem_redis ks_advance ev st))"
proof (cases "\<exists>n. ev = Waited n")
  case True
  then show ?thesis using assms(2,3) life_advance unlisted_advance by (auto simp: waited_one)
next
  case False
  then have "apart_from h user (rc_srv st) (rc_srv (token_step hash mem_redis ks_advance ev st))"
    by (intro apart_step) (use assms in auto)
  moreover have "waited [ev] = 0" using False by (intro waited_one) simp
  ultimately show ?thesis using assms(2,3) life_apart[of h user "rc_srv st" _ v r t] by (auto simp: apart_from_def)
qed

lemma life_run:
  "\<forall>ev \<in> set evs. spares hash h user ev \<Longrightarrow> token_life h v r t (rc_srv st) \<Longrightarrow> unlisted h user (rc_srv st) \<Longrightarrow>
     token_life h v r (t + waited evs) (rc_srv (token_run hash mem_redis ks_advance evs st))"
proof (induction evs arbitrary: st t)
  case (Cons ev evs)
  have "waited (ev # evs) = waited [ev] + waited evs" by (simp add: waited_def)
  then show ?case using Cons.IH[of "t + waited [ev]" "token_step hash mem_redis ks_advance ev st"]
      life_step[of hash h user ev v r t st] Cons.prems by (simp add: token_run_def add.assoc)
qed (simp add: token_run_def waited_def)

lemma life_starts:
  assumes "hash tok = Inr h" "issued_to (rc_srv st) user = Some hs" "0 < ttl" "unlisted h user (rc_srv st)"
  shows "token_life h (tenant @ '':'' @ user) (ttl * 1000) 0 (rc_srv (snd (store_refresh_token hash mem_redis user tenant tok ttl st)))"
    and "unlisted h user (rc_srv (snd (store_refresh_token hash mem_redis user tenant tok ttl st)))"
proof -
  define s1 where "s1 = snd (ks_setex (token_key h) (tenant @ '':'' @ user) ttl (rc_srv st))"
  define s2 where "s2 = snd (ks_sadd (user_tokens_key user) h s1)"
  define s3 where "s3 = snd (ks_expire_ms (user_tokens_key user) (u64_as_i64 ttl * 1000) s2)"
  have x: "ks_setex (token_key h) (tenant @ '':'' @ user) ttl (rc_srv st) = (Inr (), s1)"
    using assms(3) by (simp add: s1_def ks_setex_def)
  have v1: "ks_val s1 = (ks_val (rc_srv st))(token_key h \<mapsto> RStr (tenant @ '':'' @ user))"
    "ks_ttl s1 (token_key h) = Some (ttl * 1000)"
    using assms(3) by (simp_all add: s1_def ks_setex_def ks_put_def)
  have y: "ks_sadd (user_tokens_key user) h s1 = (Inr (), s2)" and u2: "unlisted h user s2"
    and k2: "ks_val s2 (token_key h) = ks_val s1 (token_key h)" "ks_ttl s2 = ks_ttl s1"
    using assms(2,4) v1(1)
    by (auto simp: s2_def ks_sadd_def issued_to_def unlisted_def split: option.splits rval.splits)
  have st: "rc_srv (snd (store_refresh_token hash mem_redis user tenant tok ttl st)) = s3"
    using x y assms(1) by (simp add: store_refresh_token_def lift_result_def bind_ok_def on_server_def mem_redis_def s3_def
        split: prod.split)
  have a: "apart_from h user s2 s3" unfolding s3_def by (rule apart_expire)
  show "token_life h (tenant @ '':'' @ user) (ttl * 1000) 0 (rc_srv (snd (store_refresh_token hash mem_redis user tenant tok ttl st)))"
    using a assms(3) v1 k2 by (simp add: st token_life_def apart_from_def)
  show "unlisted h user (rc_srv (snd (store_refresh_token hash mem_redis user tenant tok ttl st)))"
    using a u2 by (simp add: st apart_from_def)
qed

text \<open>What a look-up finds, and what is left after a revocation.\<close>

lemma life_found:
  "token_life h v r t s \<Longrightarrow> token_typed s h \<and> token_entry s h = (if t < r then Some v else None)"
  by (auto simp: token_life_def token_typed_def token_entry_def split: if_splits)

lemma mem_revoked:
  assumes "hash tok = Inr h" "token_typed (rc_srv st) h"
  shows "token_entry (rc_srv (snd (revoke_refresh_token hash mem_redis tok st))) h = None
    \<and> token_typed (rc_srv (snd (revoke_refresh_token hash mem_redis tok st))) h
    \<and> (\<forall>h'. h' \<noteq> h \<longrightarrow> token_entry (rc_srv (snd (revoke_refresh_token hash mem_redis tok st))) h' = token_entry (rc_srv st) h')"
proof (cases "token_entry (rc_srv st) h")
  case None
  then have "snd (revoke_refresh_token hash mem_redis tok st) = st"
    using mem_get_token[of hash tok h st] assms by (simp add: revoke_refresh_token_def lift_result_def bind_ok_def ok_def)
  then show ?thesis using None assms(2) by simp
next
  case (Some v)
  let ?s = "snd (ks_srem (user_tokens_key (last (split_on CHR '':'' v))) h (ks_del (token_key h) (rc_srv st)))"
  have s: "rc_srv (snd (revoke_refresh_token hash mem_redis tok st)) = ?s"
    using mem_get_token[of hash tok h st] assms Some
    by (simp add: revoke_refresh_token_def lift_result_def bind_ok_def on_server_def mem_redis_def ks_delete_def Let_def
        split: prod.split)
  have "ks_val ?s (token_key k) = ks_val (ks_del (token_key h) (rc_srv st)) (token_key k)" for k
    using apart_srem[of k "[]"] by (simp add: apart_from_def)
  then show ?thesis unfolding s by (simp add: token_entry_def token_typed_def)
qed

section \<open>Over the server\<close>

context redis_server
begin

lemma run_viewed:
  assumes "\<And>n s. up s \<Longrightarrow> up (tick n s) \<and> view (tick n s) = ks_advance n (view s)" "up (rc_srv st)"
  shows "rview (token_run hash rd tick evs st) = token_run hash mem_redis ks_advance evs (rview st)
    \<and> up (rc_srv (token_run hash rd tick evs st))"
  using assms(2)
proof (induction evs arbitrary: st)
  case (Cons ev evs)
  have "rview (token_step hash rd tick ev st) = token_step hash mem_redis ks_advance ev (rview st)
      \<and> up (rc_srv (token_step hash rd tick ev st))"
    using sim_tokens[THEN simulatesD(1), OF Cons.prems] sim_tokens[THEN simulatesD(2), OF Cons.prems] assms(1)[OF Cons.prems]
    by (cases ev) simp_all
  then show ?case using Cons.IH by (simp add: token_run_def)
qed (simp add: token_run_def)

text \<open>A token from its storage on, through any history that spares it.\<close>

lemma token_lives:
  assumes "\<And>n s. up s \<Longrightarrow> up (tick n s) \<and> view (tick n s) = ks_advance n (view s)" "up (rc_srv st)"
    and "hash tok = Inr h" "issued_to (view (rc_srv st)) user = Some hs" "0 < ttl" "unlisted h user (view (rc_srv st))"
    and "\<forall>ev \<in> set evs. spares hash h user ev"
    and "st1 = token_run hash rd tick evs (snd (store_refresh_token hash rd user tenant tok ttl st))"
  shows "fst (get_user_id_by_refresh_token hash rd tok st1)
        = Inr (if waited evs < ttl * 1000 then Some (tenant @ '':'' @ user) else None)"
    and "fst (get_user_id_by_refresh_token hash rd tok (snd (revoke_refresh_token hash rd tok st1))) = Inr None"
    and "h' \<noteq> h \<Longrightarrow> token_entry (view (rc_srv (snd (revoke_refresh_token hash rd tok st1)))) h' = token_entry (view (rc_srv st1)) h'"
proof -
  let ?st0 = "snd (store_refresh_token hash rd user tenant tok ttl st)"
  note D = sim_tokens(1)[THEN simulatesD(1), OF assms(2), of hash user tenant tok ttl]
  have u0: "up (rc_srv ?st0)" using sim_tokens(1)[THEN simulatesD(2), OF assms(2)] by simp
  have v0: "rview ?st0 = snd (store_refresh_token hash mem_redis user tenant tok ttl (rview st))" using D by simp
  note L = life_starts[of hash tok h "rview st" user hs ttl tenant]
  have "token_life h (tenant @ '':'' @ user) (ttl * 1000) 0 (rc_srv (rview ?st0))" "unlisted h user (rc_srv (rview ?st0))"
    unfolding v0 using L assms(3-6) by simp_all
  from life_run[OF assms(7) this] have life: "token_life h (tenant @ '':'' @ user) (ttl * 1000) (waited evs) (view (rc_srv st1))"
    and u1: "up (rc_srv st1)"
    using run_viewed[where tick = tick and hash = hash and evs = evs, OF assms(1) u0] assms(8) by (metis add_0 rc_view_simps(1))+
  note F = life_found[OF life]
  show "fst (get_user_id_by_refresh_token hash rd tok st1)
        = Inr (if waited evs < ttl * 1000 then Some (tenant @ '':'' @ user) else None)"
    using get_token(1)[of st1 hash tok h] u1 assms(3) F by simp
  let ?st2 = "snd (revoke_refresh_token hash rd tok st1)"
  have v2: "view (rc_srv ?st2) = rc_srv (snd (revoke_refresh_token hash mem_redis tok (rview st1)))" and u2: "up (rc_srv ?st2)"
    using sim_tokens(3)[THEN simulatesD(1), OF u1, of hash tok] sim_tokens(3)[THEN simulatesD(2), OF u1, of hash tok] by simp_all
  note R = mem_revoked[of hash tok h "rview st1"]
  show "fst (get_user_id_by_refresh_token hash rd tok ?st2) = Inr None"
    using get_token(1)[of ?st2 hash tok h] u2 assms(3) R F v2 by simp
  show "h' \<noteq> h \<Longrightarrow> token_entry (view (rc_srv ?st2)) h' = token_entry (view (rc_srv st1)) h'"
    using R assms(3) F v2 by simp
qed

end

end
