(* ===== verification/Cache_Properties.thy ===== *)
theory Cache_Properties
  imports Token_Life Samples
begin

text \<open>What the cache promises to its clients: the rate-limit windows, the token store, and the counters
read through the in-process map.\<close>

section \<open>Windows\<close>

text \<open>C23. While the key lives, the calls of a fixed window admit exactly those that still fit, so that
what is admitted never exceeds the limit (nor what was already used).\<close>

theorem fixed_window_budget:
  assumes "redis_server rd up view" "up (rc_srv st)" "counter_at (view (rc_srv st)) k = Some c"
    and "0 < w" "c + sum_list costs < 2 ^ 63"
  shows "fixed_window_run rd k w limit costs st = admitted limit c costs
     \<and> c + admitted_cost (fixed_window_run rd k w limit costs st) costs \<le> max c limit"
  using redis_server.fixed_window_run_admitted[OF assms(1-5)] admitted_budget by simp

lemma fixed_window_budget_witness:
  "fixed_window_run mem_redis ''q'' 60 5 [2, 4, 3, 1] (rcache_new ks_empty 0) = [True, False, True, False]"
  using fixed_window_budget[OF mem.redis_server_axioms TrueI, of "rcache_new ks_empty 0" "''q''" 0 60 "[2, 4, 3, 1]" 5]
  by (simp add: counter_at_def ks_empty_def)

text \<open>Every admitted call renews the window: calls that come less than a window apart and are all
admitted spend one limit altogether, however long they go on.\<close>

theorem fixed_window_renews:
  assumes "window_open k w c (rc_srv st)" "0 < w" "list_all (\<lambda>(gap, cost). gap < w * 1000) calls"
    and "c + sum_list (map snd calls) < 2 ^ 63"
    and "list_all (\<lambda>b. b) (timed_window_run k w limit calls st)" "calls \<noteq> []"
  shows "c + sum_list (map snd calls) \<le> limit"
  by (rule timed_run_from_open[OF assms])

lemma fixed_window_renews_witness:
  "timed_window_run ''q'' 60 3 [(59000, 1), (59000, 1)] (rcache_new (window_put ''q'' 60 1 ks_empty) 0)
     = [True, True] \<and> 1 + sum_list (map snd [(59000 :: nat, 1), (59000, 1)]) \<le> (3 :: nat)"
proof -
  let ?st = "rcache_new (window_put ''q'' 60 1 ks_empty) 0 :: keyspace rcache"
  have adv: "counter_at (ks_advance 59000 (window_put ''q'' 60 n s)) ''q'' = Some n" if "n < 2 ^ 63" for n s
    using advance_open[OF window_put_open[OF that], of 59000] by simp
  have "timed_window_run ''q'' 60 3 [(59000, 1), (59000, 1)] ?st = [True, True]"
    using mem_fixed_window[of "?st \<lparr> rc_srv := ks_advance 59000 (rc_srv ?st) \<rparr>" "''q''" 1 1 60 3]
      mem_fixed_window[of "?st \<lparr> rc_srv := ks_advance 59000 (window_put ''q'' 60 2 (ks_advance 59000 (rc_srv ?st))) \<rparr>" "''q''" 2 1 60 3]
    by (simp add: adv numeral_2_eq_2[symmetric])
  then show ?thesis
    by (intro conjI fixed_window_renews[of "''q''" 60 1 ?st]) (simp_all add: window_put_open)
qed

text \<open>C24. A call of the sliding window is admitted exactly when fewer live entries than the limit
remain.  It leaves the live entries and, if it is admitted, one for the current millisecond (of which there is one
however many calls it sees); so a window within the limit stays within it, and after an admitted call any window is.\<close>

theorem sliding_window_verdict:
  assumes "redis_server rd up view" "up (rc_srv st)" "zset_of k (view (rc_srv st)) = Some z" "0 < w"
    and "now = timestamp_millis (rc_now st)" "live = live_entries now w z"
  shows "fst (allow_sliding_window rd k w limit st) = Inr (length live < limit)
    \<and> (\<exists>z'. zset_of k (view (rc_srv (snd (allow_sliding_window rd k w limit st)))) = Some z'
          \<and> z' = (if length live < limit then al_update (show_int now) (of_int now) live else live)
          \<and> (length live < limit \<or> length z \<le> limit \<longrightarrow> length z' \<le> limit))"
proof -
  have z: "zset_of k (rc_srv (rc_view view st)) = Some z" using assms(3) by simp
  obtain r t where m: "allow_sliding_window mem_redis k w limit (rc_view view st) = (r, t)" by fastforce
  note M = mem_sliding_window[OF z assms(4), of limit, unfolded m]
  note K = redis_server.carry[OF assms(1) redis_server.sim_sliding[OF assms(1)] assms(2) m]
  have "length live \<le> length z" by (simp add: assms(6) live_entries_def)
  moreover have "length (al_update (show_int now) (of_int now) live) \<le> Suc (length live)" by (rule length_al_update_le)
  ultimately show ?thesis using M K assms(5,6) by auto
qed

lemma sliding_window_verdict_witness:
  "fst (allow_sliding_window mem_redis ''w'' 1000 2 (rcache_new ks_empty 0)) = Inr True"
  using sliding_window_verdict[OF mem.redis_server_axioms TrueI _ _ refl refl, of "''w''" "rcache_new ks_empty 0" "[]" 1000 2]
  by (simp add: zset_of_def ks_empty_def live_entries_def)

section \<open>Refresh tokens\<close>

text \<open>C25. A refresh token that is stored with a time to live resolves to its tenant and user for exactly that time,
and is unknown from then on, whatever tokens are stored, looked up and revoked meanwhile, as long as this
one is neither stored again nor revoked, alone or with all of its user.  Revoking it makes it unknown, whenever that
happens, and leaves every other token alone.  The server's clock runs in milliseconds.\<close>

theorem refresh_token_lifecycle:
  assumes "redis_server rd up view" "\<forall>n s. up s \<longrightarrow> up (tick n s) \<and> view (tick n s) = ks_advance n (view s)"
    and "up (rc_srv st)" "hash tok = Inr h" "issued_to (view (rc_srv st)) user = Some hs" "unlisted h user (view (rc_srv st))"
    and "0 < ttl" "ttl < 2 ^ 50" "\<forall>ev \<in> set evs. spares hash h user ev"
    and "st1 = token_run hash rd tick evs (snd (store_refresh_token hash rd user tenant tok ttl st))"
  shows "fst (get_user_id_by_refresh_token hash rd tok st1)
        = Inr (if waited evs < ttl * 1000 then Some (tenant @ '':'' @ user) else None)
     \<and> fst (get_user_id_by_refresh_token hash rd tok (snd (revoke_refresh_token hash rd tok st1))) = Inr None
     \<and> (\<forall>h'. h' \<noteq> h \<longrightarrow> token_entry (view (rc_srv (snd (revoke_refresh_token hash rd tok st1)))) h'
          = token_entry (view (rc_srv st1)) h')"
proof -
  have tick: "up s \<Longrightarrow> up (tick n s) \<and> view (tick n s) = ks_advance n (view s)" for n s using assms(2) by blast
  note L = redis_server.token_lives[OF assms(1) tick assms(3-5,7,6,9,10)]
  show ?thesis using L by blast
qed

lemma refresh_token_lifecycle_witness:
  "fst (get_user_id_by_refresh_token Inr mem_redis ''t1'' (token_run Inr mem_redis ks_advance
       [Waited 30000, Issued ''7'' ''acme'' ''t2'' 60, Revoked ''t2'', All_Revoked ''8'', Waited 29999]
       (snd (store_refresh_token Inr mem_redis ''7'' ''acme'' ''t1'' 60 (rcache_new ks_empty 0)))))
   = Inr (Some ''acme:7'')"
  using refresh_token_lifecycle[OF mem.redis_server_axioms, where tick = ks_advance and st = "rcache_new ks_empty 0"
      and hash = Inr and tok = "''t1''" and h = "''t1''" and user = "''7''" and hs = "[]" and ttl = 60 and tenant = "''acme''"
      and evs = "[Waited 30000, Issued ''7'' ''acme'' ''t2'' 60, Revoked ''t2'', All_Revoked ''8'', Waited 29999]", OF _ _ _ _ _ _ _ _ refl]
  by (simp add: issued_to_def unlisted_def ks_empty_def waited_def)



section \<open>Counters\<close>

text \<open>A counter is read from the in-process map without asking the server, so a client sees its own
last increment whatever others did meanwhile; an entry older than 30 seconds is served all the
same and only schedules one refresh.\<close>

theorem counter_read_through:
  assumes "map_of (rc_l1 st) k = Some e"
  shows "fst (get_counter rd k st) = Inr (Some (as_u32 (l1_value e)))
    \<and> rc_srv (snd (get_counter rd k st)) = rc_srv st
    \<and> rc_spawned (snd (get_counter rd k st))
        = rc_spawned st @ (if timestamp (rc_now st) - l1_ts e > 30 then [k] else [])"
  using assms by (simp add: get_counter_def Let_def)

lemma counter_read_through_witness:
  "fst (get_counter mem_redis ''c'' (snd (increment_counter mem_redis ''c'' 60 (rcache_new ks_empty 0))))
     = Inr (Some 1)"
proof -
  have "counter_at (rc_srv (rcache_new ks_empty 0)) ''c'' = Some 0"
    by (simp add: counter_at_def ks_empty_def)
  note M = mem_increment[OF this]
  have "map_of (rc_l1 (snd (increment_counter mem_redis ''c'' 60 (rcache_new ks_empty 0)))) ''c''
      = Some \<lparr> l1_value = 1, l1_ts = timestamp 0, l1_hits = 1 \<rparr>"
    using M(3)[of 60] by simp
  from counter_read_through[OF this, of mem_redis] show ?thesis by (simp add: as_u32_def)
qed

end
