(* ===== verification/Batcher.thy ===== *)
theory Batcher
  imports Database "HOL-Library.Multiset"
begin

text \<open>The alert batcher (\<open>alerting/db\_batcher.rs\<close>): deduplication keys, merging, the flush of the
buffer and the task that receives, ticks and shuts down.  The hash of a fingerprint and the
iteration order of the two hash maps are parameters.\<close>

section \<open>Fingerprints\<close>

fun norm_chars :: "bool \<Rightarrow> bool \<Rightarrow> string \<Rightarrow> string" where
  "norm_chars sp dg [] = []"
| "norm_chars sp dg (c # cs) =
     (if is_digit c then (if dg then [] else ''#'') @ norm_chars False True cs
      else (let m = char_lower c in
        if is_whitespace m then (if sp then [] else '' '') @ norm_chars True False cs
        else m # norm_chars False False cs))"

definition normalize_fingerprint :: "string \<Rightarrow> string" where
  "normalize_fingerprint s = trim (norm_chars False False s)"

record dedup_key =
  dk_tenant :: string
  dk_rule :: string
  dk_entity :: string
  dk_fingerprint :: nat
  dk_bucket :: int

definition dedup_window_seconds :: int where "dedup_window_seconds = 60"

definition dedup_window_bucket :: "alert \<Rightarrow> int" where
  "dedup_window_bucket a = timestamp (a_last_seen a) div max dedup_window_seconds 1"

definition alert_dedup_key :: "(string \<Rightarrow> nat) \<Rightarrow> alert \<Rightarrow> dedup_key" where
  "alert_dedup_key h a = \<lparr> dk_tenant = a_tenant a, dk_rule = a_rule_id a, dk_entity = a_source_ip a,
     dk_fingerprint = h (normalize_fingerprint (a_description a)),
     dk_bucket = dedup_window_bucket a \<rparr>"

definition merge_alert :: "alert \<Rightarrow> alert \<Rightarrow> alert" where
  "merge_alert e a =
     (let last = max (a_last_seen e) (a_last_seen a) in
      e \<lparr> a_first_seen := min (a_first_seen e) (a_first_seen a), a_last_seen := last,
          a_events_count := a_events_count e + a_events_count a,
          a_events := a_events e @ a_events a,
          a_description := (if last \<le> a_last_seen a then a_description a else a_description e) \<rparr>)"

section \<open>The flush\<close>

record batch_env =
  be_hash :: "string \<Rightarrow> nat"
  be_tenants :: "(string \<times> (dedup_key \<times> alert) list) list \<Rightarrow> (string \<times> (dedup_key \<times> alert) list) list"
  be_keys :: "(dedup_key \<times> alert) list \<Rightarrow> (dedup_key \<times> alert) list"

text \<open>Iterating a hash map gives its entries in some order.\<close>

definition batch_laws :: "batch_env \<Rightarrow> bool" where
  "batch_laws E \<longleftrightarrow> (\<forall>m. mset (be_tenants E m) = mset m) \<and> (\<forall>m. mset (be_keys E m) = mset m)"

definition group_one :: "batch_env \<Rightarrow> alert \<Rightarrow> (dedup_key \<times> alert) list \<Rightarrow> (dedup_key \<times> alert) list" where
  "group_one E a m = (let k = alert_dedup_key (be_hash E) a in
     al_update k (case map_of m k of None \<Rightarrow> a | Some e \<Rightarrow> merge_alert e a) m)"

definition batch_add :: "batch_env \<Rightarrow> alert \<Rightarrow> (string \<times> (dedup_key \<times> alert) list) list
   \<Rightarrow> (string \<times> (dedup_key \<times> alert) list) list" where
  "batch_add E a m = al_update (a_tenant a) (group_one E a (option_or [] (map_of m (a_tenant a)))) m"

definition group_batch :: "batch_env \<Rightarrow> alert list \<Rightarrow> (string \<times> (dedup_key \<times> alert) list) list" where
  "group_batch E as = fold (batch_add E) as []"

definition index_existing :: "batch_env \<Rightarrow> alert list \<Rightarrow> dedup_key \<Rightarrow> alert option" where
  "index_existing E es = fold (\<lambda>e m. let k = alert_dedup_key (be_hash E) e in
     if m k = None then m(k \<mapsto> e) else m) es Map.empty"

text \<open>Splitting a tenant's groups into rows to create and rows to update.\<close>

fun split_batch :: "(dedup_key \<Rightarrow> alert option) \<Rightarrow> (dedup_key \<times> alert) list \<Rightarrow> alert list \<times> alert list" where
  "split_batch ex [] = ([], [])"
| "split_batch ex ((k, a) # kas) = (case ex k of
      None \<Rightarrow> (case split_batch ex kas of (cr, up) \<Rightarrow> (a # cr, up))
    | Some e \<Rightarrow> (case split_batch (ex(k := None)) kas of (cr, up) \<Rightarrow> (cr, merge_alert e a # up)))"

definition flush_tenant :: "batch_env \<Rightarrow> string \<Rightarrow> (dedup_key \<times> alert) list \<Rightarrow> unit dbop" where
  "flush_tenant E t kas =
     attempt (get_open_alerts_by_ips t (remdups (map (\<lambda>(k, a). a_source_ip a) kas))) (\<lambda>r.
       (case split_batch (index_existing E (result_or [] r)) (be_keys E kas) of (cr, up) \<Rightarrow>
         bind_ok (if cr = [] then ok () else create_alerts_batch cr) (\<lambda>_ d.
           (Inr (), if up = [] then d else ignore (upsert_alerts_batch up) d))))"

definition flush_batch :: "batch_env \<Rightarrow> alert list \<Rightarrow> unit dbop" where
  "flush_batch E buffer = (if buffer = [] then ok ()
     else for_each (\<lambda>(t, kas). flush_tenant E t kas) (be_tenants E (group_batch E buffer)))"

section \<open>The task\<close>

datatype batcher_event = Received alert | Tick | Shutdown

record batcher =
  bt_buffer :: "alert list"
  bt_db :: db
  bt_running :: bool

text \<open>A flush drains the buffer before it writes, so the buffer is empty after it in any case; the
error of a flush is logged.\<close>

definition batcher_flush :: "batch_env \<Rightarrow> batcher \<Rightarrow> batcher" where
  "batcher_flush E b = b \<lparr> bt_buffer := [], bt_db := ignore (flush_batch E (bt_buffer b)) (bt_db b) \<rparr>"

fun batcher_step :: "batch_env \<Rightarrow> nat \<Rightarrow> batcher_event \<Rightarrow> batcher \<Rightarrow> batcher" where
  "batcher_step E batch_size (Received a) b =
     (if bt_running b then
        (let b = b \<lparr> bt_buffer := bt_buffer b @ [a] \<rparr>
         in if batch_size \<le> length (bt_buffer b) then batcher_flush E b else b)
      else b)"
| "batcher_step E batch_size Tick b =
     (if bt_running b \<and> bt_buffer b \<noteq> [] then batcher_flush E b else b)"
| "batcher_step E batch_size Shutdown b =
     (if bt_running b then
        (if bt_buffer b \<noteq> [] then batcher_flush E b else b) \<lparr> bt_running := False \<rparr>
      else b)"

definition batcher_run :: "batch_env \<Rightarrow> nat \<Rightarrow> batcher_event list \<Rightarrow> batcher \<Rightarrow> batcher" where
  "batcher_run E batch_size evs b = fold (batcher_step E batch_size) evs b"

section \<open>Facts\<close>

lemma merge_alert_simps [simp]:
  "a_id (merge_alert e a) = a_id e" "a_tenant (merge_alert e a) = a_tenant e"
  "a_rule_id (merge_alert e a) = a_rule_id e" "a_source_ip (merge_alert e a) = a_source_ip e"
  "a_events_count (merge_alert e a) = a_events_count e + a_events_count a"
  "a_events (merge_alert e a) = a_events e @ a_events a"
  "a_first_seen (merge_alert e a) = min (a_first_seen e) (a_first_seen a)"
  "a_last_seen (merge_alert e a) = max (a_last_seen e) (a_last_seen a)"
  "a_status (merge_alert e a) = a_status e" "a_severity (merge_alert e a) = a_severity e"
  "a_rule_name (merge_alert e a) = a_rule_name e"
  by (simp_all add: merge_alert_def Let_def)

definition total_events :: "alert list \<Rightarrow> nat" where
  "total_events as = sum_list (map a_events_count as)"

lemma total_events_simps [simp]:
  "total_events [] = 0" "total_events (a # as) = a_events_count a + total_events as"
  "total_events (as @ bs) = total_events as + total_events bs"
  by (simp_all add: total_events_def)

definition group_total :: "(dedup_key \<times> alert) list \<Rightarrow> nat" where
  "group_total m = total_events (map snd m)"

definition batch_total :: "(string \<times> (dedup_key \<times> alert) list) list \<Rightarrow> nat" where
  "batch_total m = sum_list (map (\<lambda>(t, kas). group_total kas) m)"

lemma group_total_update:
  "distinct (map fst m) \<Longrightarrow>
   group_total (al_update k v m) + (case map_of m k of None \<Rightarrow> 0 | Some e \<Rightarrow> a_events_count e)
     = group_total m + a_events_count v"
proof (induction m)
  case (Cons x m)
  obtain k' v' where x: "x = (k', v')" by (cases x)
  then show ?case using Cons by (auto simp: group_total_def split: option.splits)
qed (simp add: group_total_def)

lemma batch_total_update:
  "distinct (map fst m) \<Longrightarrow>
   batch_total (al_update t g m) + group_total (option_or [] (map_of m t))
     = batch_total m + group_total g"
proof (induction m)
  case Nil
  then show ?case by (simp add: batch_total_def group_total_def option_or_def)
next
  case (Cons x m)
  obtain t' g' where x: "x = (t', g')" by (cases x)
  then show ?case using Cons
    by (auto simp: batch_total_def option_or_def group_total_def split: option.splits)
qed

text \<open>The shape of the grouped batch: tenants once, keys once per tenant, each group filed under the
tenant, rule and address of its alert.\<close>

definition group_wf :: "string \<Rightarrow> (dedup_key \<times> alert) list \<Rightarrow> bool" where
  "group_wf t g \<longleftrightarrow> distinct (map fst g) \<and> (\<forall>k a. (k, a) \<in> set g \<longrightarrow>
     dk_tenant k = t \<and> a_tenant a = t \<and> dk_rule k = a_rule_id a \<and> dk_entity k = a_source_ip a)"

definition batch_wf :: "(string \<times> (dedup_key \<times> alert) list) list \<Rightarrow> bool" where
  "batch_wf m \<longleftrightarrow> distinct (map fst m) \<and> (\<forall>t g. (t, g) \<in> set m \<longrightarrow> group_wf t g)"

lemma set_al_update_subset: "set (al_update k v m) \<subseteq> insert (k, v) (set m)"
  by (induction k v m rule: al_update.induct) auto

lemma group_wf_update:
  "group_wf t g \<Longrightarrow> dk_tenant k = t \<Longrightarrow> a_tenant v = t \<Longrightarrow> dk_rule k = a_rule_id v \<Longrightarrow>
   dk_entity k = a_source_ip v \<Longrightarrow> group_wf t (al_update k v g)"
  unfolding group_wf_def using set_al_update_subset[of k v g] distinct_al_update by fast

lemma alert_key_simps [simp]:
  "dk_tenant (alert_dedup_key h a) = a_tenant a" "dk_rule (alert_dedup_key h a) = a_rule_id a"
  "dk_entity (alert_dedup_key h a) = a_source_ip a"
  by (simp_all add: alert_dedup_key_def)

lemma group_one_wf:
  assumes "group_wf t g" "a_tenant a = t"
  shows "group_wf t (group_one E a g)"
proof (cases "map_of g (alert_dedup_key (be_hash E) a)")
  case None
  then show ?thesis using assms by (simp add: group_one_def Let_def group_wf_update)
next
  case (Some e)
  then have "(alert_dedup_key (be_hash E) a, e) \<in> set g" by (rule map_of_SomeD)
  then have "a_tenant e = t" "a_rule_id e = a_rule_id a" "a_source_ip e = a_source_ip a"
    using assms(1) unfolding group_wf_def by (metis alert_key_simps)+
  then show ?thesis using Some assms by (simp add: group_one_def Let_def group_wf_update)
qed

lemma batch_group_wf: "batch_wf m \<Longrightarrow> group_wf t (option_or [] (map_of m t))"
  by (cases "map_of m t")
    (auto simp: option_or_def batch_wf_def group_wf_def[of t "[]"] dest: map_of_SomeD)

lemma batch_add_wf:
  assumes "batch_wf m"
  shows "batch_wf (batch_add E a m)"
proof -
  let ?t = "a_tenant a" let ?g = "option_or [] (map_of m ?t)"
  have w: "group_wf ?t (group_one E a ?g)" using batch_group_wf[OF assms] group_one_wf by simp
  have "distinct (map fst (batch_add E a m))"
    using assms by (simp add: batch_add_def batch_wf_def distinct_al_update)
  moreover have "set (batch_add E a m) \<subseteq> insert (?t, group_one E a ?g) (set m)"
    unfolding batch_add_def by (rule set_al_update_subset)
  ultimately show ?thesis using assms w unfolding batch_wf_def by blast
qed

lemma group_one_total:
  assumes "distinct (map fst g)"
  shows "group_total (group_one E a g) = group_total g + a_events_count a"
proof (cases "map_of g (alert_dedup_key (be_hash E) a)")
  case None
  then show ?thesis using group_total_update[OF assms, of "alert_dedup_key (be_hash E) a" a]
    by (simp add: group_one_def Let_def)
next
  case (Some e)
  then show ?thesis
    using group_total_update[OF assms, of "alert_dedup_key (be_hash E) a" "merge_alert e a"]
    by (simp add: group_one_def Let_def)
qed

lemma batch_add_total:
  assumes "batch_wf m"
  shows "batch_total (batch_add E a m) = batch_total m + a_events_count a"
proof -
  let ?g = "option_or [] (map_of m (a_tenant a))"
  have d: "distinct (map fst m)" using assms by (simp add: batch_wf_def)
  have "distinct (map fst ?g)" using batch_group_wf[OF assms] by (simp add: group_wf_def)
  then show ?thesis
    using batch_total_update[OF d, of "a_tenant a" "group_one E a ?g"] group_one_total[of ?g E a]
    by (simp add: batch_add_def)
qed

lemma group_batch_facts:
  "batch_wf (group_batch E as)" "batch_total (group_batch E as) = total_events as"
proof -
  have "batch_wf m \<Longrightarrow> batch_wf (fold (batch_add E) as m)
      \<and> batch_total (fold (batch_add E) as m) = batch_total m + total_events as" for m
  proof (induction as arbitrary: m)
    case (Cons a as)
    from Cons.IH[OF batch_add_wf[OF Cons.prems]] batch_add_total[OF Cons.prems, where a = a and E = E]
    show ?case by simp
  qed simp
  moreover have "batch_wf []" by (simp add: batch_wf_def)
  ultimately show "batch_wf (group_batch E as)" "batch_total (group_batch E as) = total_events as"
    by (auto simp: group_batch_def batch_total_def)
qed

text \<open>The split writes each group once: as a new row, or merged into an open row with its key.\<close>

lemma split_batch_total:
  "distinct (map fst kas) \<Longrightarrow> split_batch ex kas = (cr, up) \<Longrightarrow>
   total_events cr + total_events up
     = group_total kas + sum_list (map (\<lambda>(k, a). case ex k of None \<Rightarrow> 0 | Some e \<Rightarrow> a_events_count e) kas)"
proof (induction kas arbitrary: ex cr up)
  case (Cons x kas)
  obtain k a where x: "x = (k, a)" by (cases x)
  have nk: "k \<notin> fst ` set kas" using Cons.prems(1) x by simp
  show ?case
  proof (cases "ex k")
    case None
    then show ?thesis using Cons x
      by (auto simp: group_total_def split: prod.splits)
  next
    case (Some e)
    obtain cr' up' where s: "split_batch (ex(k := None)) kas = (cr', up')"
      by (cases "split_batch (ex(k := None)) kas")
    have same: "map (\<lambda>(k', a). case (ex(k := None)) k' of None \<Rightarrow> 0 | Some e \<Rightarrow> a_events_count e) kas
        = map (\<lambda>(k', a). case ex k' of None \<Rightarrow> 0 | Some e \<Rightarrow> a_events_count e) kas"
      using nk by (intro map_cong) (auto simp: image_iff)
    from Cons.IH[OF _ s] Cons.prems(1) x
    have "total_events cr' + total_events up' = group_total kas
        + sum_list (map (\<lambda>(k', a). case ex k' of None \<Rightarrow> 0 | Some e \<Rightarrow> a_events_count e) kas)"
      unfolding same by simp
    moreover have "cr = cr'" "up = merge_alert e a # up'" using Cons.prems(2) Some s x by auto
    ultimately show ?thesis using Some x by (simp add: group_total_def)
  qed
qed (simp add: group_total_def)

lemma split_batch_length:
  "split_batch ex kas = (cr, up) \<Longrightarrow> length cr + length up = length kas"
  by (induction ex kas arbitrary: cr up rule: split_batch.induct)
    (auto split: option.splits prod.splits)

end
