(* ===== verification/Batcher_Store.thy ===== *)
theory Batcher_Store
  imports Batcher
begin

text \<open>The batcher against the database: when no statement fails, a flush adds exactly the events of
the buffer to the stored event counts, whether an alert becomes a new row or is merged into an
open one.\<close>

section \<open>Counting rows\<close>

definition stored_events :: "alert_row list \<Rightarrow> int" where
  "stored_events rows = sum_list (map ar_events_count rows)"

definition row_fits :: "alert_row \<Rightarrow> bool" where
  "row_fits r \<longleftrightarrow> 0 \<le> ar_events_count r \<and> length (ar_rule_id r) \<le> 255 \<and> length (ar_rule_name r) \<le> 255
     \<and> length (ar_source_ip r) \<le> 45"

text \<open>A table of alerts: the ids are unique, the counts are not negative, the columns fit.\<close>

definition rows_ok :: "alert_row list \<Rightarrow> bool" where
  "rows_ok rows \<longleftrightarrow> distinct (map ar_id rows) \<and> list_all row_fits rows"

lemma stored_events_simps [simp]:
  "stored_events [] = 0" "stored_events (r # rs) = ar_events_count r + stored_events rs"
  "stored_events (xs @ ys) = stored_events xs + stored_events ys"
  by (simp_all add: stored_events_def)

lemma stored_events_nonneg: "list_all row_fits rows \<Longrightarrow> 0 \<le> stored_events rows"
  by (induction rows) (auto simp: row_fits_def)

lemma count_le_stored: "list_all row_fits rows \<Longrightarrow> r \<in> set rows \<Longrightarrow> ar_events_count r \<le> stored_events rows"
  by (induction rows) (use stored_events_nonneg in \<open>fastforce simp: row_fits_def\<close>)+

lemma rows_unique: "rows_ok rows \<Longrightarrow> r \<in> set rows \<Longrightarrow> r' \<in> set rows \<Longrightarrow> ar_id r = ar_id r' \<Longrightarrow> r = r'"
  by (auto simp: rows_ok_def distinct_map dest: inj_onD)

section \<open>Creating rows\<close>

lemma created_rows:
  assumes "rows_ok rows" "list_all alert_fits as" "distinct (map a_id as)"
    and "set (map a_id as) \<inter> set (map ar_id rows) = {}" "int (total_events as) < 2 ^ 31"
  shows "rows_ok (rows @ map row_of_alert as)"
    and "stored_events (rows @ map row_of_alert as) = stored_events rows + int (total_events as)"
proof -
  have "int (a_events_count a) \<le> int (total_events as)" if "a \<in> set as" for a
    using that by (simp add: total_events_def member_le_sum_list)
  then have c: "ar_events_count (row_of_alert a) = int (a_events_count a)" if "a \<in> set as" for a
    using that assms(5) by (force simp: row_of_alert_def intro: i32_of_id)
  have "stored_events (map row_of_alert as) = int (total_events as)"
    using c by (induction as) (simp_all add: total_events_def)
  then show "stored_events (rows @ map row_of_alert as) = stored_events rows + int (total_events as)" by simp
  have ids: "map ar_id (rows @ map row_of_alert as) = map ar_id rows @ map a_id as"
    by (simp add: row_of_alert_def)
  have "list_all row_fits (map row_of_alert as)"
    using assms(2) c by (auto simp: list_all_iff row_fits_def alert_fits_def row_of_alert_def)
  then show "rows_ok (rows @ map row_of_alert as)"
    using assms(1,3,4) unfolding rows_ok_def ids by auto
qed

section \<open>Updating rows\<close>

definition updated_row :: "alert \<Rightarrow> alert_row \<Rightarrow> alert_row" where
  "updated_row a r = r \<lparr> ar_last_seen := pg_time (a_last_seen a), ar_status := show_alert_status (a_status a),
     ar_events_count := i32_of (int (a_events_count a)), ar_events := a_events a,
     ar_updated := pg_time (a_last_seen a) \<rparr>"

lemma upsert_row_found:
  assumes "rows_ok rows" "r \<in> set rows" "ar_id r = a_id a" "ar_tenant r = a_tenant a"
  shows "upsert_row a rows = map (\<lambda>x. if x = r then updated_row a x else x) rows"
proof -
  have "ar_tenant x = a_tenant a \<and> ar_id x = a_id a \<longleftrightarrow> x = r" if "x \<in> set rows" for x
    using rows_unique[OF assms(1) that assms(2)] assms(3,4) by auto
  then show ?thesis using assms(2-4) by (auto simp: upsert_row_def updated_row_def)
qed

lemma stored_events_replace:
  "distinct rows \<Longrightarrow> r \<in> set rows \<Longrightarrow>
   stored_events (map (\<lambda>x. if x = r then f x else x) rows)
     = stored_events rows - ar_events_count r + ar_events_count (f r)"
proof (induction rows)
  case (Cons x rows)
  then show ?case
  proof (cases "x = r")
    case True
    then have "map (\<lambda>x. if x = r then f x else x) rows = rows"
      using Cons.prems(1) by (intro map_idI) auto
    then show ?thesis using True by simp
  qed auto
qed simp

lemma upsert_row_ok:
  assumes "rows_ok rows" "r \<in> set rows" "ar_id r = a_id a" "ar_tenant r = a_tenant a"
    and "int (a_events_count a) < 2 ^ 31"
  shows "rows_ok (upsert_row a rows)"
    and "stored_events (upsert_row a rows) = stored_events rows - ar_events_count r + int (a_events_count a)"
    and "map ar_id (upsert_row a rows) = map ar_id rows"
    and "\<And>x. x \<in> set rows \<Longrightarrow> x \<noteq> r \<Longrightarrow> x \<in> set (upsert_row a rows)"
proof -
  note U = upsert_row_found[OF assms(1-4)]
  have d: "distinct rows" using assms(1) by (auto simp: rows_ok_def distinct_map)
  have c: "ar_events_count (updated_row a r) = int (a_events_count a)"
    using assms(5) by (simp add: updated_row_def i32_of_id)
  show ids: "map ar_id (upsert_row a rows) = map ar_id rows" by (simp add: U updated_row_def)
  have "row_fits (updated_row a r)" using assms(1,2) c
    by (auto simp: rows_ok_def list_all_iff row_fits_def updated_row_def)
  then have "list_all row_fits (upsert_row a rows)"
    using assms(1) by (auto simp: U list_all_iff rows_ok_def)
  then show "rows_ok (upsert_row a rows)" using assms(1) unfolding rows_ok_def ids by blast
  show "stored_events (upsert_row a rows) = stored_events rows - ar_events_count r + int (a_events_count a)"
    unfolding U using stored_events_replace[OF d assms(2), of "updated_row a"] c by simp
  show "x \<in> set rows \<Longrightarrow> x \<noteq> r \<Longrightarrow> x \<in> set (upsert_row a rows)" for x
    by (force simp: U)
qed

text \<open>A batch of updates of stored rows, each row once.\<close>

lemma upsert_rows:
  assumes "rows_ok rows" "distinct (map a_id us)" "length rs = length us"
    and "\<And>i. i < length us \<Longrightarrow> rs ! i \<in> set rows \<and> ar_id (rs ! i) = a_id (us ! i)
        \<and> ar_tenant (rs ! i) = a_tenant (us ! i) \<and> int (a_events_count (us ! i)) < 2 ^ 31"
  shows "rows_ok (fold upsert_row us rows) \<and> map ar_id (fold upsert_row us rows) = map ar_id rows
    \<and> stored_events (fold upsert_row us rows)
        = stored_events rows - stored_events rs + int (total_events us)"
  using assms
proof (induction us arbitrary: rows rs)
  case (Cons u us)
  obtain r rs' where rs: "rs = r # rs'" using Cons.prems(3) by (cases rs) auto
  have r: "r \<in> set rows" "ar_id r = a_id u" "ar_tenant r = a_tenant u" "int (a_events_count u) < 2 ^ 31"
    using Cons.prems(4)[of 0] rs by auto
  note O = upsert_row_ok[OF Cons.prems(1) r]
  have "rs' ! i \<in> set (upsert_row u rows) \<and> ar_id (rs' ! i) = a_id (us ! i)
      \<and> ar_tenant (rs' ! i) = a_tenant (us ! i) \<and> int (a_events_count (us ! i)) < 2 ^ 31"
    if i: "i < length us" for i
  proof -
    have p: "rs' ! i \<in> set rows" "ar_id (rs' ! i) = a_id (us ! i)" "ar_tenant (rs' ! i) = a_tenant (us ! i)"
      "int (a_events_count (us ! i)) < 2 ^ 31"
      using Cons.prems(4)[of "Suc i"] rs i by auto
    have "a_id (us ! i) \<in> a_id ` set us" using i by simp
    then have "a_id (us ! i) \<noteq> a_id u" using Cons.prems(2) by auto
    then have "rs' ! i \<noteq> r" using p(2) r(2) by metis
    then show ?thesis using p O(4) by blast
  qed
  then have "rows_ok (fold upsert_row us (upsert_row u rows))
    \<and> map ar_id (fold upsert_row us (upsert_row u rows)) = map ar_id (upsert_row u rows)
    \<and> stored_events (fold upsert_row us (upsert_row u rows))
        = stored_events (upsert_row u rows) - stored_events rs' + int (total_events us)"
    using Cons.IH[OF O(1), of rs'] Cons.prems(2,3) rs by simp
  then show ?case using O(2,3) rs by simp
qed simp

section \<open>The split\<close>

lemma split_batch_rows:
  assumes "distinct (map fst kas)" "split_batch ex kas = (cr, up)"
    and "\<forall>k e. ex k = Some e \<longrightarrow> (\<exists>r \<in> set rows. e = alert_of_row r)"
  shows "cr = map snd (filter (\<lambda>(k, a). ex k = None) kas)
    \<and> (\<exists>rs. length rs = length up \<and> set rs \<subseteq> set rows
        \<and> map alert_of_row rs = List.map_filter (\<lambda>(k, a). ex k) kas
        \<and> up = map2 merge_alert (map alert_of_row rs) (map snd (filter (\<lambda>(k, a). ex k \<noteq> None) kas)))"
  using assms
proof (induction kas arbitrary: ex cr up)
  case Nil
  then show ?case by (auto simp: List.map_filter_simps)
next
  case (Cons x kas)
  obtain k a where x: "x = (k, a)" by (cases x)
  have nk: "k \<notin> fst ` set kas" using Cons.prems(1) x by simp
  show ?case
  proof (cases "ex k")
    case None
    then obtain cr' where "split_batch ex kas = (cr', up)" "cr = a # cr'"
      using Cons.prems(2) x by (auto split: prod.splits)
    then show ?thesis using Cons.IH[of ex cr' up] Cons.prems(1,3) None x
      by (auto simp: List.map_filter_simps)
  next
    case (Some e)
    then obtain up' where s: "split_batch (ex(k := None)) kas = (cr, up')" "up = merge_alert e a # up'"
      using Cons.prems(2) x by (auto split: prod.splits)
    have f: "filter (\<lambda>(k', a). (ex(k := None)) k' = None) kas = filter (\<lambda>(k', a). ex k' = None) kas"
      "filter (\<lambda>(k', a). (ex(k := None)) k' \<noteq> None) kas = filter (\<lambda>(k', a). ex k' \<noteq> None) kas"
      using nk by (auto intro!: filter_cong simp: image_iff)
    have g: "List.map_filter (\<lambda>(k', a). (ex(k := None)) k') kas = List.map_filter (\<lambda>(k', a). ex k') kas"
      using nk by (induction kas) (auto simp: List.map_filter_simps split: option.split)
    obtain r where r: "r \<in> set rows" "e = alert_of_row r" using Cons.prems(3) Some by blast
    have ex': "\<forall>k' e. (ex(k := None)) k' = Some e \<longrightarrow> (\<exists>r \<in> set rows. e = alert_of_row r)"
      using Cons.prems(3) by simp
    have d: "distinct (map fst kas)" using Cons.prems(1) by simp
    obtain rs where rs: "cr = map snd (filter (\<lambda>(k, a). ex k = None) kas)" "length rs = length up'"
      "set rs \<subseteq> set rows" "map alert_of_row rs = List.map_filter (\<lambda>(k, a). ex k) kas"
      "up' = map2 merge_alert (map alert_of_row rs) (map snd (filter (\<lambda>(k, a). ex k \<noteq> None) kas))"
      using Cons.IH[OF d s(1) ex'] unfolding f g by blast
    show ?thesis using rs r Some s(2) x
      by (intro conjI exI[of _ "r # rs"]) (auto simp: List.map_filter_simps)
  qed
qed

section \<open>One tenant\<close>

lemma index_existing_sound:
  "index_existing E es k = Some e \<Longrightarrow> e \<in> set es \<and> alert_dedup_key (be_hash E) e = k"
proof -
  have "fold (\<lambda>e m. let k = alert_dedup_key (be_hash E) e in if m k = None then m(k \<mapsto> e) else m) es m k = Some e
    \<Longrightarrow> (e \<in> set es \<and> alert_dedup_key (be_hash E) e = k) \<or> m k = Some e" for m
  proof (induction es arbitrary: m)
    case (Cons x es)
    let ?m = "let k = alert_dedup_key (be_hash E) x in if m k = None then m(k \<mapsto> x) else m"
    from Cons.IH[of ?m] Cons.prems have "(e \<in> set es \<and> alert_dedup_key (be_hash E) e = k) \<or> ?m k = Some e"
      by simp
    then show ?case by (auto simp: Let_def split: if_splits)
  qed simp
  from this[of Map.empty] show "index_existing E es k = Some e \<Longrightarrow> ?thesis" by (simp add: index_existing_def)
qed

lemma open_alerts_result:
  assumes "no_faults d"
  obtains es d' where "get_open_alerts_by_ips t ips d = (Inr es, d')"
    "\<forall>e \<in> set es. \<exists>r \<in> set (db_alerts d). ar_tenant r = t \<and> e = alert_of_row r"
    "db_alerts d' = db_alerts d" "db_fault d' = db_fault d"
proof (cases "ips = []")
  case True
  then show thesis using that[of "[]" d] by (simp add: get_open_alerts_by_ips_def ok_def)
next
  case False
  then show thesis using assms that
    by (auto simp: get_open_alerts_by_ips_def select_cases no_faults_def by_last_seen_def)
qed

lemma stored_events_subset:
  assumes "rows_ok rows" "distinct rs" "set rs \<subseteq> set rows"
  shows "stored_events rs \<le> stored_events rows" "0 \<le> stored_events rs"
proof -
  have d: "distinct rows" using assms(1) by (auto simp: rows_ok_def distinct_map)
  have "stored_events rs = (\<Sum>r \<in> set rs. ar_events_count r)"
    "stored_events rows = (\<Sum>r \<in> set rows. ar_events_count r)"
    using assms(2) d by (simp_all add: stored_events_def sum_list_distinct_conv_sum_set)
  then show "stored_events rs \<le> stored_events rows"
    using assms by (simp, intro sum_mono2) (auto simp: rows_ok_def list_all_iff row_fits_def)
  show "0 \<le> stored_events rs"
    using assms by (intro stored_events_nonneg) (auto simp: rows_ok_def list_all_iff)
qed

lemma alert_of_row_count:
  "row_fits r \<Longrightarrow> ar_events_count r < 2 ^ 64 \<Longrightarrow> int (a_events_count (alert_of_row r)) = ar_events_count r"
  by (simp add: row_fits_def alert_of_row_def)

lemma total_events_rows:
  assumes "\<forall>r \<in> set rs. row_fits r \<and> ar_events_count r < 2 ^ 64"
  shows "int (total_events (map alert_of_row rs)) = stored_events rs"
  using assms by (induction rs) (simp_all add: alert_of_row_count)

lemma map_filter_keys:
  assumes "\<forall>k e. ex k = Some e \<longrightarrow> f e = k"
  shows "map f (List.map_filter (\<lambda>(k, a). ex k) kas) = map fst (filter (\<lambda>(k, a). ex k \<noteq> None) kas)"
  using assms by (induction kas) (auto simp: List.map_filter_simps split: option.split)

lemma map_filter_sum:
  "sum_list (map (\<lambda>(k, a). case ex k of None \<Rightarrow> 0 | Some e \<Rightarrow> a_events_count e) kas)
     = total_events (List.map_filter (\<lambda>(k, a). ex k) kas)"
  by (induction kas) (auto simp: List.map_filter_simps total_events_def split: option.split)

definition group_ids :: "(dedup_key \<times> alert) list \<Rightarrow> nat list" where
  "group_ids kas = map (\<lambda>(k, a). a_id a) kas"

text \<open>What the split of a tenant's groups gives, against the rows it was read from.\<close>

lemma split_against_rows:
  assumes R: "rows_ok rows" and S: "split_batch ex kas = (cr, up)"
    and W: "group_wf t kas" and ids: "distinct (group_ids kas)"
    and ex: "\<forall>k e. ex k = Some e \<longrightarrow> (\<exists>r \<in> set rows. ar_tenant r = t \<and> e = alert_of_row r) \<and> f e = k"
    and fits: "list_all (\<lambda>(k, a). alert_fits a) kas"
    and bound: "stored_events rows + int (group_total kas) < 2 ^ 31"
  obtains rs where "set rs \<subseteq> set rows" "distinct rs" "length rs = length up"
    "\<forall>r \<in> set rs. ar_tenant r = t"
    "up = map2 merge_alert (map alert_of_row rs) (map snd (filter (\<lambda>(k, a). ex k \<noteq> None) kas))"
    "cr = map snd (filter (\<lambda>(k, a). ex k = None) kas)"
    "int (total_events cr) + int (total_events up) = int (group_total kas) + stored_events rs"
    "map a_id up = map ar_id rs" "list_all alert_fits up"
    "length rs = length (filter (\<lambda>(k, a). ex k \<noteq> None) kas)"
proof -
  have dk: "distinct (map fst kas)" using W by (simp add: group_wf_def)
  let ?tr = "filter (\<lambda>r. ar_tenant r = t) rows"
  have ex1: "\<forall>k e. ex k = Some e \<longrightarrow> (\<exists>r \<in> set ?tr. e = alert_of_row r)" using ex by auto
  obtain rs where rs: "cr = map snd (filter (\<lambda>(k, a). ex k = None) kas)" "length rs = length up"
    "set rs \<subseteq> set ?tr" "map alert_of_row rs = List.map_filter (\<lambda>(k, a). ex k) kas"
    "up = map2 merge_alert (map alert_of_row rs) (map snd (filter (\<lambda>(k, a). ex k \<noteq> None) kas))"
    using split_batch_rows[OF dk S ex1] by blast
  have sub: "set rs \<subseteq> set rows" using rs(3) by auto
  have keys: "map f (map alert_of_row rs) = map fst (filter (\<lambda>(k, a). ex k \<noteq> None) kas)"
    using map_filter_keys[of ex f kas] ex rs(4) by simp
  have "distinct (map f (map alert_of_row rs))" unfolding keys using dk by (rule distinct_map_filter)
  then have d: "distinct rs" by (simp add: distinct_map)
  have "group_total kas \<ge> 0" by simp
  then have small: "\<forall>r \<in> set rs. row_fits r \<and> ar_events_count r < 2 ^ 64"
    using R sub bound count_le_stored[of rows] by (force simp: rows_ok_def list_all_iff)
  have "int (total_events cr) + int (total_events up) = int (group_total kas) + stored_events rs"
    using split_batch_total[OF dk S] total_events_rows[OF small]
    unfolding map_filter_sum rs(4)[symmetric] by linarith
  moreover have len: "length rs = length (filter (\<lambda>(k, a). ex k \<noteq> None) kas)"
    using arg_cong[OF keys, of length] by simp
  then have "map a_id up = map ar_id rs"
    unfolding rs(5) by (intro nth_equalityI) (simp_all add: alert_of_row_def)
  moreover have "list_all alert_fits up"
    using small len unfolding rs(5) list_all_iff
    by (auto simp: set_zip alert_fits_def alert_of_row_def row_fits_def)
  ultimately show thesis using that[of rs] sub d rs len by auto
qed

lemma no_faults_stmt: "no_faults d \<Longrightarrow> stmt f d = f (d \<lparr> db_calls := db_calls d + 1 \<rparr>)"
  by (simp add: no_faults_def stmt_def Let_def)

lemma create_batch_ok:
  assumes "no_faults d" "rows_ok (db_alerts d)" "list_all alert_fits as" "distinct (map a_id as)"
    and "set (map a_id as) \<inter> set (map ar_id (db_alerts d)) = {}"
  shows "\<exists>d'. (if as = [] then ok () else create_alerts_batch as) d = (Inr (), d')
     \<and> db_alerts d' = db_alerts d @ map row_of_alert as \<and> db_fault d' = db_fault d"
proof (cases "as = []")
  case False
  have "list_all (\<lambda>a. a_id a \<notin> set (map ar_id (db_alerts d))) as"
    using assms(5) by (auto simp: list_all_iff)
  then show ?thesis using False assms
    by (simp add: create_alerts_batch_def insert_alerts_def no_faults_stmt)
qed (simp add: ok_def)

lemma upsert_batch_ok:
  assumes "no_faults d" "list_all alert_fits us" "distinct (map a_id us)"
    and "\<forall>a \<in> set us. \<forall>r \<in> set (db_alerts d). ar_id r = a_id a \<longrightarrow> ar_tenant r = a_tenant a"
  shows "\<exists>d'. (if us = [] then d else ignore (upsert_alerts_batch us) d) = d'
     \<and> db_alerts d' = fold upsert_row us (db_alerts d) \<and> db_fault d' = db_fault d"
proof (cases "us = []")
  case False
  have "list_all (\<lambda>a. \<forall>r \<in> set (db_alerts d). ar_id r = a_id a \<longrightarrow> ar_tenant r = a_tenant a) us"
    using assms(4) by (simp add: list_all_iff)
  then show ?thesis using False assms
    by (simp add: upsert_alerts_batch_def no_faults_stmt ignore_def)
qed simp

lemma mset_group:
  assumes "mset kas' = mset kas"
  shows "group_wf t kas' = group_wf t kas" "group_total kas' = group_total kas"
    "distinct (group_ids kas') = distinct (group_ids kas)" "set (group_ids kas') = set (group_ids kas)"
    "list_all P kas' = list_all P kas"
proof -
  have s: "set kas' = set kas" using assms by (metis set_mset_mset)
  have d: "distinct (map fst kas') = distinct (map fst kas)" "distinct (group_ids kas') = distinct (group_ids kas)"
    using assms unfolding group_ids_def by (metis mset_map mset_eq_imp_distinct_iff)+
  show "group_wf t kas' = group_wf t kas" using s d by (simp add: group_wf_def)
  have "sum_list (map g kas') = sum_list (map g kas)" for g :: "_ \<Rightarrow> nat"
    using arg_cong[OF assms, of "\<lambda>M. sum_mset (image_mset g M)"]
    by (simp only: mset_map[symmetric] sum_mset_sum_list)
  then show "group_total kas' = group_total kas"
    by (simp add: group_total_def total_events_def comp_def)
  show "distinct (group_ids kas') = distinct (group_ids kas)" "set (group_ids kas') = set (group_ids kas)"
    "list_all P kas' = list_all P kas"
    using s d(2) by (simp_all add: group_ids_def[of kas] group_ids_def[of kas'] list_all_iff)
qed

lemma flush_tenant_conserves:
  assumes H: "no_faults d" "batch_laws E" and R: "rows_ok (db_alerts d)" and W: "group_wf t kas"
    and ids: "distinct (group_ids kas)" "set (group_ids kas) \<inter> set (map ar_id (db_alerts d)) = {}"
    and fits: "list_all (\<lambda>(k, a). alert_fits a) kas"
    and bound: "stored_events (db_alerts d) + int (group_total kas) < 2 ^ 31"
  shows "\<exists>d'. flush_tenant E t kas d = (Inr (), d') \<and> no_faults d' \<and> rows_ok (db_alerts d')
     \<and> stored_events (db_alerts d') = stored_events (db_alerts d) + int (group_total kas)
     \<and> set (map ar_id (db_alerts d')) \<subseteq> set (map ar_id (db_alerts d)) \<union> set (group_ids kas)"
proof -
  let ?rows = "db_alerts d" let ?kas = "be_keys E kas"
  have "mset ?kas = mset kas" using H(2) by (simp add: batch_laws_def)
  note M = mset_group[OF this]
  have sk: "set ?kas = set kas" using \<open>mset ?kas = mset kas\<close> by (metis set_mset_mset)
  obtain es d1 where g: "get_open_alerts_by_ips t (remdups (map (\<lambda>(k, a). a_source_ip a) kas)) d = (Inr es, d1)"
    "\<forall>e \<in> set es. \<exists>r \<in> set ?rows. ar_tenant r = t \<and> e = alert_of_row r"
    "db_alerts d1 = ?rows" "db_fault d1 = db_fault d"
    using open_alerts_result[OF H(1)] by metis
  define ex where "ex = index_existing E es"
  have ex: "\<forall>k e. ex k = Some e \<longrightarrow> (\<exists>r \<in> set ?rows. ar_tenant r = t \<and> e = alert_of_row r)
      \<and> alert_dedup_key (be_hash E) e = k"
    using index_existing_sound g(2) unfolding ex_def by blast
  obtain cr up where S: "split_batch ex ?kas = (cr, up)" by fastforce
  have W': "group_wf t ?kas" and ids': "distinct (group_ids ?kas)"
    and fits': "list_all (\<lambda>(k, a). alert_fits a) ?kas"
    and bound': "stored_events ?rows + int (group_total ?kas) < 2 ^ 31"
    using W ids(1) fits bound M by simp_all
  obtain rs where rs: "set rs \<subseteq> set ?rows" "distinct rs" "length rs = length up"
    "\<forall>r \<in> set rs. ar_tenant r = t"
    "up = map2 merge_alert (map alert_of_row rs) (map snd (filter (\<lambda>(k, a). ex k \<noteq> None) ?kas))"
    "cr = map snd (filter (\<lambda>(k, a). ex k = None) ?kas)"
    "int (total_events cr) + int (total_events up) = int (group_total kas) + stored_events rs"
    "map a_id up = map ar_id rs" "list_all alert_fits up"
    and len: "length rs = length (filter (\<lambda>(k, a). ex k \<noteq> None) ?kas)"
    using split_against_rows[OF R S W' ids' ex fits' bound'] unfolding M(2) .
  have crids: "map a_id cr = group_ids (filter (\<lambda>(k, a). ex k = None) ?kas)"
    unfolding rs(6) group_ids_def by (simp add: comp_def case_prod_beta)
  have cr_ok: "list_all alert_fits cr" "distinct (map a_id cr)" "set (map a_id cr) \<subseteq> set (group_ids kas)"
    using fits' ids' sk unfolding crids
    by (auto simp: rs(6) list_all_iff group_ids_def distinct_map_filter)
  have d1: "no_faults d1" using H(1) g(4) by (simp add: no_faults_def)
  note sub = stored_events_subset[OF R rs(2,1)]
  have small: "int (total_events cr) < 2 ^ 31" "int (total_events up) < 2 ^ 31"
    using rs(7) sub bound by linarith+
  obtain d2 where d2: "(if cr = [] then ok () else create_alerts_batch cr) d1 = (Inr (), d2)"
    "db_alerts d2 = ?rows @ map row_of_alert cr" "db_fault d2 = db_fault d1"
    using create_batch_ok[OF d1, of cr] R cr_ok ids(2) g(3) by auto
  have fresh: "set (map a_id cr) \<inter> set (map ar_id ?rows) = {}" using cr_ok(3) ids(2) by blast
  note C = created_rows[OF R cr_ok(1,2) fresh small(1)]
  have h2: "no_faults d2" using d1 d2(3) by (simp add: no_faults_def)
  have updist: "distinct (map a_id up)"
    using rs(1,2,8) R by (auto simp: rows_ok_def distinct_map intro: inj_on_subset)
  have each: "rs ! i \<in> set (db_alerts d2) \<and> ar_id (rs ! i) = a_id (up ! i)
      \<and> ar_tenant (rs ! i) = a_tenant (up ! i) \<and> int (a_events_count (up ! i)) < 2 ^ 31"
    if i: "i < length up" for i
  proof -
    have r: "rs ! i \<in> set rs" using i rs(3) by simp
    have "a_id (up ! i) = ar_id (rs ! i)" using rs(8) i rs(3) by (metis nth_map)
    moreover have "a_tenant (up ! i) = ar_tenant (rs ! i)"
      using i len unfolding rs(5) by (simp add: alert_of_row_def)
    moreover have "a_events_count (up ! i) \<le> total_events up"
      using i by (simp add: total_events_def member_le_sum_list)
    ultimately show ?thesis using r rs(1) d2(2) small(2) by auto
  qed
  have owner: "\<forall>a \<in> set up. \<forall>r \<in> set (db_alerts d2). ar_id r = a_id a \<longrightarrow> ar_tenant r = a_tenant a"
  proof (intro ballI impI)
    fix a r assume a: "a \<in> set up" "r \<in> set (db_alerts d2)" "ar_id r = a_id a"
    obtain i where i: "i < length up" "a = up ! i" using a(1) by (metis in_set_conv_nth)
    have "r = rs ! i" using rows_unique[OF C(1)] a(2,3) each[OF i(1)] i(2) d2(2) by auto
    then show "ar_tenant r = a_tenant a" using each[OF i(1)] i(2) by simp
  qed
  obtain d3 where d3: "(if up = [] then d2 else ignore (upsert_alerts_batch up) d2) = d3"
    "db_alerts d3 = fold upsert_row up (db_alerts d2)" "db_fault d3 = db_fault d2"
    using upsert_batch_ok[OF h2 rs(9) updist owner] by blast
  have "rows_ok (db_alerts d2)" using C(1) d2(2) by simp
  note U = upsert_rows[OF this updist rs(3) each]
  have run: "flush_tenant E t kas d = (Inr (), d3)"
    using g(1) S d2(1) d3(1)
    by (simp add: flush_tenant_def attempt_def result_or_def ex_def bind_ok_def)
  have "stored_events (db_alerts d3) = stored_events ?rows + int (group_total kas)"
    using U C(2) rs(7) d2(2) d3(2) by simp
  moreover have "map ar_id (db_alerts d3) = map ar_id ?rows @ map a_id cr"
    using U d2(2) d3(2) by (simp add: row_of_alert_def)
  moreover have "no_faults d3" using h2 d3(3) by (simp add: no_faults_def)
  moreover have "rows_ok (db_alerts d3)" using U d3(2) by simp
  moreover have "set (map ar_id (db_alerts d3)) \<subseteq> set (map ar_id ?rows) \<union> set (group_ids kas)"
    using calculation(2) cr_ok(3) by auto
  ultimately show ?thesis using run by blast
qed

section \<open>The whole buffer\<close>

definition batch_ids :: "(string \<times> (dedup_key \<times> alert) list) list \<Rightarrow> nat list" where
  "batch_ids m = concat (map (\<lambda>(t, g). group_ids g) m)"

definition batch_fits :: "(string \<times> (dedup_key \<times> alert) list) list \<Rightarrow> bool" where
  "batch_fits m \<longleftrightarrow> (\<forall>(t, g) \<in> set m. list_all (\<lambda>(k, a). alert_fits a) g)"

lemma flush_tenants_conserve:
  assumes "no_faults d" "batch_laws E" "rows_ok (db_alerts d)" "\<forall>(t, g) \<in> set m. group_wf t g" "batch_fits m"
    and "distinct (batch_ids m)" "set (batch_ids m) \<inter> set (map ar_id (db_alerts d)) = {}"
    and "stored_events (db_alerts d) + int (batch_total m) < 2 ^ 31"
  shows "\<exists>d'. for_each (\<lambda>(t, kas). flush_tenant E t kas) m d = (Inr (), d') \<and> no_faults d'
     \<and> rows_ok (db_alerts d') \<and> stored_events (db_alerts d') = stored_events (db_alerts d) + int (batch_total m)
     \<and> set (map ar_id (db_alerts d')) \<subseteq> set (map ar_id (db_alerts d)) \<union> set (batch_ids m)"
  using assms
proof (induction m arbitrary: d)
  case Nil
  then show ?case by (simp add: ok_def batch_total_def)
next
  case (Cons x m)
  obtain t g where x: "x = (t, g)" by (cases x)
  have tot: "batch_total (x # m) = group_total g + batch_total m" by (simp add: x batch_total_def)
  have ids: "batch_ids (x # m) = group_ids g @ batch_ids m" by (simp add: x batch_ids_def)
  have "group_wf t g" "list_all (\<lambda>(k, a). alert_fits a) g" "distinct (group_ids g)"
    "set (group_ids g) \<inter> set (map ar_id (db_alerts d)) = {}"
    using Cons.prems(4-7) unfolding ids by (auto simp: x batch_fits_def)
  moreover have "stored_events (db_alerts d) + int (group_total g) < 2 ^ 31"
    using Cons.prems(8) unfolding tot by simp
  ultimately obtain d1 where d1: "flush_tenant E t g d = (Inr (), d1)" "no_faults d1" "rows_ok (db_alerts d1)"
    "stored_events (db_alerts d1) = stored_events (db_alerts d) + int (group_total g)"
    "set (map ar_id (db_alerts d1)) \<subseteq> set (map ar_id (db_alerts d)) \<union> set (group_ids g)"
    using flush_tenant_conserves[OF Cons.prems(1-3)] by blast
  have "set (batch_ids m) \<inter> set (map ar_id (db_alerts d1)) = {}"
    using d1(5) Cons.prems(6,7) unfolding ids by auto
  moreover have "\<forall>(t, g) \<in> set m. group_wf t g" "batch_fits m" "distinct (batch_ids m)"
    using Cons.prems(4-6) unfolding ids by (auto simp: batch_fits_def)
  moreover have "stored_events (db_alerts d1) + int (batch_total m) < 2 ^ 31"
    using Cons.prems(8) d1(4) unfolding tot by simp
  ultimately obtain d' where d': "for_each (\<lambda>(t, kas). flush_tenant E t kas) m d1 = (Inr (), d')" "no_faults d'"
    "rows_ok (db_alerts d')" "stored_events (db_alerts d') = stored_events (db_alerts d1) + int (batch_total m)"
    "set (map ar_id (db_alerts d')) \<subseteq> set (map ar_id (db_alerts d1)) \<union> set (batch_ids m)"
    using Cons.IH[OF d1(2) Cons.prems(2) d1(3)] by blast
  have "set (map ar_id (db_alerts d')) \<subseteq> set (map ar_id (db_alerts d)) \<union> set (batch_ids (x # m))"
    using d'(5) d1(5) unfolding ids by auto
  then show ?case
    using d'(1-4) d1(1,4) by (simp add: x tot[unfolded x] bind_ok_def)
qed

lemma group_ids_update:
  "map_of g k = None \<Longrightarrow> group_ids (al_update k v g) = group_ids g @ [a_id v]"
  "map_of g k = Some e \<Longrightarrow> a_id v = a_id e \<Longrightarrow> group_ids (al_update k v g) = group_ids g"
  by (induction k v g rule: al_update.induct) (auto simp: group_ids_def split: if_splits)

lemma group_ids_add:
  "group_ids (group_one E a g) = group_ids g @ [a_id a] \<or> group_ids (group_one E a g) = group_ids g"
  by (cases "map_of g (alert_dedup_key (be_hash E) a)")
    (simp_all add: group_one_def Let_def group_ids_update)

lemma batch_ids_update:
  "mset (batch_ids (al_update t g' m)) + mset (group_ids (option_or [] (map_of m t)))
     = mset (batch_ids m) + mset (group_ids g')"
  by (induction t g' m rule: al_update.induct)
    (auto simp: batch_ids_def option_or_def group_ids_def[of "[]"] split: if_splits)

lemma batch_ids_add: "mset (batch_ids (batch_add E a m)) \<subseteq># add_mset (a_id a) (mset (batch_ids m))"
proof -
  let ?g = "option_or [] (map_of m (a_tenant a))"
  have "mset (batch_ids (batch_add E a m)) + mset (group_ids ?g)
      = mset (batch_ids m) + mset (group_ids (group_one E a ?g))"
    using batch_ids_update by (simp add: batch_add_def)
  then have "mset (batch_ids (batch_add E a m)) + mset (group_ids ?g)
      \<subseteq># add_mset (a_id a) (mset (batch_ids m)) + mset (group_ids ?g)"
    using group_ids_add[of E a ?g] by (auto simp: add.commute)
  then show ?thesis by simp
qed

lemma batch_ids_group: "mset (batch_ids (group_batch E as)) \<subseteq># mset (map a_id as)"
proof -
  have "mset (batch_ids (fold (batch_add E) as m)) \<subseteq># mset (batch_ids m) + mset (map a_id as)" for m
  proof (induction as arbitrary: m)
    case (Cons a as)
    from Cons.IH[of "batch_add E a m"] batch_ids_add[of E a m]
    have "mset (batch_ids (fold (batch_add E) as (batch_add E a m)))
        \<subseteq># add_mset (a_id a) (mset (batch_ids m)) + mset (map a_id as)"
      by (meson subset_mset.add_right_mono subset_mset.order_trans)
    then show ?case by simp
  qed simp
  from this[of "[]"] show ?thesis by (simp add: group_batch_def batch_ids_def)
qed

lemma distinct_mset_sub: "mset xs \<subseteq># mset ys \<Longrightarrow> distinct ys \<Longrightarrow> distinct xs"
proof -
  assume s: "mset xs \<subseteq># mset ys" and d: "distinct ys"
  have "count (mset xs) a \<le> count (mset ys) a" for a using s by (simp add: mset_subset_eq_count)
  moreover have "count (mset ys) a \<le> 1" for a using d by (simp add: distinct_count_atmost_1)
  ultimately have "count (mset xs) a \<le> 1" for a using le_trans by blast
  then show "distinct xs" unfolding distinct_count_atmost_1
    by (metis count_mset_0_iff le_antisym less_one not_less)
qed

lemma group_one_fits:
  assumes "alert_fits a" "list_all (\<lambda>(k, a). alert_fits a) g"
  shows "list_all (\<lambda>(k, a). alert_fits a) (group_one E a g)"
proof (cases "map_of g (alert_dedup_key (be_hash E) a)")
  case None
  then show ?thesis using assms set_al_update_subset[of "alert_dedup_key (be_hash E) a" a g]
    by (auto simp: group_one_def Let_def list_all_iff)
next
  case (Some e)
  then have "alert_fits e" using assms(2) by (auto simp: list_all_iff dest: map_of_SomeD)
  then have "alert_fits (merge_alert e a)" by (simp add: alert_fits_def)
  then show ?thesis using Some assms(2)
      set_al_update_subset[of "alert_dedup_key (be_hash E) a" "merge_alert e a" g]
    by (auto simp: group_one_def Let_def list_all_iff)
qed

lemma batch_fits_group: "list_all alert_fits as \<Longrightarrow> batch_fits (group_batch E as)"
proof -
  have "list_all alert_fits as \<Longrightarrow> batch_fits m \<Longrightarrow> batch_fits (fold (batch_add E) as m)" for m
  proof (induction as arbitrary: m)
    case (Cons a as)
    let ?g = "option_or [] (map_of m (a_tenant a))"
    have "list_all (\<lambda>(k, a). alert_fits a) ?g"
      using Cons.prems(2) by (auto simp: batch_fits_def option_or_def dest: map_of_SomeD split: option.split)
    then have "list_all (\<lambda>(k, a). alert_fits a) (group_one E a ?g)"
      using Cons.prems(1) group_one_fits by simp
    then have "batch_fits (batch_add E a m)"
      using Cons.prems(2) set_al_update_subset[of "a_tenant a" "group_one E a ?g" m]
      unfolding batch_add_def batch_fits_def by blast
    then show ?case using Cons by simp
  qed simp
  moreover have "batch_fits []" by (simp add: batch_fits_def)
  ultimately show "list_all alert_fits as \<Longrightarrow> batch_fits (group_batch E as)"
    unfolding group_batch_def by blast
qed

lemma mset_batch:
  assumes "mset m' = mset m"
  shows "batch_total m' = batch_total m" "mset (batch_ids m') = mset (batch_ids m)" "set m' = set m"
proof -
  show "set m' = set m" using assms by (metis set_mset_mset)
  show "batch_total m' = batch_total m"
    using arg_cong[OF assms, of "\<lambda>M. sum_mset (image_mset (\<lambda>(t, kas). group_total kas) M)"]
    by (simp only: mset_map[symmetric] sum_mset_sum_list batch_total_def)
  have flat: "mset (batch_ids x) = sum_mset (image_mset (\<lambda>(t, g). mset (group_ids g)) (mset x))" for x
    by (induction x) (auto simp: batch_ids_def)
  show "mset (batch_ids m') = mset (batch_ids m)" by (simp add: flat assms)
qed

lemma flush_batch_conserves:
  assumes H: "no_faults d" "batch_laws E" and R: "rows_ok (db_alerts d)"
    and as: "list_all alert_fits as" "distinct (map a_id as)"
    and fresh: "set (map a_id as) \<inter> set (map ar_id (db_alerts d)) = {}"
    and bound: "stored_events (db_alerts d) + int (total_events as) < 2 ^ 31"
  shows "\<exists>d'. flush_batch E as d = (Inr (), d') \<and> no_faults d' \<and> rows_ok (db_alerts d')
     \<and> stored_events (db_alerts d') = stored_events (db_alerts d) + int (total_events as)
     \<and> set (map ar_id (db_alerts d')) \<subseteq> set (map ar_id (db_alerts d)) \<union> set (map a_id as)"
proof (cases "as = []")
  case True
  then show ?thesis using R H by (simp add: flush_batch_def ok_def)
next
  case False
  let ?m = "be_tenants E (group_batch E as)"
  have p: "mset ?m = mset (group_batch E as)" using H(2) by (simp add: batch_laws_def)
  note M = mset_batch[OF p] and F = group_batch_facts[of E as]
  have sub: "mset (batch_ids ?m) \<subseteq># mset (map a_id as)" using batch_ids_group M(2) by simp
  have "\<forall>(t, g) \<in> set ?m. group_wf t g" using F(1) M(3) by (auto simp: batch_wf_def)
  moreover have "batch_fits ?m" using batch_fits_group[OF as(1)] M(3) by (simp add: batch_fits_def)
  moreover have "distinct (batch_ids ?m)" by (rule distinct_mset_sub[OF sub as(2)])
  moreover have "set (batch_ids ?m) \<inter> set (map ar_id (db_alerts d)) = {}"
    using fresh set_mset_mono[OF sub] by auto
  moreover have "stored_events (db_alerts d) + int (batch_total ?m) < 2 ^ 31" using bound M(1) F(2) by simp
  ultimately obtain d' where "for_each (\<lambda>(t, kas). flush_tenant E t kas) ?m d = (Inr (), d')" "no_faults d'"
    "rows_ok (db_alerts d')" "stored_events (db_alerts d') = stored_events (db_alerts d) + int (batch_total ?m)"
    "set (map ar_id (db_alerts d')) \<subseteq> set (map ar_id (db_alerts d)) \<union> set (batch_ids ?m)"
    using flush_tenants_conserve[OF H R] by blast
  moreover have "set (batch_ids ?m) \<subseteq> set (map a_id as)" using set_mset_mono[OF sub] by auto
  ultimately show ?thesis using False M(1) F(2) by (auto simp: flush_batch_def)
qed

section \<open>The task over a run of events\<close>

text \<open>The alerts the task receives before it is shut down.\<close>

fun received :: "batcher_event list \<Rightarrow> alert list" where
  "received [] = []"
| "received (Received a # es) = a # received es"
| "received (Tick # es) = received es"
| "received (Shutdown # es) = []"

text \<open>What a batcher needs for its flushes to go through: a database that answers, and buffered and
future alerts that are new to the table.\<close>

definition batcher_ready :: "alert list \<Rightarrow> batcher \<Rightarrow> bool" where
  "batcher_ready as b \<longleftrightarrow> no_faults (bt_db b) \<and> rows_ok (db_alerts (bt_db b))
     \<and> list_all alert_fits (bt_buffer b @ as) \<and> distinct (map a_id (bt_buffer b @ as))
     \<and> set (map a_id (bt_buffer b @ as)) \<inter> set (map ar_id (db_alerts (bt_db b))) = {}"

definition batcher_events :: "batcher \<Rightarrow> int" where
  "batcher_events b = stored_events (db_alerts (bt_db b)) + int (total_events (bt_buffer b))"

lemma batcher_flush_keeps:
  assumes "batch_laws E" "batcher_ready as b" "batcher_events b < 2 ^ 31"
  shows "batcher_ready as (batcher_flush E b) \<and> batcher_events (batcher_flush E b) = batcher_events b"
proof -
  have "no_faults (bt_db b)" "rows_ok (db_alerts (bt_db b))" "list_all alert_fits (bt_buffer b)"
    "distinct (map a_id (bt_buffer b))"
    "set (map a_id (bt_buffer b)) \<inter> set (map ar_id (db_alerts (bt_db b))) = {}"
    using assms(2) by (auto simp: batcher_ready_def)
  moreover have "stored_events (db_alerts (bt_db b)) + int (total_events (bt_buffer b)) < 2 ^ 31"
    using assms(3) by (simp add: batcher_events_def)
  ultimately obtain d' where d': "flush_batch E (bt_buffer b) (bt_db b) = (Inr (), d')" "no_faults d'"
    "rows_ok (db_alerts d')"
    "stored_events (db_alerts d') = stored_events (db_alerts (bt_db b)) + int (total_events (bt_buffer b))"
    "set (map ar_id (db_alerts d')) \<subseteq> set (map ar_id (db_alerts (bt_db b))) \<union> set (map a_id (bt_buffer b))"
    using flush_batch_conserves[OF _ assms(1)] by blast
  have "set (map a_id as) \<inter> set (map ar_id d'') = {}" if "d'' = db_alerts d'" for d''
  proof -
    have "set (map a_id as) \<inter> set (map a_id (bt_buffer b)) = {}"
      "set (map a_id as) \<inter> set (map ar_id (db_alerts (bt_db b))) = {}"
      using assms(2) unfolding batcher_ready_def map_append distinct_append set_append by blast+
    then show ?thesis using d'(5) that by blast
  qed
  then show ?thesis using d' assms(2)
    by (simp add: batcher_flush_def ignore_def batcher_ready_def batcher_events_def)
qed

lemma batcher_run_conserves:
  assumes "batch_laws E" "bt_running b" "batcher_ready (received evs) b"
    and "batcher_events b + int (total_events (received evs)) < 2 ^ 31"
  shows "batcher_events (batcher_run E n evs b) = batcher_events b + int (total_events (received evs))"
  using assms
proof (induction evs arbitrary: b)
  case Nil
  then show ?case by (simp add: batcher_run_def)
next
  case (Cons e es)
  have stop: "batcher_run E n es c = c" if "\<not> bt_running c" for c
  proof -
    have "batcher_step E n x c = c" for x using that by (cases x) simp_all
    then show ?thesis by (induction es) (simp_all add: batcher_run_def)
  qed
  show ?case
  proof (cases e)
    case (Received a)
    let ?b = "b \<lparr> bt_buffer := bt_buffer b @ [a] \<rparr>"
    have r: "batcher_ready (received es) ?b" using Cons.prems(3) Received by (simp add: batcher_ready_def)
    have t: "batcher_events ?b = batcher_events b + int (a_events_count a)" by (simp add: batcher_events_def)
    then have "batcher_events ?b < 2 ^ 31" using Cons.prems(4) Received by simp
    note F = batcher_flush_keeps[OF Cons.prems(1) r this]
    obtain c where c: "batcher_step E n e b = c" "batcher_ready (received es) c" "bt_running c"
      "batcher_events c = batcher_events b + int (a_events_count a)"
      using F r t Cons.prems(2) Received by (auto simp: Let_def batcher_flush_def)
    have "batcher_events (batcher_run E n es c) = batcher_events c + int (total_events (received es))"
      using Cons.IH[OF Cons.prems(1) c(3,2)] Cons.prems(4) c(4) Received by simp
    then show ?thesis using c(1,4) Received by (simp add: batcher_run_def)
  next
    case Tick
    have "batcher_events b < 2 ^ 31" using Cons.prems(4) by simp
    then have "batcher_ready (received es) (batcher_flush E b) \<and> batcher_events (batcher_flush E b) = batcher_events b"
      using batcher_flush_keeps[OF Cons.prems(1)] Cons.prems(3) Tick by simp
    then obtain c where c: "batcher_step E n e b = c" "batcher_ready (received es) c" "bt_running c"
      "batcher_events c = batcher_events b"
      using Cons.prems(2,3) Tick by (auto simp: batcher_flush_def)
    then show ?thesis using Cons.IH[OF Cons.prems(1) c(3,2)] Cons.prems(4) Tick by (simp add: batcher_run_def)
  next
    case Shutdown
    have "batcher_events b < 2 ^ 31" using Cons.prems(4) by simp
    then have "batcher_events (batcher_flush E b) = batcher_events b"
      using batcher_flush_keeps[OF Cons.prems(1)] Cons.prems(3) Shutdown by simp
    then have "batcher_events (batcher_step E n e b) = batcher_events b" "\<not> bt_running (batcher_step E n e b)"
      using Cons.prems(2) Shutdown by (simp_all add: batcher_events_def)
    then show ?thesis using stop Shutdown by (simp add: batcher_run_def)
  qed
qed

text \<open>The buffer never reaches the batch size, and a stopped task has an empty one.\<close>

lemma batcher_buffer_bound:
  "length (bt_buffer b) \<le> n - 1 \<Longrightarrow> length (bt_buffer (batcher_run E n evs b)) \<le> n - 1"
proof (induction evs arbitrary: b)
  case (Cons e es)
  have "length (bt_buffer (batcher_step E n e b)) \<le> n - 1"
    using Cons.prems by (cases e) (auto simp: Let_def batcher_flush_def)
  then show ?case using Cons.IH by (simp add: batcher_run_def)
qed (simp add: batcher_run_def)

lemma batcher_stopped_empty:
  assumes "\<not> bt_running b \<longrightarrow> bt_buffer b = []" "\<not> bt_running (batcher_run E n evs b)"
  shows "bt_buffer (batcher_run E n evs b) = []"
  using assms
proof (induction evs arbitrary: b)
  case (Cons e es)
  have "\<not> bt_running (batcher_step E n e b) \<longrightarrow> bt_buffer (batcher_step E n e b) = []"
    using Cons.prems(1) by (cases e) (auto simp: Let_def batcher_flush_def)
  then show ?case using Cons.IH Cons.prems(2) by (simp add: batcher_run_def)
qed (simp add: batcher_run_def)

section \<open>A database that is down\<close>

definition db_down :: "db \<Rightarrow> bool" where
  "db_down d \<longleftrightarrow> (\<forall>n. db_fault d n)"

lemma stmt_down: "db_down d \<Longrightarrow> stmt f d = (Inl Db_Error, d \<lparr> db_calls := db_calls d + 1 \<rparr>)"
  by (simp add: db_down_def stmt_fail)

lemma db_down_calls [simp]: "db_down (d \<lparr> db_calls := n \<rparr>) = db_down d"
  by (simp add: db_down_def)

lemma open_alerts_down:
  "db_down d \<Longrightarrow> \<exists>r n. get_open_alerts_by_ips t ips d = (r, d \<lparr> db_calls := n \<rparr>)"
  by (cases "ips = []")
    (auto simp: get_open_alerts_by_ips_def select_def stmt_down ok_def intro: exI[of _ "db_calls d"])

lemma flush_batch_down:
  assumes "db_down d"
  shows "db_down (snd (flush_batch E as d)) \<and> db_alerts (snd (flush_batch E as d)) = db_alerts d"
proof -
  let ?P = "\<lambda>d'. db_down d' \<and> db_alerts d' = db_alerts d"
  have step: "?P (snd (flush_tenant E t kas d'))" if P: "?P d'" for t kas d'
  proof -
    obtain r n where q: "get_open_alerts_by_ips t (remdups (map (\<lambda>(k, a). a_source_ip a) kas)) d'
        = (r, d' \<lparr> db_calls := n \<rparr>)"
      using open_alerts_down P by blast
    obtain cr up where s: "split_batch (index_existing E (result_or [] r)) (be_keys E kas) = (cr, up)"
      by fastforce
    show ?thesis using P
      by (auto simp: flush_tenant_def attempt_def q s bind_ok_def ok_def ignore_def create_alerts_batch_def
          insert_alerts_def upsert_alerts_batch_def stmt_down)
  qed
  have "?P (snd (for_each (\<lambda>(t, kas). flush_tenant E t kas) m d))" for m
    by (rule for_each_keeps) (use step assms in auto)
  then show ?thesis using assms by (simp add: flush_batch_def ok_def)
qed

lemma batcher_run_down:
  "db_down (bt_db b) \<Longrightarrow> db_alerts (bt_db (batcher_run E n evs b)) = db_alerts (bt_db b)"
proof -
  have step: "db_down (bt_db (batcher_step E n e b)) \<and> db_alerts (bt_db (batcher_step E n e b)) = db_alerts (bt_db b)"
    if "db_down (bt_db b)" for e b
    using that flush_batch_down[of "bt_db b" E]
    by (cases e) (auto simp: Let_def batcher_flush_def ignore_def)
  show "db_down (bt_db b) \<Longrightarrow> db_alerts (bt_db (batcher_run E n evs b)) = db_alerts (bt_db b)"
  proof (induction evs arbitrary: b)
    case (Cons e es)
    then show ?case using step[OF Cons.prems, of e] by (simp add: batcher_run_def)
  qed (simp add: batcher_run_def)
qed

section \<open>What a group holds\<close>

text \<open>The alert kept under a key is the merge, in arrival order, of the alerts with that key.\<close>

fun merged :: "alert list \<Rightarrow> alert option" where
  "merged [] = None"
| "merged (a # as) = Some (fold (\<lambda>x e. merge_alert e x) as a)"

lemma merged_snoc:
  "merged (as @ [a]) = Some (case merged as of None \<Rightarrow> a | Some e \<Rightarrow> merge_alert e a)"
  by (cases as) simp_all

definition batch_group :: "(string \<times> (dedup_key \<times> alert) list) list \<Rightarrow> string \<Rightarrow> dedup_key \<Rightarrow> alert option" where
  "batch_group m t k = map_of (option_or [] (map_of m t)) k"

lemma batch_group_add:
  "batch_group (batch_add E a m) t k =
     (if t = a_tenant a \<and> k = alert_dedup_key (be_hash E) a
      then Some (case batch_group m t k of None \<Rightarrow> a | Some e \<Rightarrow> merge_alert e a)
      else batch_group m t k)"
  by (auto simp: batch_group_def batch_add_def group_one_def option_or_def Let_def)

lemma group_batch_merges:
  "batch_group (group_batch E as) t k
     = merged (filter (\<lambda>a. a_tenant a = t \<and> alert_dedup_key (be_hash E) a = k) as)"
proof (induction as rule: rev_induct)
  case Nil
  show ?case by (simp add: group_batch_def batch_group_def option_or_def)
next
  case (snoc a as)
  have "group_batch E (as @ [a]) = batch_add E a (group_batch E as)" by (simp add: group_batch_def)
  then show ?case using snoc by (auto simp: batch_group_add merged_snoc)
qed

end
