(* ===== verification/Queue.thy ===== *)
theory Queue
  imports Redis_Cache
begin

text \<open>The Kafka layer (\<open>queue/kafka.rs\<close>): the local token bucket, sending an alert with retries, and
the two consumer loops with their back-pressure.  The producer, the consumer handle and the
channels are parameters: what the code relies on is the outcome of each call.  The \<open>f64\<close> token
counts are exact rationals.\<close>

section \<open>The local token bucket\<close>

record bucket =
  bk_capacity :: rat
  bk_tokens :: rat
  bk_refill :: rat
  bk_last_refill :: int
  bk_blocked_until :: int
  bk_last_seen :: int

definition bucket_new :: "nat \<Rightarrow> nat \<Rightarrow> int \<Rightarrow> bucket" where
  "bucket_new limit window now =
     \<lparr> bk_capacity = of_nat (max limit 1), bk_tokens = of_nat (max limit 1),
       bk_refill = of_nat (max limit 1) / of_nat (max window 1), bk_last_refill = now,
       bk_blocked_until = 0, bk_last_seen = now \<rparr>"

definition bucket_touch :: "int \<Rightarrow> bucket \<Rightarrow> bucket" where
  "bucket_touch now b = b \<lparr> bk_last_seen := now \<rparr>"

definition bucket_refill :: "int \<Rightarrow> bucket \<Rightarrow> bucket" where
  "bucket_refill now b = (if now \<le> bk_last_refill b then b
     else b \<lparr> bk_tokens := min (bk_tokens b + of_int (now - bk_last_refill b) * bk_refill b) (bk_capacity b),
              bk_last_refill := now \<rparr>)"

definition bucket_allow :: "int \<Rightarrow> bucket \<Rightarrow> bool \<times> bucket" where
  "bucket_allow now b0 = (let b = bucket_touch now b0 in
     if now < bk_blocked_until b then (False, b)
     else (let b = bucket_refill now b in
       if 1 \<le> bk_tokens b then (True, b \<lparr> bk_tokens := bk_tokens b - 1 \<rparr>) else (False, b)))"

definition bucket_block :: "int \<Rightarrow> nat \<Rightarrow> bucket \<Rightarrow> bucket" where
  "bucket_block now window b =
     bucket_touch now (b \<lparr> bk_blocked_until := now + u64_as_i64 window, bk_tokens := 0 \<rparr>)"

definition bucket_ok :: "bucket \<Rightarrow> bool" where
  "bucket_ok b \<longleftrightarrow> 0 \<le> bk_tokens b \<and> bk_tokens b \<le> bk_capacity b \<and> 1 \<le> bk_capacity b \<and> 0 < bk_refill b"

lemma bucket_new_ok: "bucket_ok (bucket_new limit window now)"
  by (simp add: bucket_ok_def bucket_new_def max_def)

lemma bucket_refill_ok: "bucket_ok b \<Longrightarrow> bucket_ok (bucket_refill now b)"
  by (auto simp: bucket_ok_def bucket_refill_def min_def intro: add_nonneg_nonneg)

lemma bucket_allow_ok: "bucket_ok b \<Longrightarrow> bucket_ok (snd (bucket_allow now b))"
proof -
  assume b: "bucket_ok b"
  then have t: "bucket_ok (bucket_touch now b)" by (simp add: bucket_ok_def bucket_touch_def)
  from bucket_refill_ok[OF this] have "bucket_ok (bucket_refill now (bucket_touch now b))" .
  then show ?thesis using t by (auto simp: bucket_allow_def Let_def bucket_ok_def)
qed

lemma bucket_block_ok: "bucket_ok b \<Longrightarrow> bucket_ok (bucket_block now w b)"
  by (simp add: bucket_ok_def bucket_block_def bucket_touch_def)

text \<open>A run of requests at the given instants.\<close>

fun bucket_run :: "int list \<Rightarrow> bucket \<Rightarrow> bool list \<times> bucket" where
  "bucket_run [] b = ([], b)"
| "bucket_run (t # ts) b = (case bucket_allow t b of (r, b') \<Rightarrow>
     (case bucket_run ts b' of (rs, b'') \<Rightarrow> (r # rs, b'')))"

text \<open>One request: tokens gained by time at most, one spent when allowed.\<close>

lemma bucket_allow_budget:
  assumes "bucket_ok b" "bk_last_refill b \<le> t"
  shows "bk_tokens (snd (bucket_allow t b)) + (if fst (bucket_allow t b) then 1 else 0)
           \<le> bk_tokens b + of_int (bk_last_refill (snd (bucket_allow t b)) - bk_last_refill b) * bk_refill b"
    and "bk_refill (snd (bucket_allow t b)) = bk_refill b"
    and "bk_last_refill b \<le> bk_last_refill (snd (bucket_allow t b))"
    and "bk_last_refill (snd (bucket_allow t b)) \<le> t"
  using assms by (auto simp: bucket_allow_def bucket_refill_def bucket_touch_def Let_def)

lemma bucket_run_budget:
  assumes "bucket_ok b" "sorted ts" "\<forall>t \<in> set ts. bk_last_refill b \<le> t" "\<forall>t \<in> set ts. t \<le> T"
    "bk_last_refill b \<le> T"
  shows "of_nat (length (filter (\<lambda>r. r) (fst (bucket_run ts b))))
     \<le> bk_tokens b + of_int (T - bk_last_refill b) * bk_refill b"
  using assms
proof (induction ts arbitrary: b)
  case Nil
  then show ?case by (simp add: bucket_ok_def)
next
  case (Cons t ts)
  define r where "r = fst (bucket_allow t b)"
  define b' where "b' = snd (bucket_allow t b)"
  have p: "bucket_allow t b = (r, b')" by (simp add: r_def b'_def)
  have le: "bk_last_refill b \<le> t" using Cons.prems(3) by simp
  note B = bucket_allow_budget[OF Cons.prems(1) le, folded b'_def r_def]
  have ok: "bucket_ok b'" unfolding b'_def by (rule bucket_allow_ok[OF Cons.prems(1)])
  have "\<forall>u \<in> set ts. bk_last_refill b' \<le> u" using B(4) Cons.prems(2) by (auto intro: order_trans)
  moreover have "bk_last_refill b' \<le> T" using B(4) Cons.prems(4) by (meson list.set_intros(1) order_trans)
  ultimately have IH: "of_nat (length (filter (\<lambda>r. r) (fst (bucket_run ts b'))))
      \<le> bk_tokens b' + of_int (T - bk_last_refill b') * bk_refill b'"
    using Cons.IH[OF ok] Cons.prems by simp
  have "of_int (T - bk_last_refill b') * bk_refill b + of_int (bk_last_refill b' - bk_last_refill b) * bk_refill b
      = of_int (T - bk_last_refill b) * bk_refill b"
    by (simp add: algebra_simps)
  then show ?case using IH B(1,2) by (cases r) (auto simp: p split: prod.splits)
qed

section \<open>Sending an alert\<close>

text \<open>The producer is a sequence of outcomes, one per send: the \<open>n\<close>th send succeeds or not.  The
result carries what was attempted: the topics in order and the pauses between them.\<close>

datatype send_target = Alerts_Topic | Dlq string

record send_log =
  sl_sends :: "(send_target \<times> bool) list"
  sl_sleeps :: "nat list"

text \<open>The loop of \<open>send\_alert\_with\_retry\<close>: \<open>attempt\<close> counts the sends made so far.\<close>

function send_loop ::
  "(nat \<Rightarrow> bool) \<Rightarrow> nat \<Rightarrow> string option \<Rightarrow> nat \<Rightarrow> nat \<Rightarrow> send_log \<Rightarrow> (error + unit) \<times> send_log" where
  "send_loop deliver retries dlq att backoff lg =
     (let okay = deliver (length (sl_sends lg));
          lg1 = lg \<lparr> sl_sends := sl_sends lg @ [(Alerts_Topic, okay)] \<rparr>
      in if okay then (Inr (), lg1)
         else if retries < att + 1 then
           (case dlq of None \<Rightarrow> (Inl Queue_Error, lg1)
            | Some dt \<Rightarrow> (let okay2 = deliver (length (sl_sends lg1));
                            lg2 = lg1 \<lparr> sl_sends := sl_sends lg1 @ [(Dlq dt, okay2)] \<rparr>
                        in (if okay2 then Inr () else Inl Queue_Error, lg2)))
         else send_loop deliver retries dlq (att + 1) (min (backoff * 2) 10000)
                (lg1 \<lparr> sl_sleeps := sl_sleeps lg1 @ [backoff] \<rparr>))"
  by auto
termination by (relation "measure (\<lambda>(deliver, retries, dlq, att, backoff, lg). Suc retries - att)") auto

declare send_loop.simps [simp del]

definition send_alert_with_retry ::
  "(nat \<Rightarrow> bool) \<Rightarrow> nat \<Rightarrow> nat \<Rightarrow> string option \<Rightarrow> (error + unit) \<times> send_log" where
  "send_alert_with_retry deliver retries backoff dlq =
     send_loop deliver retries dlq 0 backoff \<lparr> sl_sends = [], sl_sleeps = [] \<rparr>"

definition topic_sends :: "send_log \<Rightarrow> nat" where
  "topic_sends lg = length (filter (\<lambda>(t, _). t = Alerts_Topic) (sl_sends lg))"

definition dlq_sends :: "send_log \<Rightarrow> nat" where
  "dlq_sends lg = length (filter (\<lambda>(t, _). t \<noteq> Alerts_Topic) (sl_sends lg))"

lemma topic_sends_simps [simp]:
  "topic_sends (lg \<lparr> sl_sends := sl_sends lg @ [(t, b)] \<rparr>) = topic_sends lg + (if t = Alerts_Topic then 1 else 0)"
  "topic_sends (lg \<lparr> sl_sleeps := x \<rparr>) = topic_sends lg"
  "dlq_sends (lg \<lparr> sl_sends := sl_sends lg @ [(t, b)] \<rparr>) = dlq_sends lg + (if t = Alerts_Topic then 0 else 1)"
  "dlq_sends (lg \<lparr> sl_sleeps := x \<rparr>) = dlq_sends lg"
  by (simp_all add: topic_sends_def dlq_sends_def)

text \<open>Success means the last send succeeded, on the topic or on the dead-letter topic after all the
retries; failure means every send failed.  At most \<open>retries + 1\<close> sends go to the topic, and the
pauses are capped.\<close>

lemma send_loop_spec:
  assumes "att \<le> retries" "topic_sends lg = att" "dlq_sends lg = 0"
    "\<forall>(t, b) \<in> set (sl_sends lg). \<not> b" "length (sl_sleeps lg) = att"
    "\<forall>p \<in> set (sl_sleeps lg). p \<le> max backoff0 10000" "backoff \<le> max backoff0 10000"
    "send_loop deliver retries dlq att backoff lg = (r, lg')"
  shows "topic_sends lg' \<le> retries + 1 \<and> dlq_sends lg' \<le> 1
     \<and> (dlq_sends lg' = 1 \<longrightarrow> topic_sends lg' = retries + 1)
     \<and> (\<forall>p \<in> set (sl_sleeps lg'). p \<le> max backoff0 10000) \<and> length (sl_sleeps lg') \<le> retries
     \<and> sl_sends lg' \<noteq> []
     \<and> (is_ok r \<longleftrightarrow> snd (last (sl_sends lg'))) \<and> (\<forall>x \<in> set (butlast (sl_sends lg')). \<not> snd x)"
  using assms
proof (induction deliver retries dlq att backoff lg rule: send_loop.induct)
  case (1 deliver retries dlq att backoff lg)
  let ?ok = "deliver (length (sl_sends lg))"
  let ?lg1 = "lg \<lparr> sl_sends := sl_sends lg @ [(Alerts_Topic, ?ok)] \<rparr>"
  note S = "1.prems"(8)[unfolded send_loop.simps[of deliver retries dlq att backoff lg] Let_def]
  have pre: "\<forall>x \<in> set (sl_sends lg). \<not> snd x" using "1.prems"(4) by auto
  consider "?ok" | "\<not> ?ok" "retries < att + 1" | "\<not> ?ok" "\<not> retries < att + 1" by blast
  then show ?case
  proof cases
    case 1
    then have "r = Inr ()" "lg' = ?lg1" using S by auto
    then show ?thesis using 1 "1.prems" pre by (simp add: is_ok_def)
  next
    case 2
    then show ?thesis
    proof (cases dlq)
      case None
      then have "r = Inl Queue_Error" "lg' = ?lg1" using S 2 by auto
      then show ?thesis using 2 "1.prems" pre by (simp add: is_ok_def)
    next
      case (Some dt)
      let ?ok2 = "deliver (length (sl_sends ?lg1))"
      have "r = (if ?ok2 then Inr () else Inl Queue_Error)"
        "lg' = ?lg1 \<lparr> sl_sends := sl_sends ?lg1 @ [(Dlq dt, ?ok2)] \<rparr>" using S 2 Some by auto
      then show ?thesis using 2 "1.prems" pre
        by (auto simp: is_ok_def butlast_append topic_sends_def dlq_sends_def)
    qed
  next
    case 3
    let ?lg2 = "?lg1 \<lparr> sl_sleeps := sl_sleeps ?lg1 @ [backoff] \<rparr>"
    have rec: "send_loop deliver retries dlq (att + 1) (min (backoff * 2) 10000) ?lg2 = (r, lg')"
      using S 3 by simp
    show ?thesis
      by (rule "1.IH"[OF refl refl _ _ _ _ _ _ _ _ _ rec])
        (use 3 "1.prems" in \<open>auto simp: topic_sends_def dlq_sends_def\<close>)
  qed
qed

end
