(* ===== verification/Consumers.thy ===== *)
theory Consumers
  imports Queue
begin

text \<open>The two consumer loops of \<open>queue/kafka.rs\<close>, one message at a time: rate limiting (local bucket
first, then the shared window in the cache), the health key, the hand-over to a bounded channel
with pausing, and the copy for the indexer.  What a channel or the consumer handle answers is a
parameter of each message.\<close>

section \<open>Handing a message to a bounded channel\<close>

datatype try_result = Sent | Full | Closed
datatype slow_result = Delivered | Chan_Closed | Timed_Out

text \<open>\<open>ch\_slow\<close> is the outcome of the waiting send; with no timeout it cannot time out.\<close>

record channel_env =
  ch_try :: try_result
  ch_assignment :: bool
  ch_pause_ok :: bool
  ch_resume_ok :: bool
  ch_slow :: slow_result

record handover =
  ho_delivered :: bool
  ho_stop :: bool
  ho_paused :: bool
  ho_full :: nat

definition wait_send :: "channel_env \<Rightarrow> bool \<Rightarrow> bool \<Rightarrow> bool \<Rightarrow> nat \<Rightarrow> handover" where
  "wait_send ch no_timeout before after full =
     (case (if no_timeout \<and> ch_slow ch = Timed_Out then Delivered else ch_slow ch) of
        Delivered \<Rightarrow> \<lparr> ho_delivered = True, ho_stop = False, ho_paused = after, ho_full = 0 \<rparr>
      | Chan_Closed \<Rightarrow> \<lparr> ho_delivered = False, ho_stop = True, ho_paused = before, ho_full = full \<rparr>
      | Timed_Out \<Rightarrow> \<lparr> ho_delivered = False, ho_stop = False, ho_paused = after,
                       ho_full = full + 1 \<rparr>)"

definition hand_over :: "bool \<Rightarrow> nat \<Rightarrow> channel_env \<Rightarrow> bool \<Rightarrow> nat \<Rightarrow> handover" where
  "hand_over pause_on_full pause_timeout ch paused full =
     (case ch_try ch of
        Sent \<Rightarrow> \<lparr> ho_delivered = True, ho_stop = False, ho_paused = paused, ho_full = 0 \<rparr>
      | Closed \<Rightarrow> \<lparr> ho_delivered = False, ho_stop = True, ho_paused = paused, ho_full = full \<rparr>
      | Full \<Rightarrow>
          if pause_on_full \<and> ch_assignment ch then
            (let p = (paused \<or> ch_pause_ok ch)
             in wait_send ch (pause_timeout = 0) p (p \<and> \<not> ch_resume_ok ch) full)
          else wait_send ch False paused paused full)"

section \<open>Rate limiting of logs\<close>

record limit_config =
  lc_per_ip :: nat
  lc_window_ms :: nat
  lc_sample_rate :: nat

record 's log_consumer =
  lg_limits :: "string \<Rightarrow> bucket option"
  lg_cache :: 's
  lg_paused :: bool
  lg_full :: nat
  lg_out :: "log list"
  lg_index :: "log list"
  lg_running :: bool

definition limit_key :: "string \<Rightarrow> string" where
  "limit_key ip = ''siem:ratelimit:ip:'' @ ip"

definition sampled :: "(nat \<Rightarrow> nat) \<Rightarrow> limit_config \<Rightarrow> log \<Rightarrow> bool" where
  "sampled hash cfg l \<longleftrightarrow> lc_sample_rate cfg \<le> 1 \<or> hash (l_id l) mod lc_sample_rate cfg = 0"

definition log_allowed ::
  "'s cache \<Rightarrow> (nat \<Rightarrow> nat) \<Rightarrow> limit_config \<Rightarrow> int \<Rightarrow> log \<Rightarrow> 's log_consumer \<Rightarrow> bool \<times> 's log_consumer" where
  "log_allowed C hash cfg now l st =
     (let ip = l_source_ip l;
          b0 = (case lg_limits st ip of Some b \<Rightarrow> b
                | None \<Rightarrow> bucket_new (as_u32 (lc_per_ip cfg)) (lc_window_ms cfg) now)
      in case bucket_allow now b0 of (okay, b) \<Rightarrow>
         if okay then (True, st \<lparr> lg_limits := (lg_limits st)(ip \<mapsto> b) \<rparr>)
         else (case c_allow_sliding_window C (limit_key ip) (lc_window_ms cfg)
                      (as_u32 (lc_per_ip cfg)) (lg_cache st) of (r, c) \<Rightarrow>
           (let st = st \<lparr> lg_cache := c \<rparr> in
            case r of
              Inr True \<Rightarrow> (True, st \<lparr> lg_limits := (lg_limits st)(ip \<mapsto> b \<lparr> bk_tokens := 0 \<rparr>) \<rparr>)
            | Inr False \<Rightarrow> (sampled hash cfg l,
                st \<lparr> lg_limits := (lg_limits st)(ip \<mapsto> bucket_block now (lc_window_ms cfg) b) \<rparr>)
            | Inl _ \<Rightarrow> (True, st \<lparr> lg_limits := (lg_limits st)(ip \<mapsto> b) \<rparr>))))"

definition cleanup_limits :: "limit_config \<Rightarrow> int \<Rightarrow> 's log_consumer \<Rightarrow> 's log_consumer" where
  "cleanup_limits cfg now st =
     (let expiry = max (min (u64_as_i64 (lc_window_ms cfg) * 4) (2 ^ 63 - 1)) 60000
      in st \<lparr> lg_limits := (\<lambda>ip. case lg_limits st ip of None \<Rightarrow> None
              | Some b \<Rightarrow> if now - bk_last_seen b \<le> expiry then Some b else None) \<rparr>)"

section \<open>The loops\<close>

definition last_seen_key :: string where "last_seen_key = ''siem:health:kafka_last_seen''"

text \<open>One stream item of the log consumer: \<open>None\<close> is a message without a decodable log.  The indexer
channel is optional; \<open>idx\<close> is its answer.\<close>

definition consume_log ::
  "'s cache \<Rightarrow> (nat \<Rightarrow> nat) \<Rightarrow> limit_config \<Rightarrow> bool \<Rightarrow> nat \<Rightarrow> instant \<Rightarrow> channel_env
   \<Rightarrow> try_result option \<Rightarrow> log option \<Rightarrow> 's log_consumer \<Rightarrow> 's log_consumer" where
  "consume_log C hash cfg pause_on_full pause_timeout now ch idx msg st0 =
     (if \<not> lg_running st0 then st0 else case msg of None \<Rightarrow> st0
      | Some l \<Rightarrow>
         (case log_allowed C hash cfg (timestamp_millis now) l st0 of (okay, st) \<Rightarrow>
            if \<not> okay then st
            else
              (let st = st \<lparr> lg_cache := ignore (c_set_string C last_seen_key
                      (show_int (timestamp now)) (Some 300)) (lg_cache st) \<rparr>;
                   h = hand_over pause_on_full pause_timeout ch (lg_paused st) (lg_full st);
                   st = st \<lparr> lg_paused := ho_paused h, lg_full := ho_full h,
                            lg_out := (if ho_delivered h then lg_out st @ [l] else lg_out st),
                            lg_running := \<not> ho_stop h \<rparr>
               in if ho_stop h then st
                  else if idx = Some Sent then st \<lparr> lg_index := lg_index st @ [l] \<rparr> else st)))"

text \<open>The alert consumer.  It receives from its own Kafka consumer but pauses and resumes the one of
the logs: the model keeps both pause flags.\<close>

record 's alert_consumer =
  al_cache :: 's
  al_logs_paused :: bool
  al_alerts_paused :: bool
  al_full :: nat
  al_out :: "alert list"
  al_running :: bool

definition consume_alert ::
  "'s cache \<Rightarrow> bool \<Rightarrow> nat \<Rightarrow> instant \<Rightarrow> channel_env \<Rightarrow> alert option
   \<Rightarrow> 's alert_consumer \<Rightarrow> 's alert_consumer" where
  "consume_alert C pause_on_full pause_timeout now ch msg st0 =
     (if \<not> al_running st0 then st0 else case msg of None \<Rightarrow> st0
      | Some a \<Rightarrow>
          (let st = st0 \<lparr> al_cache := ignore (c_set_string C last_seen_key
                  (show_int (timestamp now)) (Some 300)) (al_cache st0) \<rparr>;
               h = hand_over pause_on_full pause_timeout ch (al_logs_paused st) (al_full st)
           in st \<lparr> al_logs_paused := ho_paused h, al_full := ho_full h,
                   al_out := (if ho_delivered h then al_out st @ [a] else al_out st),
                   al_running := \<not> ho_stop h \<rparr>))"

section \<open>Facts\<close>

lemmas hand_over_defs = hand_over_def wait_send_def Let_def

text \<open>A message is lost only when its channel was full until the wait ran out, which is counted, or
when the channel is closed, which stops the loop.\<close>

lemma hand_over_lost:
  assumes "\<not> ho_delivered (hand_over p n ch paused full)"
  shows "(ho_stop (hand_over p n ch paused full) \<and> (ch_try ch = Closed \<or> ch_slow ch = Chan_Closed))
    \<or> (\<not> ho_stop (hand_over p n ch paused full) \<and> ch_try ch = Full \<and> ch_slow ch = Timed_Out
        \<and> ho_full (hand_over p n ch paused full) = full + 1)"
  using assms
  by (auto simp: hand_over_defs split: try_result.splits slow_result.splits if_splits)

lemma hand_over_no_timeout:
  "p \<Longrightarrow> ch_assignment ch \<Longrightarrow> \<not> ho_delivered (hand_over p 0 ch paused full)
   \<Longrightarrow> ho_stop (hand_over p 0 ch paused full)"
  by (auto simp: hand_over_defs split: try_result.splits slow_result.splits if_splits)

text \<open>A consumer is paused after a step only if it was before, if resuming failed, or if the loop
stops.\<close>

lemma hand_over_resumes:
  "\<not> ho_stop (hand_over p n ch paused full) \<Longrightarrow> ch_resume_ok ch \<Longrightarrow> \<not> paused
   \<Longrightarrow> \<not> ho_paused (hand_over p n ch paused full)"
  by (auto simp: hand_over_defs split: try_result.splits slow_result.splits if_splits)

lemma consume_alert_own_pause:
  "al_alerts_paused (consume_alert C p n now ch msg st) = al_alerts_paused st"
  by (simp add: consume_alert_def Let_def split: option.split)

lemma consume_alert_stops_logs:
  "al_running st \<Longrightarrow> ch_try ch = Full \<Longrightarrow> ch_assignment ch \<Longrightarrow> ch_pause_ok ch \<Longrightarrow> ch_slow ch = Chan_Closed
   \<Longrightarrow> al_logs_paused (consume_alert C True n now ch (Some a) st)
       \<and> \<not> al_running (consume_alert C True n now ch (Some a) st)"
  by (simp add: consume_alert_def hand_over_defs)

definition limits_ok :: "'s log_consumer \<Rightarrow> bool" where
  "limits_ok st \<longleftrightarrow> (\<forall>ip b. lg_limits st ip = Some b \<longrightarrow> bucket_ok b)"

lemma log_allowed_ok:
  assumes "limits_ok st"
  shows "limits_ok (snd (log_allowed C hash cfg now l st))"
proof -
  define b0 where "b0 = (case lg_limits st (l_source_ip l) of Some b \<Rightarrow> b
     | None \<Rightarrow> bucket_new (as_u32 (lc_per_ip cfg)) (lc_window_ms cfg) now)"
  have b0: "bucket_ok b0" using assms
    by (auto simp: b0_def limits_ok_def bucket_new_ok split: option.split)
  obtain okay b where a: "bucket_allow now b0 = (okay, b)" by (cases "bucket_allow now b0")
  have b: "bucket_ok b" using bucket_allow_ok[OF b0, of now] a by simp
  then have z: "bucket_ok (b \<lparr> bk_tokens := 0 \<rparr>)" "bucket_ok (bucket_block now (lc_window_ms cfg) b)"
    using bucket_block_ok by (auto simp: bucket_ok_def)
  show ?thesis using assms b z a
    by (auto simp: log_allowed_def b0_def[symmetric] Let_def limits_ok_def
        split: prod.splits sum.splits bool.splits)
qed

text \<open>An error of the shared limiter lets the log through.\<close>

lemma log_allowed_fail_open:
  assumes "fst (c_allow_sliding_window C (limit_key (l_source_ip l)) (lc_window_ms cfg)
      (as_u32 (lc_per_ip cfg)) (lg_cache st)) = Inl e"
  shows "fst (log_allowed C hash cfg now l st)"
  using assms by (auto simp: log_allowed_def Let_def split: prod.splits sum.splits)

end
