(* ===== verification/Response.thy ===== *)
theory Response
  imports Database
begin

text \<open>Automated response (\<open>response/engine.rs\<close>) and the immediate alert path
(\<open>alerting/manager.rs\<close>).  An action is a name with the outcome of executing it on an alert (the webhook and script
actions are in \<open>Actions\<close>); what the engine did is the trace of executed actions.\<close>

record action =
  act_name :: string
  act_run :: "alert \<Rightarrow> bool"

record response_engine =
  re_rules :: "string \<times> string \<Rightarrow> action list option"
  re_severities :: "string \<times> alert_severity \<Rightarrow> action list option"

definition response_new :: response_engine where
  "response_new = \<lparr> re_rules = Map.empty, re_severities = Map.empty \<rparr>"

definition push_action :: "'k \<Rightarrow> action \<Rightarrow> ('k \<Rightarrow> action list option) \<Rightarrow> ('k \<Rightarrow> action list option)" where
  "push_action k x m = m(k \<mapsto> option_or [] (m k) @ [x])"

definition add_rule_policy :: "string \<Rightarrow> string \<Rightarrow> action \<Rightarrow> response_engine \<Rightarrow> response_engine" where
  "add_rule_policy t rule x e = e \<lparr> re_rules := push_action (t, rule) x (re_rules e) \<rparr>"

definition add_severity_policy ::
  "string option \<Rightarrow> alert_severity \<Rightarrow> action \<Rightarrow> response_engine \<Rightarrow> response_engine" where
  "add_severity_policy t sev x e =
     e \<lparr> re_severities := push_action (option_or ''*'' t, sev) x (re_severities e) \<rparr>"

definition add_global_severity_policy ::
  "alert_severity \<Rightarrow> action \<Rightarrow> response_engine \<Rightarrow> response_engine" where
  "add_global_severity_policy sev x e = add_severity_policy None sev x e"

definition collect_actions :: "response_engine \<Rightarrow> alert \<Rightarrow> action list" where
  "collect_actions e a =
     (case re_rules e (a_tenant a, a_rule_id a) of
        Some xs \<Rightarrow> xs
      | None \<Rightarrow> option_or [] (re_rules e (''*'', a_rule_id a)))
     @ option_or [] (re_severities e (a_tenant a, a_severity a))
     @ option_or [] (re_severities e (''*'', a_severity a))"

definition preview_actions :: "response_engine \<Rightarrow> alert \<Rightarrow> string list" where
  "preview_actions e a = map act_name (collect_actions e a)"

text \<open>The spawned task runs the actions in order and goes on after a failure: its trace.\<close>

definition response_handle :: "response_engine \<Rightarrow> alert \<Rightarrow> (string \<times> bool) list" where
  "response_handle e a = map (\<lambda>x. (act_name x, act_run x a)) (collect_actions e a)"

text \<open>\<open>handle\_alert\<close> of the alert manager: a failed insert returns before anything is notified; the
outcome of the Slack message is only logged.\<close>

definition manager_handle_alert ::
  "response_engine \<Rightarrow> (alert \<Rightarrow> bool) \<Rightarrow> alert \<Rightarrow> (bool \<times> (string \<times> bool) list) dbop" where
  "manager_handle_alert e slack a =
     bind_ok (create_alert a) (\<lambda>_. ok (slack a, response_handle e a))"

section \<open>Facts\<close>

text \<open>Two engines that agree on a tenant's own policies and on the fallback give its alerts the same
actions.\<close>

definition agree_for :: "string \<Rightarrow> response_engine \<Rightarrow> response_engine \<Rightarrow> bool" where
  "agree_for t e f \<longleftrightarrow> (\<forall>u. u = t \<or> u = ''*'' \<longrightarrow>
     (\<forall>r. re_rules e (u, r) = re_rules f (u, r)) \<and> (\<forall>s. re_severities e (u, s) = re_severities f (u, s)))"

lemma collect_agree: "agree_for (a_tenant a) e f \<Longrightarrow> collect_actions e a = collect_actions f a"
  unfolding collect_actions_def agree_for_def by (auto split: option.split)

lemma agree_refl [simp]: "agree_for t e e"
  by (simp add: agree_for_def)

lemma add_rule_other: "u \<noteq> t \<Longrightarrow> u \<noteq> ''*'' \<Longrightarrow> agree_for t (add_rule_policy u r x e) e"
  by (simp add: agree_for_def add_rule_policy_def push_action_def)

lemma add_severity_other:
  "u \<noteq> t \<Longrightarrow> u \<noteq> ''*'' \<Longrightarrow> agree_for t (add_severity_policy (Some u) s x e) e"
  by (simp add: agree_for_def add_severity_policy_def push_action_def option_or_def)

lemma agree_trans: "agree_for t e f \<Longrightarrow> agree_for t f g \<Longrightarrow> agree_for t e g"
  by (simp add: agree_for_def)

lemma collect_add_own_rule:
  "collect_actions (add_rule_policy (a_tenant a) (a_rule_id a) x e) a
     = (option_or [] (re_rules e (a_tenant a, a_rule_id a)) @ [x])
       @ option_or [] (re_severities e (a_tenant a, a_severity a))
       @ option_or [] (re_severities e (''*'', a_severity a))"
  by (simp add: collect_actions_def add_rule_policy_def push_action_def)

lemma collect_star_tenant:
  "a_tenant a = ''*'' \<Longrightarrow> collect_actions e a
     = option_or [] (re_rules e (''*'', a_rule_id a))
       @ option_or [] (re_severities e (''*'', a_severity a))
       @ option_or [] (re_severities e (''*'', a_severity a))"
  by (simp add: collect_actions_def option_or_def split: option.splits)

end
