(* ===== verification/Delivery_Properties.thy ===== *)
theory Delivery_Properties
  imports Batcher_Store Consumers Response Samples
begin

text \<open>What the path of an alert promises: the batcher between the detection workers and the database,
the token bucket, the retries towards Kafka, the back-pressure of the two consumers, and the
policies of the response engine.\<close>

section \<open>The batcher\<close>

definition sample_alert :: "nat \<Rightarrow> string \<Rightarrow> string \<Rightarrow> int \<Rightarrow> alert" where
  "sample_alert i t ip tm = alert_new i (seconds tm) t ''r1'' ''Rule'' High ''seen'' ip []"

definition sample_batch_env :: batch_env where
  "sample_batch_env = \<lparr> be_hash = List.length, be_tenants = (\<lambda>m. m), be_keys = (\<lambda>m. m) \<rparr>"

definition batcher_new :: "db \<Rightarrow> batcher" where
  "batcher_new d = \<lparr> bt_buffer = [], bt_db = d, bt_running = True \<rparr>"

lemma sample_batch_laws: "batch_laws sample_batch_env"
  by (simp add: batch_laws_def sample_batch_env_def)

text \<open>C15. While no statement fails, no event is lost or counted twice: over any run of receptions, ticks
and the shutdown, the events stored in the alert table and those of the buffer add up to the
events received, although alerts of one dedup key are merged into one row.\<close>

theorem batcher_conserves_events:
  assumes "batch_laws E" "bt_running b" "batcher_ready (received evs) b"
    and "batcher_events b + int (total_events (received evs)) < 2 ^ 31"
  shows "batcher_events (batcher_run E n evs b) = batcher_events b + int (total_events (received evs))"
  by (rule batcher_run_conserves[OF assms])

lemma batcher_conserves_events_witness:
  "batcher_events (batcher_run sample_batch_env 2
     [Received (sample_alert 1 ''t'' ''1.1.1.1'' 5 \<lparr> a_events_count := 3 \<rparr>),
      Received (sample_alert 2 ''t'' ''1.1.1.1'' 6 \<lparr> a_events_count := 4 \<rparr>), Tick]
     (batcher_new (db_empty 0))) = 7"
  using batcher_conserves_events[OF sample_batch_laws, of "batcher_new (db_empty 0)"
      "[Received (sample_alert 1 ''t'' ''1.1.1.1'' 5 \<lparr> a_events_count := 3 \<rparr>),
        Received (sample_alert 2 ''t'' ''1.1.1.1'' 6 \<lparr> a_events_count := 4 \<rparr>), Tick]" 2]
  by (simp add: batcher_new_def batcher_ready_def batcher_events_def no_faults_def db_empty_def rows_ok_def
      alert_fits_def sample_alert_def alert_new_def)

text \<open>The buffer of a task that started empty stays below the batch size, and the buffer of a task
that was shut down is empty.\<close>

theorem batcher_buffer_bounded:
  "length (bt_buffer (batcher_run E n evs (batcher_new d))) \<le> n - 1
   \<and> (bt_running (batcher_run E n evs (batcher_new d)) \<or> bt_buffer (batcher_run E n evs (batcher_new d)) = [])"
  using batcher_buffer_bound[of "batcher_new d" n E evs] batcher_stopped_empty[of "batcher_new d" E n evs]
  by (auto simp: batcher_new_def)

text \<open>C40. The buffer is drained before the database is written: with a database that answers nothing, the
alerts received before a tick are gone from the buffer and in no row.\<close>

theorem failed_flush_loses_buffer:
  assumes "db_down d"
  shows "bt_buffer (batcher_run E n (evs @ [Tick]) (batcher_new d)) = []
       \<and> db_alerts (bt_db (batcher_run E n (evs @ [Tick]) (batcher_new d))) = db_alerts d"
proof
  show "db_alerts (bt_db (batcher_run E n (evs @ [Tick]) (batcher_new d))) = db_alerts d"
    using batcher_run_down[of "batcher_new d"] assms by (simp add: batcher_new_def)
  have "bt_running (batcher_run E n evs (batcher_new d)) \<or> bt_buffer (batcher_run E n evs (batcher_new d)) = []"
    using batcher_stopped_empty[of "batcher_new d" E n evs] by (auto simp: batcher_new_def)
  then show "bt_buffer (batcher_run E n (evs @ [Tick]) (batcher_new d)) = []"
    by (auto simp: batcher_run_def batcher_flush_def)
qed

lemma failed_flush_loses_buffer_witness:
  "bt_buffer (batcher_run sample_batch_env 5 ([Received (sample_alert 1 ''t'' ''1.1.1.1'' 5)] @ [Tick])
     (batcher_new (db_empty 0 \<lparr> db_fault := \<lambda>_. True \<rparr>))) = []
   \<and> db_alerts (bt_db (batcher_run sample_batch_env 5
       ([Received (sample_alert 1 ''t'' ''1.1.1.1'' 5)] @ [Tick])
       (batcher_new (db_empty 0 \<lparr> db_fault := \<lambda>_. True \<rparr>)))) = []"
  using failed_flush_loses_buffer[of "db_empty 0 \<lparr> db_fault := \<lambda>_. True \<rparr>" sample_batch_env 5
      "[Received (sample_alert 1 ''t'' ''1.1.1.1'' 5)]"]
  by (simp add: db_down_def db_empty_def)

text \<open>C31. Grouping the buffer agrees with its specification: under each tenant and dedup key it holds the
merge, in arrival order, of exactly the buffered alerts with that tenant and key.\<close>

theorem grouping_merges_by_key:
  "batch_group (group_batch E as) t k
     = merged (filter (\<lambda>a. a_tenant a = t \<and> alert_dedup_key (be_hash E) a = k) as)"
  by (rule group_batch_merges)

section \<open>The token bucket\<close>

text \<open>C32. A bucket made at \<open>t0\<close> admits, of the requests it is asked up to an instant, no more than its
capacity and what the time since then has refilled.\<close>

theorem bucket_admits_budget:
  assumes "sorted ts" "\<forall>t \<in> set ts. t0 \<le> t \<and> t \<le> T" "t0 \<le> T"
  shows "of_nat (length (filter (\<lambda>r. r) (fst (bucket_run ts (bucket_new limit window t0)))))
     \<le> (of_nat (max limit 1) :: rat) + of_int (T - t0) * (of_nat (max limit 1) / of_nat (max window 1))"
  using bucket_run_budget[OF bucket_new_ok[of limit window t0] assms(1), of T] assms(2,3)
  by (simp add: bucket_new_def)

lemma bucket_admits_budget_witness:
  "of_nat (length (filter (\<lambda>r. r) (fst (bucket_run [0, 0, 0, 500] (bucket_new 2 1000 0)))))
     \<le> (of_nat (max 2 1) :: rat) + of_int (500 - 0) * (of_nat (max 2 1) / of_nat (max 1000 1))"
  by (rule bucket_admits_budget) simp_all

section \<open>Retries\<close>

text \<open>Sending an alert always ends: with at most \<open>retries + 1\<close> sends to the topic, at most one to the
dead-letter topic and only after all of those, pauses capped at ten seconds or the configured
backoff, and a result that is the outcome of the last send, every earlier one having failed.\<close>

theorem send_alert_bounded:
  assumes "send_alert_with_retry deliver retries backoff dlq = (r, lg)"
  shows "topic_sends lg \<le> retries + 1 \<and> dlq_sends lg \<le> 1
     \<and> (dlq_sends lg = 1 \<longrightarrow> topic_sends lg = retries + 1)
     \<and> (\<forall>p \<in> set (sl_sleeps lg). p \<le> max backoff 10000) \<and> length (sl_sleeps lg) \<le> retries
     \<and> sl_sends lg \<noteq> []
     \<and> (is_ok r \<longleftrightarrow> snd (last (sl_sends lg))) \<and> (\<forall>x \<in> set (butlast (sl_sends lg)). \<not> snd x)"
  by (rule send_loop_spec[of 0 retries "\<lparr> sl_sends = [], sl_sleeps = [] \<rparr>" backoff backoff])
    (use assms in \<open>auto simp: send_alert_with_retry_def topic_sends_def dlq_sends_def\<close>)

lemma send_alert_bounded_witness:
  "topic_sends (snd (send_alert_with_retry (\<lambda>n. n = 3) 2 500 (Some ''dlq''))) = 3"
proof -
  let ?s = "send_alert_with_retry (\<lambda>n. n = 3) 2 500 (Some ''dlq'')"
  have e: "?s = (Inr (), \<lparr> sl_sends = [(Alerts_Topic, False), (Alerts_Topic, False), (Alerts_Topic, False),
      (Dlq ''dlq'', True)], sl_sleeps = [500, 1000] \<rparr>)"
    by (simp add: send_alert_with_retry_def send_loop.simps Let_def)
  show ?thesis using send_alert_bounded[OF e] by (simp add: e dlq_sends_def)
qed

section \<open>The consumers\<close>

text \<open>The verdict on a log: let through when the bucket of its address has a token, or the shared
window admits it, or the shared window fails, or the sampling picks it.\<close>

theorem log_allowed_verdict:
  "fst (log_allowed C hash cfg now l st) \<longleftrightarrow>
     fst (bucket_allow now (case lg_limits st (l_source_ip l) of Some b \<Rightarrow> b
            | None \<Rightarrow> bucket_new (as_u32 (lc_per_ip cfg)) (lc_window_ms cfg) now))
     \<or> result_or True (fst (c_allow_sliding_window C (limit_key (l_source_ip l)) (lc_window_ms cfg)
            (as_u32 (lc_per_ip cfg)) (lg_cache st)))
     \<or> sampled hash cfg l"
  by (auto simp: log_allowed_def Let_def result_or_def split: prod.splits sum.splits bool.splits)

text \<open>C21. With pausing on, no time limit on it and an assignment, the log consumer loses no log it lets
through: it is delivered in order, or the consumer stops.\<close>

theorem log_consumer_lossless:
  assumes "lg_running st" "ch_assignment ch"
  shows "let st' = consume_log C hash cfg True 0 now ch idx (Some l) st in
     lg_out st' = (if fst (log_allowed C hash cfg (timestamp_millis now) l st) \<and> lg_running st'
       then lg_out st @ [l] else lg_out st)"
proof -
  obtain okay st1 where a: "log_allowed C hash cfg (timestamp_millis now) l st = (okay, st1)" by fastforce
  have o: "lg_out st1 = lg_out st" "lg_running st1 = lg_running st"
    using a by (auto simp: log_allowed_def Let_def split: prod.splits sum.splits bool.splits if_splits)
  let ?h = "hand_over True 0 ch (lg_paused st1) (lg_full st1)"
  have "ho_delivered ?h \<longleftrightarrow> \<not> ho_stop ?h"
    using assms(2) by (auto simp: hand_over_defs split: try_result.splits slow_result.splits)
  then show ?thesis using assms(1) o by (auto simp: consume_log_def Let_def a)
qed

lemma log_consumer_lossless_witness:
  "lg_out (consume_log (redis_cache Inr mem_redis) (\<lambda>_. 0) \<lparr> lc_per_ip = 5, lc_window_ms = 1000, lc_sample_rate = 1 \<rparr>
     True 0 0 \<lparr> ch_try = Full, ch_assignment = True, ch_pause_ok = True, ch_resume_ok = True,
       ch_slow = Timed_Out \<rparr> None (Some (sample_log ''t'' ''1.1.1.1'' ''x'' ''y'' 0))
     \<lparr> lg_limits = Map.empty, lg_cache = rcache_new ks_empty 0, lg_paused = False, lg_full = 0, lg_out = [],
       lg_index = [], lg_running = True \<rparr>) = [sample_log ''t'' ''1.1.1.1'' ''x'' ''y'' 0]"
proof -
  let ?cfg = "\<lparr> lc_per_ip = 5, lc_window_ms = 1000, lc_sample_rate = 1 \<rparr>"
  let ?st = "\<lparr> lg_limits = Map.empty, lg_cache = rcache_new ks_empty 0, lg_paused = False, lg_full = 0, lg_out = [],
       lg_index = [], lg_running = True \<rparr>"
  let ?l = "sample_log ''t'' ''1.1.1.1'' ''x'' ''y'' 0"
  let ?ch = "\<lparr> ch_try = Full, ch_assignment = True, ch_pause_ok = True, ch_resume_ok = True, ch_slow = Timed_Out \<rparr>"
  have "fst (log_allowed (redis_cache Inr mem_redis) (\<lambda>_. 0) ?cfg (timestamp_millis 0) ?l ?st)"
    by (simp add: log_allowed_def bucket_allow_def bucket_new_def bucket_refill_def bucket_touch_def Let_def
        as_u32_def timestamp_millis_def)
  moreover have "lg_running (consume_log (redis_cache Inr mem_redis) (\<lambda>_. 0) ?cfg True 0 0 ?ch None (Some ?l) ?st)"
    by (simp add: consume_log_def hand_over_defs log_allowed_def bucket_allow_def bucket_new_def
        bucket_refill_def bucket_touch_def as_u32_def timestamp_millis_def)
  ultimately show ?thesis
    using log_consumer_lossless[of ?st ?ch "redis_cache Inr mem_redis" "\<lambda>_. 0" ?cfg 0 None ?l] by (simp add: Let_def)
qed

text \<open>Back-pressure on the alert channel never pauses the alert consumer, whatever the messages; it
pauses the log consumer, which stays paused when the channel closes while the task waits.\<close>

theorem alert_pressure_pauses_logs:
  "al_alerts_paused (fold (\<lambda>(now, ch, msg). consume_alert C p n now ch msg) msgs st) = al_alerts_paused st
   \<and> al_logs_paused (consume_alert C True n now \<lparr> ch_try = Full, ch_assignment = True, ch_pause_ok = True,
        ch_resume_ok = r, ch_slow = Chan_Closed \<rparr> (Some a) (st \<lparr> al_running := True \<rparr>))"
proof
  show "al_alerts_paused (fold (\<lambda>(now, ch, msg). consume_alert C p n now ch msg) msgs st) = al_alerts_paused st"
  proof (induction msgs arbitrary: st)
    case (Cons m msgs)
    then show ?case by (cases m) (simp add: consume_alert_own_pause)
  qed simp
qed (simp add: consume_alert_stops_logs)

section \<open>Response policies\<close>

datatype policy_step = Rule_Policy string string action | Severity_Policy string alert_severity action

fun policy_tenant :: "policy_step \<Rightarrow> string" where
  "policy_tenant (Rule_Policy t r x) = t"
| "policy_tenant (Severity_Policy t s x) = t"

fun add_policy :: "policy_step \<Rightarrow> response_engine \<Rightarrow> response_engine" where
  "add_policy (Rule_Policy t r x) e = add_rule_policy t r x e"
| "add_policy (Severity_Policy t s x) e = add_severity_policy (Some t) s x e"

lemma add_policies_agree:
  "\<forall>p \<in> set ps. policy_tenant p \<noteq> t \<and> policy_tenant p \<noteq> ''*'' \<Longrightarrow> agree_for t (fold add_policy ps e) e"
proof (induction ps arbitrary: e)
  case (Cons p ps)
  have "agree_for t (add_policy p e) e" using Cons.prems
    by (cases p) (auto intro: add_rule_other add_severity_other)
  moreover have "agree_for t (fold add_policy ps (add_policy p e)) (add_policy p e)" using Cons by simp
  ultimately show ?case by (simp add: agree_trans[OF _ \<open>agree_for t (add_policy p e) e\<close>])
qed simp

text \<open>Policies that other tenants register, in any number and order, change nothing in how the
engine responds to a tenant's alert.\<close>

theorem response_isolation:
  assumes "\<forall>p \<in> set ps. policy_tenant p \<noteq> a_tenant a \<and> policy_tenant p \<noteq> ''*''"
  shows "response_handle (fold add_policy ps e) a = response_handle e a"
  using collect_agree[OF add_policies_agree[OF assms]] by (simp add: response_handle_def)

lemma response_isolation_witness:
  "response_handle (fold add_policy [Rule_Policy ''u'' ''r1'' \<lparr> act_name = ''block'', act_run = (\<lambda>_. True) \<rparr>]
     response_new) (sample_alert 1 ''t'' ''1.1.1.1'' 5) = []"
  using response_isolation[of "[Rule_Policy ''u'' ''r1'' \<lparr> act_name = ''block'', act_run = (\<lambda>_. True) \<rparr>]"
      "sample_alert 1 ''t'' ''1.1.1.1'' 5" response_new]
  by (simp add: sample_alert_def alert_new_def response_handle_def collect_actions_def response_new_def option_or_def)

end
