(* ===== verification/Policies.thy ===== *)
theory Policies
  imports Database
begin

text \<open>The tenant tables of \<open>db/postgres.rs\<close>: the audit trail, compliance policies, data-cost policies
and reliability reports, with the models of \<open>db/models/compliance.rs\<close> and
\<open>db/models/data\_cost.rs\<close>.\<close>

section \<open>Audit events\<close>

text \<open>Newest first: by time, then by id.\<close>

definition audit_newer :: "audit_event \<Rightarrow> audit_event \<Rightarrow> bool" where
  "audit_newer a b \<longleftrightarrow> ae_created b < ae_created a \<or> (ae_created a = ae_created b \<and> ae_id b < ae_id a)"

fun insert_newest :: "audit_event \<Rightarrow> audit_event list \<Rightarrow> audit_event list" where
  "insert_newest e [] = [e]"
| "insert_newest e (x # xs) = (if audit_newer x e then x # insert_newest e xs else e # x # xs)"

definition newest_first :: "audit_event list \<Rightarrow> audit_event list" where
  "newest_first es = foldr insert_newest es []"

definition audit_of :: "string \<Rightarrow> db \<Rightarrow> audit_event list" where
  "audit_of t d = filter (\<lambda>e. ae_tenant e = t) (db_audit d)"

definition latest_audit_hash :: "string \<Rightarrow> string option dbop" where
  "latest_audit_hash t = select (\<lambda>d. case newest_first (audit_of t d) of
      [] \<Rightarrow> None | e # _ \<Rightarrow> Some (ae_event_hash e))"

definition insert_audit_event :: "audit_event \<Rightarrow> unit dbop" where
  "insert_audit_event e = stmt (\<lambda>d.
     if ae_id e \<in> set (map ae_id (db_audit d)) then (Inl Db_Error, d)
     else (Inr (), d \<lparr> db_audit := db_audit d @ [e \<lparr> ae_created := pg_time (ae_created e) \<rparr>] \<rparr>))"

definition list_audit_events :: "string \<Rightarrow> int \<Rightarrow> audit_event list dbop" where
  "list_audit_events t limit = stmt (\<lambda>d. if limit < 0 then (Inl Db_Error, d)
     else (Inr (take (nat limit) (newest_first (audit_of t d))), d))"

definition list_audit_events_since :: "string \<Rightarrow> instant \<Rightarrow> audit_event list dbop" where
  "list_audit_events_since t since = select (\<lambda>d.
     newest_first (filter (\<lambda>e. pg_time since \<le> ae_created e) (audit_of t d)))"

definition purge_audit_events_before :: "string \<Rightarrow> instant \<Rightarrow> nat dbop" where
  "purge_audit_events_before t cutoff = stmt (\<lambda>d.
     (Inr (length (filter (\<lambda>e. ae_tenant e = t \<and> ae_created e < pg_time cutoff) (db_audit d))),
      d \<lparr> db_audit := filter (\<lambda>e. \<not> (ae_tenant e = t \<and> ae_created e < pg_time cutoff)) (db_audit d) \<rparr>))"

section \<open>Compliance policies\<close>

definition default_compliance :: "string \<Rightarrow> instant \<Rightarrow> compliance_policy" where
  "default_compliance t now = \<lparr> cp_tenant = t, cp_retention_days = 365, cp_legal_hold = False,
     cp_hold_reason = None, cp_hold_until = None, cp_review_days = 90, cp_rotation_days = 90,
     cp_last_rotation = None, cp_export_enabled = True, cp_updated = now \<rparr>"

definition get_compliance_policy :: "string \<Rightarrow> compliance_policy dbop" where
  "get_compliance_policy t = select (\<lambda>d.
     option_or (default_compliance t (db_now d)) (first_row (\<lambda>p. cp_tenant p = t) (db_compliance d)))"

definition upsert_compliance_policy :: "compliance_policy \<Rightarrow> compliance_policy dbop" where
  "upsert_compliance_policy p = stmt (\<lambda>d.
     let row = p \<lparr> cp_hold_until := map_option pg_time (cp_hold_until p),
                  cp_last_rotation := map_option pg_time (cp_last_rotation p),
                  cp_updated := pg_time (db_now d) \<rparr> in
     (Inr row, d \<lparr> db_compliance := (if cp_tenant p \<in> set (map cp_tenant (db_compliance d))
        then map (\<lambda>q. if cp_tenant q = cp_tenant p then row else q) (db_compliance d)
        else db_compliance d @ [row]) \<rparr>))"

fun insert_by_tenant :: "compliance_policy \<Rightarrow> compliance_policy list \<Rightarrow> compliance_policy list" where
  "insert_by_tenant p [] = [p]"
| "insert_by_tenant p (q # qs) = (if compare_strings (cp_tenant q) (cp_tenant p) = Less
     then q # insert_by_tenant p qs else p # q # qs)"

definition list_compliance_policies :: "compliance_policy list dbop" where
  "list_compliance_policies = select (\<lambda>d. foldr insert_by_tenant (db_compliance d) [])"

section \<open>Data-cost policies\<close>

definition default_schema_rules :: json where
  "default_schema_rules = JArr
     [JObj [(''field'', JStr ''event_type''), (''op'', JStr ''in''),
            (''value'', JArr [JStr ''heartbeat'', JStr ''metrics'', JStr ''debug''])],
      JObj [(''field'', JStr ''severity''), (''op'', JStr ''==''), (''value'', JStr ''DEBUG'')],
      JObj [(''field'', JStr ''message''), (''op'', JStr ''contains''),
            (''value'', JStr ''health check'')]]"

definition default_cost :: "string \<Rightarrow> instant \<Rightarrow> cost_policy" where
  "default_cost t now = \<lparr> kp_tenant = t, kp_daily_budget = 25000000000,
     kp_hot_budget = 10000000000, kp_warm_budget = 10000000000, kp_cold_budget = 5000000000,
     kp_sampling_enabled = True, kp_low_percent = 25, kp_high_percent = 100,
     kp_drop_low_value = True, kp_schema_rules = default_schema_rules,
     kp_source_budgets = JObj [], kp_integration_budgets = JObj [], kp_team_budgets = JObj [],
     kp_updated = now \<rparr>"

definition get_cost_policy :: "string \<Rightarrow> cost_policy dbop" where
  "get_cost_policy t = select (\<lambda>d.
     option_or (default_cost t (db_now d)) (first_row (\<lambda>p. kp_tenant p = t) (db_cost d)))"

definition upsert_cost_policy :: "cost_policy \<Rightarrow> cost_policy dbop" where
  "upsert_cost_policy p = stmt (\<lambda>d.
     let row = p \<lparr> kp_updated := pg_time (db_now d) \<rparr> in
     (Inr row, d \<lparr> db_cost := (if kp_tenant p \<in> set (map kp_tenant (db_cost d))
        then map (\<lambda>q. if kp_tenant q = kp_tenant p then row else q) (db_cost d)
        else db_cost d @ [row]) \<rparr>))"

section \<open>Reliability reports\<close>

record report_create =
  rp_tenant :: string
  rp_type :: string
  rp_drill :: string
  rp_status :: string
  rp_started :: instant
  rp_completed :: instant
  rp_summary :: json

text \<open>\<open>num\_milliseconds\<close> of a duration rounds towards zero.\<close>

definition millis_of :: "int \<Rightarrow> int" where
  "millis_of ns = (if 0 \<le> ns then ns div 1000000 else - ((- ns) div 1000000))"

definition insert_reliability_report :: "report_create \<Rightarrow> reliability_report dbop" where
  "insert_reliability_report p = stmt (\<lambda>d.
     let r = \<lparr> rr_id = db_next d, rr_tenant = rp_tenant p, rr_type = rp_type p,
               rr_drill = rp_drill p, rr_status = rp_status p,
               rr_started = pg_time (rp_started p), rr_completed = pg_time (rp_completed p),
               rr_duration_ms = millis_of (rp_completed p - rp_started p),
               rr_summary = rp_summary p, rr_created = pg_time (db_now d) \<rparr>
     in (Inr r, d \<lparr> db_reports := db_reports d @ [r], db_next := db_next d + 1 \<rparr>))"

definition list_reliability_reports :: "string \<Rightarrow> int \<Rightarrow> reliability_report list dbop" where
  "list_reliability_reports t limit = select (\<lambda>d. take (nat (max limit 1))
     (sort_key (\<lambda>r. - rr_created r)
        (filter (\<lambda>r. rr_tenant r = t \<or> rr_tenant r = []) (db_reports d))))"

section \<open>Facts\<close>

lemma insert_newest_set [simp]: "set (insert_newest e es) = insert e (set es)"
  by (induction es) auto

lemma newest_first_set [simp]: "set (newest_first es) = set es"
  unfolding newest_first_def by (induction es) auto

lemma newest_first_snoc_max:
  assumes "\<And>x. x \<in> set es \<Longrightarrow> audit_newer e x"
  shows "\<exists>rest. newest_first (es @ [e]) = e # rest"
proof -
  have "\<exists>rest. foldr insert_newest es [e] = e # rest"
    using assms
  proof (induction es)
    case (Cons x es)
    then obtain rest where "foldr insert_newest es [e] = e # rest" by auto
    moreover have "audit_newer e x" using Cons.prems by simp
    ultimately show ?case by simp
  qed simp
  then show ?thesis by (simp add: newest_first_def)
qed

lemma get_compliance_after_upsert:
  assumes "\<not> db_fault d (db_calls d)" "\<not> db_fault d (db_calls d + 1)"
  shows "bind_ok (upsert_compliance_policy p) (\<lambda>_. get_compliance_policy (cp_tenant p)) d
     = (Inr (p \<lparr> cp_hold_until := map_option pg_time (cp_hold_until p),
                cp_last_rotation := map_option pg_time (cp_last_rotation p),
                cp_updated := pg_time (db_now d) \<rparr>),
        snd (bind_ok (upsert_compliance_policy p) (\<lambda>_. get_compliance_policy (cp_tenant p)) d))"
proof -
  have map_find: "List.find (\<lambda>q. cp_tenant q = t) (map (\<lambda>q. if cp_tenant q = t then row else q) xs) = Some row"
    if "t \<in> cp_tenant ` set xs" "cp_tenant row = t" for xs t and row :: compliance_policy
    using that by (induction xs) auto
  have app_find: "List.find (\<lambda>q. cp_tenant q = t) (xs @ [row]) = Some row"
    if "t \<notin> cp_tenant ` set xs" "cp_tenant row = t" for xs t and row :: compliance_policy
    using that by (induction xs) auto
  show ?thesis using assms
    by (auto simp: bind_ok_def upsert_compliance_policy_def get_compliance_policy_def stmt_def select_def
        Let_def first_row_def map_find app_find option_or_def)
qed

end
