(* ===== verification/Case_Store.thy ===== *)
theory Case_Store
  imports Database
begin

text \<open>Case management in the database (\<open>db/postgres.rs\<close>, \<open>db/models/case.rs\<close>): playbooks, cases,
their links to alerts, the timeline, the life cycle of a case and its escalation.\<close>

section \<open>Status\<close>

datatype case_status = C_New | C_Investigating | C_Awaiting_Customer | C_Mitigated | C_Resolved
  | C_False_Positive | C_Escalated | C_Closed

fun show_case_status :: "case_status \<Rightarrow> string" where
  "show_case_status C_New = ''NEW''"
| "show_case_status C_Investigating = ''INVESTIGATING''"
| "show_case_status C_Awaiting_Customer = ''AWAITINGCUSTOMER''"
| "show_case_status C_Mitigated = ''MITIGATED''"
| "show_case_status C_Resolved = ''RESOLVED''"
| "show_case_status C_False_Positive = ''FALSEPOSITIVE''"
| "show_case_status C_Escalated = ''ESCALATED''"
| "show_case_status C_Closed = ''CLOSED''"

definition parse_case_status :: "string \<Rightarrow> case_status option" where
  "parse_case_status s = (let u = to_uppercase s in
     if u = ''NEW'' then Some C_New
     else if u = ''INVESTIGATING'' then Some C_Investigating
     else if u = ''AWAITINGCUSTOMER'' then Some C_Awaiting_Customer
     else if u = ''MITIGATED'' then Some C_Mitigated
     else if u = ''RESOLVED'' then Some C_Resolved
     else if u = ''FALSEPOSITIVE'' then Some C_False_Positive
     else if u = ''ESCALATED'' then Some C_Escalated
     else if u = ''CLOSED'' then Some C_Closed
     else None)"

lemma parse_show_case_status [simp]: "parse_case_status (show_case_status s) = Some s"
  by (cases s) (simp_all add: parse_case_status_def char_upper_def)

section \<open>Playbooks\<close>

definition step_json :: "string \<Rightarrow> string \<Rightarrow> string \<Rightarrow> bool \<Rightarrow> string \<Rightarrow> json" where
  "step_json title action descr automated details = JObj
     [(''action_type'', JStr action), (''automated'', JBool automated),
      (''description'', JStr descr), (''details'', JStr details), (''title'', JStr title)]"

definition default_steps :: json where
  "default_steps = JArr
     [step_json ''Confirm owner'' ''assign''
        ''Assign the case to the on-call responder or analyst'' False
        ''Review the alert, then set ownership'',
      step_json ''Contain source'' ''containment''
        ''Block or isolate the suspicious source until verified'' False
        ''Use firewall, EDR, or account controls'',
      step_json ''Capture evidence'' ''collect''
        ''Attach logs, screenshots, and notes to the timeline'' True
        ''Use the case timeline for evidence preservation'']"

definition ensure_default_playbooks :: "string \<Rightarrow> unit dbop" where
  "ensure_default_playbooks t =
     bind_ok (select (\<lambda>d. length (filter (\<lambda>p. pb_tenant p = t) (db_playbooks d)))) (\<lambda>n.
       if 0 < n then ok ()
       else execute (\<lambda>d. d \<lparr> db_playbooks := db_playbooks d @
          [\<lparr> pb_id = db_next d, pb_tenant = t, pb_name = ''Default incident response'',
             pb_description = ''Triaged case path that links alert, ownership, escalation, and postmortem evidence.'',
             pb_severity = ''HIGH'', pb_sla_minutes = 60, pb_escalate_minutes = 120,
             pb_steps = default_steps, pb_enabled = True, pb_created = pg_time (db_now d),
             pb_updated = pg_time (db_now d) \<rparr>],
          db_next := db_next d + 1 \<rparr>))"

text \<open>Enabled playbooks first, then by age.\<close>

definition playbook_order :: "playbook list \<Rightarrow> playbook list" where
  "playbook_order ps = (let s = sort_key pb_created ps in
     filter pb_enabled s @ filter (\<lambda>p. \<not> pb_enabled p) s)"

definition list_case_playbooks :: "string \<Rightarrow> playbook list dbop" where
  "list_case_playbooks t = bind_ok (ensure_default_playbooks t) (\<lambda>_.
     select (\<lambda>d. playbook_order (filter (\<lambda>p. pb_tenant p = t) (db_playbooks d))))"

definition get_case_playbook :: "string \<Rightarrow> nat \<Rightarrow> playbook option dbop" where
  "get_case_playbook t i = select (\<lambda>d. first_row (\<lambda>p. pb_tenant p = t \<and> pb_id p = i) (db_playbooks d))"

section \<open>Cases\<close>

definition list_cases :: "string \<Rightarrow> case_record list dbop" where
  "list_cases t = select (\<lambda>d. sort_key (\<lambda>c. - ca_created c) (filter (\<lambda>c. ca_tenant c = t) (db_cases d)))"

definition get_case_by_id :: "string \<Rightarrow> nat \<Rightarrow> case_record option dbop" where
  "get_case_by_id t i = select (\<lambda>d. first_row (\<lambda>c. ca_tenant c = t \<and> ca_id c = i) (db_cases d))"

definition linked :: "db \<Rightarrow> case_record \<Rightarrow> nat \<Rightarrow> bool" where
  "linked d c a \<longleftrightarrow> (\<exists>l \<in> set (db_links d). li_case l = ca_id c \<and> li_tenant l = ca_tenant c \<and> li_alert l = a)"

definition cases_of_alert :: "string \<Rightarrow> nat \<Rightarrow> db \<Rightarrow> case_record list" where
  "cases_of_alert t a d = sort_key ca_created
     (filter (\<lambda>c. ca_tenant c = t \<and> (ca_alert_id c = a \<or> linked d c a)) (db_cases d))"

definition get_case_by_alert_id :: "string \<Rightarrow> nat \<Rightarrow> case_record option dbop" where
  "get_case_by_alert_id t a = select (\<lambda>d. case cases_of_alert t a d of [] \<Rightarrow> None | c # _ \<Rightarrow> Some c)"

definition list_case_alert_ids :: "string \<Rightarrow> nat \<Rightarrow> nat list dbop" where
  "list_case_alert_ids t i = select (\<lambda>d. map li_alert (sort_key li_created
     (filter (\<lambda>l. li_tenant l = t \<and> li_case l = i) (db_links d))))"

definition list_case_timeline :: "string \<Rightarrow> nat \<Rightarrow> timeline_event list dbop" where
  "list_case_timeline t i = select (\<lambda>d. sort_key te_created
     (filter (\<lambda>e. te_tenant e = t \<and> te_case e = i) (db_timeline d)))"

text \<open>The foreign key makes an event of an unknown case fail.\<close>

definition record_case_event ::
  "string \<Rightarrow> nat \<Rightarrow> string \<Rightarrow> string \<Rightarrow> string option \<Rightarrow> string option \<Rightarrow> json \<Rightarrow> unit dbop" where
  "record_case_event t i ty msg uid email meta = stmt (\<lambda>d.
     if i \<notin> set (map ca_id (db_cases d)) then (Inl Db_Error, d)
     else (Inr (), d \<lparr> db_timeline := db_timeline d @
        [\<lparr> te_id = db_next d, te_case = i, te_tenant = t, te_type = ty, te_message = msg,
           te_actor_id = uid, te_actor_email = email, te_metadata = meta,
           te_created = pg_time (db_now d) \<rparr>], db_next := db_next d + 1 \<rparr>))"

definition insert_case :: "case_record \<Rightarrow> case_record dbop" where
  "insert_case c = stmt (\<lambda>d.
     if ca_id c \<in> set (map ca_id (db_cases d))
        \<or> (\<exists>x \<in> set (db_cases d). ca_tenant x = ca_tenant c \<and> ca_alert_id x = ca_alert_id c)
        \<or> (\<exists>p. ca_playbook_id c = Some p \<and> p \<notin> set (map pb_id (db_playbooks d)))
     then (Inl Db_Error, d)
     else (Inr c, d \<lparr> db_cases := db_cases d @ [c] \<rparr>))"

definition insert_link :: "nat \<Rightarrow> nat \<Rightarrow> string \<Rightarrow> unit dbop" where
  "insert_link i a t = stmt (\<lambda>d.
     if \<exists>l \<in> set (db_links d). li_case l = i \<and> li_alert l = a then (Inr (), d)
     else if (\<exists>l \<in> set (db_links d). li_tenant l = t \<and> li_alert l = a)
        \<or> i \<notin> set (map ca_id (db_cases d)) then (Inl Db_Error, d)
     else (Inr (), d \<lparr> db_links := db_links d @
        [\<lparr> li_case = i, li_alert = a, li_tenant = t, li_created = pg_time (db_now d) \<rparr>] \<rparr>))"

definition minutes :: "int \<Rightarrow> int" where "minutes n = n * 60000000000"

text \<open>UUIDs in JSON metadata are shown by a parameter.\<close>

definition new_case ::
  "alert \<Rightarrow> string option \<Rightarrow> string option \<Rightarrow> string option \<Rightarrow> string option \<Rightarrow> playbook option
   \<Rightarrow> nat \<Rightarrow> instant \<Rightarrow> case_record" where
  "new_case a uid email title summ pb cid now =
     (case (case pb of Some p \<Rightarrow> (pb_sla_minutes p, pb_escalate_minutes p, Some (pb_id p))
                    | None \<Rightarrow> (60, 120, None)) of (sla, esc, pid) \<Rightarrow>
       \<lparr> ca_id = cid, ca_tenant = a_tenant a, ca_alert_id = a_id a,
         ca_title = option_or (a_rule_name a @ '' on '' @ a_source_ip a) title,
         ca_summary = option_or (a_description a) summ,
         ca_severity = show_alert_severity (a_severity a), ca_status = show_case_status C_New,
         ca_owner_id = uid, ca_owner_email = email, ca_playbook_id = pid,
         ca_sla_due = Some (pg_time (now + minutes (max sla 1))),
         ca_escalation = Some (pg_time (now + minutes (max esc 1))),
         ca_escalated = None, ca_resolved = None, ca_outcome = None, ca_postmortem = None,
         ca_created = pg_time now, ca_updated = pg_time now \<rparr>)"

definition opt_json :: "('a \<Rightarrow> json) \<Rightarrow> 'a option \<Rightarrow> json" where
  "opt_json f x = (case x of None \<Rightarrow> JNull | Some y \<Rightarrow> f y)"

text \<open>The timeline of a new case; the errors of these writes are dropped.\<close>

definition announce_case ::
  "(nat \<Rightarrow> string) \<Rightarrow> alert \<Rightarrow> string option \<Rightarrow> string option \<Rightarrow> playbook option \<Rightarrow> nat \<Rightarrow> case_record
   \<Rightarrow> db \<Rightarrow> db" where
  "announce_case sh a uid email pb cid c d =
     (let d1 = ignore (record_case_event (a_tenant a) cid ''case.created''
            ''Case created from incoming alert'' uid email
            (JObj [(''alert_id'', JStr (sh (a_id a))),
                   (''playbook_id'', opt_json (\<lambda>i. JStr (sh i)) (ca_playbook_id c)),
                   (''severity'', JStr (show_alert_severity (a_severity a)))])) d;
          d2 = ignore (record_case_event (a_tenant a) cid ''alert.linked''
            ''Primary alert linked to case'' None None
            (JObj [(''alert_id'', JStr (sh (a_id a))), (''rule_id'', JStr (a_rule_id a)),
                   (''source_ip'', JStr (a_source_ip a))])) d1
      in (case pb of None \<Rightarrow> d2
          | Some p \<Rightarrow> ignore (record_case_event (a_tenant a) cid ''playbook.assigned''
              (''Playbook '' @ [CHR 39] @ pb_name p @ [CHR 39] @ '' assigned to case'') None None
              (JObj [(''playbook_id'', JStr (sh (pb_id p))),
                     (''playbook_name'', JStr (pb_name p)), (''steps'', pb_steps p)])) d2))"

definition choose_playbook :: "string \<Rightarrow> nat option \<Rightarrow> playbook option dbop" where
  "choose_playbook t pid = (case pid of
       Some i \<Rightarrow> get_case_playbook t i
     | None \<Rightarrow> bind_ok (list_case_playbooks t) (\<lambda>ps. ok (List.find pb_enabled ps)))"

definition open_case ::
  "(nat \<Rightarrow> string) \<Rightarrow> alert \<Rightarrow> string option \<Rightarrow> string option \<Rightarrow> string option \<Rightarrow> string option
   \<Rightarrow> playbook option \<Rightarrow> case_record dbop" where
  "open_case sh a uid email title summ pb =
     bind_ok fresh_uuid (\<lambda>cid.
     bind_ok (\<lambda>d. insert_case (new_case a uid email title summ pb cid (db_now d)) d) (\<lambda>c.
     bind_ok (insert_link cid (a_id a) (a_tenant a)) (\<lambda>_ d.
       (Inr c, announce_case sh a uid email pb cid c d))))"

definition create_case_from_alert ::
  "(nat \<Rightarrow> string) \<Rightarrow> alert \<Rightarrow> string option \<Rightarrow> string option \<Rightarrow> string option \<Rightarrow> string option
   \<Rightarrow> nat option \<Rightarrow> case_record dbop" where
  "create_case_from_alert sh a uid email title summ pid =
     bind_ok (get_case_by_alert_id (a_tenant a) (a_id a)) (\<lambda>ex. case ex of
       Some c \<Rightarrow> ok c
     | None \<Rightarrow>
         bind_ok (ensure_default_playbooks (a_tenant a)) (\<lambda>_.
         bind_ok (choose_playbook (a_tenant a) pid) (\<lambda>pb.
         open_case sh a uid email title summ pb)))"

section \<open>Updating a case\<close>

definition is_final_status :: "case_status \<Rightarrow> bool" where
  "is_final_status s \<longleftrightarrow> s = C_Resolved \<or> s = C_False_Positive \<or> s = C_Closed \<or> s = C_Mitigated"

record case_changes =
  cc_status :: "case_status option"
  cc_owner_id :: "string option option"
  cc_owner_email :: "string option option"
  cc_outcome :: "string option option"
  cc_postmortem :: "string option option"

definition no_changes :: case_changes where
  "no_changes = \<lparr> cc_status = None, cc_owner_id = None, cc_owner_email = None, cc_outcome = None,
     cc_postmortem = None \<rparr>"

definition merged_case :: "case_changes \<Rightarrow> instant \<Rightarrow> case_record \<Rightarrow> case_record" where
  "merged_case ch now c =
     (let st = (case cc_status ch of Some s \<Rightarrow> s | None \<Rightarrow> option_or C_New (parse_case_status (ca_status c)))
      in c \<lparr> ca_status := show_case_status st,
             ca_owner_id := option_or (ca_owner_id c) (cc_owner_id ch),
             ca_owner_email := option_or (ca_owner_email c) (cc_owner_email ch),
             ca_outcome := option_or (ca_outcome c) (cc_outcome ch),
             ca_postmortem := option_or (ca_postmortem c) (cc_postmortem ch),
             ca_escalated := (if st = C_Escalated \<and> ca_escalated c = None then Some (pg_time now)
                              else ca_escalated c),
             ca_resolved := (if is_final_status st \<and> ca_resolved c = None then Some (pg_time now)
                             else ca_resolved c) \<rparr>)"

text \<open>The update statement writes the merged columns into the row as it is at that moment.\<close>

definition write_case :: "string \<Rightarrow> nat \<Rightarrow> case_record \<Rightarrow> case_record dbop" where
  "write_case t i m = stmt (\<lambda>d.
     case first_row (\<lambda>c. ca_tenant c = t \<and> ca_id c = i) (db_cases d) of
       None \<Rightarrow> (Inl Db_Error, d)
     | Some cur \<Rightarrow>
         (let w = (\<lambda>c. c \<lparr> ca_status := ca_status m, ca_owner_id := ca_owner_id m,
                 ca_owner_email := ca_owner_email m, ca_outcome := ca_outcome m,
                 ca_postmortem := ca_postmortem m, ca_escalated := ca_escalated m,
                 ca_resolved := ca_resolved m, ca_updated := pg_time (db_now d) \<rparr>)
          in (Inr (w cur), d \<lparr> db_cases :=
                map (\<lambda>c. if ca_tenant c = t \<and> ca_id c = i then w c else c) (db_cases d) \<rparr>)))"

definition update_case :: "string \<Rightarrow> nat \<Rightarrow> case_changes \<Rightarrow> case_record dbop" where
  "update_case t i ch =
     bind_ok (get_case_by_id t i) (\<lambda>ex. case ex of
       None \<Rightarrow> fail Invalid_Input
     | Some c \<Rightarrow>
         bind_ok (\<lambda>d. write_case t i (merged_case ch (db_now d) c) d) (\<lambda>r d.
           let d1 = (if ca_status c \<noteq> ca_status r then
                 ignore (record_case_event t i ''case.status_changed''
                   (''Case status changed from '' @ ca_status c @ '' to '' @ ca_status r)
                   (ca_owner_id r) (ca_owner_email r)
                   (JObj [(''from'', JStr (ca_status c)), (''to'', JStr (ca_status r))])) d
               else d);
               d2 = (if ca_owner_id c \<noteq> ca_owner_id r \<or> ca_owner_email c \<noteq> ca_owner_email r then
                 ignore (record_case_event t i ''case.owner_changed'' ''Case ownership updated''
                   (ca_owner_id r) (ca_owner_email r)
                   (JObj [(''owner_email'', opt_json JStr (ca_owner_email r)),
                          (''owner_user_id'', opt_json JStr (ca_owner_id r))])) d1
               else d1)
           in (Inr r, d2)))"

section \<open>Escalation\<close>

definition is_overdue :: "instant \<Rightarrow> case_record \<Rightarrow> bool" where
  "is_overdue now c \<longleftrightarrow> ca_status c \<in> {''NEW'', ''INVESTIGATING'', ''AWAITINGCUSTOMER''}
     \<and> (case ca_escalation c of None \<Rightarrow> False | Some t \<Rightarrow> t \<le> now) \<and> ca_status c \<noteq> ''ESCALATED''"

definition overdue_cases :: "db \<Rightarrow> case_record list" where
  "overdue_cases d = sort_key (\<lambda>c. option_or 0 (ca_escalation c))
     (filter (is_overdue (pg_time (db_now d))) (db_cases d))"

definition escalate_one :: "case_record \<Rightarrow> nat \<Rightarrow> nat dbop" where
  "escalate_one c n = bind_ok (update_case (ca_tenant c) (ca_id c)
      (no_changes \<lparr> cc_status := Some C_Escalated \<rparr>)) (\<lambda>r.
      ok (if ca_status r = ''ESCALATED'' then n + 1 else n))"

fun escalate_all :: "case_record list \<Rightarrow> nat \<Rightarrow> nat dbop" where
  "escalate_all [] n = ok n"
| "escalate_all (c # cs) n = bind_ok (escalate_one c n) (escalate_all cs)"

definition escalate_overdue_cases :: "nat dbop" where
  "escalate_overdue_cases = bind_ok (select overdue_cases) (\<lambda>cs. escalate_all cs 0)"

section \<open>Case detail\<close>

record case_detail =
  cd_case :: case_record
  cd_alerts :: "nat list"
  cd_timeline :: "timeline_event list"
  cd_playbook :: "playbook option"

definition get_case_detail :: "string \<Rightarrow> nat \<Rightarrow> case_detail option dbop" where
  "get_case_detail t i =
     bind_ok (get_case_by_id t i) (\<lambda>c. case c of None \<Rightarrow> ok None
     | Some c \<Rightarrow>
         bind_ok (list_case_alert_ids t i) (\<lambda>as.
         bind_ok (list_case_timeline t i) (\<lambda>tml.
         bind_ok (case ca_playbook_id c of None \<Rightarrow> ok None | Some p \<Rightarrow> get_case_playbook t p) (\<lambda>pb.
         ok (Some \<lparr> cd_case = c, cd_alerts = as, cd_timeline = tml, cd_playbook = pb \<rparr>)))))"

end
