(* ===== verification/Config.thy ===== *)
theory Config
  imports Types
begin

text \<open>The configuration (\<open>config/mod.rs\<close>): every setting is read from an environment variable, with
a default when it is absent or does not parse.  The environment is a map from names to values;
\<open>cfg!(debug_assertions)\<close> and the number of processors are parameters.  \<open>usize\<close> is 64 bits.\<close>

type_synonym env_vars = "string \<Rightarrow> string option"

record config =
  cf_database_url :: string
  cf_redis_url :: string
  cf_kafka_brokers :: string
  cf_slack_webhook :: "string option"
  cf_api_bind :: string
  cf_metrics_bind :: string
  cf_cors_origins :: "string list"
  cf_detection_workers :: nat
  cf_mailbox_size :: nat
  cf_partition_key :: string
  cf_lag_interval :: nat
  cf_lag_timeout :: nat
  cf_pause_on_full :: bool
  cf_pause_timeout :: nat
  cf_rate_per_ip :: nat
  cf_rate_window :: nat
  cf_rate_sample :: nat
  cf_api_requests :: nat
  cf_ingest_events :: nat
  cf_rule_mutations :: nat
  cf_ws_connections :: nat
  cf_audit_queries :: nat
  cf_es_host :: string
  cf_es_index :: string
  cf_max_labels :: nat
  cf_otel_name :: string
  cf_signing_key :: string

record tenant_limits =
  tl_api_requests :: nat
  tl_ingest_events :: nat
  tl_rule_mutations :: nat
  tl_ws_connections :: nat
  tl_audit_queries :: nat

definition parse_csv_list :: "string \<Rightarrow> string list" where
  "parse_csv_list raw = filter (\<lambda>v. v \<noteq> []) (map trim (split_on (CHR '','') raw))"

definition env_or :: "env_vars \<Rightarrow> string \<Rightarrow> string \<Rightarrow> string" where
  "env_or env k d = option_or d (env k)"

definition env_uint :: "env_vars \<Rightarrow> nat \<Rightarrow> string \<Rightarrow> nat \<Rightarrow> nat" where
  "env_uint env w k d = option_or d (Option.bind (env k) (parse_uint w))"

definition pause_flag :: "env_vars \<Rightarrow> bool" where
  "pause_flag env = (case env ''KAFKA_PAUSE_ON_FULL'' of
      None \<Rightarrow> True | Some v \<Rightarrow> v = ''1'' \<or> to_lowercase v = ''true'')"

text \<open>The checks that can refuse to start, in the order of the code.\<close>

definition from_env :: "bool \<Rightarrow> nat \<Rightarrow> env_vars \<Rightarrow> error + config" where
  "from_env debug cpus env =
     (case env ''DATABASE_URL'' of None \<Rightarrow> Inl Invalid_Input | Some db \<Rightarrow>
     (case env ''REDIS_URL'' of None \<Rightarrow> Inl Invalid_Input | Some rd \<Rightarrow>
     (case (case env ''CORS_ALLOWED_ORIGINS'' of Some raw \<Rightarrow> Some (parse_csv_list raw)
            | None \<Rightarrow> if debug then Some (parse_csv_list ''http://localhost:3000,http://127.0.0.1:3000'')
                      else None) of None \<Rightarrow> Inl Invalid_Input | Some cors \<Rightarrow>
     (case (case env ''AUDIT_SIGNING_KEY'' of Some k \<Rightarrow> Some k
            | None \<Rightarrow> if debug then Some ''dev-audit-signing-key'' else None) of
        None \<Rightarrow> Inl Invalid_Input | Some key \<Rightarrow>
     Inr \<lparr> cf_database_url = db, cf_redis_url = rd,
       cf_kafka_brokers = env_or env ''KAFKA_BROKERS'' ''localhost:9092'',
       cf_slack_webhook = env ''SLACK_WEBHOOK'',
       cf_api_bind = env_or env ''API_BIND'' ''127.0.0.1:8080'',
       cf_metrics_bind = env_or env ''METRICS_BIND'' ''127.0.0.1:9898'',
       cf_cors_origins = cors,
       cf_detection_workers = env_uint env 64 ''DETECTION_WORKERS'' cpus,
       cf_mailbox_size = env_uint env 64 ''DETECTION_MAILBOX_SIZE'' 2048,
       cf_partition_key = env_or env ''DETECTION_PARTITION_KEY'' ''tenant_source_ip'',
       cf_lag_interval = env_uint env 64 ''KAFKA_LAG_SAMPLE_INTERVAL_SECS'' 5,
       cf_lag_timeout = env_uint env 64 ''KAFKA_LAG_WATERMARK_TIMEOUT_MS'' 500,
       cf_pause_on_full = pause_flag env,
       cf_pause_timeout = env_uint env 64 ''KAFKA_PAUSE_TIMEOUT_MS'' 5000,
       cf_rate_per_ip = env_uint env 64 ''RATE_LIMIT_PER_IP'' 100,
       cf_rate_window = env_uint env 64 ''RATE_LIMIT_WINDOW_MS'' 1000,
       cf_rate_sample = env_uint env 32 ''RATE_LIMIT_SAMPLE_RATE'' 10,
       cf_api_requests = env_uint env 64 ''TENANT_API_REQUESTS_PER_MINUTE'' 300,
       cf_ingest_events = env_uint env 64 ''TENANT_INGEST_EVENTS_PER_MINUTE'' 10000,
       cf_rule_mutations = env_uint env 64 ''TENANT_RULE_MUTATIONS_PER_MINUTE'' 60,
       cf_ws_connections = env_uint env 64 ''TENANT_WS_CONNECTIONS_PER_MINUTE'' 30,
       cf_audit_queries = env_uint env 64 ''TENANT_AUDIT_QUERIES_PER_MINUTE'' 30,
       cf_es_host = env_or env ''ELASTICSEARCH_HOST'' ''http://127.0.0.1:9200'',
       cf_es_index = env_or env ''ELASTICSEARCH_INDEX'' ''mini-siem-logs'',
       cf_max_labels = env_uint env 64 ''METRICS_MAX_TENANT_LABELS'' 128,
       cf_otel_name = env_or env ''OTEL_SERVICE_NAME'' ''mini-siem-backend'',
       cf_signing_key = key \<rparr>))))"

definition tenant_limits_of :: "config \<Rightarrow> tenant_limits" where
  "tenant_limits_of c = \<lparr> tl_api_requests = cf_api_requests c,
     tl_ingest_events = cf_ingest_events c, tl_rule_mutations = cf_rule_mutations c,
     tl_ws_connections = cf_ws_connections c, tl_audit_queries = cf_audit_queries c \<rparr>"

section \<open>Facts\<close>

lemma env_uint_default: "env k = None \<Longrightarrow> env_uint env w k d = d"
  by (simp add: env_uint_def option_or_def)

lemma env_uint_set: "env k = Some (show_nat n) \<Longrightarrow> n < 2 ^ w \<Longrightarrow> env_uint env w k d = n"
  by (simp add: env_uint_def option_or_def parse_uint_show)

lemma env_uint_bad: "env k = Some v \<Longrightarrow> parse_uint w v = None \<Longrightarrow> env_uint env w k d = d"
  by (simp add: env_uint_def option_or_def)

lemma parse_csv_nonempty: "v \<in> set (parse_csv_list raw) \<Longrightarrow> v \<noteq> []"
  by (auto simp: parse_csv_list_def)

text \<open>In a release build no default stands in for the signing key or the allowed origins.\<close>

lemma release_needs_secrets:
  "from_env False cpus env = Inr c \<Longrightarrow>
     env ''AUDIT_SIGNING_KEY'' = Some (cf_signing_key c)
     \<and> (\<exists>raw. env ''CORS_ALLOWED_ORIGINS'' = Some raw \<and> cf_cors_origins c = parse_csv_list raw)
     \<and> env ''DATABASE_URL'' = Some (cf_database_url c) \<and> env ''REDIS_URL'' = Some (cf_redis_url c)"
  by (auto simp: from_env_def split: option.splits)

end
