(* ===== verification/App.thy ===== *)
theory App
  imports Redis_Cache Policies Case_Store Config
begin

text \<open>What the request handlers share (\<open>api/server.rs\<close>, \<open>api/tenant.rs\<close>, \<open>auth/jwt.rs\<close>,
\<open>utils/audit.rs\<close>): the application state, the claims of a request, the tenant quotas, and the
audit trail.  A handler runs over the cache and the database; its result is an error status, or
a success status with a body.  The texts of error bodies are not modelled.\<close>

section \<open>State and environment\<close>

record 's app =
  ap_cache :: "'s rcache"
  ap_db :: db

text \<open>The server behind the cache, the configuration, and the libraries the handlers call: the text
of a UUID and of an instant, SHA-256 in hexadecimal, HMAC-SHA-256 in base 64 (\<open>None\<close> when the key is refused),
the bytes of a JSON value.\<close>

record 's env =
  ev_rd :: "'s redis"
  ev_limits :: tenant_limits
  ev_signing_key :: string
  ev_uuid :: "nat \<Rightarrow> string"
  ev_time :: "instant \<Rightarrow> string"
  ev_sha256 :: "string \<Rightarrow> string"
  ev_hmac :: "string \<Rightarrow> string \<Rightarrow> string option"
  ev_json :: "json \<Rightarrow> string"

record claims =
  cl_sub :: string
  cl_tenant :: string
  cl_email :: string
  cl_roles :: "string list"
  cl_iss :: string
  cl_aud :: string
  cl_token_use :: "string option"
  cl_jti :: "string option"
  cl_exp :: nat
  cl_iat :: nat

type_synonym ('a, 's) step = "(error, 'a, 's app) eff"
type_synonym ('a, 's) http = "(nat, 'a, 's app) eff"
type_synonym ('a, 's) handler = "(nat, nat \<times> 'a, 's app) eff"

abbreviation app_now :: "'s app \<Rightarrow> instant" where
  "app_now s \<equiv> db_now (ap_db s)"

definition via_db :: "'a dbop \<Rightarrow> ('a, 's) step" where
  [effect_simps]: "via_db m s = (case m (ap_db s) of (r, d) \<Rightarrow> (r, s \<lparr> ap_db := d \<rparr>))"

definition via_cache :: "('a, 's rcache) cmd \<Rightarrow> ('a, 's) step" where
  [effect_simps]: "via_cache m s = (case m (ap_cache s) of (r, c) \<Rightarrow> (r, s \<lparr> ap_cache := c \<rparr>))"

text \<open>\<open>map_err\<close> to a response with a status code, and the replies.\<close>

definition or_status :: "nat \<Rightarrow> ('a, 's) step \<Rightarrow> ('a, 's) http" where
  [effect_simps]: "or_status code m s = (case m s of
      (Inl _, s') \<Rightarrow> (Inl code, s') | (Inr x, s') \<Rightarrow> (Inr x, s'))"

definition reply :: "nat \<Rightarrow> 'a \<Rightarrow> ('a, 's) handler" where
  [effect_simps]: "reply code x = ok (code, x)"

definition with_claims :: "claims option \<Rightarrow> (claims \<Rightarrow> ('a, 's) http) \<Rightarrow> ('a, 's) http" where
  [effect_simps]: "with_claims c f = (case c of None \<Rightarrow> fail 401 | Some cl \<Rightarrow> f cl)"

definition require :: "nat \<Rightarrow> bool \<Rightarrow> (unit, 's) http" where
  [effect_simps]: "require code b = (if b then ok () else fail code)"

definition found :: "('a option, 's) http \<Rightarrow> ('a, 's) http" where
  [effect_simps]: "found m = bind_ok m (\<lambda>x. case x of None \<Rightarrow> fail 404 | Some y \<Rightarrow> ok y)"

definition has_role :: "string \<Rightarrow> claims \<Rightarrow> bool" where
  "has_role r cl \<longleftrightarrow> r \<in> set (cl_roles cl)"

definition is_admin :: "claims \<Rightarrow> bool" where
  "is_admin cl \<longleftrightarrow> has_role ''admin'' cl"

text \<open>\<open>require_case_roles\<close>, \<open>require_pack_roles\<close>, \<open>require_cost_roles\<close>, \<open>has_reliability_access\<close> and the
test of the alert handlers.\<close>

definition is_analyst :: "claims \<Rightarrow> bool" where
  "is_analyst cl \<longleftrightarrow> has_role ''analyst'' cl \<or> has_role ''admin'' cl"

section \<open>Tenant quotas\<close>

definition quota_key :: "string \<Rightarrow> string \<Rightarrow> string" where
  "quota_key t res = ''siem:tenant:'' @ t @ '':quota:'' @ res"

definition enforce_tenant_fixed_window ::
  "'s env \<Rightarrow> string \<Rightarrow> string \<Rightarrow> nat \<Rightarrow> nat \<Rightarrow> (unit, 's) http" where
  "enforce_tenant_fixed_window E t res limit cost =
     bind_ok (or_status 500
         (via_cache (allow_fixed_window (ev_rd E) (quota_key t res) 60 (as_u32 limit) (as_u32 cost))))
       (\<lambda>allowed. require 429 allowed)"

section \<open>Audit events\<close>

definition opt_str :: "string option \<Rightarrow> json" where
  "opt_str x = opt_json JStr x"

definition audit_payload ::
  "string \<Rightarrow> string \<Rightarrow> string \<Rightarrow> string list \<Rightarrow> string \<Rightarrow> string \<Rightarrow> string option \<Rightarrow> string option
   \<Rightarrow> string option \<Rightarrow> json \<Rightarrow> json" where
  "audit_payload t uid email roles act rty rid target reqid meta = JObj
     [(''action'', JStr act), (''actor_email'', JStr email),
      (''actor_roles'', JArr (map JStr roles)), (''actor_user_id'', JStr uid),
      (''metadata'', meta), (''request_id'', opt_str reqid), (''resource_id'', opt_str rid),
      (''resource_type'', JStr rty), (''target_tenant_id'', opt_str target), (''tenant_id'', JStr t)]"

definition hash_audit_payload :: "'s env \<Rightarrow> string option \<Rightarrow> json \<Rightarrow> string" where
  "hash_audit_payload E prev payload = ev_sha256 E (option_or [] prev @ ev_json E payload)"

definition sign_audit_hash :: "'s env \<Rightarrow> string \<Rightarrow> string \<Rightarrow> error + string" where
  "sign_audit_hash E key h = (case ev_hmac E key h of None \<Rightarrow> Inl Crypto_Error | Some sig \<Rightarrow> Inr sig)"

text \<open>The common body of \<open>record_case_audit\<close>, \<open>record_rule_audit\<close>, \<open>record_compliance_audit\<close> and
\<open>record_audit_view\<close>: look up the last hash of the tenant, hash and sign the payload on top of
it, insert the event.  The lookup and the insertion are separate statements: \<open>write_audit\<close> is what
follows the lookup.\<close>

definition write_audit ::
  "'s env \<Rightarrow> claims \<Rightarrow> string \<Rightarrow> string \<Rightarrow> string option \<Rightarrow> string option \<Rightarrow> json \<Rightarrow> string option
   \<Rightarrow> (unit, 's) http" where
  "write_audit E cl act rty rid target meta prev =
     (let payload = audit_payload (cl_tenant cl) (cl_sub cl) (cl_email cl) (cl_roles cl) act rty rid
            target (cl_jti cl) meta;
          h = hash_audit_payload E prev payload in
      bind_ok (or_status 500 (\<lambda>s. (sign_audit_hash E (ev_signing_key E) h, s))) (\<lambda>sig.
      bind_ok (or_status 500 (via_db fresh_uuid)) (\<lambda>i s.
        or_status 500 (via_db (insert_audit_event
          \<lparr> ae_id = i, ae_tenant = cl_tenant cl, ae_actor_user_id = cl_sub cl,
            ae_actor_email = cl_email cl, ae_actor_roles = cl_roles cl, ae_action = act,
            ae_resource_type = rty, ae_resource_id = rid, ae_target_tenant = target,
            ae_request_id = cl_jti cl, ae_metadata = payload, ae_previous_hash = prev,
            ae_event_hash = h, ae_signature = sig, ae_created = app_now s \<rparr>)) s)))"

definition record_audit ::
  "'s env \<Rightarrow> claims \<Rightarrow> string \<Rightarrow> string \<Rightarrow> string option \<Rightarrow> string option \<Rightarrow> json \<Rightarrow> (unit, 's) http" where
  "record_audit E cl act rty rid target meta =
     bind_ok (or_status 500 (via_db (latest_audit_hash (cl_tenant cl))))
       (write_audit E cl act rty rid target meta)"

definition record_case_audit ::
  "'s env \<Rightarrow> claims \<Rightarrow> string \<Rightarrow> string option \<Rightarrow> json \<Rightarrow> (unit, 's) http" where
  "record_case_audit E cl act rid meta = record_audit E cl act ''case'' rid None meta"

definition record_rule_audit ::
  "'s env \<Rightarrow> claims \<Rightarrow> string \<Rightarrow> string option \<Rightarrow> json \<Rightarrow> (unit, 's) http" where
  "record_rule_audit E cl act rid meta = record_audit E cl act ''rule'' rid None meta"

definition record_compliance_audit ::
  "'s env \<Rightarrow> claims \<Rightarrow> string \<Rightarrow> string option \<Rightarrow> json \<Rightarrow> (unit, 's) http" where
  "record_compliance_audit E cl act target meta = record_audit E cl act ''compliance'' None target meta"

definition record_cost_audit ::
  "'s env \<Rightarrow> claims \<Rightarrow> string \<Rightarrow> string option \<Rightarrow> json \<Rightarrow> (unit, 's) http" where
  "record_cost_audit E cl act rid meta = record_audit E cl act ''data_cost'' rid None meta"

definition json_int :: "int \<Rightarrow> json" where
  "json_int i = JNum (if 0 \<le> i then PosInt (nat i) else NegInt i)"

definition record_audit_view :: "'s env \<Rightarrow> claims \<Rightarrow> string \<Rightarrow> int \<Rightarrow> (unit, 's) http" where
  "record_audit_view E cl target limit =
     (let cross = (target \<noteq> cl_tenant cl) in
      record_audit E cl (if cross then ''audit.view_cross_tenant'' else ''audit.view'') ''audit''
        None (Some target)
        (JObj [(''cross_tenant'', JBool cross), (''limit'', json_int limit)]))"

text \<open>\<open>GET /admin/audit\<close>.\<close>

definition clamp_limit :: "int option \<Rightarrow> int" where
  "clamp_limit l = max 1 (min 500 (option_or 100 l))"

definition list_audit_handler ::
  "'s env \<Rightarrow> claims option \<Rightarrow> string option \<Rightarrow> int option \<Rightarrow> (audit_event list, 's) handler" where
  "list_audit_handler E cls tenant n = with_claims cls (\<lambda>cl.
     bind_ok (require 403 (is_admin cl)) (\<lambda>_.
     let target = option_or (cl_tenant cl) tenant; limit = clamp_limit n in
     bind_ok (enforce_tenant_fixed_window E (cl_tenant cl) ''audit_queries''
                (tl_audit_queries (ev_limits E)) 1) (\<lambda>_.
     bind_ok (or_status 500 (via_db (list_audit_events target limit))) (\<lambda>es.
     bind_ok (record_audit_view E cl target limit) (\<lambda>_.
     reply 200 es)))))"

end
