(* ===== verification/Audit_Chain.thy ===== *)
theory Audit_Chain
  imports App
begin

text \<open>The hash chain of the audit trail: every event of a tenant names the hash of the one before it,
carries the hash of its own payload on top of that, and is signed.\<close>

section \<open>The chain\<close>

definition audit_link :: "'s env \<Rightarrow> string option \<Rightarrow> audit_event \<Rightarrow> bool" where
  "audit_link E prev e \<longleftrightarrow> ae_previous_hash e = prev
     \<and> ae_event_hash e = hash_audit_payload E prev (ae_metadata e)
     \<and> ev_hmac E (ev_signing_key E) (ae_event_hash e) = Some (ae_signature e)"

fun audit_links :: "'s env \<Rightarrow> string option \<Rightarrow> audit_event list \<Rightarrow> bool" where
  "audit_links E prev [] = True"
| "audit_links E prev (e # es) = (audit_link E prev e \<and> audit_links E (Some (ae_event_hash e)) es)"

text \<open>The hash the next event has to name.\<close>

definition chain_end :: "string option \<Rightarrow> audit_event list \<Rightarrow> string option" where
  "chain_end prev es = (if es = [] then prev else Some (ae_event_hash (last es)))"

lemma chain_end_simps [simp]:
  "chain_end prev [] = prev" "chain_end prev (es @ [e]) = Some (ae_event_hash e)"
  by (simp_all add: chain_end_def)

lemma chain_end_Cons: "chain_end prev (e # es) = chain_end (Some (ae_event_hash e)) es"
  by (simp add: chain_end_def)

lemma audit_links_snoc:
  "audit_links E prev (es @ [e]) \<longleftrightarrow> audit_links E prev es \<and> audit_link E (chain_end prev es) e"
  by (induction es arbitrary: prev) (auto simp: chain_end_Cons)

text \<open>The trail of a tenant: chained, and in the order of the clock.\<close>

definition audit_chain :: "'s env \<Rightarrow> string \<Rightarrow> db \<Rightarrow> bool" where
  "audit_chain E t d \<longleftrightarrow> audit_links E None (audit_of t d)
     \<and> sorted_wrt (\<lambda>a b. ae_created a < ae_created b) (audit_of t d)"

lemma newest_first_sorted:
  assumes "sorted_wrt (\<lambda>a b. ae_created a < ae_created b) es"
  shows "(case newest_first es of [] \<Rightarrow> None | e # _ \<Rightarrow> Some (ae_event_hash e)) = chain_end None es"
proof (cases es rule: rev_cases)
  case Nil
  then show ?thesis by (simp add: newest_first_def)
next
  case (snoc xs e)
  then have "audit_newer e x" if "x \<in> set xs" for x
    using assms that by (simp add: sorted_wrt_append audit_newer_def)
  then obtain rest where "newest_first (xs @ [e]) = e # rest" using newest_first_snoc_max by blast
  then show ?thesis using snoc by simp
qed

lemma latest_of_chain:
  assumes "audit_chain E t d"
  shows "latest_audit_hash t d = (if db_fault d (db_calls d) then Inl Db_Error
      else Inr (chain_end None (audit_of t d)), d \<lparr> db_calls := db_calls d + 1 \<rparr>)"
  using newest_first_sorted assms by (simp add: latest_audit_hash_def select_cases audit_chain_def audit_of_def)

lemma audit_of_calls [simp]: "audit_of t (d \<lparr> db_calls := n \<rparr>) = audit_of t d"
  by (simp add: audit_of_def)

lemma audit_chain_calls [simp]: "audit_chain E t (d \<lparr> db_calls := n \<rparr>) = audit_chain E t d"
  by (simp add: audit_chain_def)

section \<open>Appending an event\<close>

text \<open>Writing an event leaves the trails as they are, or appends the event to the trail of its tenant.\<close>

definition audit_event_for :: "'s env \<Rightarrow> claims \<Rightarrow> string option \<Rightarrow> instant \<Rightarrow> audit_event \<Rightarrow> bool" where
  "audit_event_for E cl prev now e \<longleftrightarrow> ae_tenant e = cl_tenant cl \<and> audit_link E prev e
     \<and> ae_created e = pg_time now"

lemma write_audit_cases:
  obtains (kept) code where "fst (write_audit E cl act rty rid target meta prev s) = Inl code"
      "db_audit (ap_db (snd (write_audit E cl act rty rid target meta prev s))) = db_audit (ap_db s)"
  | (appended) e where "fst (write_audit E cl act rty rid target meta prev s) = Inr ()"
      "audit_event_for E cl prev (app_now s) e"
      "db_audit (ap_db (snd (write_audit E cl act rty rid target meta prev s))) = db_audit (ap_db s) @ [e]"
      "db_now (ap_db (snd (write_audit E cl act rty rid target meta prev s))) = app_now s"
proof -
  define payload where "payload = audit_payload (cl_tenant cl) (cl_sub cl) (cl_email cl) (cl_roles cl) act rty rid
      target (cl_jti cl) meta"
  define h where "h = hash_audit_payload E prev payload"
  note defs = write_audit_def Let_def payload_def[symmetric] h_def[symmetric] bind_ok_def or_status_def
    sign_audit_hash_def via_db_def fresh_uuid_def insert_audit_event_def stmt_def
  show thesis
  proof (cases "ev_hmac E (ev_signing_key E) h")
    case None
    then show ?thesis by (intro kept) (simp_all add: defs)
  next
    case (Some sig)
    define e where "e = \<lparr> ae_id = db_next (ap_db s), ae_tenant = cl_tenant cl, ae_actor_user_id = cl_sub cl,
            ae_actor_email = cl_email cl, ae_actor_roles = cl_roles cl, ae_action = act,
            ae_resource_type = rty, ae_resource_id = rid, ae_target_tenant = target,
            ae_request_id = cl_jti cl, ae_metadata = payload, ae_previous_hash = prev,
            ae_event_hash = h, ae_signature = sig, ae_created = app_now s \<rparr>"
    have ok: "audit_event_for E cl prev (app_now s) (e \<lparr> ae_created := pg_time (app_now s) \<rparr>)"
      using Some by (simp add: audit_event_for_def audit_link_def e_def h_def)
    show ?thesis
    proof (cases "db_fault (ap_db s) (db_calls (ap_db s)) \<or> db_next (ap_db s) \<in> ae_id ` set (db_audit (ap_db s))")
      case True
      then show ?thesis by (intro kept) (auto simp: defs Some)
    next
      case False
      then show ?thesis using ok
        by (intro appended[of "e \<lparr> ae_created := pg_time (app_now s) \<rparr>"]) (auto simp: defs Some e_def)
    qed
  qed
qed

lemma audit_of_append:
  "db_audit d' = db_audit d @ [e] \<Longrightarrow> audit_of t d' = (if ae_tenant e = t then audit_of t d @ [e] else audit_of t d)"
  by (simp add: audit_of_def)

lemma write_keeps_chain:
  assumes "audit_chain E t (ap_db s)" "prev = chain_end None (audit_of (cl_tenant cl) (ap_db s))"
    and "\<forall>e \<in> set (audit_of (cl_tenant cl) (ap_db s)). ae_created e < pg_time (app_now s)"
  shows "audit_chain E t (ap_db (snd (write_audit E cl act rty rid target meta prev s)))"
proof (cases rule: write_audit_cases[of E cl act rty rid target meta prev s])
  case kept
  then show ?thesis using assms(1) by (simp add: audit_chain_def audit_of_def)
next
  case (appended e)
  have e: "ae_tenant e = cl_tenant cl" "audit_link E (chain_end None (audit_of (cl_tenant cl) (ap_db s))) e"
    "ae_created e = pg_time (app_now s)"
    using appended(2) assms(2) by (simp_all add: audit_event_for_def)
  show ?thesis
    unfolding audit_chain_def audit_of_append[OF appended(3)]
    using assms(1,3) e by (auto simp: audit_chain_def audit_links_snoc sorted_wrt_append)
qed

lemma record_keeps_chain:
  assumes "audit_chain E t (ap_db s)" "audit_chain E (cl_tenant cl) (ap_db s)"
    and "\<forall>e \<in> set (audit_of (cl_tenant cl) (ap_db s)). ae_created e < pg_time (app_now s)"
  shows "audit_chain E t (ap_db (snd (record_audit E cl act rty rid target meta s)))"
proof -
  let ?s = "s \<lparr> ap_db := ap_db s \<lparr> db_calls := db_calls (ap_db s) + 1 \<rparr> \<rparr>"
  have chain: "audit_chain E t (ap_db ?s)" using assms(1) by simp
  show ?thesis
  proof (cases "db_fault (ap_db s) (db_calls (ap_db s))")
    case True
    then show ?thesis using chain
      by (simp add: record_audit_def bind_ok_def or_status_def via_db_def latest_of_chain[OF assms(2)])
  next
    case False
    then have "record_audit E cl act rty rid target meta s
        = write_audit E cl act rty rid target meta (chain_end None (audit_of (cl_tenant cl) (ap_db s))) ?s"
      by (simp add: record_audit_def bind_ok_def or_status_def via_db_def latest_of_chain[OF assms(2)])
    then show ?thesis
      using write_keeps_chain[OF chain, of _ cl act rty rid target meta] assms(3) by simp
  qed
qed

section \<open>One event after another\<close>

text \<open>What one request records, and how many nanoseconds pass before it.\<close>

type_synonym recording = "nat \<times> claims \<times> string \<times> string \<times> string option \<times> string option \<times> json"

definition wait_app :: "nat \<Rightarrow> 's app \<Rightarrow> 's app" where
  "wait_app n s = s \<lparr> ap_db := (ap_db s) \<lparr> db_now := app_now s + int n \<rparr> \<rparr>"

fun record_events :: "'s env \<Rightarrow> recording list \<Rightarrow> 's app \<Rightarrow> 's app" where
  "record_events E [] s = s"
| "record_events E ((n, cl, act, rty, rid, target, meta) # rs) s =
     record_events E rs (snd (record_audit E cl act rty rid target meta (wait_app n s)))"

text \<open>The clock moves by a microsecond or more between two of them.\<close>

definition paced :: "recording list \<Rightarrow> bool" where
  "paced rs \<longleftrightarrow> (\<forall>r \<in> set rs. 1000 \<le> fst r)"

definition chained :: "'s env \<Rightarrow> 's app \<Rightarrow> bool" where
  "chained E s \<longleftrightarrow> (\<forall>t. audit_chain E t (ap_db s)) \<and> (\<forall>e \<in> set (db_audit (ap_db s)). ae_created e \<le> pg_time (app_now s))"

lemma write_audit_now: "app_now (snd (write_audit E cl act rty rid target meta prev s)) = app_now s"
  by (simp add: write_audit_def Let_def bind_ok_def or_status_def via_db_def fresh_uuid_def insert_audit_event_def stmt_def
      split: sum.split prod.split)

lemma record_audit_rows:
  "app_now (snd (record_audit E cl act rty rid target meta s)) = app_now s
   \<and> (db_audit (ap_db (snd (record_audit E cl act rty rid target meta s))) = db_audit (ap_db s)
      \<or> (\<exists>e. db_audit (ap_db (snd (record_audit E cl act rty rid target meta s))) = db_audit (ap_db s) @ [e]
           \<and> ae_created e = pg_time (app_now s)))"
proof -
  have w: "db_audit (ap_db (snd (write_audit E cl act rty rid target meta prev s))) = db_audit (ap_db s)
      \<or> (\<exists>e. db_audit (ap_db (snd (write_audit E cl act rty rid target meta prev s))) = db_audit (ap_db s) @ [e]
           \<and> ae_created e = pg_time (app_now s))" for prev s
    by (cases rule: write_audit_cases[of E cl act rty rid target meta prev s]) (auto simp: audit_event_for_def)
  let ?s = "s \<lparr> ap_db := ap_db s \<lparr> db_calls := db_calls (ap_db s) + 1 \<rparr> \<rparr>"
  obtain r where r: "latest_audit_hash (cl_tenant cl) (ap_db s) = (r, (ap_db s) \<lparr> db_calls := db_calls (ap_db s) + 1 \<rparr>)"
    by (simp add: latest_audit_hash_def select_cases)
  show ?thesis using w[of _ ?s] write_audit_now[of E cl act rty rid target meta _ ?s]
    by (cases r) (simp_all add: record_audit_def bind_ok_def or_status_def via_db_def r)
qed

lemma record_keeps_chained:
  assumes "chained E s" "1000 \<le> n"
  shows "chained E (snd (record_audit E cl act rty rid target meta (wait_app n s)))"
proof -
  let ?s = "wait_app n s"
  have later: "pg_time (app_now s) < pg_time (app_now ?s)" using assms(2) by (simp add: wait_app_def pg_time_def)
  have same: "db_audit (ap_db ?s) = db_audit (ap_db s)" by (simp add: wait_app_def)
  then have c: "audit_chain E t (ap_db ?s)" for t
    using assms(1) by (simp add: chained_def audit_chain_def audit_of_def)
  have "\<forall>e \<in> set (audit_of (cl_tenant cl) (ap_db ?s)). ae_created e < pg_time (app_now ?s)"
    using assms(1) later same by (fastforce simp: chained_def audit_of_def)
  then have "audit_chain E t (ap_db (snd (record_audit E cl act rty rid target meta ?s)))" for t
    by (rule record_keeps_chain[OF c c])
  moreover have "\<forall>e \<in> set (db_audit (ap_db ?s)). ae_created e \<le> pg_time (app_now ?s)"
    using assms(1) later same by (fastforce simp: chained_def)
  ultimately show ?thesis
    using record_audit_rows[of E cl act rty rid target meta ?s] by (auto simp: chained_def)
qed

lemma events_keep_chained: "chained E s \<Longrightarrow> paced rs \<Longrightarrow> chained E (record_events E rs s)"
  by (induction E rs s rule: record_events.induct) (simp_all add: paced_def record_keeps_chained)

lemma recorded_links:
  assumes "db_audit (ap_db s) = []" "paced rs"
    and "fst (latest_audit_hash t (ap_db (record_events E rs s))) = Inr h"
  shows "audit_links E None (audit_of t (ap_db (record_events E rs s)))"
    and "chain_end None (audit_of t (ap_db (record_events E rs s))) = h"
proof -
  have "chained E s" using assms(1) by (simp add: chained_def audit_chain_def audit_of_def)
  then have c: "audit_chain E t (ap_db (record_events E rs s))"
    using events_keep_chained[OF _ assms(2), of E s] unfolding chained_def by blast
  then show "audit_links E None (audit_of t (ap_db (record_events E rs s)))" by (simp add: audit_chain_def)
  show "chain_end None (audit_of t (ap_db (record_events E rs s))) = h"
    using latest_of_chain[OF c] assms(3) by (simp split: if_splits)
qed

section \<open>What the chain binds\<close>

text \<open>The strings hashed along a trail.\<close>

definition audit_inputs :: "'s env \<Rightarrow> audit_event list \<Rightarrow> string set" where
  "audit_inputs E es = (\<lambda>e. option_or [] (ae_previous_hash e) @ ev_json E (ae_metadata e)) ` set es"

lemma chain_last_input:
  assumes "audit_links E prev (es @ [e])"
  shows "ae_event_hash e = ev_sha256 E (option_or [] (chain_end prev es) @ ev_json E (ae_metadata e))"
    and "option_or [] (chain_end prev es) @ ev_json E (ae_metadata e) \<in> audit_inputs E (es @ [e])"
  using assms by (auto simp: audit_links_snoc audit_link_def hash_audit_payload_def audit_inputs_def)

lemma audit_inputs_snoc: "audit_inputs E es \<subseteq> audit_inputs E (es @ [e])"
  by (auto simp: audit_inputs_def)

lemma chain_end_length:
  assumes "audit_links E None es" "audit_links E None es'" "length es = length es'"
    and "\<forall>x \<in> audit_inputs E es \<union> audit_inputs E es'. \<forall>y \<in> audit_inputs E es \<union> audit_inputs E es'.
      length (ev_sha256 E x) = length (ev_sha256 E y)"
  shows "length (option_or [] (chain_end None es)) = length (option_or [] (chain_end None es'))"
proof (cases es rule: rev_cases)
  case Nil
  then show ?thesis using assms(3) by simp
next
  case (snoc xs e)
  then obtain ys f where f: "es' = ys @ [f]" using assms(3) by (cases es' rule: rev_cases) auto
  have l: "audit_links E None (xs @ [e])" "audit_links E None (ys @ [f])" using assms(1,2) snoc f by simp_all
  note A = chain_last_input[OF l(1)] and B = chain_last_input[OF l(2)]
  have "length (ae_event_hash e) = length (ae_event_hash f)"
    unfolding A(1) B(1) by (rule assms(4)[unfolded snoc f, rule_format]) (use A(2) B(2) in blast)+
  then show ?thesis using snoc f by (simp add: option_or_def)
qed

lemma chain_binds:
  assumes "audit_links E None es" "audit_links E None es'" "length es = length es'"
    and "chain_end None es = chain_end None es'" "inj_on (ev_json E) (ae_metadata ` (set es \<union> set es'))"
    and "inj_on (ev_sha256 E) (audit_inputs E es \<union> audit_inputs E es')"
    and "\<forall>x \<in> audit_inputs E es \<union> audit_inputs E es'. \<forall>y \<in> audit_inputs E es \<union> audit_inputs E es'.
      length (ev_sha256 E x) = length (ev_sha256 E y)"
  shows "map ae_metadata es = map ae_metadata es'"
  using assms
proof (induction es arbitrary: es' rule: rev_induct)
  case Nil
  then show ?case by simp
next
  case (snoc e es)
  obtain fs f where f: "es' = fs @ [f]" using snoc.prems(3) by (cases es' rule: rev_cases) auto
  have L: "audit_links E None (es @ [e])" "audit_links E None (fs @ [f])" using snoc.prems(1,2) f by simp_all
  then have l: "audit_links E None es" "audit_links E None fs" by (simp_all add: audit_links_snoc)
  have n: "length es = length fs" using snoc.prems(3) f by simp
  have sub: "audit_inputs E es \<union> audit_inputs E fs \<subseteq> audit_inputs E (es @ [e]) \<union> audit_inputs E es'"
    using audit_inputs_snoc f by blast
  have lens: "\<forall>x \<in> audit_inputs E es \<union> audit_inputs E fs. \<forall>y \<in> audit_inputs E es \<union> audit_inputs E fs.
      length (ev_sha256 E x) = length (ev_sha256 E y)"
    using snoc.prems(7) sub by blast
  have "ae_event_hash e = ae_event_hash f" using snoc.prems(4) f by simp
  note A = chain_last_input[OF L(1)] and B = chain_last_input[OF L(2)]
  have "ev_sha256 E (option_or [] (chain_end None es) @ ev_json E (ae_metadata e))
      = ev_sha256 E (option_or [] (chain_end None fs) @ ev_json E (ae_metadata f))"
    using \<open>ae_event_hash e = ae_event_hash f\<close> A(1) B(1) by metis
  then have "option_or [] (chain_end None es) @ ev_json E (ae_metadata e)
      = option_or [] (chain_end None fs) @ ev_json E (ae_metadata f)"
    by (rule inj_onD[OF snoc.prems(6)]) (use A(2) B(2) f in blast)+
  moreover have "length (option_or [] (chain_end None es)) = length (option_or [] (chain_end None fs))"
    by (rule chain_end_length[OF l n lens])
  ultimately have eq: "option_or [] (chain_end None es) = option_or [] (chain_end None fs)"
    "ev_json E (ae_metadata e) = ev_json E (ae_metadata f)"
    by auto
  have meta: "ae_metadata e = ae_metadata f"
    by (rule inj_onD[OF snoc.prems(5) eq(2)]) (simp_all add: f)
  have sub_json: "ae_metadata ` (set es \<union> set fs) \<subseteq> ae_metadata ` (set (es @ [e]) \<union> set es')"
    using f by auto
  have "chain_end None es = chain_end None fs"
    using eq(1) n by (auto simp: chain_end_def option_or_def split: if_splits)
  then show ?case
    using snoc.IH[OF l n _ inj_on_subset[OF snoc.prems(5) sub_json] inj_on_subset[OF snoc.prems(6) sub] lens]
      meta f by simp
qed

section \<open>Two requests at once\<close>

text \<open>When both requests look up the last hash before either writes, both events name the same
predecessor.\<close>

lemma interleaved_writes_fork:
  assumes "fst (write_audit E cl a1 y1 r1 g1 m1 prev s) = Inr ()"
    and "s1 = snd (write_audit E cl a1 y1 r1 g1 m1 prev s)"
    and "fst (write_audit E cl a2 y2 r2 g2 m2 prev s1) = Inr ()"
  shows "\<exists>e1 e2. audit_of (cl_tenant cl) (ap_db (snd (write_audit E cl a2 y2 r2 g2 m2 prev s1)))
       = audit_of (cl_tenant cl) (ap_db s) @ [e1, e2]
     \<and> ae_previous_hash e1 = prev \<and> ae_previous_hash e2 = prev"
proof (cases rule: write_audit_cases[of E cl a1 y1 r1 g1 m1 prev s])
  case kept
  then show ?thesis using assms(1) by simp
next
  case (appended e1)
  show ?thesis
  proof (cases rule: write_audit_cases[of E cl a2 y2 r2 g2 m2 prev s1])
    case kept
    then show ?thesis using assms(3) by simp
  next
    case appended2: (appended e2)
    have "audit_of (cl_tenant cl) (ap_db (snd (write_audit E cl a2 y2 r2 g2 m2 prev s1)))
        = audit_of (cl_tenant cl) (ap_db s) @ [e1, e2]"
      using appended(2,3) appended2(2,3) assms(2) by (simp add: audit_of_def audit_event_for_def)
    then show ?thesis using appended(2) appended2(2) by (auto simp: audit_event_for_def audit_link_def)
  qed
qed

end
