(* ===== verification/Compliance_Api.thy ===== *)
theory Compliance_Api
  imports App
begin

text \<open>The compliance endpoints (\<open>api/handlers/compliance.rs\<close>) and the retention cycle of
\<open>main.rs\<close>.  All endpoints ask for the administrator role; the tenant they act on is the one named
in the query, or the caller's own.\<close>

section \<open>Policies\<close>

record compliance_request =
  cq_retention_days :: "int option"
  cq_legal_hold :: "bool option"
  cq_hold_reason :: "string option"
  cq_hold_until :: "instant option"
  cq_review_days :: "int option"
  cq_rotation_days :: "int option"
  cq_export_enabled :: "bool option"

definition admin_guard ::
  "'s env \<Rightarrow> claims option \<Rightarrow> string \<Rightarrow> nat \<Rightarrow> (claims \<Rightarrow> ('a, 's) http) \<Rightarrow> ('a, 's) http" where
  "admin_guard E cls res limit f = with_claims cls (\<lambda>cl.
     bind_ok (require 403 (is_admin cl)) (\<lambda>_.
     bind_ok (enforce_tenant_fixed_window E (cl_tenant cl) res limit 1) (\<lambda>_. f cl)))"

definition policy_json :: "'s env \<Rightarrow> compliance_policy \<Rightarrow> json" where
  "policy_json E p = JObj
     [(''access_review_interval_days'', json_int (cp_review_days p)),
      (''evidence_export_enabled'', JBool (cp_export_enabled p)),
      (''key_rotation_interval_days'', json_int (cp_rotation_days p)),
      (''last_key_rotation_at'', opt_json (\<lambda>t. JStr (ev_time E t)) (cp_last_rotation p)),
      (''legal_hold'', JBool (cp_legal_hold p)),
      (''legal_hold_reason'', opt_str (cp_hold_reason p)),
      (''legal_hold_until'', opt_json (\<lambda>t. JStr (ev_time E t)) (cp_hold_until p)),
      (''retention_days'', json_int (cp_retention_days p)),
      (''tenant_id'', JStr (cp_tenant p)),
      (''updated_at'', JStr (ev_time E (cp_updated p)))]"

definition get_policy_handler ::
  "'s env \<Rightarrow> claims option \<Rightarrow> string option \<Rightarrow> (compliance_policy, 's) handler" where
  "get_policy_handler E cls tenant =
     admin_guard E cls ''api_requests'' (tl_api_requests (ev_limits E)) (\<lambda>cl.
       bind_ok (or_status 500 (via_db (get_compliance_policy (option_or (cl_tenant cl) tenant))))
         (\<lambda>p. reply 200 p))"

text \<open>Intervals are at least one day; an absent field keeps its value.\<close>

definition apply_request :: "compliance_request \<Rightarrow> compliance_policy \<Rightarrow> compliance_policy" where
  "apply_request q p = p
     \<lparr> cp_retention_days := (case cq_retention_days q of None \<Rightarrow> cp_retention_days p | Some v \<Rightarrow> max v 1),
       cp_legal_hold := option_or (cp_legal_hold p) (cq_legal_hold q),
       cp_hold_reason := opt_orelse (cq_hold_reason q) (cp_hold_reason p),
       cp_hold_until := opt_orelse (cq_hold_until q) (cp_hold_until p),
       cp_review_days := (case cq_review_days q of None \<Rightarrow> cp_review_days p | Some v \<Rightarrow> max v 1),
       cp_rotation_days := (case cq_rotation_days q of None \<Rightarrow> cp_rotation_days p | Some v \<Rightarrow> max v 1),
       cp_export_enabled := option_or (cp_export_enabled p) (cq_export_enabled q) \<rparr>"

definition save_policy ::
  "'s env \<Rightarrow> claims \<Rightarrow> string \<Rightarrow> string \<Rightarrow> (instant \<Rightarrow> compliance_policy \<Rightarrow> compliance_policy)
   \<Rightarrow> (compliance_policy, 's) handler" where
  "save_policy E cl target act f =
     bind_ok (or_status 500 (via_db (get_compliance_policy target))) (\<lambda>p.
     bind_ok (\<lambda>s. or_status 500 (via_db (upsert_compliance_policy
                    ((f (app_now s) p) \<lparr> cp_updated := app_now s \<rparr>))) s) (\<lambda>r.
     bind_ok (record_compliance_audit E cl act (Some target) (JObj [(''policy'', policy_json E r)])) (\<lambda>_.
     reply 200 r)))"

definition update_policy_handler ::
  "'s env \<Rightarrow> claims option \<Rightarrow> string option \<Rightarrow> compliance_request \<Rightarrow> (compliance_policy, 's) handler" where
  "update_policy_handler E cls tenant q =
     admin_guard E cls ''rule_mutations'' (tl_rule_mutations (ev_limits E)) (\<lambda>cl.
       save_policy E cl (option_or (cl_tenant cl) tenant) ''compliance.policy.update''
         (\<lambda>_. apply_request q))"

definition key_rotation_handler ::
  "'s env \<Rightarrow> claims option \<Rightarrow> string option \<Rightarrow> (compliance_policy, 's) handler" where
  "key_rotation_handler E cls tenant =
     admin_guard E cls ''rule_mutations'' (tl_rule_mutations (ev_limits E)) (\<lambda>cl.
       save_policy E cl (option_or (cl_tenant cl) tenant) ''compliance.key_rotation.record''
         (\<lambda>now p. p \<lparr> cp_last_rotation := Some now \<rparr>))"

section \<open>Reviews\<close>

definition count_of :: "('a \<Rightarrow> bool) \<Rightarrow> 'a list \<Rightarrow> nat" where
  "count_of P xs = length (filter P xs)"

definition json_nat :: "nat \<Rightarrow> json" where "json_nat n = JNum (PosInt n)"

definition user_json :: "'s env \<Rightarrow> user_row \<Rightarrow> json" where
  "user_json E u = JObj [(''email'', JStr (u_email u)), (''id'', JStr (ev_uuid E (u_id u))),
     (''role'', JStr (u_role u)), (''tenant_id'', JStr (u_tenant u))]"

definition access_review_summary :: "'s env \<Rightarrow> user_row list \<Rightarrow> audit_event list \<Rightarrow> json" where
  "access_review_summary E us es = JObj
     [(''admin_count'', json_nat (count_of (\<lambda>u. u_role u = ''admin'') us)),
      (''analyst_count'', json_nat (count_of (\<lambda>u. u_role u = ''analyst'') us)),
      (''recent_admin_actions'', json_nat (count_of (\<lambda>e. ''admin'' \<in> set (ae_actor_roles e)) es)),
      (''user_count'', json_nat (length us)),
      (''users'', JArr (map (user_json E) us))]"

definition days :: "int \<Rightarrow> int" where "days n = n * 86400000000000"

definition access_review_handler ::
  "'s env \<Rightarrow> claims option \<Rightarrow> string option \<Rightarrow> (json, 's) handler" where
  "access_review_handler E cls tenant =
     admin_guard E cls ''audit_queries'' (tl_audit_queries (ev_limits E)) (\<lambda>cl.
       let target = option_or (cl_tenant cl) tenant in
       bind_ok (or_status 500 (via_db (list_users_by_tenant target))) (\<lambda>us.
       bind_ok (\<lambda>s. or_status 500 (via_db (list_audit_events_since target (app_now s - days 90))) s) (\<lambda>es.
       bind_ok (record_compliance_audit E cl ''compliance.access_review.view'' (Some target)
           (JObj [(''user_count'', json_nat (length us))])) (\<lambda>_.
       reply 200 (access_review_summary E us es)))))"

record evidence_bundle =
  eb_tenant :: string
  eb_generated :: instant
  eb_policy :: compliance_policy
  eb_review :: json
  eb_audit_summary :: json
  eb_retention_summary :: json

definition audit_summary :: "'s env \<Rightarrow> audit_event list \<Rightarrow> json" where
  "audit_summary E es = JObj
     [(''event_count'', json_nat (length es)),
      (''recent_actions'', JArr (map (\<lambda>e. JObj [(''action'', JStr (ae_action e)),
          (''actor_email'', JStr (ae_actor_email e)), (''created_at'', JStr (ev_time E (ae_created e)))])
        (take 10 es))),
      (''window_days'', json_nat 30)]"

definition retention_summary :: "'s env \<Rightarrow> compliance_policy \<Rightarrow> json" where
  "retention_summary E p = JObj
     [(''evidence_export_enabled'', JBool (cp_export_enabled p)),
      (''key_rotation_interval_days'', json_int (cp_rotation_days p)),
      (''last_key_rotation_at'', opt_json (\<lambda>t. JStr (ev_time E t)) (cp_last_rotation p)),
      (''legal_hold'', JBool (cp_legal_hold p)),
      (''legal_hold_reason'', opt_str (cp_hold_reason p)),
      (''legal_hold_until'', opt_json (\<lambda>t. JStr (ev_time E t)) (cp_hold_until p)),
      (''retention_days'', json_int (cp_retention_days p))]"

text \<open>The export switch of the policy is reported, not consulted.\<close>

definition evidence_handler ::
  "'s env \<Rightarrow> claims option \<Rightarrow> string option \<Rightarrow> (evidence_bundle, 's) handler" where
  "evidence_handler E cls tenant =
     admin_guard E cls ''audit_queries'' (tl_audit_queries (ev_limits E)) (\<lambda>cl.
       let target = option_or (cl_tenant cl) tenant in
       bind_ok (or_status 500 (via_db (get_compliance_policy target))) (\<lambda>p.
       bind_ok (or_status 500 (via_db (list_users_by_tenant target))) (\<lambda>us.
       bind_ok (\<lambda>s. or_status 500 (via_db (list_audit_events_since target (app_now s - days 30))) s) (\<lambda>es.
       bind_ok (record_compliance_audit E cl ''compliance.evidence.export'' (Some target)
           (JObj [(''event_count'', json_nat (length es))])) (\<lambda>_ s.
       reply 200 \<lparr> eb_tenant = target, eb_generated = app_now s, eb_policy = p,
         eb_review = access_review_summary E us es, eb_audit_summary = audit_summary E es,
         eb_retention_summary = retention_summary E p \<rparr> s)))))"

section \<open>Retention\<close>

text \<open>One cycle over all stored policies: a tenant on legal hold is skipped, the others lose the
audit events and alerts older than their retention.  The purge of the search index is a call to
an external service, given by a parameter that records the request.\<close>

definition hold_active :: "instant \<Rightarrow> compliance_policy \<Rightarrow> bool" where
  "hold_active now p \<longleftrightarrow> cp_legal_hold p
     \<and> (case cp_hold_until p of None \<Rightarrow> True | Some t \<Rightarrow> now < t)"

text \<open>The first instant of \<open>chrono\<close>'s \<open>DateTime\<close>, the start of the year -262143.  A subtraction that leaves the
range panics, which ends the task: the result says so.\<close>

definition chrono_min :: instant where
  "chrono_min = - days 96465292"

definition retention_cutoff :: "instant \<Rightarrow> compliance_policy \<Rightarrow> instant option" where
  "retention_cutoff now p = (let cutoff = now - days (max (cp_retention_days p) 1) in
     if cutoff < chrono_min then None else Some cutoff)"

definition retain_tenant :: "compliance_policy \<Rightarrow> db \<Rightarrow> (string \<times> instant) list option \<times> db" where
  "retain_tenant p d =
     (if hold_active (db_now d) p then (Some [], d)
      else (case retention_cutoff (db_now d) p of
          None \<Rightarrow> (None, d)
        | Some cutoff \<Rightarrow>
           (let d1 = ignore (purge_audit_events_before (cp_tenant p) cutoff) d;
                d2 = ignore (purge_alerts_before (cp_tenant p) cutoff) d1
            in (Some [(cp_tenant p, cutoff)], d2))))"

text \<open>The flag tells whether the task is still there.\<close>

fun retain_all :: "compliance_policy list \<Rightarrow> db \<Rightarrow> ((string \<times> instant) list \<times> bool) \<times> db" where
  "retain_all [] d = (([], True), d)"
| "retain_all (p # ps) d = (case retain_tenant p d of
       (None, d1) \<Rightarrow> (([], False), d1)
     | (Some xs, d1) \<Rightarrow> (case retain_all ps d1 of ((ys, alive), d2) \<Rightarrow> ((xs @ ys, alive), d2)))"

definition run_tenant_retention_cycle :: "bool \<Rightarrow> db \<Rightarrow> ((string \<times> instant) list \<times> bool) \<times> db" where
  "run_tenant_retention_cycle elastic d = (case list_compliance_policies d of
      (Inl _, d1) \<Rightarrow> (([], True), d1)
    | (Inr ps, d1) \<Rightarrow> (case retain_all ps d1 of ((xs, alive), d2) \<Rightarrow> ((if elastic then xs else [], alive), d2)))"

end
