(* ===== verification/Case_Laws.thy ===== *)
theory Case_Laws
  imports Case_Store
begin

text \<open>Facts about case management: what an update writes, the life cycle of a case over any sequence of
updates, the escalation pass, and the creation of a case from an alert.\<close>

section \<open>What an update writes\<close>

definition written_case :: "case_record \<Rightarrow> instant \<Rightarrow> case_record \<Rightarrow> case_record" where
  "written_case m now c = c \<lparr> ca_status := ca_status m, ca_owner_id := ca_owner_id m,
     ca_owner_email := ca_owner_email m, ca_outcome := ca_outcome m, ca_postmortem := ca_postmortem m,
     ca_escalated := ca_escalated m, ca_resolved := ca_resolved m, ca_updated := pg_time now \<rparr>"

definition rewrite_case :: "string \<Rightarrow> nat \<Rightarrow> (case_record \<Rightarrow> case_record) \<Rightarrow> case_record list \<Rightarrow> case_record list" where
  "rewrite_case t i f cs = map (\<lambda>c. if ca_tenant c = t \<and> ca_id c = i then f c else c) cs"

lemma written_case_simps [simp]:
  "ca_id (written_case m now c) = ca_id c" "ca_tenant (written_case m now c) = ca_tenant c"
  "ca_alert_id (written_case m now c) = ca_alert_id c" "ca_created (written_case m now c) = ca_created c"
  "ca_status (written_case m now c) = ca_status m" "ca_resolved (written_case m now c) = ca_resolved m"
  "ca_escalated (written_case m now c) = ca_escalated m" "ca_owner_id (written_case m now c) = ca_owner_id m"
  "ca_owner_email (written_case m now c) = ca_owner_email m" "ca_outcome (written_case m now c) = ca_outcome m"
  "ca_escalation (written_case m now c) = ca_escalation c" "ca_postmortem (written_case m now c) = ca_postmortem m"
  by (simp_all add: written_case_def)

lemma rewrite_case_ids:
  "(\<And>c. ca_id (f c) = ca_id c) \<Longrightarrow> map ca_id (rewrite_case t i f cs) = map ca_id cs"
  by (simp add: rewrite_case_def)

text \<open>Recording an event touches the timeline only.\<close>

definition same_but_timeline :: "db \<Rightarrow> db \<Rightarrow> bool" where
  "same_but_timeline d d' \<longleftrightarrow> db_cases d' = db_cases d \<and> db_links d' = db_links d \<and> db_now d' = db_now d
     \<and> db_fault d' = db_fault d \<and> db_playbooks d' = db_playbooks d \<and> db_alerts d' = db_alerts d"

lemma same_refl [simp]: "same_but_timeline d d"
  by (simp add: same_but_timeline_def)

lemma record_event_same: "same_but_timeline d (ignore (record_case_event t i ty msg u e m) d)"
  by (simp add: same_but_timeline_def ignore_def record_case_event_def stmt_def Let_def)

lemma same_trans: "same_but_timeline a b \<Longrightarrow> same_but_timeline b c \<Longrightarrow> same_but_timeline a c"
  by (simp add: same_but_timeline_def)

lemma record_event_keeps_same:
  "same_but_timeline d e \<Longrightarrow> same_but_timeline d (ignore (record_case_event t i ty msg u em m) e)"
  by (rule same_trans[OF _ record_event_same])

text \<open>An update either leaves the table of cases, or rewrites the rows of one case.\<close>

lemma update_case_cases:
  obtains (kept) "db_cases (snd (update_case t i ch d)) = db_cases d"
      "db_now (snd (update_case t i ch d)) = db_now d"
  | (written) c where "first_row (\<lambda>c. ca_tenant c = t \<and> ca_id c = i) (db_cases d) = Some c"
      "db_cases (snd (update_case t i ch d))
         = rewrite_case t i (written_case (merged_case ch (db_now d) c) (db_now d)) (db_cases d)"
      "db_now (snd (update_case t i ch d)) = db_now d"
proof -
  let ?q = "first_row (\<lambda>c. ca_tenant c = t \<and> ca_id c = i) (db_cases d)"
  let ?d1 = "d \<lparr> db_calls := db_calls d + 1 \<rparr>"
  have same: "same_but_timeline x (if b then ignore (record_case_event t i ty msg u e m) x else x)" for b x ty msg u e m
    by (simp add: record_event_same)
  show thesis
  proof (cases "db_fault d (db_calls d) \<or> ?q = None \<or> db_fault d (db_calls d + 1)")
    case True
    then show ?thesis
      by (intro kept) (auto simp: update_case_def bind_ok_def get_case_by_id_def select_cases fail_def
          write_case_def stmt_def Let_def split: option.split)
  next
    case False
    then obtain c where c: "?q = Some c" by auto
    define m where "m = merged_case ch (db_now d) c"
    define d2 where "d2 = d \<lparr> db_calls := db_calls d + 2,
        db_cases := rewrite_case t i (written_case m (db_now d)) (db_cases d) \<rparr>"
    have w: "write_case t i m ?d1 = (Inr (written_case m (db_now d) c), d2)"
      using False c by (simp add: write_case_def stmt_def Let_def d2_def rewrite_case_def written_case_def
          numeral_2_eq_2)
    have "same_but_timeline d2 (snd (update_case t i ch d))"
      using False c w
      by (auto simp: update_case_def bind_ok_def get_case_by_id_def select_cases m_def[symmetric] Let_def
          intro: same_trans record_event_same)
    then show ?thesis using c
      by (intro written[of c]) (simp_all add: same_but_timeline_def d2_def m_def)
  qed
qed

section \<open>The life cycle\<close>

text \<open>A case as later updates may find it: the identity is fixed, and the two instants are written
once.\<close>

definition case_follows :: "case_record \<Rightarrow> case_record \<Rightarrow> bool" where
  "case_follows c c' \<longleftrightarrow> ca_id c' = ca_id c \<and> ca_tenant c' = ca_tenant c \<and> ca_alert_id c' = ca_alert_id c
     \<and> ca_created c' = ca_created c \<and> (ca_resolved c = None \<or> ca_resolved c' = ca_resolved c)
     \<and> (ca_escalated c = None \<or> ca_escalated c' = ca_escalated c)"

text \<open>A final case has the instant of its resolution, an escalated one that of its escalation.\<close>

definition case_ok :: "case_record \<Rightarrow> bool" where
  "case_ok c \<longleftrightarrow> (\<exists>s. parse_case_status (ca_status c) = Some s
     \<and> (is_final_status s \<longrightarrow> ca_resolved c \<noteq> None) \<and> (s = C_Escalated \<longrightarrow> ca_escalated c \<noteq> None))"

definition cases_ok :: "db \<Rightarrow> bool" where
  "cases_ok d \<longleftrightarrow> distinct (map ca_id (db_cases d)) \<and> list_all case_ok (db_cases d)"

lemma merged_ok: "case_ok (written_case (merged_case ch now c) now' x)"
proof -
  define s where "s = (case cc_status ch of Some s \<Rightarrow> s | None \<Rightarrow> option_or C_New (parse_case_status (ca_status c)))"
  then show ?thesis unfolding case_ok_def
    by (intro exI[of _ s]) (simp add: merged_case_def Let_def)
qed

lemma merged_follows: "case_follows c (written_case (merged_case ch now c) now' c)"
  by (auto simp: case_follows_def merged_case_def Let_def)

lemma follows_trans: "case_follows a b \<Longrightarrow> case_follows b c \<Longrightarrow> case_follows a c"
  by (auto simp: case_follows_def)

lemma row_unique:
  "distinct (map ca_id cs) \<Longrightarrow> first_row (\<lambda>c. ca_tenant c = t \<and> ca_id c = i) cs = Some c
   \<Longrightarrow> x \<in> set cs \<Longrightarrow> ca_id x = i \<Longrightarrow> x = c"
  using first_row_Some[of _ cs c] by (auto simp: distinct_map dest: inj_onD)

lemma list_all2_map_same: "(\<And>x. x \<in> set xs \<Longrightarrow> P x (f x)) \<Longrightarrow> list_all2 P xs (map f xs)"
  by (induction xs) auto

lemma update_case_follows:
  assumes "cases_ok d"
  shows "cases_ok (snd (update_case t i ch d))"
    and "list_all2 case_follows (db_cases d) (db_cases (snd (update_case t i ch d)))"
proof -
  have refl: "list_all2 case_follows cs cs" for cs by (rule list_all2_refl) (simp add: case_follows_def)
  show "cases_ok (snd (update_case t i ch d))"
  proof (cases rule: update_case_cases[of t i ch d])
    case kept
    then show ?thesis using assms by (simp add: cases_ok_def)
  next
    case (written c)
    have "list_all case_ok (rewrite_case t i (written_case (merged_case ch (db_now d) c) (db_now d)) (db_cases d))"
      using assms merged_ok by (auto simp: cases_ok_def list_all_iff rewrite_case_def)
    then show ?thesis using assms unfolding cases_ok_def written(2) by (simp add: rewrite_case_ids)
  qed
  show "list_all2 case_follows (db_cases d) (db_cases (snd (update_case t i ch d)))"
  proof (cases rule: update_case_cases[of t i ch d])
    case kept
    then show ?thesis using refl by simp
  next
    case (written c)
    have "case_follows x (if ca_tenant x = t \<and> ca_id x = i
        then written_case (merged_case ch (db_now d) c) (db_now d) x else x)" if "x \<in> set (db_cases d)" for x
      using row_unique[OF _ written(1) that] assms merged_follows
      by (auto simp: cases_ok_def case_follows_def)
    then show ?thesis unfolding written(2) rewrite_case_def by (rule list_all2_map_same)
  qed
qed

text \<open>A sequence of updates, each at its own instant.\<close>

definition apply_update :: "instant \<times> string \<times> nat \<times> case_changes \<Rightarrow> db \<Rightarrow> db" where
  "apply_update u d = (case u of (now, t, i, ch) \<Rightarrow> ignore (update_case t i ch) (d \<lparr> db_now := now \<rparr>))"

lemma updates_follow:
  "cases_ok d \<Longrightarrow> cases_ok (fold apply_update us d)
     \<and> list_all2 case_follows (db_cases d) (db_cases (fold apply_update us d))"
proof (induction us arbitrary: d)
  case Nil
  then show ?case by (simp add: list_all2_refl case_follows_def)
next
  case (Cons u us)
  obtain now t i ch where u: "u = (now, t, i, ch)" by (cases u)
  have now: "cases_ok (d \<lparr> db_now := now \<rparr>)" using Cons.prems by (simp add: cases_ok_def)
  have step: "cases_ok (apply_update u d)" "list_all2 case_follows (db_cases d) (db_cases (apply_update u d))"
    using update_case_follows[OF now, of t i ch] by (simp_all add: apply_update_def u ignore_def)
  then show ?case
    using Cons.IH[OF step(1)] list_all2_trans[of case_follows case_follows case_follows, OF _ step(2)] follows_trans
    by (metis fold_simps(2))
qed

section \<open>Escalation\<close>

definition escalated :: "instant \<Rightarrow> case_record \<Rightarrow> case_record" where
  "escalated now c = written_case (merged_case (no_changes \<lparr> cc_status := Some C_Escalated \<rparr>) now c) now c"

lemma escalated_simps [simp]:
  "ca_id (escalated now c) = ca_id c" "ca_tenant (escalated now c) = ca_tenant c"
  "ca_status (escalated now c) = ''ESCALATED''"
  by (simp_all add: escalated_def merged_case_def no_changes_def)

lemma escalated_not_overdue: "\<not> is_overdue now (escalated now' c)"
  by (simp add: is_overdue_def)

lemma update_escalates:
  assumes "no_faults d" "distinct (map ca_id (db_cases d))" "c \<in> set (db_cases d)"
  obtains d' where "update_case (ca_tenant c) (ca_id c) (no_changes \<lparr> cc_status := Some C_Escalated \<rparr>) d
      = (Inr (escalated (db_now d) c), d')"
    "no_faults d'" "db_now d' = db_now d"
    "db_cases d' = map (\<lambda>x. if ca_id x = ca_id c then escalated (db_now d) x else x) (db_cases d)"
proof -
  let ?ch = "no_changes \<lparr> cc_status := Some C_Escalated \<rparr>"
  let ?P = "\<lambda>x. ca_tenant x = ca_tenant c \<and> ca_id x = ca_id c"
  have q: "first_row ?P (db_cases d) = Some c"
  proof (cases "first_row ?P (db_cases d)")
    case None
    then show ?thesis using assms(3) by (auto simp: first_row_None)
  next
    case (Some x)
    then show ?thesis using row_unique[OF assms(2) Some assms(3)] by simp
  qed
  define m where "m = merged_case ?ch (db_now d) c"
  define d2 where "d2 = d \<lparr> db_calls := db_calls d + 2,
      db_cases := rewrite_case (ca_tenant c) (ca_id c) (written_case m (db_now d)) (db_cases d) \<rparr>"
  have w: "write_case (ca_tenant c) (ca_id c) m (d \<lparr> db_calls := db_calls d + 1 \<rparr>) = (Inr (escalated (db_now d) c), d2)"
    using assms(1) q by (simp add: no_faults_def write_case_def stmt_def Let_def d2_def rewrite_case_def
        written_case_def m_def escalated_def)
  define d' where "d' = snd (update_case (ca_tenant c) (ca_id c) ?ch d)"
  have u: "update_case (ca_tenant c) (ca_id c) ?ch d = (Inr (escalated (db_now d) c), d')"
    and same: "same_but_timeline d2 d'"
    using assms(1) q w unfolding d'_def
    by (auto simp: no_faults_def update_case_def bind_ok_def get_case_by_id_def select_cases m_def[symmetric] Let_def
        intro: same_trans record_event_same)
  have "x = c" if "x \<in> set (db_cases d)" "ca_id x = ca_id c" for x
    using that assms(2,3) by (auto simp: distinct_map dest: inj_onD)
  then have "rewrite_case (ca_tenant c) (ca_id c) (written_case m (db_now d)) (db_cases d)
      = map (\<lambda>x. if ca_id x = ca_id c then escalated (db_now d) x else x) (db_cases d)"
    by (auto simp: rewrite_case_def escalated_def m_def)
  then show thesis using u same assms(1)
    by (intro that[of d']) (simp_all add: same_but_timeline_def d2_def no_faults_def)
qed

lemma escalate_all_rows:
  assumes "no_faults d" "distinct (map ca_id (db_cases d))" "distinct (map ca_id cs)"
    and "set cs \<subseteq> set (db_cases d)"
  shows "\<exists>d'. escalate_all cs n d = (Inr (n + length cs), d') \<and> no_faults d' \<and> db_now d' = db_now d
     \<and> db_cases d' = map (\<lambda>x. if ca_id x \<in> ca_id ` set cs then escalated (db_now d) x else x) (db_cases d)"
  using assms
proof (induction cs arbitrary: d n)
  case Nil
  then show ?case by (simp add: ok_def)
next
  case (Cons c cs)
  have c: "c \<in> set (db_cases d)" using Cons.prems(4) by simp
  obtain d1 where d1: "update_case (ca_tenant c) (ca_id c) (no_changes \<lparr> cc_status := Some C_Escalated \<rparr>) d
      = (Inr (escalated (db_now d) c), d1)" "no_faults d1" "db_now d1 = db_now d"
    "db_cases d1 = map (\<lambda>x. if ca_id x = ca_id c then escalated (db_now d) x else x) (db_cases d)"
    using update_escalates[OF Cons.prems(1,2) c] .
  have ids: "map ca_id (db_cases d1) = map ca_id (db_cases d)" by (simp add: d1(4))
  have fresh: "ca_id c \<notin> ca_id ` set cs" using Cons.prems(3) by simp
  have "set cs \<subseteq> set (db_cases d1)"
  proof
    fix x assume "x \<in> set cs"
    then have "ca_id x \<in> ca_id ` set cs" "x \<in> set (db_cases d)" using Cons.prems(4) by auto
    moreover from this have "ca_id x \<noteq> ca_id c" using fresh by auto
    ultimately show "x \<in> set (db_cases d1)" unfolding d1(4) by force
  qed
  then obtain d' where d': "escalate_all cs (n + 1) d1 = (Inr (n + 1 + length cs), d')" "no_faults d'"
    "db_now d' = db_now d1"
    "db_cases d' = map (\<lambda>x. if ca_id x \<in> ca_id ` set cs then escalated (db_now d1) x else x) (db_cases d1)"
    using Cons.IH[OF d1(2), of "n + 1"] Cons.prems(2,3) unfolding ids by auto
  have "db_cases d' = map (\<lambda>x. if ca_id x \<in> ca_id ` set (c # cs) then escalated (db_now d) x else x) (db_cases d)"
    using fresh by (auto simp: d'(4) d1(3,4))
  then show ?case using d1 d'
    by (simp add: escalate_one_def bind_ok_def ok_def)
qed

lemma escalation_pass:
  assumes "no_faults d" "distinct (map ca_id (db_cases d))"
  shows "\<exists>d'. escalate_overdue_cases d = (Inr (length (filter (is_overdue (pg_time (db_now d))) (db_cases d))), d')
     \<and> no_faults d' \<and> overdue_cases d' = []
     \<and> db_cases d' = map (\<lambda>c. if is_overdue (pg_time (db_now d)) c then escalated (db_now d) c else c) (db_cases d)"
proof -
  let ?d = "d \<lparr> db_calls := db_calls d + 1 \<rparr>"
  let ?o = "is_overdue (pg_time (db_now d))"
  let ?cs = "overdue_cases d"
  have set: "set ?cs = {c \<in> set (db_cases d). ?o c}" and len: "length ?cs = length (filter ?o (db_cases d))"
    by (auto simp: overdue_cases_def)
  have "distinct (map ca_id (filter ?o (db_cases d)))" by (rule distinct_map_filter[OF assms(2)])
  then have "distinct (map ca_id ?cs)"
    unfolding overdue_cases_def distinct_map by simp
  then obtain d' where d': "escalate_all ?cs 0 ?d = (Inr (length ?cs), d')" "no_faults d'" "db_now d' = db_now d"
    "db_cases d' = map (\<lambda>x. if ca_id x \<in> ca_id ` set ?cs then escalated (db_now d) x else x) (db_cases d)"
    using escalate_all_rows[of ?d ?cs 0] assms set by (auto simp: no_faults_def)
  have "x \<in> set ?cs \<longleftrightarrow> ca_id x \<in> ca_id ` set ?cs" if "x \<in> set (db_cases d)" for x
    using that assms(2) set by (auto simp: distinct_map dest: inj_onD)
  then have rows: "db_cases d' = map (\<lambda>c. if ?o c then escalated (db_now d) c else c) (db_cases d)"
    using set by (auto simp: d'(4))
  have "filter ?o (db_cases d') = []" unfolding rows by (auto simp: filter_empty_conv escalated_not_overdue)
  then have "overdue_cases d' = []" by (simp add: overdue_cases_def d'(3))
  moreover have "escalate_overdue_cases d = (Inr (length ?cs), d')"
    using d'(1) assms(1) by (simp add: escalate_overdue_cases_def bind_ok_def select_cases no_faults_def overdue_cases_def)
  ultimately show ?thesis using d' rows len by auto
qed

section \<open>Creation\<close>

text \<open>The part of the database that the creation of playbooks leaves alone.\<close>

definition same_cases :: "db \<Rightarrow> db \<Rightarrow> bool" where
  "same_cases d d' \<longleftrightarrow> db_cases d' = db_cases d \<and> db_links d' = db_links d \<and> db_fault d' = db_fault d"

lemma same_cases_trans: "same_cases a b \<Longrightarrow> same_cases b c \<Longrightarrow> same_cases a c"
  by (simp add: same_cases_def)

lemma same_cases_timeline: "same_but_timeline d d' \<Longrightarrow> same_cases d d'"
  by (simp add: same_cases_def same_but_timeline_def)

lemma select_same: "select f d = (r, d') \<Longrightarrow> same_cases d d'"
  by (auto simp: select_cases same_cases_def)

lemma ensure_playbooks_same: "ensure_default_playbooks t d = (r, d') \<Longrightarrow> same_cases d d'"
  by (auto simp: ensure_default_playbooks_def bind_ok_def select_cases ok_def execute_def stmt_def Let_def
      same_cases_def split: if_splits)

lemma choose_playbook_same:
  assumes "choose_playbook t pid d = (r, d')"
  shows "same_cases d d'"
proof (cases pid)
  case (Some i)
  then show ?thesis using assms by (auto simp: choose_playbook_def get_case_playbook_def dest: select_same)
next
  case None
  obtain x e where e: "ensure_default_playbooks t d = (x, e)" by fastforce
  show ?thesis using assms None ensure_playbooks_same[OF e]
    by (cases x) (auto simp: choose_playbook_def list_case_playbooks_def bind_ok_def e ok_def select_cases
        same_cases_def split: if_splits)
qed

lemma announce_same: "same_but_timeline d (announce_case sh a uid email pb cid c d)"
  by (cases pb) (auto simp: announce_case_def Let_def intro!: record_event_keeps_same)

lemma insert_case_ok:
  "insert_case c d = (Inr r, d') \<Longrightarrow> r = c \<and> db_cases d' = db_cases d @ [c] \<and> db_links d' = db_links d
     \<and> db_fault d' = db_fault d \<and> ca_id c \<notin> ca_id ` set (db_cases d)"
  by (auto simp: insert_case_def stmt_def Let_def split: if_splits)

lemma insert_link_ok:
  "insert_link i a t d = (r, d') \<Longrightarrow> db_cases d' = db_cases d \<and> db_fault d' = db_fault d
     \<and> (\<forall>l \<in> set (db_links d'). l \<in> set (db_links d) \<or> li_case l = i)"
  by (auto simp: insert_link_def stmt_def Let_def split: if_splits)

lemma new_case_simps:
  "ca_id (new_case a uid email title summ pb cid now) = cid"
  "ca_tenant (new_case a uid email title summ pb cid now) = a_tenant a"
  "ca_alert_id (new_case a uid email title summ pb cid now) = a_id a"
  by (simp_all add: new_case_def split: option.split)

lemma open_case_rows:
  assumes "open_case sh a uid email title summ pb d = (Inr c, d')"
  shows "db_cases d' = db_cases d @ [c] \<and> ca_tenant c = a_tenant a \<and> ca_alert_id c = a_id a
     \<and> ca_id c \<notin> ca_id ` set (db_cases d) \<and> db_fault d' = db_fault d
     \<and> (\<forall>l \<in> set (db_links d'). l \<in> set (db_links d) \<or> li_case l = ca_id c)"
proof -
  let ?d = "d \<lparr> db_next := db_next d + 1 \<rparr>" let ?c = "new_case a uid email title summ pb (db_next d) (db_now d)"
  obtain x e1 where 1: "insert_case ?c ?d = (Inr x, e1)"
    using assms by (auto simp: open_case_def bind_ok_def fresh_uuid_def split: prod.splits sum.splits)
  obtain y e2 where 2: "insert_link (db_next d) (a_id a) (a_tenant a) e1 = (Inr y, e2)"
    using assms 1 by (auto simp: open_case_def bind_ok_def fresh_uuid_def split: prod.splits sum.splits)
  have c: "c = x" "d' = announce_case sh a uid email pb (db_next d) x e2"
    using assms 1 2 by (auto simp: open_case_def bind_ok_def fresh_uuid_def)
  note I = insert_case_ok[OF 1] and L = insert_link_ok[OF 2]
  have "same_but_timeline e2 d'" unfolding c(2) by (rule announce_same)
  then show ?thesis using I L c(1) by (auto simp: same_but_timeline_def new_case_simps)
qed

lemma by_alert_query:
  "get_case_by_alert_id t a d = (if db_fault d (db_calls d) then Inl Db_Error
     else Inr (case cases_of_alert t a d of [] \<Rightarrow> None | c # _ \<Rightarrow> Some c), d \<lparr> db_calls := db_calls d + 1 \<rparr>)"
  by (simp add: get_case_by_alert_id_def select_cases cases_of_alert_def linked_def)

lemma sort_key_Nil: "sort_key f xs = [] \<longleftrightarrow> xs = []"
  using length_sort[of f xs] by (auto simp flip: length_0_conv)

lemma create_case_new:
  assumes "cases_of_alert (a_tenant a) (a_id a) d = []"
    and "create_case_from_alert sh a uid email title summ pid d = (Inr c, d')"
  shows "db_cases d' = db_cases d @ [c] \<and> cases_of_alert (a_tenant a) (a_id a) d' = [c] \<and> db_fault d' = db_fault d"
proof -
  have ok: "\<not> db_fault d (db_calls d)" using assms
    by (auto simp: create_case_from_alert_def bind_ok_def by_alert_query split: if_splits)
  let ?d = "d \<lparr> db_calls := db_calls d + 1 \<rparr>"
  have "bind_ok (ensure_default_playbooks (a_tenant a)) (\<lambda>_. bind_ok (choose_playbook (a_tenant a) pid)
      (open_case sh a uid email title summ)) ?d = (Inr c, d')"
    using assms ok unfolding create_case_from_alert_def bind_ok_def[of "get_case_by_alert_id _ _"]
    by (simp add: by_alert_query)
  then obtain x e1 where 1: "ensure_default_playbooks (a_tenant a) ?d = (Inr x, e1)"
    and r1: "bind_ok (choose_playbook (a_tenant a) pid) (open_case sh a uid email title summ) e1 = (Inr c, d')"
    by (rule bind_ok_InrE)
  from r1 obtain pb e2 where 2: "choose_playbook (a_tenant a) pid e1 = (Inr pb, e2)"
    and r2: "open_case sh a uid email title summ pb e2 = (Inr c, d')"
    by (rule bind_ok_InrE)
  have same: "same_cases ?d e2" using ensure_playbooks_same[OF 1] choose_playbook_same[OF 2] by (rule same_cases_trans)
  note R = open_case_rows[OF r2]
  let ?Q = "\<lambda>d x. ca_tenant x = a_tenant a \<and> (ca_alert_id x = a_id a \<or> linked d x (a_id a))"
  have "\<not> ?Q d' x" if x: "x \<in> set (db_cases d)" for x
  proof -
    have "filter (?Q d) (db_cases d) = []"
      using assms(1) unfolding cases_of_alert_def sort_key_Nil .
    then have "\<not> ?Q d x" using x by (auto simp: filter_empty_conv)
    moreover have "ca_id x \<noteq> ca_id c" using R same imageI[OF x, of ca_id] by (auto simp: same_cases_def)
    moreover have "linked d' x (a_id a) \<longrightarrow> linked d x (a_id a) \<or> ca_id x = ca_id c"
      using R same by (force simp: linked_def same_cases_def)
    ultimately show ?thesis by blast
  qed
  then have "filter (?Q d') (db_cases d) = []" by (simp add: filter_empty_conv)
  then have "cases_of_alert (a_tenant a) (a_id a) d' = [c]"
    using R same by (simp add: cases_of_alert_def same_cases_def)
  then show ?thesis using R same by (simp add: same_cases_def)
qed

text \<open>Asking again for a case of the same alert gives the same case and writes nothing.\<close>

lemma create_case_again:
  assumes "no_faults d" "create_case_from_alert sh a uid email title summ pid d = (Inr c, d')"
  shows "create_case_from_alert sh a uid' email' title' summ' pid' d'
     = (Inr c, d' \<lparr> db_calls := db_calls d' + 1 \<rparr>)"
proof -
  have "(\<exists>rest. cases_of_alert (a_tenant a) (a_id a) d' = c # rest) \<and> db_fault d' = db_fault d"
  proof (cases "cases_of_alert (a_tenant a) (a_id a) d")
    case Nil
    then show ?thesis using create_case_new[OF Nil assms(2)] by simp
  next
    case (Cons x xs)
    then have "c = x" "d' = d \<lparr> db_calls := db_calls d + 1 \<rparr>" using assms
      by (simp_all add: create_case_from_alert_def bind_ok_def by_alert_query no_faults_def ok_def)
    then show ?thesis using Cons by (simp add: cases_of_alert_def linked_def)
  qed
  then show ?thesis using assms(1)
    by (auto simp: create_case_from_alert_def bind_ok_def by_alert_query no_faults_def ok_def)
qed

end
