(* ===== verification/Retention.thy ===== *)
theory Retention
  imports Compliance_Api Case_Laws
begin

text \<open>What a retention cycle removes: rows of tenants whose policy is not on hold, older than the
retention of that policy.\<close>

definition purges :: "instant \<Rightarrow> compliance_policy \<Rightarrow> string \<Rightarrow> instant \<Rightarrow> bool" where
  "purges now p t created \<longleftrightarrow> cp_tenant p = t \<and> \<not> hold_active now p
     \<and> (case retention_cutoff now p of None \<Rightarrow> False | Some cutoff \<Rightarrow> created < pg_time cutoff)"

text \<open>The policies of a cycle, in the order of the query, up to the first whose cutoff is out of range.\<close>

definition dated :: "instant \<Rightarrow> compliance_policy \<Rightarrow> bool" where
  "dated now p \<longleftrightarrow> hold_active now p \<or> retention_cutoff now p \<noteq> None"

definition handled_policies :: "db \<Rightarrow> compliance_policy list" where
  "handled_policies d = takeWhile (dated (db_now d)) (foldr insert_by_tenant (db_compliance d) [])"

text \<open>One database is another after the policies \<open>A\<close> removed alerts and the policies \<open>B\<close> audit
events.\<close>

definition purged :: "compliance_policy set \<Rightarrow> compliance_policy set \<Rightarrow> db \<Rightarrow> db \<Rightarrow> bool" where
  "purged A B d d' \<longleftrightarrow> db_now d' = db_now d \<and> db_fault d' = db_fault d \<and> db_compliance d' = db_compliance d
     \<and> db_alerts d' = filter (\<lambda>r. \<not> (\<exists>p \<in> A. purges (db_now d) p (ar_tenant r) (ar_created r))) (db_alerts d)
     \<and> db_audit d' = filter (\<lambda>e. \<not> (\<exists>p \<in> B. purges (db_now d) p (ae_tenant e) (ae_created e))) (db_audit d)"

lemma purged_refl: "db_now d' = db_now d \<Longrightarrow> db_fault d' = db_fault d \<Longrightarrow> db_compliance d' = db_compliance d
  \<Longrightarrow> db_alerts d' = db_alerts d \<Longrightarrow> db_audit d' = db_audit d \<Longrightarrow> purged {} {} d d'"
  by (simp add: purged_def)

lemma purged_trans: "purged A B d e \<Longrightarrow> purged A' B' e f \<Longrightarrow> purged (A \<union> A') (B \<union> B') d f"
  by (auto simp: purged_def intro!: filter_cong)

lemma purge_audit_step:
  assumes "\<not> hold_active (db_now d) p" "retention_cutoff (db_now d) p = Some cutoff"
  shows "purged {} (if db_fault d (db_calls d) then {} else {p}) d
     (ignore (purge_audit_events_before (cp_tenant p) cutoff) d)"
  using assms
  by (auto simp: purged_def ignore_def purge_audit_events_before_def stmt_def Let_def purges_def
      intro!: filter_cong)

lemma purge_alerts_step:
  assumes "\<not> hold_active (db_now d) p" "retention_cutoff (db_now d) p = Some cutoff"
  shows "purged (if db_fault d (db_calls d) then {} else {p}) {} d
     (ignore (purge_alerts_before (cp_tenant p) cutoff) d)"
  using assms
  by (auto simp: purged_def ignore_def purge_alerts_before_def stmt_def Let_def purges_def
      intro!: filter_cong)

text \<open>A held policy removes nothing, so it may be counted on both sides.\<close>

lemma purged_held:
  assumes "hold_active (db_now d) p"
  shows "purged {p} {p} d d"
  using assms by (simp add: purged_def purges_def)

lemma retain_tenant_purges:
  assumes "dated (db_now d) p"
  shows "\<exists>xs d' A B. retain_tenant p d = (Some xs, d') \<and> A \<subseteq> {p} \<and> B \<subseteq> {p} \<and> purged A B d d'
     \<and> (no_faults d \<longrightarrow> A = {p} \<and> B = {p})"
proof (cases "hold_active (db_now d) p")
  case True
  then show ?thesis using purged_held by (auto simp: retain_tenant_def)
next
  case False
  then obtain cutoff where c: "retention_cutoff (db_now d) p = Some cutoff" using assms by (auto simp: dated_def)
  let ?e = "ignore (purge_audit_events_before (cp_tenant p) cutoff) d"
  note a = purge_audit_step[OF False c]
  then have e: "db_now ?e = db_now d" "db_fault ?e = db_fault d" by (simp_all add: purged_def)
  have f: "\<not> hold_active (db_now ?e) p" "retention_cutoff (db_now ?e) p = Some cutoff" using False c e by simp_all
  let ?A = "if db_fault d (db_calls ?e) then {} else {p}" let ?B = "if db_fault d (db_calls d) then {} else {p}"
  from purged_trans[OF a purge_alerts_step[OF f]]
  have "purged ?A ?B d (ignore (purge_alerts_before (cp_tenant p) cutoff) ?e)" by (simp add: e)
  moreover have "retain_tenant p d = (Some [(cp_tenant p, cutoff)], ignore (purge_alerts_before (cp_tenant p) cutoff) ?e)"
    using False c by (simp add: retain_tenant_def Let_def)
  moreover have "no_faults d \<longrightarrow> ?A = {p} \<and> ?B = {p}" by (simp add: no_faults_def)
  ultimately show ?thesis
    by (intro exI[of _ "[(cp_tenant p, cutoff)]"] exI[of _ "ignore (purge_alerts_before (cp_tenant p) cutoff) ?e"]
        exI[of _ ?A] exI[of _ ?B]) simp
qed

lemma retain_tenant_undated: "\<not> dated (db_now d) p \<Longrightarrow> retain_tenant p d = (None, d)"
  by (auto simp: dated_def retain_tenant_def)

lemma retain_all_purges:
  "\<exists>A B. A \<subseteq> set (takeWhile (dated (db_now d)) ps) \<and> B \<subseteq> set (takeWhile (dated (db_now d)) ps)
     \<and> purged A B d (snd (retain_all ps d))
     \<and> (no_faults d \<longrightarrow> A = set (takeWhile (dated (db_now d)) ps) \<and> B = set (takeWhile (dated (db_now d)) ps))
     \<and> snd (fst (retain_all ps d)) = list_all (dated (db_now d)) ps"
proof (induction ps arbitrary: d)
  case Nil
  then show ?case by (simp add: purged_refl)
next
  case (Cons p ps)
  show ?case
  proof (cases "dated (db_now d) p")
    case False
    then show ?thesis by (simp add: retain_tenant_undated purged_refl)
  next
    case True
    obtain xs d' A B where 1: "retain_tenant p d = (Some xs, d')" "A \<subseteq> {p}" "B \<subseteq> {p}" "purged A B d d'"
      "no_faults d \<longrightarrow> A = {p} \<and> B = {p}"
      using retain_tenant_purges[OF True] by blast
    have same: "db_now d' = db_now d" "no_faults d' = no_faults d" using 1(4) by (simp_all add: purged_def no_faults_def)
    let ?S = "set (takeWhile (dated (db_now d)) ps)"
    obtain A' B' where 2: "A' \<subseteq> ?S" "B' \<subseteq> ?S" "purged A' B' d' (snd (retain_all ps d'))"
      "no_faults d \<longrightarrow> A' = ?S \<and> B' = ?S" "snd (fst (retain_all ps d')) = list_all (dated (db_now d)) ps"
      using Cons.IH[of d'] unfolding same by blast
    have "purged (A \<union> A') (B \<union> B') d (snd (retain_all (p # ps) d))"
      using purged_trans[OF 1(4) 2(3)] 1(1) by (simp add: split_beta)
    moreover have "snd (fst (retain_all (p # ps) d)) = list_all (dated (db_now d)) (p # ps)"
      using 1(1) 2(5) True by (simp add: split_beta)
    ultimately show ?thesis using 1(2,3,5) 2(1,2,4) True
      by (intro exI[of _ "A \<union> A'"] exI[of _ "B \<union> B'"]) auto
  qed
qed

lemma insert_by_tenant_set [simp]: "set (insert_by_tenant p ps) = insert p (set ps)"
  by (induction ps) auto

lemma policies_listed: "set (foldr insert_by_tenant ps []) = set ps"
  by (induction ps) auto

lemma retention_cycle_purges:
  "\<exists>A B. A \<subseteq> set (handled_policies d) \<and> B \<subseteq> set (handled_policies d)
     \<and> purged A B d (snd (run_tenant_retention_cycle elastic d))
     \<and> (no_faults d \<longrightarrow> A = set (handled_policies d) \<and> B = set (handled_policies d)
         \<and> (snd (fst (run_tenant_retention_cycle elastic d)) \<longleftrightarrow> (\<forall>p \<in> set (db_compliance d). dated (db_now d) p)))"
proof -
  let ?d = "d \<lparr> db_calls := db_calls d + 1 \<rparr>" let ?ps = "foldr insert_by_tenant (db_compliance d) []"
  have start: "purged {} {} d ?d" by (simp add: purged_refl)
  show ?thesis
  proof (cases "db_fault d (db_calls d)")
    case True
    then have "snd (run_tenant_retention_cycle elastic d) = ?d"
      by (simp add: run_tenant_retention_cycle_def list_compliance_policies_def select_cases)
    then show ?thesis using start True by (intro exI[of _ "{}"]) (auto simp: no_faults_def)
  next
    case False
    then have s: "snd (run_tenant_retention_cycle elastic d) = snd (retain_all ?ps ?d)"
      "snd (fst (run_tenant_retention_cycle elastic d)) = snd (fst (retain_all ?ps ?d))"
      by (simp_all add: run_tenant_retention_cycle_def list_compliance_policies_def select_cases split: prod.split)
    have n: "no_faults ?d = no_faults d" "set (takeWhile (dated (db_now ?d)) ?ps) = set (handled_policies d)"
      "list_all (dated (db_now ?d)) ?ps = (\<forall>p \<in> set (db_compliance d). dated (db_now d) p)"
      by (simp_all add: no_faults_def handled_policies_def list_all_iff policies_listed)
    from retain_all_purges[of ?d ?ps] obtain A B where "A \<subseteq> set (handled_policies d)" "B \<subseteq> set (handled_policies d)"
      "purged A B ?d (snd (retain_all ?ps ?d))" "no_faults d \<longrightarrow> A = set (handled_policies d) \<and> B = set (handled_policies d)"
      "snd (fst (retain_all ?ps ?d)) = (\<forall>p \<in> set (db_compliance d). dated (db_now d) p)"
      unfolding n by blast
    moreover from this(3) have "purged A B d (snd (run_tenant_retention_cycle elastic d))"
      using purged_trans[OF start] s by fastforce
    ultimately show ?thesis using s(2) by blast
  qed
qed

end
