(* ===== verification/Costs.thy ===== *)
theory Costs
  imports App
begin

text \<open>Data-cost control (\<open>costs.rs\<close>, \<open>db/models/data\_cost.rs\<close>, \<open>api/handlers/cost.rs\<close>): the keys
of the usage counters, the classification of a log, the decision to keep, sample or drop it, the
accounting and the dashboard.  The date of an instant, the standard hasher, the serializer of a
policy and the two-digit format of a ratio are parameters.  The \<open>f64\<close> quotient of two integers
is an exact rational here; where the code compares it, it compares it with 1.\<close>

section \<open>Requests and decisions\<close>

record ingest_request =
  iq_event_type :: string
  iq_source_ip :: string
  iq_target_user :: "string option"
  iq_service :: "string option"
  iq_message :: string
  iq_severity :: "log_severity option"
  iq_timestamp :: "instant option"
  iq_metadata :: "json option"

record cost_decision =
  kd_action :: string
  kd_keep :: bool
  kd_sampled :: bool
  kd_dropped :: bool
  kd_rate :: int
  kd_reason :: string
  kd_bytes :: nat
  kd_source :: string
  kd_integration :: string
  kd_team :: string

record cost_ext =
  kx_day :: "instant \<Rightarrow> string"
  kx_hash :: "string \<Rightarrow> nat"
  kx_ser :: "cost_policy \<Rightarrow> string"
  kx_de :: "string \<Rightarrow> cost_policy option"
  kx_ratio :: "rat \<Rightarrow> string"

section \<open>Keys\<close>

definition policy_cache_key :: "string \<Rightarrow> string" where
  "policy_cache_key t = ''siem:tenant:'' @ t @ '':cost:policy''"

definition usage_key :: "string \<Rightarrow> string \<Rightarrow> string \<Rightarrow> string" where
  "usage_key day t what = ''siem:tenant:'' @ t @ '':cost:'' @ day @ '':'' @ what"

definition rank_key :: "string \<Rightarrow> string \<Rightarrow> string \<Rightarrow> string" where
  "rank_key day t dm = ''siem:tenant:'' @ t @ '':cost:'' @ day @ '':'' @ dm @ '':rank''"

definition dimension_key :: "string \<Rightarrow> string \<Rightarrow> string \<Rightarrow> string \<Rightarrow> string \<Rightarrow> string" where
  "dimension_key day t dm k what =
     ''siem:tenant:'' @ t @ '':cost:'' @ day @ '':'' @ dm @ '':'' @ k @ '':'' @ what"

section \<open>Classification\<close>

definition classify_source :: "ingest_request \<Rightarrow> string" where
  "classify_source q = (if iq_source_ip q = [] then ''unknown'' else iq_source_ip q)"

definition classify_integration :: "ingest_request \<Rightarrow> string" where
  "classify_integration q = (case iq_service q of
      Some v \<Rightarrow> if trim v \<noteq> [] then v else iq_event_type q
    | None \<Rightarrow> iq_event_type q)"

definition classify_team :: "ingest_request \<Rightarrow> string" where
  "classify_team q = (case iq_metadata q of None \<Rightarrow> ''unassigned''
     | Some m \<Rightarrow> (case Option.bind (json_get m ''team'') as_str of Some v \<Rightarrow> v
         | None \<Rightarrow> (case Option.bind (json_get m ''team_id'') as_str of Some v \<Rightarrow> v
             | None \<Rightarrow> (case Option.bind (json_get m ''owner_team'') as_str of Some v \<Rightarrow> v
                 | None \<Rightarrow> ''unassigned''))))"

definition opt_length :: "'a list option \<Rightarrow> nat" where
  "opt_length x = (case x of None \<Rightarrow> 0 | Some s \<Rightarrow> length s)"

definition estimated_cost_bytes :: "'s env \<Rightarrow> ingest_request \<Rightarrow> nat" where
  "estimated_cost_bytes E q = length (iq_event_type q) + length (iq_source_ip q) + length (iq_message q)
     + opt_length (iq_target_user q) + opt_length (iq_service q)
     + (case iq_metadata q of None \<Rightarrow> 0 | Some m \<Rightarrow> length (ev_json E m))"

definition severity_of :: "ingest_request \<Rightarrow> log_severity" where
  "severity_of q = option_or LInfo (iq_severity q)"

definition is_low_value_event :: "ingest_request \<Rightarrow> bool" where
  "is_low_value_event q \<longleftrightarrow> (let ty = to_lowercase (iq_event_type q); msg = to_lowercase (iq_message q) in
     severity_of q = LDebug \<or> severity_of q = LInfo
     \<or> contains ty ''heartbeat'' \<or> contains ty ''metrics'' \<or> contains ty ''debug''
     \<or> contains ty ''health'' \<or> contains msg ''health check'' \<or> contains msg ''keepalive'')"

definition is_severe :: "ingest_request \<Rightarrow> bool" where
  "is_severe q \<longleftrightarrow> severity_of q = LHigh \<or> severity_of q = LCritical"

section \<open>Schema rules\<close>

definition str_items :: "json \<Rightarrow> string list" where
  "str_items v = (case v of JArr xs \<Rightarrow> List.map_filter as_str xs | _ \<Rightarrow> [])"

definition value_is :: "json option \<Rightarrow> string \<Rightarrow> bool" where
  "value_is v s \<longleftrightarrow> Option.bind v as_str = Some s"

definition value_has :: "json option \<Rightarrow> string \<Rightarrow> bool" where
  "value_has v s \<longleftrightarrow> (case v of None \<Rightarrow> False | Some j \<Rightarrow> s \<in> set (str_items j))"

definition schema_rule_matches :: "ingest_request \<Rightarrow> string \<Rightarrow> string \<Rightarrow> json option \<Rightarrow> bool" where
  "schema_rule_matches q field op v =
     (if field = ''event_type'' then
        (if op = ''=='' then value_is v (iq_event_type q)
         else if op = ''in'' then value_has v (iq_event_type q) else False)
      else if field = ''severity'' then
        (if op = ''=='' then value_is v (show_log_severity (severity_of q))
         else if op = ''in'' then value_has v (show_log_severity (severity_of q)) else False)
      else if field = ''message'' then
        (if op = ''contains'' then (case Option.bind v as_str of None \<Rightarrow> False
             | Some n \<Rightarrow> contains (to_lowercase (iq_message q)) (to_lowercase n)) else False)
      else if field = ''service'' then
        (if op = ''=='' then (case Option.bind v as_str of None \<Rightarrow> False
             | Some e \<Rightarrow> iq_service q = Some e) else False)
      else False)"

definition rule_text :: "json \<Rightarrow> string \<Rightarrow> string" where
  "rule_text r k = option_or [] (Option.bind (json_get r k) as_str)"

fun first_schema_match :: "ingest_request \<Rightarrow> json list \<Rightarrow> string option" where
  "first_schema_match q [] = None"
| "first_schema_match q (r # rs) =
     (if schema_rule_matches q (rule_text r ''field'') (rule_text r ''op'') (json_get r ''value'')
      then Some (''schema rule matched '' @ rule_text r ''field'' @ '' '' @ rule_text r ''op'')
      else first_schema_match q rs)"

definition schema_drop_reason :: "ingest_request \<Rightarrow> cost_policy \<Rightarrow> string option" where
  "schema_drop_reason q p = (case kp_schema_rules p of
      JArr rs \<Rightarrow> first_schema_match q rs | _ \<Rightarrow> None)"

definition current_pressure :: "nat \<Rightarrow> int \<Rightarrow> rat" where
  "current_pressure c budget = (if budget \<le> 0 then 0
     else of_nat (f64_of_nat 0 c) / f64_of_int budget)"

section \<open>Policies\<close>

definition load_tenant_cost_policy ::
  "'s env \<Rightarrow> cost_ext \<Rightarrow> string \<Rightarrow> (cost_policy, 's) step" where
  "load_tenant_cost_policy E K t =
     bind_ok (via_cache (get_string (ev_rd E) (policy_cache_key t))) (\<lambda>raw.
     case Option.bind raw (kx_de K) of
       Some p \<Rightarrow> ok p
     | None \<Rightarrow> bind_ok (via_db (get_cost_policy t)) (\<lambda>p s.
         ok p (ignore (via_cache (set_string (ev_rd E) (policy_cache_key t) (kx_ser K p) (Some 900))) s)))"

definition save_tenant_cost_policy ::
  "'s env \<Rightarrow> cost_ext \<Rightarrow> cost_policy \<Rightarrow> (cost_policy, 's) step" where
  "save_tenant_cost_policy E K p =
     bind_ok (via_db (upsert_cost_policy p)) (\<lambda>r s.
       ok r (ignore (via_cache (set_string (ev_rd E) (policy_cache_key (kp_tenant r)) (kx_ser K r)
         (Some 900))) s))"

section \<open>The decision\<close>

definition clamp_percent :: "int \<Rightarrow> int" where
  "clamp_percent x = max 1 (min 100 x)"

definition sample_bucket :: "cost_ext \<Rightarrow> string \<Rightarrow> ingest_request \<Rightarrow> int" where
  "sample_bucket K t q = int (kx_hash K (t @ '':'' @ iq_source_ip q @ '':'' @ iq_event_type q @ '':''
      @ iq_message q) mod 100) + 1"

definition dimension_budget :: "json \<Rightarrow> string \<Rightarrow> int \<Rightarrow> int" where
  "dimension_budget budgets k d = option_or d (Option.bind (json_get budgets k) as_i64)"

text \<open>What is decided once the pressure is known.\<close>

definition decide ::
  "'s env \<Rightarrow> cost_ext \<Rightarrow> string \<Rightarrow> ingest_request \<Rightarrow> cost_policy \<Rightarrow> rat \<Rightarrow> cost_decision" where
  "decide E K t q p pressure =
     (let low = is_low_value_event q; severe = is_severe q;
          base = \<lparr> kd_action = ''keep'', kd_keep = True, kd_sampled = False, kd_dropped = False,
                   kd_rate = clamp_percent (kp_high_percent p), kd_reason = ''kept'',
                   kd_bytes = estimated_cost_bytes E q, kd_source = classify_source q,
                   kd_integration = classify_integration q, kd_team = classify_team q \<rparr>;
          d1 = (case schema_drop_reason q p of
                  None \<Rightarrow> base
                | Some r \<Rightarrow> if kp_drop_low_value p \<or> low
                    then base \<lparr> kd_action := ''dropped'', kd_keep := False, kd_dropped := True,
                                kd_reason := r, kd_rate := 0 \<rparr>
                    else base);
          d2 = (if \<not> kd_keep d1 then d1
                else (let d = (if severe then d1 \<lparr> kd_rate := clamp_percent (kp_high_percent p) \<rparr>
                               else if low \<or> pressure \<ge> 1
                               then d1 \<lparr> kd_rate := clamp_percent (kp_low_percent p) \<rparr> else d1)
                      in if kp_sampling_enabled p \<and> sample_bucket K t q > kd_rate d
                            \<and> (low \<or> pressure \<ge> 1)
                         then d \<lparr> kd_action := ''sampled'', kd_keep := False, kd_sampled := True,
                                  kd_reason := ''sampled at '' @ show_int (kd_rate d)
                                    @ ''% due to pressure '' @ kx_ratio K pressure \<rparr>
                         else d))
      in if \<not> kd_keep d2 \<and> \<not> kd_sampled d2 \<and> \<not> kd_dropped d2
         then d2 \<lparr> kd_reason := ''dropped by cost controller'' \<rparr> else d2)"

definition read_usage :: "'s env \<Rightarrow> string \<Rightarrow> (nat, 's) step" where
  "read_usage E key = bind_ok (via_cache (get_counter (ev_rd E) key)) (\<lambda>n. ok (option_or 0 n))"

definition evaluate_cost_decision ::
  "'s env \<Rightarrow> cost_ext \<Rightarrow> string \<Rightarrow> ingest_request \<Rightarrow> (cost_policy \<times> cost_decision, 's) step" where
  "evaluate_cost_decision E K t q =
     bind_ok (load_tenant_cost_policy E K t) (\<lambda>p s0.
     let day = kx_day K (app_now s0) in
     bind_ok (read_usage E (usage_key day t ''bytes'')) (\<lambda>c.
     bind_ok (read_usage E (dimension_key day t ''source'' (classify_source q) ''bytes'')) (\<lambda>cs.
     bind_ok (read_usage E (dimension_key day t ''integration'' (classify_integration q) ''bytes'')) (\<lambda>ci.
     bind_ok (read_usage E (dimension_key day t ''team'' (classify_team q) ''bytes'')) (\<lambda>ct.
       let daily = kp_daily_budget p;
           pressure = max (max (max (current_pressure c daily)
             (current_pressure cs (dimension_budget (kp_source_budgets p) (classify_source q) daily)))
             (current_pressure ci (dimension_budget (kp_integration_budgets p) (classify_integration q) daily)))
             (current_pressure ct (dimension_budget (kp_team_budgets p) (classify_team q) daily))
       in ok (p, decide E K t q p pressure))))) s0)"

section \<open>Accounting\<close>

definition day_seconds :: nat where "day_seconds = 86400"

text \<open>Every update of the accounting is best effort: its error is dropped.\<close>

definition count_bytes :: "'s env \<Rightarrow> string \<Rightarrow> nat \<Rightarrow> 's app \<Rightarrow> 's app" where
  "count_bytes E key n = ignore (via_cache (incr_by (ev_rd E) key n day_seconds))"

definition count_one :: "'s env \<Rightarrow> string \<Rightarrow> 's app \<Rightarrow> 's app" where
  "count_one E key = ignore (via_cache (increment_counter (ev_rd E) key day_seconds))"

definition count_rank :: "'s env \<Rightarrow> string \<Rightarrow> string \<Rightarrow> nat \<Rightarrow> 's app \<Rightarrow> 's app" where
  "count_rank E key m n = ignore (via_cache (zincrby (ev_rd E) key m (of_nat (f64_of_nat 0 n))))"

definition dimensions :: "cost_decision \<Rightarrow> (string \<times> string) list" where
  "dimensions d = [(''source'', kd_source d), (''integration'', kd_integration d), (''team'', kd_team d)]"

definition count_outcome :: "'s env \<Rightarrow> string \<Rightarrow> string \<Rightarrow> cost_decision \<Rightarrow> string \<Rightarrow> 's app \<Rightarrow> 's app" where
  "count_outcome E day t d what =
     fold (\<lambda>(dm, k). count_one E (dimension_key day t dm k what)) (dimensions d)
     \<circ> count_one E (usage_key day t what)"

definition record_cost_usage ::
  "'s env \<Rightarrow> cost_ext \<Rightarrow> string \<Rightarrow> cost_decision \<Rightarrow> 's app \<Rightarrow> 's app" where
  "record_cost_usage E K t d s0 =
     (let day = kx_day K (app_now s0);
          s1 = count_one E (usage_key day t ''logs'') (count_bytes E (usage_key day t ''bytes'') (kd_bytes d) s0);
          s2 = fold (\<lambda>(dm, k) s. count_one E (dimension_key day t dm k ''logs'')
                  (count_bytes E (dimension_key day t dm k ''bytes'') (kd_bytes d) s)) (dimensions d) s1;
          s3 = fold (\<lambda>(dm, k). count_rank E (rank_key day t dm) k (kd_bytes d)) (dimensions d) s2;
          s4 = (if kd_sampled d then count_outcome E day t d ''sampled'' s3 else s3)
      in if kd_dropped d then count_outcome E day t d ''dropped'' s4 else s4)"

section \<open>The dashboard\<close>

record dimension_usage =
  du_dimension :: string
  du_key :: string
  du_bytes :: nat
  du_logs :: nat
  du_sampled :: nat
  du_dropped :: nat

record cost_dashboard =
  cb_tenant :: string
  cb_policy :: cost_policy
  cb_bytes :: nat
  cb_logs :: nat
  cb_sampled :: nat
  cb_dropped :: nat
  cb_tenant_pressure :: rat
  cb_hot_pressure :: rat
  cb_warm_pressure :: rat
  cb_cold_pressure :: rat
  cb_sources :: "dimension_usage list"
  cb_integrations :: "dimension_usage list"
  cb_teams :: "dimension_usage list"

definition f64_as_u64 :: "rat \<Rightarrow> nat" where
  "f64_as_u64 x = min (nat \<lfloor>x\<rfloor>) (2 ^ 64 - 1)"

definition dimension_rows :: "string \<Rightarrow> (string \<times> rat) list \<Rightarrow> dimension_usage list" where
  "dimension_rows dm xs = map (\<lambda>(k, b). \<lparr> du_dimension = dm, du_key = k,
     du_bytes = f64_as_u64 (max b 0), du_logs = 0, du_sampled = 0, du_dropped = 0 \<rparr>) xs"

definition usage_or_zero :: "'s env \<Rightarrow> string \<Rightarrow> 's app \<Rightarrow> nat \<times> 's app" where
  "usage_or_zero E key s = (case via_cache (get_counter (ev_rd E) key) s of
      (r, s') \<Rightarrow> (option_or 0 (result_or None r), s'))"

fun enrich_dimension_rows ::
  "'s env \<Rightarrow> string \<Rightarrow> string \<Rightarrow> string \<Rightarrow> dimension_usage list \<Rightarrow> 's app \<Rightarrow> dimension_usage list \<times> 's app" where
  "enrich_dimension_rows E day t dm [] s = ([], s)"
| "enrich_dimension_rows E day t dm (r # rs) s =
     (case usage_or_zero E (dimension_key day t dm (du_key r) ''logs'') s of (a, s1) \<Rightarrow>
     (case usage_or_zero E (dimension_key day t dm (du_key r) ''sampled'') s1 of (b, s2) \<Rightarrow>
     (case usage_or_zero E (dimension_key day t dm (du_key r) ''dropped'') s2 of (c, s3) \<Rightarrow>
     (case enrich_dimension_rows E day t dm rs s3 of (rs', s4) \<Rightarrow>
        (r \<lparr> du_logs := a, du_sampled := b, du_dropped := c \<rparr> # rs', s4)))))"

definition top_rows ::
  "'s env \<Rightarrow> string \<Rightarrow> string \<Rightarrow> string \<Rightarrow> 's app \<Rightarrow> dimension_usage list \<times> 's app" where
  "top_rows E day t dm s = (case via_cache (zrevrange_withscores (ev_rd E) (rank_key day t dm) 0 9) s of
      (r, s') \<Rightarrow> (dimension_rows dm (result_or [] r), s'))"

definition build_cost_dashboard :: "'s env \<Rightarrow> cost_ext \<Rightarrow> string \<Rightarrow> (cost_dashboard, 's) step" where
  "build_cost_dashboard E K t =
     bind_ok (load_tenant_cost_policy E K t) (\<lambda>p s0.
     let day = kx_day K (app_now s0) in
     bind_ok (read_usage E (usage_key day t ''bytes'')) (\<lambda>bytes.
     bind_ok (read_usage E (usage_key day t ''logs'')) (\<lambda>logs.
     bind_ok (read_usage E (usage_key day t ''sampled'')) (\<lambda>sampled.
     bind_ok (read_usage E (usage_key day t ''dropped'')) (\<lambda>dropped s.
       case top_rows E day t ''source'' s of (srcs, s1) \<Rightarrow>
       (case top_rows E day t ''integration'' s1 of (ints, s2) \<Rightarrow>
       (case top_rows E day t ''team'' s2 of (tms, s3) \<Rightarrow>
       (case enrich_dimension_rows E day t ''source'' srcs s3 of (srcs', s4) \<Rightarrow>
       (case enrich_dimension_rows E day t ''integration'' ints s4 of (ints', s5) \<Rightarrow>
       (case enrich_dimension_rows E day t ''team'' tms s5 of (tms', s6) \<Rightarrow>
       ok \<lparr> cb_tenant = t, cb_policy = p, cb_bytes = bytes, cb_logs = logs, cb_sampled = sampled,
            cb_dropped = dropped,
            cb_tenant_pressure = current_pressure bytes (kp_daily_budget p),
            cb_hot_pressure = current_pressure bytes (kp_hot_budget p),
            cb_warm_pressure = current_pressure bytes (kp_warm_budget p),
            cb_cold_pressure = current_pressure bytes (kp_cold_budget p),
            cb_sources = srcs', cb_integrations = ints', cb_teams = tms' \<rparr> s6))))))))) s0)"

section \<open>Endpoints\<close>

record cost_update =
  ku_daily :: "int option"
  ku_hot :: "int option"
  ku_warm :: "int option"
  ku_cold :: "int option"
  ku_sampling :: "bool option"
  ku_low :: "int option"
  ku_high :: "int option"
  ku_drop :: "bool option"
  ku_schema :: "json option"
  ku_sources :: "json option"
  ku_integrations :: "json option"
  ku_teams :: "json option"

definition apply_cost_update :: "cost_update \<Rightarrow> cost_policy \<Rightarrow> cost_policy" where
  "apply_cost_update u p = p
     \<lparr> kp_daily_budget := option_or (kp_daily_budget p) (ku_daily u),
       kp_hot_budget := option_or (kp_hot_budget p) (ku_hot u),
       kp_warm_budget := option_or (kp_warm_budget p) (ku_warm u),
       kp_cold_budget := option_or (kp_cold_budget p) (ku_cold u),
       kp_sampling_enabled := option_or (kp_sampling_enabled p) (ku_sampling u),
       kp_low_percent := option_or (kp_low_percent p) (ku_low u),
       kp_high_percent := option_or (kp_high_percent p) (ku_high u),
       kp_drop_low_value := option_or (kp_drop_low_value p) (ku_drop u),
       kp_schema_rules := option_or (kp_schema_rules p) (ku_schema u),
       kp_source_budgets := option_or (kp_source_budgets p) (ku_sources u),
       kp_integration_budgets := option_or (kp_integration_budgets p) (ku_integrations u),
       kp_team_budgets := option_or (kp_team_budgets p) (ku_teams u) \<rparr>"

definition get_cost_policy_handler ::
  "'s env \<Rightarrow> cost_ext \<Rightarrow> claims option \<Rightarrow> (cost_policy, 's) handler" where
  "get_cost_policy_handler E K cls = with_claims cls (\<lambda>cl.
     bind_ok (require 403 (is_analyst cl)) (\<lambda>_.
     bind_ok (or_status 500 (load_tenant_cost_policy E K (cl_tenant cl))) (\<lambda>p. reply 200 p)))"

definition update_cost_policy_handler ::
  "'s env \<Rightarrow> cost_ext \<Rightarrow> claims option \<Rightarrow> cost_update \<Rightarrow> (cost_policy, 's) handler" where
  "update_cost_policy_handler E K cls u = with_claims cls (\<lambda>cl.
     bind_ok (require 403 (is_analyst cl)) (\<lambda>_.
     bind_ok (enforce_tenant_fixed_window E (cl_tenant cl) ''rule_mutations''
                (tl_rule_mutations (ev_limits E)) 1) (\<lambda>_.
     bind_ok (or_status 500 (load_tenant_cost_policy E K (cl_tenant cl))) (\<lambda>p.
     bind_ok (or_status 500 (save_tenant_cost_policy E K (apply_cost_update u p))) (\<lambda>r s.
       reply 200 r (ignore (record_cost_audit E cl ''data_cost.policy_update'' (Some (kp_tenant r))
         (JObj [(''daily_ingest_bytes_budget'', json_int (kp_daily_budget r)),
                     (''sampling_enabled'', JBool (kp_sampling_enabled r))])) s))))))"

definition cost_dashboard_handler ::
  "'s env \<Rightarrow> cost_ext \<Rightarrow> claims option \<Rightarrow> (cost_dashboard, 's) handler" where
  "cost_dashboard_handler E K cls = with_claims cls (\<lambda>cl.
     bind_ok (require 403 (is_analyst cl)) (\<lambda>_.
     bind_ok (enforce_tenant_fixed_window E (cl_tenant cl) ''api_requests''
                (tl_api_requests (ev_limits E)) 1) (\<lambda>_.
     bind_ok (or_status 500 (build_cost_dashboard E K (cl_tenant cl))) (\<lambda>d. reply 200 d))))"

end
