(* ===== verification/Api_Samples.thy ===== *)
theory Api_Samples
  imports App Samples
begin

text \<open>Concrete values of the parameters of the request handlers, for the witnesses.\<close>

definition sample_limits :: tenant_limits where
  "sample_limits = \<lparr> tl_api_requests = 5, tl_ingest_events = 5, tl_rule_mutations = 5,
     tl_ws_connections = 5, tl_audit_queries = 5 \<rparr>"

definition sample_env :: "keyspace env" where
  "sample_env = \<lparr> ev_rd = mem_redis, ev_limits = sample_limits, ev_signing_key = ''k'',
     ev_uuid = show_nat, ev_time = show_int, ev_sha256 = (\<lambda>s. s), ev_hmac = (\<lambda>k s. Some (k @ s)),
     ev_json = (\<lambda>_. ''{}'') \<rparr>"

definition sample_claims :: "string \<Rightarrow> string list \<Rightarrow> claims" where
  "sample_claims t roles = \<lparr> cl_sub = ''u1'', cl_tenant = t, cl_email = ''a@b'', cl_roles = roles,
     cl_iss = ''i'', cl_aud = ''a'', cl_token_use = None, cl_jti = None, cl_exp = 100, cl_iat = 0 \<rparr>"

definition sample_app :: "db \<Rightarrow> keyspace app" where
  "sample_app d = \<lparr> ap_cache = rcache_new ks_empty (db_now d), ap_db = d \<rparr>"

lemma sample_env_simps [simp]:
  "ev_rd sample_env = mem_redis" "ev_limits sample_env = sample_limits" "ev_signing_key sample_env = ''k''"
  "ev_uuid sample_env = show_nat" "ev_sha256 sample_env s = s" "ev_hmac sample_env k s = Some (k @ s)"
  "ev_json sample_env j = ''{}''"
  by (simp_all add: sample_env_def)

lemma sample_claims_simps [simp]:
  "cl_tenant (sample_claims t roles) = t" "cl_roles (sample_claims t roles) = roles"
  "cl_sub (sample_claims t roles) = ''u1''" "cl_email (sample_claims t roles) = ''a@b''"
  "cl_token_use (sample_claims t roles) = None" "cl_jti (sample_claims t roles) = None"
  by (simp_all add: sample_claims_def)

lemma sample_app_simps [simp]:
  "ap_db (sample_app d) = d" "ap_cache (sample_app d) = rcache_new ks_empty (db_now d)"
  by (simp_all add: sample_app_def)

end
