(* ===== verification/Storage_Properties.thy ===== *)
theory Storage_Properties
  imports Audit_Chain Retention Costs Api_Samples
begin

text \<open>What the stored data promises: the audit trail is a signed hash chain,
cases keep their history, escalation and retention do what their policies say, and the decision on
the cost of a log follows the policy.\<close>

section \<open>Alerts\<close>

lemma find_snoc_fresh: "\<forall>x \<in> set xs. \<not> P x \<Longrightarrow> P y \<Longrightarrow> List.find P (xs @ [y]) = Some y"
  by (induction xs) auto

text \<open>An alert that is stored and read back by its tenant and id has its columns as they were, the instants
cut to microseconds.  The conversion of the events to JSON and back is not modelled: the column holds the events.\<close>

lemma alert_roundtrip:
  assumes "no_faults d" "alert_fits a" "a_id a \<notin> set (map ar_id (db_alerts d))" "a_events_count a < 2 ^ 31"
  shows "fst (bind_ok (create_alert a) (\<lambda>_. get_alert (a_tenant a) (a_id a)) d)
     = Inr (Some (a \<lparr> a_first_seen := pg_time (a_first_seen a), a_last_seen := pg_time (a_last_seen a) \<rparr>))"
proof -
  let ?P = "\<lambda>r. ar_tenant r = a_tenant a \<and> ar_id r = a_id a"
  have "\<forall>r \<in> set (db_alerts d). \<not> ?P r" using assms(3) by force
  moreover have "?P (row_of_alert a)" by (simp add: row_of_alert_def)
  ultimately have "List.find ?P (db_alerts d @ [row_of_alert a]) = Some (row_of_alert a)"
    by (rule find_snoc_fresh)
  then show ?thesis using assms
    by (simp add: bind_ok_def create_alert_def insert_alerts_def stmt_def Let_def no_faults_def get_alert_def
        select_cases first_row_def alert_row_roundtrip)
qed

lemma alert_roundtrip_witness:
  "fst (bind_ok (create_alert (alert_new 1 1234 ''t'' ''r'' ''n'' High ''d'' ''1.1.1.1'' []))
      (\<lambda>_. get_alert ''t'' 1) (db_empty 0))
     = Inr (Some (alert_new 1 1000 ''t'' ''r'' ''n'' High ''d'' ''1.1.1.1'' []))"
  using alert_roundtrip[of "db_empty 0" "alert_new 1 1234 ''t'' ''r'' ''n'' High ''d'' ''1.1.1.1'' []"]
  by (simp add: alert_new_def no_faults_def db_empty_def alert_fits_def pg_time_def)

section \<open>The audit trail\<close>

text \<open>Recording an audit event keeps every tenant's trail a chain, whether or not a statement fails:
each event names the hash of its predecessor, carries the hash of its payload on top of it and a
valid signature.  The clock has to move between two events of one tenant.\<close>

theorem audit_chain_kept:
  assumes "audit_chain E t (ap_db s)" "audit_chain E (cl_tenant cl) (ap_db s)"
    and "\<forall>e \<in> set (audit_of (cl_tenant cl) (ap_db s)). ae_created e < pg_time (app_now s)"
  shows "audit_chain E t (ap_db (snd (record_audit E cl act rty rid target meta s)))"
  by (rule record_keeps_chain[OF assms])

lemma audit_chain_kept_witness:
  "audit_chain sample_env ''t'' (ap_db (snd (record_audit sample_env (sample_claims ''t'' []) ''a'' ''case'' None None
     JNull (sample_app (db_empty 5000)))))"
  by (rule audit_chain_kept) (simp_all add: audit_chain_def audit_of_def db_empty_def)

text \<open>C18. What was recorded cannot be replaced unnoticed: when two histories of audit requests, each started on an empty
trail, leave as many events of a tenant and the same latest hash - what the next request chains to - then the
events hold the same payloads, in the same order, as long as the JSON printer and the hash do not collide on what was
hashed along the two trails.\<close>

theorem audit_tamper_evident:
  assumes "db_audit (ap_db s) = []" "db_audit (ap_db s') = []" "paced rs" "paced rs'"
    and "es = audit_of t (ap_db (record_events E rs s))" "es' = audit_of t (ap_db (record_events E rs' s'))"
    and "length es = length es'"
    and "fst (latest_audit_hash t (ap_db (record_events E rs s))) = Inr h"
    and "fst (latest_audit_hash t (ap_db (record_events E rs' s'))) = Inr h"
    and "inj_on (ev_json E) (ae_metadata ` (set es \<union> set es'))"
    and "inj_on (ev_sha256 E) (audit_inputs E es \<union> audit_inputs E es')"
    and "\<forall>x \<in> audit_inputs E es \<union> audit_inputs E es'. \<forall>y \<in> audit_inputs E es \<union> audit_inputs E es'.
      length (ev_sha256 E x) = length (ev_sha256 E y)"
  shows "map ae_metadata es = map ae_metadata es'"
proof -
  note L = recorded_links[OF assms(1,3,8)] and L' = recorded_links[OF assms(2,4,9)]
  have "chain_end None es = chain_end None es'" unfolding assms(5,6) L(2) L'(2) ..
  from chain_binds[OF L(1)[folded assms(5)] L'(1)[folded assms(6)] assms(7) this assms(10-12)] show ?thesis .
qed

lemma audit_tamper_evident_witness:
  "map ae_metadata (audit_of ''t'' (ap_db (record_events sample_env
     [(1000, sample_claims ''t'' [], ''a'', ''case'', None, None, JNull)] (sample_app (db_empty 0)))))
   = map ae_metadata (audit_of ''t'' (ap_db (record_events sample_env
     [(9000, sample_claims ''u'' [], ''b'', ''rule'', None, None, JNull), (2000, sample_claims ''t'' [], ''a'', ''case'', None, None, JNull)]
       (sample_app (db_empty 0)))))"
  (is "map _ ?es = map _ ?es'")
proof -
  note run = record_audit_def write_audit_def Let_def bind_ok_def or_status_def via_db_def fresh_uuid_def
    insert_audit_event_def stmt_def latest_audit_hash_def select_def newest_first_def wait_app_def sign_audit_hash_def db_empty_def
    audit_of_def sample_claims_def hash_audit_payload_def option_or_def
  obtain e e' where es: "?es = [e]" "?es' = [e']" "ae_metadata e = ae_metadata e'" "audit_inputs sample_env [e] = audit_inputs sample_env [e']"
    "fst (latest_audit_hash ''t'' (ap_db (record_events sample_env
       [(1000, sample_claims ''t'' [], ''a'', ''case'', None, None, JNull)] (sample_app (db_empty 0))))) = Inr (Some (ae_event_hash e))"
    "fst (latest_audit_hash ''t'' (ap_db (record_events sample_env
       [(9000, sample_claims ''u'' [], ''b'', ''rule'', None, None, JNull), (2000, sample_claims ''t'' [], ''a'', ''case'', None, None, JNull)]
       (sample_app (db_empty 0))))) = Inr (Some (ae_event_hash e))"
    by (simp add: run audit_inputs_def)
  have "map ae_metadata [e] = map ae_metadata [e']"
    by (rule audit_tamper_evident[OF _ _ _ _ es(1)[symmetric] es(2)[symmetric] _ es(5,6)])
      (simp_all add: es(3) es(4)[symmetric] paced_def db_empty_def, simp_all add: audit_inputs_def)
  then show ?thesis by (simp only: es(1,2))
qed

section \<open>Cases\<close>

text \<open>Over any sequence of updates, by any handler and with any failures, every case keeps its
identity, the instants of its resolution and escalation are written once and never change, and a
case in a final or escalated status has the instant of it.\<close>

theorem case_history_kept:
  assumes "cases_ok d"
  shows "cases_ok (fold apply_update us d)
     \<and> list_all2 case_follows (db_cases d) (db_cases (fold apply_update us d))"
  by (rule updates_follow[OF assms])

definition sample_case :: "nat \<Rightarrow> string \<Rightarrow> instant \<Rightarrow> case_record" where
  "sample_case i st esc = \<lparr> ca_id = i, ca_tenant = ''t'', ca_alert_id = i, ca_title = ''x'', ca_summary = ''y'',
     ca_severity = ''HIGH'', ca_status = st, ca_owner_id = Some ''u'', ca_owner_email = None,
     ca_playbook_id = None, ca_sla_due = None, ca_escalation = Some esc, ca_escalated = None,
     ca_resolved = None, ca_outcome = None, ca_postmortem = None, ca_created = 0, ca_updated = 0 \<rparr>"

lemma case_history_kept_witness:
  "cases_ok (fold apply_update [(1000, ''t'', 1, no_changes \<lparr> cc_status := Some C_Resolved \<rparr>),
      (2000, ''t'', 1, no_changes \<lparr> cc_status := Some C_New \<rparr>)] (db_empty 0 \<lparr> db_cases := [sample_case 1 ''NEW'' 9] \<rparr>))"
proof -
  have "parse_case_status ''NEW'' = Some C_New" using parse_show_case_status[of C_New] by simp
  then have "cases_ok (db_empty 0 \<lparr> db_cases := [sample_case 1 ''NEW'' 9] \<rparr>)"
    by (simp add: cases_ok_def case_ok_def sample_case_def is_final_status_def)
  then show ?thesis using case_history_kept by blast
qed

text \<open>C19. One escalation pass over a database that answers escalates exactly the overdue cases, returns
their number, touches no other case, and leaves nothing overdue.\<close>

theorem escalation_complete:
  assumes "no_faults d" "distinct (map ca_id (db_cases d))"
  shows "\<exists>d'. escalate_overdue_cases d = (Inr (length (filter (is_overdue (pg_time (db_now d))) (db_cases d))), d')
     \<and> no_faults d' \<and> overdue_cases d' = []
     \<and> db_cases d' = map (\<lambda>c. if is_overdue (pg_time (db_now d)) c then escalated (db_now d) c else c) (db_cases d)"
  by (rule escalation_pass[OF assms])

lemma escalation_complete_witness:
  "\<exists>d'. escalate_overdue_cases (db_empty 5000 \<lparr> db_cases := [sample_case 1 ''NEW'' 9, sample_case 2 ''NEW'' 9000] \<rparr>)
     = (Inr 1, d') \<and> overdue_cases d' = []"
  using escalation_complete[of "db_empty 5000 \<lparr> db_cases := [sample_case 1 ''NEW'' 9, sample_case 2 ''NEW'' 9000] \<rparr>"]
  by (auto simp: no_faults_def db_empty_def sample_case_def is_overdue_def pg_time_def)

text \<open>C13. Opening a case for an alert is idempotent: once it has succeeded, asking again, with any
arguments, gives the same case and writes nothing.\<close>

theorem create_case_idempotent:
  assumes "no_faults d" "create_case_from_alert sh a uid email title summ pid d = (Inr c, d')"
  shows "create_case_from_alert sh a uid' email' title' summ' pid' d'
     = (Inr c, d' \<lparr> db_calls := db_calls d' + 1 \<rparr>)"
  by (rule create_case_again[OF assms])

lemma create_case_idempotent_witness:
  "\<exists>c d'. create_case_from_alert show_nat (alert_new 1 0 ''t'' ''r'' ''n'' High ''d'' ''1.1.1.1'' []) None None None None None
       (db_empty 0) = (Inr c, d')
     \<and> create_case_from_alert show_nat (alert_new 1 0 ''t'' ''r'' ''n'' High ''d'' ''1.1.1.1'' []) (Some ''u'') None None
         None None d' = (Inr c, d' \<lparr> db_calls := db_calls d' + 1 \<rparr>)"
proof -
  let ?a = "alert_new 1 0 ''t'' ''r'' ''n'' High ''d'' ''1.1.1.1'' []"
  have "is_ok (fst (create_case_from_alert show_nat ?a None None None None None (db_empty 0)))"
    by (simp add: create_case_from_alert_def by_alert_query cases_of_alert_def db_empty_def bind_ok_def
        ensure_default_playbooks_def choose_playbook_def list_case_playbooks_def open_case_def select_cases
        execute_def stmt_def fresh_uuid_def insert_case_def new_case_def insert_link_def playbook_order_def
        ok_def is_ok_def alert_new_def Let_def)
  then obtain c d' where r: "create_case_from_alert show_nat ?a None None None None None (db_empty 0) = (Inr c, d')"
    by (cases "create_case_from_alert show_nat ?a None None None None None (db_empty 0)")
      (auto simp: is_ok_def split: sum.splits)
  have "no_faults (db_empty 0)" by (simp add: no_faults_def db_empty_def)
  from create_case_idempotent[OF this r] r show ?thesis by blast
qed

section \<open>Retention\<close>

text \<open>C28. A retention cycle keeps the order and content of the rows it keeps, and removes an alert or an
audit event only on behalf of a stored policy of its tenant that is not on hold and whose cutoff
it precedes.  It takes the policies by tenant and ends at the first one, not on hold, whose cutoff lies
before the range of \<open>chrono\<close>: the subtraction panics.  When no statement fails it removes all rows of the policies
before that one, and the task survives exactly when no policy is out of range.\<close>

theorem retention_cycle_exact:
  "\<exists>A B. A \<subseteq> set (handled_policies d) \<and> B \<subseteq> set (handled_policies d)
     \<and> purged A B d (snd (run_tenant_retention_cycle elastic d))
     \<and> (no_faults d \<longrightarrow> A = set (handled_policies d) \<and> B = set (handled_policies d)
         \<and> (snd (fst (run_tenant_retention_cycle elastic d)) \<longleftrightarrow> (\<forall>p \<in> set (db_compliance d). dated (db_now d) p)))"
  by (rule retention_cycle_purges)

lemma retention_cycle_exact_witness:
  "db_alerts (snd (run_tenant_retention_cycle False ((db_empty (days 100))
     \<lparr> db_compliance := [default_compliance ''t'' 0 \<lparr> cp_retention_days := 30 \<rparr>],
       db_alerts := [row_of_alert (alert_new 1 0 ''t'' ''r'' ''n'' High ''d'' ''1.1.1.1'' []),
                     row_of_alert (alert_new 2 0 ''u'' ''r'' ''n'' High ''d'' ''1.1.1.1'' [])] \<rparr>)))
   = [row_of_alert (alert_new 2 0 ''u'' ''r'' ''n'' High ''d'' ''1.1.1.1'' [])]"
proof -
  let ?d = "(db_empty (days 100))
     \<lparr> db_compliance := [default_compliance ''t'' 0 \<lparr> cp_retention_days := 30 \<rparr>],
       db_alerts := [row_of_alert (alert_new 1 0 ''t'' ''r'' ''n'' High ''d'' ''1.1.1.1'' []),
                     row_of_alert (alert_new 2 0 ''u'' ''r'' ''n'' High ''d'' ''1.1.1.1'' [])] \<rparr>"
  have "no_faults ?d" by (simp add: no_faults_def db_empty_def)
  moreover have "set (handled_policies ?d) = set (db_compliance ?d)"
    by (simp add: handled_policies_def dated_def retention_cutoff_def chrono_min_def days_def default_compliance_def
        db_empty_def Let_def)
  ultimately have "purged (set (db_compliance ?d)) (set (db_compliance ?d)) ?d (snd (run_tenant_retention_cycle False ?d))"
    using retention_cycle_exact[of ?d False] by metis
  then show ?thesis
    by (simp add: purged_def purges_def hold_active_def default_compliance_def retention_cutoff_def days_def chrono_min_def Let_def
        row_of_alert_def alert_new_def pg_time_def db_empty_def)
qed

section \<open>The cost decision\<close>

definition cost_strained :: "ingest_request \<Rightarrow> rat \<Rightarrow> bool" where
  "cost_strained q pressure \<longleftrightarrow> is_low_value_event q \<or> 1 \<le> pressure"

text \<open>The decision on a log: dropped when a schema rule matches and the policy drops such logs or the
log is of low value; else sampled away when sampling is on, the log is of low value or a budget is
used up, and its bucket lies above the rate; else kept.  The rate is a percentage, and a log of
high severity is never held to the low one.\<close>

theorem cost_decision_verdict:
  "let d = decide E K t q p pressure;
       out = schema_drop_reason q p \<noteq> None \<and> (kp_drop_low_value p \<or> is_low_value_event q);
       rate = (if \<not> is_severe q \<and> cost_strained q pressure then clamp_percent (kp_low_percent p)
               else clamp_percent (kp_high_percent p))
   in (kd_dropped d \<longleftrightarrow> out)
      \<and> (kd_sampled d \<longleftrightarrow> \<not> out \<and> kp_sampling_enabled p \<and> cost_strained q pressure \<and> rate < sample_bucket K t q)
      \<and> (kd_keep d \<longleftrightarrow> \<not> kd_dropped d \<and> \<not> kd_sampled d)
      \<and> kd_rate d = (if out then 0 else rate) \<and> 1 \<le> rate \<and> rate \<le> 100"
  by (auto simp: decide_def Let_def cost_strained_def clamp_percent_def split: option.splits)

text \<open>Under the default policy a log of a heartbeat, metrics or debug event is dropped whatever its
severity, and without any pressure on the budget.\<close>

theorem default_policy_drops_severe:
  assumes "iq_event_type q \<in> {''heartbeat'', ''metrics'', ''debug''}" "iq_severity q = Some LCritical"
  shows "kd_dropped (decide E K t q (default_cost t' now) 0) \<and> \<not> kd_keep (decide E K t q (default_cost t' now) 0)"
  using assms
  by (auto simp: decide_def Let_def default_cost_def schema_drop_reason_def default_schema_rules_def rule_text_def
      json_get_def as_str_def option_or_def schema_rule_matches_def value_has_def str_items_def
      List.map_filter_simps)

lemma default_policy_drops_severe_witness:
  "kd_dropped (decide sample_env \<lparr> kx_day = (\<lambda>_. ''d''), kx_hash = List.length, kx_ser = (\<lambda>_. []), kx_de = (\<lambda>_. None),
      kx_ratio = (\<lambda>_. ''0.00'') \<rparr> ''t'' \<lparr> iq_event_type = ''metrics'', iq_source_ip = ''1.1.1.1'', iq_target_user = None,
      iq_service = None, iq_message = ''disk on fire'', iq_severity = Some LCritical, iq_timestamp = None,
      iq_metadata = None \<rparr> (default_cost ''t'' 0) 0)"
  by (rule default_policy_drops_severe[THEN conjunct1]) simp_all

text \<open>The usage counters are 32 bits wide: no value they can take puts a budget of \<open>2^32\<close> bytes or
more under pressure, and the default budget is of that size.\<close>

theorem large_budget_never_strained:
  assumes "c < 2 ^ 32" "2 ^ 32 \<le> budget" "budget < 2 ^ 53"
  shows "current_pressure c budget < 1 \<and> current_pressure c (kp_daily_budget (default_cost t now)) < 1"
proof -
  have lt: "current_pressure c b < 1" if "2 ^ 32 \<le> b" "b < 2 ^ 53" for b :: int
  proof -
    have "int c < b" "0 < b" using assms(1) that(1) by (auto intro: less_le_trans)
    then have "of_nat c < (of_int b :: rat)" by (metis of_int_less_iff of_int_of_nat_eq)
    then show ?thesis using that assms(1) \<open>0 < b\<close> by (simp add: current_pressure_def)
  qed
  then show ?thesis using assms by (simp add: default_cost_def)
qed

lemma large_budget_never_strained_witness:
  "current_pressure 4294967295 25000000000 < 1"
  using large_budget_never_strained[of 4294967295 25000000000] by simp

end
