(* ===== verification/Packs.thy ===== *)
theory Packs
  imports App Engine
begin

text \<open>Content packs (\<open>api/handlers/packs.rs\<close>): the curated packs of detection rules, their summary for a
tenant, and their installation.  The objects of the JSON documents list their entries in key
order.\<close>

section \<open>Templates\<close>

record pack_rule_template =
  pr_name :: string
  pr_description :: string
  pr_type :: string
  pr_severity :: string
  pr_threshold :: "int option"
  pr_window :: "int option"
  pr_condition :: json
  pr_validated :: bool

record pack_playbook_step =
  ps_title :: string
  ps_action :: string
  ps_owner_role :: string
  ps_automated :: bool
  ps_description :: string

record pack_template =
  pk_slug :: string
  pk_vertical :: string
  pk_name :: string
  pk_description :: string
  pk_enrichment :: json
  pk_playbook :: "pack_playbook_step list"
  pk_rules :: "pack_rule_template list"

text \<open>Shorthands for the literals of the three packs.\<close>

definition leaf :: "string \<Rightarrow> string \<Rightarrow> json \<Rightarrow> json" where
  "leaf field op v = JObj [(''field'', JStr field), (''op'', JStr op), (''value'', v)]"

definition pack_step :: "string \<Rightarrow> string \<Rightarrow> string \<Rightarrow> bool \<Rightarrow> string \<Rightarrow> pack_playbook_step" where
  "pack_step title action owner automated descr = \<lparr> ps_title = title, ps_action = action,
     ps_owner_role = owner, ps_automated = automated, ps_description = descr \<rparr>"

definition pack_rule ::
  "string \<Rightarrow> string \<Rightarrow> string \<Rightarrow> string \<Rightarrow> int option \<Rightarrow> int option \<Rightarrow> json \<Rightarrow> bool \<Rightarrow> pack_rule_template" where
  "pack_rule name descr ty sev threshold window cond validated = \<lparr> pr_name = name,
     pr_description = descr, pr_type = ty, pr_severity = sev, pr_threshold = threshold,
     pr_window = window, pr_condition = cond, pr_validated = validated \<rparr>"

section \<open>The curated packs\<close>

definition cloud_iam_abuse_pack :: pack_template where
  "cloud_iam_abuse_pack = \<lparr> pk_slug = ''cloud-iam-abuse'',
     pk_vertical = ''Cloud IAM Abuse'', pk_name = ''Cloud IAM Abuse Pack'',
     pk_description = ''Detect privilege escalation, risky logins, and access-key abuse across cloud identity systems.'',
     pk_enrichment =
       JObj [(''enrichment_sources'', JArr [JStr ''cloud trail / audit logs'',
       JStr ''asset inventory'', JStr ''geoip'', JStr ''mfa posture'']), (''focus'',
       JArr [JStr ''cloud provider'', JStr ''identity'', JStr ''session context'',
       JStr ''source IP reputation'']), (''validated'', JBool True)],
     pk_playbook =
       [pack_step ''Freeze the session'' ''containment'' ''analyst'' False
          ''Revoke active sessions and temporary credentials.'',
        pack_step ''Review identity changes'' ''investigate'' ''cloud-admin'' False
          ''Audit role changes, policy attachments, and MFA posture.'',
        pack_step ''Preserve evidence'' ''collect'' ''analyst'' True
          ''Capture audit trail and timeline notes for postmortem use.''],
     pk_rules =
       [pack_rule ''Cloud IAM - Privilege Escalation''
          ''Detect role, policy, or group changes that can elevate cloud access.''
          ''generic'' ''HIGH'' None None
          (JObj [(''any'', JArr
             [leaf ''message'' ''contains'' (JStr ''AttachUserPolicy''),
             leaf ''message'' ''contains'' (JStr ''PutUserPolicy''),
             leaf ''message'' ''contains'' (JStr ''CreatePolicyVersion''),
             leaf ''message'' ''contains'' (JStr ''AddUserToGroup''),
             leaf ''event_type'' ''=='' (JStr ''iam_privilege_change'')])]) True,
        pack_rule ''Cloud IAM - Suspicious Console Login''
          ''Detect successful cloud console logins without MFA or from unusual context.''
          ''generic'' ''MEDIUM'' None None
          (JObj [(''all'', JArr
             [leaf ''event_type'' ''=='' (JStr ''login_success''),
             leaf ''message'' ''contains'' (JStr ''ConsoleLogin''),
             leaf ''mfa_used'' ''=='' (JBool False)])]) True,
        pack_rule ''Cloud IAM - New Access Key Issued''
          ''Detect creation of new access keys that can extend attacker dwell time.''
          ''generic'' ''HIGH'' None None
          (JObj [(''any'', JArr
             [leaf ''message'' ''contains'' (JStr ''CreateAccessKey''),
             leaf ''message'' ''contains'' (JStr ''UpdateAccessKey''),
             leaf ''event_type'' ''=='' (JStr ''iam_access_key_created'')])]) True] \<rparr>"

definition endpoint_ransomware_precursors_pack :: pack_template where
  "endpoint_ransomware_precursors_pack = \<lparr> pk_slug = ''endpoint-ransomware-precursors'',
     pk_vertical = ''Endpoint Ransomware Precursors'', pk_name = ''Endpoint Ransomware Precursors Pack'',
     pk_description = ''Catch the process, script, and file-system activity that usually appears before encryption.'',
     pk_enrichment =
       JObj [(''enrichment_sources'', JArr [JStr ''EDR telemetry'', JStr ''process ancestry'',
       JStr ''file activity'', JStr ''command line'']), (''focus'', JArr [JStr ''hostname'',
       JStr ''user'', JStr ''process tree'', JStr ''endpoint isolation'', JStr ''backup health'']),
       (''validated'', JBool True)],
     pk_playbook =
       [pack_step ''Isolate the endpoint'' ''containment'' ''soc'' False
          ''Use EDR or network controls to stop spread.'',
        pack_step ''Kill malicious processes'' ''response'' ''soc'' False
          ''Terminate the script or process chain driving encryption.'',
        pack_step ''Collect volatile evidence'' ''collect'' ''forensics'' True
          ''Capture command line, memory, and process tree details.''],
     pk_rules =
       [pack_rule ''Endpoint - Suspicious PowerShell Encoded Command''
          ''Detect PowerShell execution using encoded or obfuscated commands.''
          ''generic'' ''HIGH'' None None
          (JObj [(''any'', JArr
             [leaf ''message'' ''contains'' (JStr ''powershell''),
             leaf ''message'' ''contains'' (JStr ''-enc''),
             leaf ''message'' ''contains'' (JStr ''-encodedcommand'')])]) True,
        pack_rule ''Endpoint - Shadow Copy Deletion''
          ''Detect commands used to delete backups or shadow copies before encryption.''
          ''generic'' ''CRITICAL'' None None
          (JObj [(''any'', JArr
             [leaf ''message'' ''contains'' (JStr ''vssadmin delete shadows''),
             leaf ''message'' ''contains'' (JStr ''wmic shadowcopy delete''),
             leaf ''message'' ''contains'' (JStr ''bcdedit /set'')])]) True,
        pack_rule ''Endpoint - Mass File Rename Or Encryption Extension''
          ''Detect bursty file rename activity or common ransomware file extensions.''
          ''generic'' ''CRITICAL'' (Some 25) (Some 300)
          (JObj [(''any'', JArr
             [leaf ''message'' ''contains'' (JStr ''.locked''),
             leaf ''message'' ''contains'' (JStr ''.encrypted''),
             leaf ''message'' ''contains'' (JStr ''file renamed''),
             leaf ''event_type'' ''=='' (JStr ''file_rename_burst'')])]) True] \<rparr>"

definition insider_risk_pack :: pack_template where
  "insider_risk_pack = \<lparr> pk_slug = ''insider-risk'',
     pk_vertical = ''Insider Risk'', pk_name = ''Insider Risk Pack'',
     pk_description = ''Spot suspicious access bursts, archive staging, and off-hours collection activity.'',
     pk_enrichment =
       JObj [(''enrichment_sources'', JArr [JStr ''identity provider'', JStr ''DLP'',
       JStr ''asset inventory'', JStr ''calendar / shift data'']), (''focus'',
       JArr [JStr ''user role'', JStr ''device trust'', JStr ''asset criticality'',
       JStr ''data classification'', JStr ''HR status'']), (''validated'', JBool True)],
     pk_playbook =
       [pack_step ''Validate business context'' ''investigate'' ''manager'' False
          ''Check whether the access pattern aligns with a project or approved task.'',
        pack_step ''Preserve evidence'' ''collect'' ''analyst'' True
          ''Capture downloads, file paths, and access timelines for review.'',
        pack_step ''Escalate if needed'' ''escalate'' ''soc'' False
          ''Route the case to HR, security leadership, or legal as needed.''],
     pk_rules =
       [pack_rule ''Insider - Large Data Exfiltration''
          ''Detect unusually large transfers or downloads from sensitive sources.''
          ''generic'' ''HIGH'' (Some 500) (Some 900)
          (JObj [(''any'', JArr
             [leaf ''event_type'' ''=='' (JStr ''large_download''),
             leaf ''message'' ''contains'' (JStr ''rclone''),
             leaf ''message'' ''contains'' (JStr ''mega.nz''),
             leaf ''bytes_out'' ''>='' (JNum (PosInt 500000000))])]) True,
        pack_rule ''Insider - Off Hours Privileged Access''
          ''Detect privileged access outside normal working windows or shift hours.''
          ''generic'' ''MEDIUM'' None None
          (JObj [(''all'', JArr
             [leaf ''event_type'' ''=='' (JStr ''privileged_access''),
             leaf ''off_hours'' ''=='' (JBool True)])]) True,
        pack_rule ''Insider - Archive Tool Staging''
          ''Detect use of archive tools commonly used to stage exfiltration packages.''
          ''generic'' ''MEDIUM'' None None
          (JObj [(''any'', JArr
             [leaf ''message'' ''contains'' (JStr ''7z''),
             leaf ''message'' ''contains'' (JStr ''rar''),
             leaf ''message'' ''contains'' (JStr ''zip -r''),
             leaf ''message'' ''contains'' (JStr ''archive'')])]) True] \<rparr>"

definition curated_packs :: "pack_template list" where
  "curated_packs = [cloud_iam_abuse_pack, endpoint_ransomware_precursors_pack, insider_risk_pack]"

section \<open>Summaries\<close>

record pack_rule_response =
  prr_template :: pack_rule_template
  prr_installed :: "nat option"

record pack_response =
  pkr_slug :: string
  pkr_vertical :: string
  pkr_name :: string
  pkr_description :: string
  pkr_enrichment :: json
  pkr_playbook :: "pack_playbook_step list"
  pkr_rules :: "pack_rule_response list"
  pkr_installed :: bool
  pkr_installed_count :: nat
  pkr_total :: nat

definition installed_rule :: "detection_rule list \<Rightarrow> pack_rule_template \<Rightarrow> detection_rule option" where
  "installed_rule rs t = List.find (\<lambda>r. dr_name r = pr_name t) rs"

definition pack_summary :: "pack_template \<Rightarrow> detection_rule list \<Rightarrow> pack_response" where
  "pack_summary p rs =
     (let n = length (filter (\<lambda>t. installed_rule rs t \<noteq> None) (pk_rules p)) in
      \<lparr> pkr_slug = pk_slug p, pkr_vertical = pk_vertical p, pkr_name = pk_name p,
        pkr_description = pk_description p, pkr_enrichment = pk_enrichment p, pkr_playbook = pk_playbook p,
        pkr_rules = map (\<lambda>t. \<lparr> prr_template = t, prr_installed = map_option dr_id (installed_rule rs t) \<rparr>)
          (pk_rules p),
        pkr_installed = (n = length (pk_rules p)), pkr_installed_count = n,
        pkr_total = length (pk_rules p) \<rparr>)"

section \<open>Installation\<close>

definition rule_of_template :: "string \<Rightarrow> pack_rule_template \<Rightarrow> rule_create" where
  "rule_of_template t x = \<lparr> rc_tenant = t, rc_name = pr_name x, rc_description = Some (pr_description x),
     rc_rule_type = pr_type x, rc_severity = pr_severity x, rc_threshold = pr_threshold x,
     rc_window = pr_window x, rc_condition = Some (pr_condition x) \<rparr>"

definition install_template :: "string \<Rightarrow> detection_rule list \<Rightarrow> pack_rule_template \<Rightarrow> (unit, 's) http" where
  "install_template t existing x =
     (if \<exists>r \<in> set existing. dr_name r = pr_name x then ok ()
      else bind_ok (or_status 500 (via_db (create_rule (rule_of_template t x)))) (\<lambda>_. ok ()))"

definition ensure_pack_rules :: "string \<Rightarrow> pack_template \<Rightarrow> (detection_rule list, 's) http" where
  "ensure_pack_rules t p =
     bind_ok (or_status 500 (via_db (get_all_rules t))) (\<lambda>existing.
     bind_ok (for_each (install_template t existing) (pk_rules p)) (\<lambda>_.
     or_status 500 (via_db (get_all_rules t))))"

definition record_pack_audit ::
  "'s env \<Rightarrow> claims \<Rightarrow> string \<Rightarrow> string option \<Rightarrow> json \<Rightarrow> (unit, 's) http" where
  "record_pack_audit E cl act rid meta = record_audit E cl act ''detection_pack'' rid None meta"

definition find_pack :: "string \<Rightarrow> pack_template option" where
  "find_pack slug = List.find (\<lambda>p. pk_slug p = slug) curated_packs"

section \<open>Handlers\<close>

definition list_detection_packs :: "'s env \<Rightarrow> claims option \<Rightarrow> (pack_response list, 's) handler" where
  "list_detection_packs E cls = with_claims cls (\<lambda>cl.
     bind_ok (require 403 (is_analyst cl)) (\<lambda>_.
     bind_ok (enforce_tenant_fixed_window E (cl_tenant cl) ''api_requests''
                (tl_api_requests (ev_limits E)) 1) (\<lambda>_.
     bind_ok (or_status 500 (via_db (get_all_rules (cl_tenant cl)))) (\<lambda>rs.
     reply 200 (map (\<lambda>p. pack_summary p rs) curated_packs)))))"

definition get_detection_pack :: "'s env \<Rightarrow> claims option \<Rightarrow> string \<Rightarrow> (pack_response, 's) handler" where
  "get_detection_pack E cls slug = with_claims cls (\<lambda>cl.
     bind_ok (require 403 (is_analyst cl)) (\<lambda>_.
     case find_pack slug of None \<Rightarrow> fail 404
     | Some p \<Rightarrow> bind_ok (or_status 500 (via_db (get_all_rules (cl_tenant cl)))) (\<lambda>rs.
         reply 200 (pack_summary p rs))))"

definition install_detection_pack :: "'s env \<Rightarrow> claims option \<Rightarrow> string \<Rightarrow> (pack_response, 's) handler" where
  "install_detection_pack E cls slug = with_claims cls (\<lambda>cl.
     bind_ok (require 403 (is_analyst cl)) (\<lambda>_.
     bind_ok (enforce_tenant_fixed_window E (cl_tenant cl) ''rule_mutations''
                (tl_rule_mutations (ev_limits E)) 1) (\<lambda>_.
     case find_pack slug of None \<Rightarrow> fail 404
     | Some p \<Rightarrow> bind_ok (ensure_pack_rules (cl_tenant cl) p) (\<lambda>rs s.
         reply 200 (pack_summary p rs) (ignore (record_pack_audit E cl ''detection_pack.install''
           (Some (pk_slug p))
           (JObj [(''name'', JStr (pk_name p)), (''rule_count'', JNum (PosInt (length (pk_rules p)))),
                  (''vertical'', JStr (pk_vertical p))])) s)))))"

section \<open>Facts\<close>

text \<open>The templates of a pack have distinct names.\<close>

lemma curated_names: "p \<in> set curated_packs \<Longrightarrow> distinct (map pr_name (pk_rules p))"
  by (auto simp: curated_packs_def cloud_iam_abuse_pack_def endpoint_ransomware_precursors_pack_def
      insider_risk_pack_def pack_rule_def)

text \<open>Every condition of a curated pack is a list of bare leaves under \<open>all\<close> or \<open>any\<close>.\<close>

fun bare_condition :: "json \<Rightarrow> bool" where
  "bare_condition (JObj [(k, JArr (JObj m # xs))]) = (k \<in> {''all'', ''any''} \<and> length m = 3)"
| "bare_condition _ = False"

lemma curated_bare:
  "p \<in> set curated_packs \<Longrightarrow> x \<in> set (pk_rules p) \<Longrightarrow> pr_type x = ''generic'' \<and> bare_condition (pr_condition x)"
  by (auto simp: curated_packs_def cloud_iam_abuse_pack_def endpoint_ransomware_precursors_pack_def
      insider_risk_pack_def pack_rule_def leaf_def)

text \<open>What serde documents of an externally tagged enum: its object has one entry, and the elements of a
list have to be readable themselves.\<close>

definition external_tags :: "(json \<Rightarrow> rule_condition option) \<Rightarrow> bool" where
  "external_tags f \<longleftrightarrow> (\<forall>m. length m \<noteq> 1 \<longrightarrow> f (JObj m) = None)
     \<and> (\<forall>k xs. k \<in> {''all'', ''any''} \<longrightarrow> f (JObj [(k, JArr xs)]) \<noteq> None \<longrightarrow> (\<forall>x \<in> set xs. f x \<noteq> None))"

lemma bare_unreadable: "external_tags f \<Longrightarrow> bare_condition j \<Longrightarrow> f j = None"
proof -
  assume f: "external_tags f" and j: "bare_condition j"
  from j obtain k m xs where k: "j = JObj [(k, JArr (JObj m # xs))]" "k \<in> {''all'', ''any''}" "length m = 3"
    by (cases j rule: bare_condition.cases) auto
  have "f (JObj m) = None" using f k(3) by (simp add: external_tags_def)
  then show "f j = None" using f k(1,2) unfolding external_tags_def by (metis list.set_intros(1))
qed

section \<open>What an installation leaves\<close>

text \<open>Installing from templates with distinct names, while the database answers, adds one enabled rule
for each template that had none, in order, and touches nothing else.\<close>

definition rule_named :: "detection_rule list \<Rightarrow> string \<Rightarrow> string \<Rightarrow> bool" where
  "rule_named rs t n \<longleftrightarrow> (\<exists>r \<in> set rs. dr_tenant r = t \<and> dr_name r = n)"

definition rule_from :: "string \<Rightarrow> pack_rule_template \<Rightarrow> detection_rule \<Rightarrow> bool" where
  "rule_from t x r \<longleftrightarrow> dr_tenant r = t \<and> dr_name r = pr_name x \<and> dr_rule_type r = pr_type x
     \<and> dr_severity r = pr_severity x \<and> dr_threshold r = pr_threshold x \<and> dr_window r = pr_window x
     \<and> dr_condition r = Some (pr_condition x) \<and> dr_enabled r"

lemma create_rule_from:
  assumes "\<not> db_fault d (db_calls d)" "\<not> rule_named (db_rules d) t (pr_name x)"
  obtains r d' where "create_rule (rule_of_template t x) d = (Inr r, d')" "rule_from t x r"
    "db_rules d' = db_rules d @ [r]" "db_fault d' = db_fault d"
  using assms
  by (auto simp: create_rule_def stmt_ok rule_of_template_def rule_named_def Let_def rule_from_def)

lemma install_templates:
  assumes "no_faults (ap_db s)" "distinct (map pr_name xs)"
    and "\<forall>x \<in> set xs. (\<exists>r \<in> set existing. dr_name r = pr_name x) = rule_named (db_rules (ap_db s)) t (pr_name x)"
  shows "\<exists>new s'. for_each (install_template t existing) xs s = (Inr (), s')
     \<and> db_rules (ap_db s') = db_rules (ap_db s) @ new \<and> db_fault (ap_db s') = db_fault (ap_db s)
     \<and> list_all2 (rule_from t) (filter (\<lambda>x. \<not> rule_named (db_rules (ap_db s)) t (pr_name x)) xs) new"
  using assms
proof (induction xs arbitrary: s)
  case Nil
  then show ?case by (auto intro: exI[of _ "[]"])
next
  case (Cons x xs)
  show ?case
  proof (cases "rule_named (db_rules (ap_db s)) t (pr_name x)")
    case True
    then have "\<exists>r \<in> set existing. dr_name r = pr_name x" using Cons.prems(3) by auto
    then have skip: "install_template t existing x s = (Inr (), s)" by (simp add: install_template_def ok_def)
    obtain new s' where "for_each (install_template t existing) xs s = (Inr (), s')"
      "db_rules (ap_db s') = db_rules (ap_db s) @ new" "db_fault (ap_db s') = db_fault (ap_db s)"
      "list_all2 (rule_from t) (filter (\<lambda>x. \<not> rule_named (db_rules (ap_db s)) t (pr_name x)) xs) new"
      using Cons.IH[of s] Cons.prems by auto
    then show ?thesis using skip True by (auto simp: bind_ok_def)
  next
    case False
    then have none: "\<not> (\<exists>r \<in> set existing. dr_name r = pr_name x)" using Cons.prems(3) by auto
    obtain r d' where r: "create_rule (rule_of_template t x) (ap_db s) = (Inr r, d')" "rule_from t x r"
      "db_rules d' = db_rules (ap_db s) @ [r]" "db_fault d' = db_fault (ap_db s)"
      using create_rule_from[of "ap_db s" t x] Cons.prems(1) False unfolding no_faults_def by blast
    let ?s = "s \<lparr> ap_db := d' \<rparr>"
    have step: "install_template t existing x s = (Inr (), ?s)"
      using none r(1) by (simp add: install_template_def bind_ok_def or_status_def via_db_def ok_def)
    have same: "rule_named (db_rules d') t (pr_name y) = rule_named (db_rules (ap_db s)) t (pr_name y)"
      if "y \<in> set xs" for y
      using that Cons.prems(2) r(2) by (auto simp: rule_named_def r(3) rule_from_def)
    have same': "filter (\<lambda>y. \<not> rule_named (db_rules d') t (pr_name y)) xs
        = filter (\<lambda>y. \<not> rule_named (db_rules (ap_db s)) t (pr_name y)) xs"
      using same by (auto intro: filter_cong)
    have "no_faults (ap_db ?s)" using Cons.prems(1) r(4) by (simp add: no_faults_def)
    moreover have "\<forall>y \<in> set xs. (\<exists>r \<in> set existing. dr_name r = pr_name y) = rule_named (db_rules (ap_db ?s)) t (pr_name y)"
      using Cons.prems(3) same by auto
    moreover have "distinct (map pr_name xs)" using Cons.prems(2) by simp
    ultimately obtain new s' where "for_each (install_template t existing) xs ?s = (Inr (), s')"
      "db_rules (ap_db s') = db_rules (ap_db ?s) @ new" "db_fault (ap_db s') = db_fault (ap_db ?s)"
      "list_all2 (rule_from t) (filter (\<lambda>y. \<not> rule_named (db_rules (ap_db ?s)) t (pr_name y)) xs) new"
      using Cons.IH[of ?s] by blast
    then show ?thesis using step False r(2-4) same'
      by (intro exI[of _ "r # new"] exI[of _ s']) (auto simp: bind_ok_def)
  qed
qed

end
