(* ===== verification/Ingest.thy ===== *)
theory Ingest
  imports Costs Consumers
begin

text \<open>Log ingestion over HTTP (\<open>api/handlers/logs.rs\<close>): one log, a batch, and the recent logs.
Accepted logs go to the bounded channel of the Kafka producer task; whether a send is delivered
within its 25 ms, finds the channel closed, or times out, is decided by the environment, one
outcome per attempt.\<close>

section \<open>State\<close>

record 's ingest =
  ig_app :: "'s app"
  ig_sent :: "log list"
  ig_attempts :: nat
  ig_outcome :: "nat \<Rightarrow> slow_result"

type_synonym ('a, 's) ing = "(nat, 'a, 's ingest) eff"

definition via_app :: "('a, 's) http \<Rightarrow> ('a, 's) ing" where
  [effect_simps]: "via_app m g = (case m (ig_app g) of (r, a) \<Rightarrow> (r, g \<lparr> ig_app := a \<rparr>))"

definition on_app :: "('s app \<Rightarrow> 's app) \<Rightarrow> 's ingest \<Rightarrow> 's ingest" where
  [effect_simps]: "on_app f g = g \<lparr> ig_app := f (ig_app g) \<rparr>"

record ingest_response =
  ir_id :: nat
  ir_status :: string
  ir_accepted_at :: instant
  ir_cost_action :: "string option"
  ir_cost_reason :: "string option"

section \<open>One log\<close>

definition enqueue_ingest_log :: "log \<Rightarrow> (unit, 's) ing" where
  "enqueue_ingest_log l g =
     (let g' = g \<lparr> ig_attempts := ig_attempts g + 1 \<rparr> in
      case ig_outcome g (ig_attempts g) of
        Delivered \<Rightarrow> (Inr (), g' \<lparr> ig_sent := ig_sent g @ [l] \<rparr>)
      | Chan_Closed \<Rightarrow> (Inl 503, g')
      | Timed_Out \<Rightarrow> (Inl 503, g'))"

definition log_of_request :: "nat \<Rightarrow> instant \<Rightarrow> string \<Rightarrow> ingest_request \<Rightarrow> log" where
  "log_of_request i now t q =
     \<lparr> l_id = i, l_tenant = t, l_timestamp = option_or now (iq_timestamp q),
       l_event_type = iq_event_type q, l_source_ip = iq_source_ip q,
       l_target_user = iq_target_user q, l_service = iq_service q, l_message = iq_message q,
       l_severity = option_or LInfo (iq_severity q), l_metadata = option_or JNull (iq_metadata q),
       l_received = now \<rparr>"

text \<open>The decision when the cost controller fails.\<close>

definition keep_decision :: "ingest_request \<Rightarrow> cost_decision" where
  "keep_decision q = \<lparr> kd_action = ''keep'', kd_keep = True, kd_sampled = False, kd_dropped = False,
     kd_rate = 100, kd_reason = ''cost controller unavailable'', kd_bytes = 0,
     kd_source = iq_source_ip q, kd_integration = option_or (iq_event_type q) (iq_service q),
     kd_team = ''unassigned'' \<rparr>"

text \<open>The decision for a log, and its accounting.\<close>

definition cost_gate ::
  "'s env \<Rightarrow> cost_ext \<Rightarrow> string \<Rightarrow> ingest_request \<Rightarrow> 's ingest \<Rightarrow> cost_decision \<times> 's ingest" where
  "cost_gate E K t q g =
     (case evaluate_cost_decision E K t q (ig_app g) of (r, a) \<Rightarrow>
       (let d = (case r of Inl _ \<Rightarrow> keep_decision q | Inr (_, d) \<Rightarrow> d)
        in (d, g \<lparr> ig_app := record_cost_usage E K t d a \<rparr>)))"

definition response_of :: "nat \<Rightarrow> instant \<Rightarrow> string \<Rightarrow> cost_decision \<Rightarrow> ingest_response" where
  "response_of i now st d = \<lparr> ir_id = i, ir_status = st, ir_accepted_at = now,
     ir_cost_action = Some (kd_action d), ir_cost_reason = Some (kd_reason d) \<rparr>"

definition set_key :: "'s env \<Rightarrow> string \<Rightarrow> string \<Rightarrow> 's app \<Rightarrow> 's app" where
  "set_key E k v = ignore (via_cache (set_string (ev_rd E) k v (Some 300)))"

definition ingest_heartbeat :: "'s env \<Rightarrow> 's app \<Rightarrow> 's app" where
  "ingest_heartbeat E a = (let hb = show_int (timestamp (app_now a)) in
     set_key E ''siem:health:ingest_last_seen'' hb (set_key E ''siem:health:agent_last_seen'' hb a))"

definition total_logs_key :: "string \<Rightarrow> string" where
  "total_logs_key t = ''siem:tenant:'' @ t @ '':stats:total_logs''"

definition ingest_log ::
  "'s env \<Rightarrow> cost_ext \<Rightarrow> claims option \<Rightarrow> ingest_request \<Rightarrow> (nat \<times> ingest_response, 's) ing" where
  "ingest_log E K cls q = (case cls of None \<Rightarrow> fail 401 | Some cl \<Rightarrow>
     bind_ok (via_app (or_status 500 (via_db fresh_uuid))) (\<lambda>i g.
     let now = app_now (ig_app g) in
     bind_ok (via_app (enforce_tenant_fixed_window E (cl_tenant cl) ''ingest_events''
                (tl_ingest_events (ev_limits E)) 1)) (\<lambda>_ g.
     case cost_gate E K (cl_tenant cl) q g of (d, g1) \<Rightarrow>
       if \<not> kd_keep d then (Inr (202, response_of i now (kd_action d) d), g1)
       else bind_ok (enqueue_ingest_log (log_of_request i now (cl_tenant cl) q)) (\<lambda>_ g2.
              (Inr (202, response_of i now ''accepted'' d),
               on_app (\<lambda>a. ignore (via_cache (increment_counter (ev_rd E) (total_logs_key (cl_tenant cl))
                   day_seconds)) (ingest_heartbeat E a)) g2)) g1) g))"

section \<open>A batch\<close>

text \<open>The loop stops at the first log that cannot be enqueued; the replies collected so far are then
dropped, while the logs already enqueued stay in the channel.\<close>

definition ingest_item ::
  "'s env \<Rightarrow> cost_ext \<Rightarrow> string \<Rightarrow> instant \<Rightarrow> ingest_request \<Rightarrow> (ingest_response, 's) ing" where
  "ingest_item E K t now q =
     bind_ok (via_app (or_status 500 (via_db fresh_uuid))) (\<lambda>i g.
     case cost_gate E K t q g of (d, g1) \<Rightarrow>
       if \<not> kd_keep d then (Inr (response_of i now (kd_action d) d), g1)
       else bind_ok (enqueue_ingest_log (log_of_request i now t q)) (\<lambda>_.
              ok (response_of i now ''accepted'' d)) g1)"

fun ingest_items ::
  "'s env \<Rightarrow> cost_ext \<Rightarrow> string \<Rightarrow> instant \<Rightarrow> ingest_request list \<Rightarrow> (ingest_response list, 's) ing" where
  "ingest_items E K t now [] = ok []"
| "ingest_items E K t now (q # qs) = bind_ok (ingest_item E K t now q) (\<lambda>r.
     bind_ok (ingest_items E K t now qs) (\<lambda>rs. ok (r # rs)))"

definition ingest_batch ::
  "'s env \<Rightarrow> cost_ext \<Rightarrow> claims option \<Rightarrow> ingest_request list \<Rightarrow> (nat \<times> ingest_response list, 's) ing" where
  "ingest_batch E K cls qs = (case cls of None \<Rightarrow> fail 401 | Some cl \<Rightarrow>
     bind_ok (via_app (enforce_tenant_fixed_window E (cl_tenant cl) ''ingest_events''
                (tl_ingest_events (ev_limits E)) (max (length qs) 1))) (\<lambda>_ g.
     bind_ok (ingest_items E K (cl_tenant cl) (app_now (ig_app g)) qs) (\<lambda>rs g1.
       (Inr (202, rs), on_app (\<lambda>a.
          let a1 = ingest_heartbeat E a in
          if 0 < length rs then ignore (via_cache (incr_by (ev_rd E) (total_logs_key (cl_tenant cl))
              (length rs) day_seconds)) a1
          else a1) g1)) g))"

section \<open>Recent logs\<close>

text \<open>The search client, when one is connected, is a parameter.\<close>

definition hits_of :: "json \<Rightarrow> json list" where
  "hits_of v = (case Option.bind (json_get v ''hits'') (\<lambda>h. json_get h ''hits'') of
      Some (JArr xs) \<Rightarrow> xs | _ \<Rightarrow> [])"

definition tenant_query :: "string \<Rightarrow> json" where
  "tenant_query t = JObj [(''term'', JObj [(''tenant_id'', JStr t)])]"

definition recent_logs ::
  "'s env \<Rightarrow> (json \<Rightarrow> nat \<Rightarrow> nat \<Rightarrow> error + json) option \<Rightarrow> claims option \<Rightarrow> (json list, 's) handler" where
  "recent_logs E search cls = with_claims cls (\<lambda>cl.
     bind_ok (enforce_tenant_fixed_window E (cl_tenant cl) ''api_requests''
                (tl_api_requests (ev_limits E)) 1) (\<lambda>_.
     case search of None \<Rightarrow> fail 503
     | Some f \<Rightarrow> (case f (tenant_query (cl_tenant cl)) 0 50 of
           Inl _ \<Rightarrow> fail 503
         | Inr v \<Rightarrow> reply 200 (List.map_filter (\<lambda>h. json_get h ''_source'') (hits_of v)))))"

end
