(* ===== verification/Indexing.thy ===== *)
theory Indexing
  imports Redis_Cache Ingest "HOL-Library.Multiset"
begin

text \<open>The search index: the Elasticsearch client (\<open>db/elastic.rs\<close>) over an HTTP exchange that is a
parameter, and the indexer task of \<open>main.rs\<close> with its batches, retries, dead-letter topic and
shutdown.\<close>

section \<open>The client\<close>

datatype http_body = No_Body | Json_Body json | Text_Body string

record http_request =
  hq_method :: string
  hq_url :: string
  hq_body :: http_body

text \<open>A response is a status and the outcome of reading its body as JSON.\<close>

type_synonym http_exchange = "http_request \<Rightarrow> error + (nat \<times> (error + json))"

text \<open>The JSON of a log, compact printing, and the texts of a UUID and an instant.\<close>

record elastic_ext =
  ex_log :: "log \<Rightarrow> json"
  ex_print :: "json \<Rightarrow> string"
  ex_uuid :: "nat \<Rightarrow> string"
  ex_time :: "instant \<Rightarrow> string"

definition trim_slashes :: "string \<Rightarrow> string" where
  "trim_slashes s = rev (dropWhile (\<lambda>c. c = CHR ''/'') (rev s))"

definition success :: "nat \<Rightarrow> bool" where
  "success status \<longleftrightarrow> 200 \<le> status \<and> status < 300"

definition elastic_health :: "http_exchange \<Rightarrow> string \<Rightarrow> error + bool" where
  "elastic_health http base =
     (case http \<lparr> hq_method = ''GET'', hq_url = base @ ''/_cluster/health'', hq_body = No_Body \<rparr> of
        Inl e \<Rightarrow> Inl e | Inr (st, _) \<Rightarrow> if success st then Inr True else Inl Search_Error)"

definition elastic_new :: "http_exchange \<Rightarrow> string \<Rightarrow> error + string" where
  "elastic_new http url = (let base = trim_slashes url in
     case elastic_health http base of Inl e \<Rightarrow> Inl e | Inr _ \<Rightarrow> Inr base)"

text \<open>Inserting into the map of a JSON object, kept in key order.\<close>

fun entry_insert :: "string \<Rightarrow> json \<Rightarrow> (string \<times> json) list \<Rightarrow> (string \<times> json) list" where
  "entry_insert k v [] = [(k, v)]"
| "entry_insert k v ((k', v') # m) = (case compare_strings k k' of
      Less \<Rightarrow> (k, v) # (k', v') # m | Equal \<Rightarrow> (k, v) # m | Greater \<Rightarrow> (k', v') # entry_insert k v m)"

definition with_timestamp :: "elastic_ext \<Rightarrow> log \<Rightarrow> json" where
  "with_timestamp X l = (case ex_log X l of
      JObj m \<Rightarrow> JObj (entry_insert ''@timestamp'' (JStr (ex_time X (l_timestamp l))) m) | j \<Rightarrow> j)"

definition accepted :: "error + (nat \<times> (error + json)) \<Rightarrow> error + unit" where
  "accepted r = (case r of Inl e \<Rightarrow> Inl e | Inr (st, _) \<Rightarrow> if success st then Inr () else Inl Search_Error)"

definition index_log :: "elastic_ext \<Rightarrow> http_exchange \<Rightarrow> string \<Rightarrow> string \<Rightarrow> log \<Rightarrow> error + unit" where
  "index_log X http base index l = accepted (http \<lparr> hq_method = ''POST'',
     hq_url = base @ ''/'' @ index @ ''/_doc/'' @ ex_uuid X (l_id l) @ ''?refresh=false'',
     hq_body = Json_Body (with_timestamp X l) \<rparr>)"

definition newline :: char where "newline = CHR 10"

definition action_line :: "elastic_ext \<Rightarrow> log \<Rightarrow> string" where
  "action_line X l = ex_print X (JObj [(''index'', JObj [(''_id'', JStr (ex_uuid X (l_id l)))])])"

definition document_line :: "elastic_ext \<Rightarrow> log \<Rightarrow> string" where
  "document_line X l = ex_print X (with_timestamp X l)"

definition bulk_payload :: "elastic_ext \<Rightarrow> log list \<Rightarrow> string" where
  "bulk_payload X ls = concat (map (\<lambda>l. action_line X l @ [newline] @ document_line X l @ [newline]) ls)"

text \<open>A bulk request fails as a whole when the response reports errors, although the server has stored the other
documents; a body that cannot be read counts as no errors.\<close>

definition bulk_outcome :: "error + (nat \<times> (error + json)) \<Rightarrow> error + unit" where
  "bulk_outcome r = (case r of Inl e \<Rightarrow> Inl e
      | Inr (st, body) \<Rightarrow>
          if \<not> success st then Inl Search_Error
          else if option_or False (Option.bind (json_get (result_or JNull body) ''errors'') as_bool)
          then Inl Search_Error else Inr ())"

definition bulk_index :: "elastic_ext \<Rightarrow> http_exchange \<Rightarrow> string \<Rightarrow> string \<Rightarrow> log list \<Rightarrow> error + unit" where
  "bulk_index X http base index ls = (if ls = [] then Inr () else
     bulk_outcome (http \<lparr> hq_method = ''POST'', hq_url = base @ ''/'' @ index @ ''/_bulk?refresh=false'',
                  hq_body = Text_Body (bulk_payload X ls) \<rparr>))"

definition elastic_search ::
  "http_exchange \<Rightarrow> string \<Rightarrow> string \<Rightarrow> json \<Rightarrow> nat \<Rightarrow> nat \<Rightarrow> error + json" where
  "elastic_search http base index query start n =
     (case http \<lparr> hq_method = ''POST'', hq_url = base @ ''/'' @ index @ ''/_search'',
                  hq_body = Json_Body (JObj [(''from'', JNum (PosInt start)), (''query'', query),
                    (''size'', JNum (PosInt n))]) \<rparr> of
        Inl e \<Rightarrow> Inl e
      | Inr (st, body) \<Rightarrow> if success st then body else Inl Search_Error)"

definition delete_index :: "http_exchange \<Rightarrow> string \<Rightarrow> string \<Rightarrow> error + unit" where
  "delete_index http base index =
     (case http \<lparr> hq_method = ''DELETE'', hq_url = base @ ''/'' @ index, hq_body = No_Body \<rparr> of
        Inl e \<Rightarrow> Inl e
      | Inr (st, _) \<Rightarrow> if success st \<or> st = 404 then Inr () else Inl Search_Error)"

definition delete_by_query :: "http_exchange \<Rightarrow> string \<Rightarrow> string \<Rightarrow> json \<Rightarrow> error + unit" where
  "delete_by_query http base index query = accepted (http \<lparr> hq_method = ''POST'',
     hq_url = base @ ''/'' @ index @ ''/_delete_by_query?refresh=true'',
     hq_body = Json_Body (JObj [(''query'', query)]) \<rparr>)"

section \<open>One batch\<close>

text \<open>The documents of the index by their id, and what became of the logs the indexer took: counted as indexed
(\<open>siem\_logs\_indexed\_total\<close>), published to the dead-letter topic (\<open>siem\_logs\_index\_dlq\_total\<close>), or failed to be
(\<open>siem\_logs\_index\_dlq\_errors\_total\<close>); at the shutdown no counter is touched, and a batch is accepted or dropped.\<close>

record 's indexer =
  ix_docs :: "nat \<Rightarrow> log option"
  ix_indexed :: "log list"
  ix_dead :: "log list"
  ix_failed :: "log list"
  ix_drained :: "log list"
  ix_dropped :: "log list"
  ix_cache :: "'s rcache"

definition indexer_new :: "'s rcache \<Rightarrow> 's indexer" where
  "indexer_new c = \<lparr> ix_docs = Map.empty, ix_indexed = [], ix_dead = [], ix_failed = [], ix_drained = [],
     ix_dropped = [], ix_cache = c \<rparr>"

text \<open>What the environment answers for one batch: whether a client is connected (after the wait for one),
for each bulk request the response and which documents the server has stored, the outcome of each send to the
dead-letter topic, and, when the shutdown has been signalled by the end of the batch, how many logs are then
waiting in the channel.\<close>

record batch_world =
  bw_client :: bool
  bw_reply :: "nat \<Rightarrow> error + (nat \<times> (error + json))"
  bw_stored :: "nat \<Rightarrow> log \<Rightarrow> bool"
  bw_dlq :: "log \<Rightarrow> bool"
  bw_now :: instant
  bw_stop :: "nat option"

text \<open>The documented behaviour of the bulk endpoint, for responses whose body can be read: without errors every
document is stored.\<close>

definition bulk_honest :: "batch_world \<Rightarrow> bool" where
  "bulk_honest W \<longleftrightarrow> (\<forall>n. bulk_outcome (bw_reply W n) = Inr () \<longrightarrow> (\<forall>l. bw_stored W n l))"

text \<open>An index action with an id replaces the document of that id.\<close>

fun store_docs :: "(log \<Rightarrow> bool) \<Rightarrow> log list \<Rightarrow> (nat \<Rightarrow> log option) \<Rightarrow> nat \<Rightarrow> log option" where
  "store_docs P [] docs = docs"
| "store_docs P (l # ls) docs = store_docs P ls (if P l then docs(l_id l \<mapsto> l) else docs)"

definition batch_size :: nat where "batch_size = 500"

function bulk_attempts ::
  "batch_world \<Rightarrow> log list \<Rightarrow> nat \<Rightarrow> nat \<Rightarrow> (nat \<Rightarrow> log option) \<Rightarrow> (bool \<times> nat list) \<times> (nat \<Rightarrow> log option)" where
  "bulk_attempts W ls att backoff docs =
     (let docs' = store_docs (bw_stored W att) ls docs in
      if bulk_outcome (bw_reply W att) = Inr () then ((True, []), docs')
      else if 3 < att + 1 then ((False, []), docs')
      else (case bulk_attempts W ls (att + 1) (min (backoff * 2) 10000) docs' of
          ((r, ps), docs'') \<Rightarrow> ((r, backoff # ps), docs'')))"
  by auto
termination by (relation "measure (\<lambda>(W, ls, att, backoff, docs). 4 - att)") auto

declare bulk_attempts.simps [simp del]

definition indexer_beat :: "'s redis \<Rightarrow> instant \<Rightarrow> 's rcache \<Rightarrow> 's rcache" where
  "indexer_beat rd now = ignore (set_string rd ''siem:health:indexer_last_seen'' (show_int (timestamp now)) (Some 300))"

definition dead_letter :: "batch_world \<Rightarrow> log list \<Rightarrow> 's indexer \<Rightarrow> 's indexer" where
  "dead_letter W ls st = st \<lparr> ix_dead := ix_dead st @ filter (bw_dlq W) ls,
     ix_failed := ix_failed st @ filter (\<lambda>l. \<not> bw_dlq W l) ls \<rparr>"

definition index_batch :: "'s redis \<Rightarrow> batch_world \<Rightarrow> log list \<Rightarrow> 's indexer \<Rightarrow> 's indexer" where
  "index_batch rd W ls st =
     (if \<not> bw_client W then dead_letter W ls st
      else (case bulk_attempts W ls 0 500 (ix_docs st) of ((okay, _), docs) \<Rightarrow>
        (let st1 = st \<lparr> ix_docs := docs \<rparr> in
         if okay then st1 \<lparr> ix_indexed := ix_indexed st1 @ ls, ix_cache := indexer_beat rd (bw_now W) (ix_cache st1) \<rparr>
         else dead_letter W ls st1)))"

section \<open>The task\<close>

text \<open>What the task sees on its channel: a log, or a second without one.\<close>

datatype arrival = Arrived log | Quiet

fun fill_batch :: "log list \<Rightarrow> arrival list \<Rightarrow> log list \<times> arrival list" where
  "fill_batch buf [] = (buf, [])"
| "fill_batch buf (Quiet # es) = (if batch_size \<le> length buf then (buf, Quiet # es) else (buf, es))"
| "fill_batch buf (Arrived l # es) = (if batch_size \<le> length buf then (buf, Arrived l # es)
     else fill_batch (buf @ [l]) es)"

lemma fill_batch_shrinks: "fill_batch buf es = (b, es') \<Longrightarrow> length es' \<le> length es"
  by (induction buf es arbitrary: b es' rule: fill_batch.induct) (auto split: if_splits dest: le_SucI)

text \<open>At the shutdown the rest of the channel is sent in batches of one attempt each; a batch that fails
is dropped.\<close>

definition drain_batch :: "'s redis \<Rightarrow> batch_world \<Rightarrow> log list \<Rightarrow> 's indexer \<Rightarrow> 's indexer" where
  "drain_batch rd W ls st =
     (if \<not> bw_client W then st \<lparr> ix_dropped := ix_dropped st @ ls \<rparr>
      else (let st1 = st \<lparr> ix_docs := store_docs (bw_stored W 0) ls (ix_docs st) \<rparr> in
        if bulk_outcome (bw_reply W 0) = Inr ()
        then st1 \<lparr> ix_drained := ix_drained st1 @ ls, ix_cache := indexer_beat rd (bw_now W) (ix_cache st1) \<rparr>
        else st1 \<lparr> ix_dropped := ix_dropped st1 @ ls \<rparr>))"

function drain_rest :: "'s redis \<Rightarrow> (nat \<Rightarrow> batch_world) \<Rightarrow> nat \<Rightarrow> log list \<Rightarrow> 's indexer \<Rightarrow> 's indexer" where
  "drain_rest rd W k ls st =
     (if ls = [] then st
      else drain_rest rd W (k + 1) (drop batch_size ls) (drain_batch rd (W k) (take batch_size ls) st))"
  by pat_completeness auto
termination
  by (relation "measure (\<lambda>(rd, W, k, ls, st). length ls)") (auto simp: batch_size_def)

declare drain_rest.simps [simp del]

text \<open>The logs among the arrivals.\<close>

definition arrived :: "arrival list \<Rightarrow> log list" where
  "arrived es = List.map_filter (\<lambda>e. case e of Arrived l \<Rightarrow> Some l | Quiet \<Rightarrow> None) es"

lemma arrived_simps [simp]:
  "arrived [] = []" "arrived (Arrived l # es) = l # arrived es" "arrived (Quiet # es) = arrived es"
  by (simp_all add: arrived_def List.map_filter_simps)

text \<open>The shutdown is looked at only after a batch that went to a client.  The logs that arrive after the
channel has been drained are left in it.\<close>

function indexer_run ::
  "'s redis \<Rightarrow> (nat \<Rightarrow> batch_world) \<Rightarrow> nat \<Rightarrow> arrival list \<Rightarrow> 's indexer \<Rightarrow> 's indexer \<times> log list" where
  "indexer_run rd W k [] st = (st, [])"
| "indexer_run rd W k (Quiet # es) st = indexer_run rd W k es st"
| "indexer_run rd W k (Arrived l # es) st = (case fill_batch [l] es of (b, es') \<Rightarrow>
     (let st' = index_batch rd (W k) b st in
      case (if bw_client (W k) then bw_stop (W k) else None) of
        Some n \<Rightarrow> (drain_rest rd W (k + 1) (take n (arrived es')) st', drop n (arrived es'))
      | None \<Rightarrow> indexer_run rd W (k + 1) es' st'))"
  by pat_completeness auto
termination
  by (relation "measure (\<lambda>(rd, W, k, es, st). length es)")
    (auto dest!: fill_batch_shrinks[OF sym])

section \<open>Facts\<close>

text \<open>At most three pauses, the first as long as the backoff.\<close>

lemma bulk_attempts_pauses:
  "bulk_attempts W ls att backoff docs = ((r, ps), docs') \<Longrightarrow> length ps \<le> 3 - att \<and> (ps = [] \<or> hd ps = backoff)"
proof (induction W ls att backoff docs arbitrary: r ps docs' rule: bulk_attempts.induct)
  case (1 W ls att backoff docs)
  let ?d = "store_docs (bw_stored W att) ls docs"
  obtain q qs d where q: "bulk_attempts W ls (att + 1) (min (backoff * 2) 10000) ?d = ((q, qs), d)"
    by (metis prod.exhaust)
  show ?case
  proof (cases "bulk_outcome (bw_reply W att) = Inr () \<or> 3 < att + 1")
    case True
    then show ?thesis using "1.prems" by (auto simp: bulk_attempts.simps[of W ls att] Let_def split: if_splits)
  next
    case False
    then have "ps = backoff # qs" using "1.prems" q by (simp add: bulk_attempts.simps[of W ls att] Let_def)
    then show ?thesis using "1.IH"[OF refl _ _ q] False by auto
  qed
qed

text \<open>What the taken logs have become.\<close>

definition accounted :: "'s indexer \<Rightarrow> log multiset" where
  "accounted st = mset (ix_indexed st) + mset (ix_dead st) + mset (ix_failed st) + mset (ix_drained st) + mset (ix_dropped st)"

text \<open>The documents are logs of \<open>L\<close> under their ids; and every log that was accepted has a document.\<close>

definition docs_of :: "log set \<Rightarrow> (nat \<Rightarrow> log option) \<Rightarrow> bool" where
  "docs_of L docs \<longleftrightarrow> (\<forall>i l. docs i = Some l \<longrightarrow> l_id l = i \<and> l \<in> L)"

definition indexed_ok :: "log set \<Rightarrow> 's indexer \<Rightarrow> bool" where
  "indexed_ok L st \<longleftrightarrow> docs_of L (ix_docs st) \<and> (\<forall>l \<in> set (ix_indexed st) \<union> set (ix_drained st). ix_docs st (l_id l) \<noteq> None)"

lemma docs_of_mono: "docs_of L docs \<Longrightarrow> L \<subseteq> L' \<Longrightarrow> docs_of L' docs"
  unfolding docs_of_def by blast

lemma docs_of_update: "docs_of L docs \<Longrightarrow> l \<in> L \<Longrightarrow> docs_of L (docs(l_id l \<mapsto> l))"
  by (simp add: docs_of_def)

lemma store_docs_facts:
  "docs_of L docs \<Longrightarrow> set ls \<subseteq> L \<Longrightarrow> docs_of L (store_docs P ls docs)"
  "docs i \<noteq> None \<Longrightarrow> store_docs P ls docs i \<noteq> None"
  "l \<in> set ls \<Longrightarrow> P l \<Longrightarrow> store_docs P ls docs (l_id l) \<noteq> None"
proof -
  show "docs_of L docs \<Longrightarrow> set ls \<subseteq> L \<Longrightarrow> docs_of L (store_docs P ls docs)"
    by (induction ls arbitrary: docs) (simp_all add: docs_of_update)
  show kept: "docs i \<noteq> None \<Longrightarrow> store_docs P ls docs i \<noteq> None" for docs i ls
    by (induction ls arbitrary: docs) auto
  show "l \<in> set ls \<Longrightarrow> P l \<Longrightarrow> store_docs P ls docs (l_id l) \<noteq> None"
  proof (induction ls arbitrary: docs)
    case (Cons x ls)
    show ?case
    proof (cases "l = x")
      case True
      then show ?thesis using Cons.prems(2) kept[of "docs(l_id l \<mapsto> l)" "l_id l" ls] by simp
    next
      case False
      then show ?thesis using Cons by simp
    qed
  qed simp
qed

lemma bulk_attempts_docs:
  assumes "bulk_attempts W ls att backoff docs = ((r, ps), docs')"
  shows "docs_of L docs \<Longrightarrow> set ls \<subseteq> L \<Longrightarrow> docs_of L docs'"
    and "docs i \<noteq> None \<Longrightarrow> docs' i \<noteq> None"
    and "bulk_honest W \<Longrightarrow> r \<Longrightarrow> l \<in> set ls \<Longrightarrow> docs' (l_id l) \<noteq> None"
proof -
  have "(docs_of L docs \<longrightarrow> set ls \<subseteq> L \<longrightarrow> docs_of L docs') \<and> (docs i \<noteq> None \<longrightarrow> docs' i \<noteq> None)
      \<and> (bulk_honest W \<longrightarrow> r \<longrightarrow> l \<in> set ls \<longrightarrow> docs' (l_id l) \<noteq> None)"
    using assms
  proof (induction W ls att backoff docs arbitrary: r ps docs' rule: bulk_attempts.induct)
    case (1 W ls att backoff docs)
    let ?d = "store_docs (bw_stored W att) ls docs"
    show ?case
    proof (cases "bulk_outcome (bw_reply W att) = Inr () \<or> 3 < att + 1")
      case True
      then have d: "docs' = ?d" "r \<Longrightarrow> bulk_outcome (bw_reply W att) = Inr ()"
        using "1.prems" by (auto simp: bulk_attempts.simps[of W ls att] Let_def split: if_splits)
      show ?thesis unfolding d(1) using store_docs_facts(1)[of L docs ls "bw_stored W att"]
          store_docs_facts(2)[of docs i "bw_stored W att" ls] store_docs_facts(3)[of l ls "bw_stored W att" docs] d(2)
        by (auto simp: bulk_honest_def)
    next
      case False
      obtain q qs d where q: "bulk_attempts W ls (att + 1) (min (backoff * 2) 10000) ?d = ((q, qs), d)"
        by (metis prod.exhaust)
      have e: "r = q" "docs' = d"
        using "1.prems" False q by (simp_all add: bulk_attempts.simps[of W ls att] Let_def)
      have "(docs_of L ?d \<longrightarrow> set ls \<subseteq> L \<longrightarrow> docs_of L d) \<and> (?d i \<noteq> None \<longrightarrow> d i \<noteq> None)
          \<and> (bulk_honest W \<longrightarrow> q \<longrightarrow> l \<in> set ls \<longrightarrow> d (l_id l) \<noteq> None)"
        using "1.IH"[OF refl _ _ q] False by blast
      then show ?thesis unfolding e using store_docs_facts(1)[of L docs ls "bw_stored W att"]
          store_docs_facts(2)[of docs i "bw_stored W att" ls] by blast
    qed
  qed
  then show "docs_of L docs \<Longrightarrow> set ls \<subseteq> L \<Longrightarrow> docs_of L docs'"
    and "docs i \<noteq> None \<Longrightarrow> docs' i \<noteq> None"
    and "bulk_honest W \<Longrightarrow> r \<Longrightarrow> l \<in> set ls \<Longrightarrow> docs' (l_id l) \<noteq> None" by blast+
qed

lemma dead_letter_facts:
  "accounted (dead_letter W ls st) = accounted st + mset ls"
  "indexed_ok L (dead_letter W ls st) = indexed_ok L st"
  "ix_drained (dead_letter W ls st) = ix_drained st" "ix_dropped (dead_letter W ls st) = ix_dropped st"
proof -
  have "mset (filter (bw_dlq W) ls) + mset (filter (\<lambda>l. \<not> bw_dlq W l) ls) = mset ls"
    by (metis mset_filter multiset_partition)
  then show "accounted (dead_letter W ls st) = accounted st + mset ls"
    unfolding accounted_def dead_letter_def by (simp add: ac_simps)
qed (simp_all add: dead_letter_def indexed_ok_def)

lemma index_batch_accounted: "accounted (index_batch rd W ls st) = accounted st + mset ls"
  by (auto simp: index_batch_def dead_letter_facts Let_def split: prod.split) (simp_all add: accounted_def ac_simps)

lemma index_batch_shutdown:
  "ix_drained (index_batch rd W ls st) = ix_drained st" "ix_dropped (index_batch rd W ls st) = ix_dropped st"
  by (simp_all add: index_batch_def dead_letter_facts Let_def split: prod.split)

lemma index_batch_ok:
  assumes "bulk_honest W" "indexed_ok L st" "set ls \<subseteq> L"
  shows "indexed_ok L (index_batch rd W ls st)"
proof (cases "bw_client W")
  case True
  obtain r ps docs where b: "bulk_attempts W ls 0 500 (ix_docs st) = ((r, ps), docs)" by (metis prod.exhaust)
  note D = bulk_attempts_docs[OF b]
  have st: "indexed_ok L (st \<lparr> ix_docs := docs \<rparr>)"
    using assms(2) D(1)[of L] assms(3) D(2) by (auto simp: indexed_ok_def)
  then show ?thesis using True b D(3)[OF assms(1)]
    by (auto simp: index_batch_def Let_def dead_letter_facts) (auto simp: indexed_ok_def)
qed (simp add: index_batch_def dead_letter_facts assms(2))

lemma drain_batch_facts:
  "accounted (drain_batch rd W ls st) = accounted st + mset ls"
  "bulk_honest W \<Longrightarrow> indexed_ok L st \<Longrightarrow> set ls \<subseteq> L \<Longrightarrow> indexed_ok L (drain_batch rd W ls st)"
proof -
  show "accounted (drain_batch rd W ls st) = accounted st + mset ls"
    by (simp add: drain_batch_def accounted_def Let_def ac_simps)
  assume "bulk_honest W" "indexed_ok L st" "set ls \<subseteq> L"
  moreover from this have st: "indexed_ok L (st \<lparr> ix_docs := store_docs (bw_stored W 0) ls (ix_docs st) \<rparr>)"
    using store_docs_facts(1)[of L "ix_docs st" ls "bw_stored W 0"] store_docs_facts(2)[of "ix_docs st" _ "bw_stored W 0" ls]
    by (auto simp: indexed_ok_def)
  ultimately show "indexed_ok L (drain_batch rd W ls st)"
    using store_docs_facts(3)[of _ ls "bw_stored W 0" "ix_docs st"]
    by (auto simp: drain_batch_def Let_def indexed_ok_def bulk_honest_def)
qed

lemma fill_batch_logs:
  "fill_batch buf es = (b, es') \<Longrightarrow> buf @ arrived es = b @ arrived es' \<and> length b \<le> max batch_size (length buf)"
  by (induction buf es arbitrary: b es' rule: fill_batch.induct) (auto split: if_splits)

lemma drain_rest_outcome:
  "accounted (drain_rest rd W k ls st) = accounted st + mset ls
   \<and> ((\<forall>k. bulk_honest (W k)) \<longrightarrow> indexed_ok L st \<longrightarrow> set ls \<subseteq> L \<longrightarrow> indexed_ok L (drain_rest rd W k ls st))"
proof (induction rd W k ls st rule: drain_rest.induct)
  case (1 rd W k ls st)
  show ?case
  proof (cases "ls = []")
    case True
    then show ?thesis by (simp add: drain_rest.simps)
  next
    case False
    have m: "mset (take batch_size ls) + mset (drop batch_size ls) = mset ls"
      by (metis append_take_drop_id mset_append)
    have s: "set (take batch_size ls) \<subseteq> L" "set (drop batch_size ls) \<subseteq> L" if "set ls \<subseteq> L"
      using that set_take_subset[of batch_size ls] set_drop_subset[of batch_size ls] by blast+
    show ?thesis using "1.IH"[OF False] False m s drain_batch_facts(2)[of "W k" L st "take batch_size ls" rd]
      by (subst (1 2) drain_rest.simps) (auto simp: drain_batch_facts(1) ac_simps)
  qed
qed

lemma indexer_run_accounted:
  "accounted (fst (indexer_run rd W k es st)) + mset (snd (indexer_run rd W k es st)) = accounted st + mset (arrived es)
   \<and> ((\<forall>k. bulk_honest (W k)) \<longrightarrow> indexed_ok L st \<longrightarrow> set (arrived es) \<subseteq> L \<longrightarrow> indexed_ok L (fst (indexer_run rd W k es st)))
   \<and> ((\<forall>k. bw_stop (W k) = None) \<longrightarrow> ix_drained (fst (indexer_run rd W k es st)) = ix_drained st
        \<and> ix_dropped (fst (indexer_run rd W k es st)) = ix_dropped st \<and> snd (indexer_run rd W k es st) = [])"
proof (induction rd W k es st rule: indexer_run.induct)
  case (3 rd W k l es st)
  obtain b es' where f: "fill_batch [l] es = (b, es')" by fastforce
  have a: "[l] @ arrived es = b @ arrived es'" using fill_batch_logs[OF f] by blast
  then have m: "mset ([l] @ arrived es) = mset b + mset (arrived es')" by (metis mset_append)
  have s: "set b \<subseteq> L" "set (arrived es') \<subseteq> L" if "insert l (set (arrived es)) \<subseteq> L"
    using that arg_cong[OF a, of set] by auto
  note B = index_batch_ok[of "W k" L st b rd]
  show ?case
  proof (cases "if bw_client (W k) then bw_stop (W k) else None")
    case None
    then show ?thesis using m s B "3.IH"[OF f[symmetric] refl None]
      by (simp add: f index_batch_accounted index_batch_shutdown ac_simps)
  next
    case (Some n)
    have t: "mset (take n (arrived es')) + mset (drop n (arrived es')) = mset (arrived es')"
      by (metis append_take_drop_id mset_append)
    have "set (take n (arrived es')) \<subseteq> set (arrived es')" by (rule set_take_subset)
    moreover have "\<not> (\<forall>k. bw_stop (W k) = None)" using Some by (metis option.distinct(1))
    ultimately show ?thesis
      using m s B t Some drain_rest_outcome[of rd W "k + 1" "take n (arrived es')" "index_batch rd (W k) b st" L]
      by (auto simp: f index_batch_accounted ac_simps Let_def)
  qed
qed simp_all

text \<open>Framing: no line of the payload holds a newline, so splitting at newlines gives the lines back.\<close>

lemma split_lines:
  "d \<notin> set u \<Longrightarrow> split_on d (u @ d # v) = u # split_on d v"
  by (induction u) auto

lemma bulk_payload_lines:
  assumes "\<forall>j. newline \<notin> set (ex_print X j)"
  shows "split_on newline (bulk_payload X ls) = concat (map (\<lambda>l. [action_line X l, document_line X l]) ls) @ [[]]"
proof (induction ls)
  case Nil
  show ?case by (simp add: bulk_payload_def)
next
  case (Cons l ls)
  have "bulk_payload X (l # ls) = action_line X l @ newline # (document_line X l @ newline # bulk_payload X ls)"
    by (simp add: bulk_payload_def)
  moreover have "newline \<notin> set (action_line X l)" "newline \<notin> set (document_line X l)"
    using assms by (simp_all add: action_line_def document_line_def)
  ultimately show ?case using Cons by (simp add: split_lines)
qed

end
