(* ===== verification/Reliability.thy ===== *)
theory Reliability
  imports Ingest
begin

text \<open>Reliability objectives and drills (\<open>reliability.rs\<close>, \<open>api/handlers/reliability.rs\<close>).  Samples
are kept as texts in capped lists of the cache; the parser and the format of a float, the probes
of Kafka and Elasticsearch and the reader of a log are parameters.  Sample values are finite and
their arithmetic is exact.\<close>

section \<open>Percentiles\<close>

definition clamp01 :: "rat \<Rightarrow> rat" where
  "clamp01 q = max 0 (min 1 q)"

text \<open>\<open>f64::round\<close> on a value that is not negative: halves go up.\<close>

definition round_half_up :: "rat \<Rightarrow> nat" where
  "round_half_up x = nat \<lfloor>x + 1 / 2\<rfloor>"

definition percentile :: "rat list \<Rightarrow> rat \<Rightarrow> rat" where
  "percentile vs q = (if vs = [] then 0
     else (let s = sort vs; i = round_half_up ((of_nat (length s) - 1) * clamp01 q)
           in s ! min i (length s - 1)))"

section \<open>Samples\<close>

record reliability_ext =
  rx_parse :: "string \<Rightarrow> rat option"
  rx_show3 :: "rat \<Rightarrow> string"
  rx_log :: "json \<Rightarrow> log option"

definition ingest_availability_key :: string where
  "ingest_availability_key = ''siem:reliability:ingest_availability_samples''"
definition detection_latency_key :: string where
  "detection_latency_key = ''siem:reliability:detection_latency_ms_samples''"
definition alert_delivery_latency_key :: string where
  "alert_delivery_latency_key = ''siem:reliability:alert_delivery_latency_ms_samples''"

definition read_samples :: "reliability_ext \<Rightarrow> 's redis \<Rightarrow> string \<Rightarrow> 's rcache \<Rightarrow> rat list \<times> 's rcache" where
  "read_samples R rd key c = (case lrange rd key 0 (- 1) c of
      (Inr vs, c') \<Rightarrow> (List.map_filter (rx_parse R) vs, c') | (Inl _, c') \<Rightarrow> ([], c'))"

definition record_latency_sample ::
  "reliability_ext \<Rightarrow> 's redis \<Rightarrow> string \<Rightarrow> rat \<Rightarrow> (unit, 's rcache) cmd" where
  "record_latency_sample R rd key ms = lpush_trim rd key (rx_show3 R ms) 512 (Some (7 * 24 * 60 * 60))"

definition record_detection_latency :: "reliability_ext \<Rightarrow> 's redis \<Rightarrow> rat \<Rightarrow> (unit, 's rcache) cmd" where
  "record_detection_latency R rd ms = record_latency_sample R rd detection_latency_key ms"

definition record_alert_delivery_latency ::
  "reliability_ext \<Rightarrow> 's redis \<Rightarrow> rat \<Rightarrow> (unit, 's rcache) cmd" where
  "record_alert_delivery_latency R rd ms = record_latency_sample R rd alert_delivery_latency_key ms"

section \<open>Probes\<close>

text \<open>The answers of Kafka and Elasticsearch; \<open>None\<close> when no Elasticsearch client is connected.\<close>

record probes =
  pr_kafka :: bool
  pr_elastic :: "bool option"

definition elastic_ok :: "probes \<Rightarrow> bool" where
  "elastic_ok P \<longleftrightarrow> pr_elastic P = Some True"

definition db_ping :: "unit dbop" where
  "db_ping = select (\<lambda>_. ())"

text \<open>The conjunction stops at the first failing service.\<close>

definition all_available :: "'s env \<Rightarrow> probes \<Rightarrow> 's app \<Rightarrow> bool \<times> 's app" where
  "all_available E P s = (case via_db db_ping s of (r, s1) \<Rightarrow>
     if \<not> is_ok r then (False, s1)
     else (case via_cache (ping (ev_rd E)) s1 of (r2, s2) \<Rightarrow>
       (is_ok r2 \<and> pr_kafka P \<and> elastic_ok P, s2)))"

definition record_ingest_availability_sample :: "'s env \<Rightarrow> probes \<Rightarrow> (unit, 's) step" where
  "record_ingest_availability_sample E P s = (case all_available E P s of (up, s1) \<Rightarrow>
     via_cache (lpush_trim (ev_rd E) ingest_availability_key (if up then ''1'' else ''0'') 10080
       (Some (8 * 24 * 60 * 60))) s1)"

definition health_probe_summary :: "'s env \<Rightarrow> probes \<Rightarrow> 's app \<Rightarrow> json \<times> 's app" where
  "health_probe_summary E P s = (case via_db db_ping s of (r, s1) \<Rightarrow>
     (case via_cache (ping (ev_rd E)) s1 of (r2, s2) \<Rightarrow>
       (JObj [(''all_healthy'', JBool (is_ok r \<and> is_ok r2 \<and> pr_kafka P \<and> elastic_ok P)),
              (''db'', JBool (is_ok r)), (''elasticsearch'', JBool (elastic_ok P)),
              (''kafka'', JBool (pr_kafka P)), (''redis'', JBool (is_ok r2))], s2)))"

section \<open>The overview\<close>

record slo_snapshot =
  ss_availability :: rat
  ss_detection_p95 :: rat
  ss_detection_p99 :: rat
  ss_delivery_p95 :: rat
  ss_delivery_p99 :: rat
  ss_sample_count :: nat
  ss_status :: string

definition availability_percent :: "rat list \<Rightarrow> rat" where
  "availability_percent vs = (if vs = [] then 0
     else of_nat (length (filter (\<lambda>v. 1 / 2 \<le> v) vs)) / of_nat (length vs) * 100)"

definition slo_status :: "rat \<Rightarrow> rat \<Rightarrow> rat \<Rightarrow> string" where
  "slo_status avail det dlv =
     (let st = (if avail < 99 \<or> det > 2000 \<or> dlv > 2000 then ''degraded'' else ''healthy'')
      in if avail < 95 then ''down'' else st)"

definition snapshot_of :: "rat list \<Rightarrow> rat list \<Rightarrow> rat list \<Rightarrow> slo_snapshot" where
  "snapshot_of ingest det dlv =
     \<lparr> ss_availability = availability_percent ingest,
       ss_detection_p95 = percentile det (95 / 100), ss_detection_p99 = percentile det (99 / 100),
       ss_delivery_p95 = percentile dlv (95 / 100), ss_delivery_p99 = percentile dlv (99 / 100),
       ss_sample_count = max (max (length ingest) (length det)) (length dlv),
       ss_status = slo_status (availability_percent ingest) (percentile det (95 / 100))
         (percentile dlv (95 / 100)) \<rparr>"

definition build_reliability_overview ::
  "'s env \<Rightarrow> reliability_ext \<Rightarrow> string \<Rightarrow> (slo_snapshot \<times> reliability_report list, 's) step" where
  "build_reliability_overview E R t s0 =
     (case read_samples R (ev_rd E) ingest_availability_key (ap_cache s0) of (xs, c1) \<Rightarrow>
     (case read_samples R (ev_rd E) detection_latency_key c1 of (ys, c2) \<Rightarrow>
     (case read_samples R (ev_rd E) alert_delivery_latency_key c2 of (zs, c3) \<Rightarrow>
        bind_ok (via_db (list_reliability_reports t 12)) (\<lambda>rs. ok (snapshot_of xs ys zs, rs))
          (s0 \<lparr> ap_cache := c3 \<rparr>))))"

section \<open>Replay\<close>

text \<open>A replayed log goes to the producer channel with a waiting send whose outcome is dropped.\<close>

definition mark_replayed :: "'s env \<Rightarrow> instant \<Rightarrow> log \<Rightarrow> log" where
  "mark_replayed E now l = l \<lparr> l_metadata := JObj
       [(''drill'', JStr ''replay''), (''original_id'', JStr (ev_uuid E (l_id l))),
        (''replayed_at'', JStr (ev_time E now))],
     l_received := now \<rparr>"

definition send_replayed :: "log \<Rightarrow> 's ingest \<Rightarrow> 's ingest" where
  "send_replayed l g = (case ig_outcome g (ig_attempts g) of
      Chan_Closed \<Rightarrow> g \<lparr> ig_attempts := ig_attempts g + 1 \<rparr>
    | _ \<Rightarrow> g \<lparr> ig_attempts := ig_attempts g + 1, ig_sent := ig_sent g @ [l] \<rparr>)"

fun replay_hits ::
  "'s env \<Rightarrow> reliability_ext \<Rightarrow> json list \<Rightarrow> nat \<Rightarrow> 's ingest \<Rightarrow> nat \<times> 's ingest" where
  "replay_hits E R [] n g = (n, g)"
| "replay_hits E R (h # hs) n g =
     (case Option.bind (json_get h ''_source'') (rx_log R) of
        None \<Rightarrow> replay_hits E R hs n g
      | Some l \<Rightarrow> replay_hits E R hs (n + 1)
          (send_replayed (mark_replayed E (app_now (ig_app g)) l) g))"

definition replay_recent_logs ::
  "'s env \<Rightarrow> reliability_ext \<Rightarrow> (json \<Rightarrow> nat \<Rightarrow> nat \<Rightarrow> error + json) option \<Rightarrow> string \<Rightarrow> nat
   \<Rightarrow> (error, json, 's ingest) eff" where
  "replay_recent_logs E R search t n g = (case search of
      None \<Rightarrow> (Inr (JObj [(''reason'', JStr ''elasticsearch unavailable''),
                         (''replayed'', JNum (PosInt 0))]), g)
    | Some f \<Rightarrow> (case f (tenant_query t) 0 (max n 1) of
        Inl e \<Rightarrow> (Inl e, g)
      | Inr v \<Rightarrow> (case replay_hits E R (hits_of v) 0 g of (k, g') \<Rightarrow>
          (Inr (JObj [(''completed_at'', JStr (ev_time E (app_now (ig_app g')))),
                      (''limit'', JNum (PosInt n)), (''replayed'', JNum (PosInt k)),
                      (''started_at'', JStr (ev_time E (app_now (ig_app g))))]), g'))))"

section \<open>Endpoints\<close>

definition analyst_only :: "claims option \<Rightarrow> (claims \<Rightarrow> ('a, 's) http) \<Rightarrow> ('a, 's) http" where
  "analyst_only cls f = with_claims cls (\<lambda>cl. bind_ok (require 403 (is_analyst cl)) (\<lambda>_. f cl))"

definition overview_handler ::
  "'s env \<Rightarrow> reliability_ext \<Rightarrow> claims option \<Rightarrow> (slo_snapshot \<times> reliability_report list, 's) handler" where
  "overview_handler E R cls = analyst_only cls (\<lambda>cl.
     bind_ok (enforce_tenant_fixed_window E (cl_tenant cl) ''api_requests''
                (tl_api_requests (ev_limits E)) 1) (\<lambda>_.
     bind_ok (or_status 500 (build_reliability_overview E R (cl_tenant cl))) (\<lambda>o'. reply 200 o')))"

definition list_reports_handler :: "claims option \<Rightarrow> (reliability_report list, 's) handler" where
  "list_reports_handler cls = analyst_only cls (\<lambda>cl.
     bind_ok (or_status 500 (via_db (list_reliability_reports (cl_tenant cl) 24))) (\<lambda>rs. reply 200 rs))"

definition create_report_handler :: "claims option \<Rightarrow> report_create \<Rightarrow> (reliability_report, 's) handler" where
  "create_report_handler cls b = analyst_only cls (\<lambda>cl.
     bind_ok (or_status 500 (via_db (insert_reliability_report (b \<lparr> rp_tenant := cl_tenant cl \<rparr>))))
       (\<lambda>r. reply 200 r))"

definition drill_report :: "string \<Rightarrow> string \<Rightarrow> string \<Rightarrow> bool \<Rightarrow> instant \<Rightarrow> instant \<Rightarrow> json \<Rightarrow> report_create" where
  "drill_report t ty name passed started completed summary = \<lparr> rp_tenant = t, rp_type = ty,
     rp_drill = name, rp_status = (if passed then ''passed'' else ''failed''), rp_started = started,
     rp_completed = completed, rp_summary = summary \<rparr>"

definition replay_drill_handler ::
  "'s env \<Rightarrow> reliability_ext \<Rightarrow> (json \<Rightarrow> nat \<Rightarrow> nat \<Rightarrow> error + json) option \<Rightarrow> claims option
   \<Rightarrow> (nat \<times> reliability_report, 's) ing" where
  "replay_drill_handler E R search cls = (case cls of None \<Rightarrow> fail 401 | Some cl \<Rightarrow>
     if \<not> is_analyst cl then fail 403
     else (\<lambda>g. case replay_recent_logs E R search (cl_tenant cl) 25 g of (r, g1) \<Rightarrow>
       let summary = (case r of Inr j \<Rightarrow> j | Inl _ \<Rightarrow> JObj [(''error'', JStr ''replay drill failed'')]);
           passed = (json_get summary ''error'' = None)
       in bind_ok (via_app (or_status 500 (via_db fresh_uuid))) (\<lambda>i g2.
          via_app (bind_ok (or_status 500 (via_db (insert_reliability_report
              (drill_report (cl_tenant cl) ''replay_drill'' (''replay-drill-'' @ ev_uuid E i) passed
                 (app_now (ig_app g)) (app_now (ig_app g1)) summary)))) (\<lambda>rec. reply 200 rec)) g2) g1))"

definition chaos_drill_handler ::
  "'s env \<Rightarrow> probes \<Rightarrow> claims option \<Rightarrow> (reliability_report, 's) handler" where
  "chaos_drill_handler E P cls = analyst_only cls (\<lambda>cl s.
     case health_probe_summary E P s of (summary, s1) \<Rightarrow>
       let passed = option_or False (Option.bind (json_get summary ''all_healthy'') as_bool) in
       bind_ok (or_status 500 (via_db fresh_uuid)) (\<lambda>i.
       bind_ok (or_status 500 (via_db (insert_reliability_report
           (drill_report (cl_tenant cl) ''chaos_drill'' (''chaos-drill-'' @ ev_uuid E i) passed
              (app_now s) (app_now s1) summary)))) (\<lambda>r. reply 200 r)) s1)"

end
