(* ===== verification/Pipeline.thy ===== *)
theory Pipeline
  imports Engine Queue Response Case_Laws Reliability Batcher
begin

text \<open>The pipeline of a log and its alerts: the dispatch of logs to the mailboxes of the detection
workers (\<open>main.rs\<close>), the hand-over of the alerts of a log to Kafka with its fallback
(\<open>detection/engine.rs\<close>), and the alert worker (\<open>alerting/worker.rs\<close>).\<close>

section \<open>Dispatch\<close>

text \<open>The hasher is a parameter on the sequence of strings fed to it.\<close>

definition partition_fields :: "string \<Rightarrow> log \<Rightarrow> string list" where
  "partition_fields key l =
     (if key = ''tenant'' then [l_tenant l]
      else if key = ''source_ip'' then [l_source_ip l]
      else [l_tenant l, l_source_ip l])"

definition detection_partition_index :: "(string list \<Rightarrow> nat) \<Rightarrow> string \<Rightarrow> nat \<Rightarrow> log \<Rightarrow> nat" where
  "detection_partition_index hash key n l =
     (if n = 0 then 0 else hash (partition_fields key l) mod n)"

text \<open>The dispatcher appends a log to the mailbox of its worker; a closed mailbox loses it.\<close>

definition dispatch_log ::
  "(string list \<Rightarrow> nat) \<Rightarrow> string \<Rightarrow> nat \<Rightarrow> (nat \<Rightarrow> bool) \<Rightarrow> log \<Rightarrow> (nat \<Rightarrow> log list) \<Rightarrow> nat \<Rightarrow> log list" where
  "dispatch_log hash key n open_box l boxes =
     (let w = detection_partition_index hash key n l in
      if open_box w then boxes(w := boxes w @ [l]) else boxes)"

definition dispatch_logs ::
  "(string list \<Rightarrow> nat) \<Rightarrow> string \<Rightarrow> nat \<Rightarrow> (nat \<Rightarrow> bool) \<Rightarrow> log list \<Rightarrow> (nat \<Rightarrow> log list) \<Rightarrow> nat \<Rightarrow> log list" where
  "dispatch_logs hash key n open_box ls boxes = fold (dispatch_log hash key n open_box) ls boxes"

section \<open>The hand-over of alerts\<close>

record pipeline =
  pl_db :: db
  pl_topic :: "alert list"
  pl_dead :: "alert list"
  pl_live :: "alert list"
  pl_notes :: nat
  pl_responses :: "(alert \<times> (string \<times> bool) list) list"

definition alerts_dlq_topic :: string where "alerts_dlq_topic = ''siem-alerts-dlq''"

text \<open>Where the last send of a log of sends went.\<close>

definition reached_topic :: "send_log \<Rightarrow> bool" where
  "reached_topic lg \<longleftrightarrow> fst (last (sl_sends lg)) = Alerts_Topic"

text \<open>A note for the statistics task: dropped when its channel of 1024 is full.\<close>

definition note_sent :: "nat \<Rightarrow> nat" where
  "note_sent n = (if n < 1024 then n + 1 else n)"

definition route_alert ::
  "(nat \<Rightarrow> bool) \<Rightarrow> response_engine \<Rightarrow> (alert \<Rightarrow> bool) \<Rightarrow> alert \<Rightarrow> pipeline \<Rightarrow> pipeline" where
  "route_alert deliver re slack a P =
     (case send_alert_with_retry deliver 3 200 (Some alerts_dlq_topic) of
        (Inr _, lg) \<Rightarrow>
          (let P1 = (if reached_topic lg then P \<lparr> pl_topic := pl_topic P @ [a] \<rparr>
                     else P \<lparr> pl_dead := pl_dead P @ [a] \<rparr>)
           in P1 \<lparr> pl_live := pl_live P @ [a], pl_notes := note_sent (pl_notes P) \<rparr>)
      | (Inl _, _) \<Rightarrow>
          (case manager_handle_alert re slack a (pl_db P) of
             (Inl _, d) \<Rightarrow> P \<lparr> pl_db := d, pl_live := pl_live P @ [a] \<rparr>
           | (Inr (_, tr), d) \<Rightarrow> P \<lparr> pl_db := d, pl_live := pl_live P @ [a],
                                    pl_responses := pl_responses P @ [(a, tr)] \<rparr>))"

text \<open>The sends of the \<open>i\<close>th alert of a log have the outcomes \<open>deliver i\<close>.\<close>

fun route_alerts ::
  "(nat \<Rightarrow> nat \<Rightarrow> bool) \<Rightarrow> response_engine \<Rightarrow> (alert \<Rightarrow> bool) \<Rightarrow> nat \<Rightarrow> alert list \<Rightarrow> pipeline \<Rightarrow> pipeline" where
  "route_alerts deliver re slack i [] P = P"
| "route_alerts deliver re slack i (a # as) P =
     route_alerts deliver re slack (i + 1) as (route_alert (deliver i) re slack a P)"

definition process_log ::
  "engine_ext \<Rightarrow> (string \<Rightarrow> error + string) \<Rightarrow> reliability_ext \<Rightarrow> 's redis
   \<Rightarrow> (compiled_rule list \<Rightarrow> compiled_rule list) \<Rightarrow> rule_index \<Rightarrow> nat \<Rightarrow> instant \<Rightarrow> rat
   \<Rightarrow> (nat \<Rightarrow> nat \<Rightarrow> bool) \<Rightarrow> response_engine \<Rightarrow> (alert \<Rightarrow> bool) \<Rightarrow> log
   \<Rightarrow> (local_stats \<times> 's rcache) \<times> pipeline \<Rightarrow> (local_stats \<times> 's rcache) \<times> pipeline" where
  "process_log X hash R rd sched ix uuid now ms deliver re slack l p =
     (case p of (q, P) \<Rightarrow>
       (case detect X (redis_cache hash rd) sched ix uuid now l q of (as, (st, c)) \<Rightarrow>
          ((st, ignore (record_detection_latency R rd ms) c), route_alerts deliver re slack 0 as P)))"

section \<open>The alert worker\<close>

record dashboard_stats =
  ds_tenant :: string
  ds_logs :: int
  ds_alerts :: int
  ds_active :: int
  ds_critical :: int

record 's worker =
  wk_cache :: "'s rcache"
  wk_db :: db
  wk_batch :: "alert list"
  wk_live :: "alert list"
  wk_stats :: "dashboard_stats list"
  wk_responses :: "(alert \<times> (string \<times> bool) list) list"

definition active_alerts_key :: string where "active_alerts_key = ''siem:stats:active_alerts''"

text \<open>\<open>update_alert\<close> with a cache: an alert that leaves the open states decrements the counter.\<close>

definition update_alert_counted :: "'s redis \<Rightarrow> alert \<Rightarrow> 's worker \<Rightarrow> 's worker" where
  "update_alert_counted rd a st =
     (case update_alert a (wk_db st) of (r, d) \<Rightarrow>
        st \<lparr> wk_db := d, wk_cache := (if r = Inr True then ignore (decrement_counter rd active_alerts_key) (wk_cache st)
               else wk_cache st) \<rparr>)"

definition worker_create :: "alert \<Rightarrow> 's worker \<Rightarrow> 's worker" where
  "worker_create a st = st \<lparr> wk_db := ignore (create_alert a) (wk_db st), wk_live := wk_live st @ [a] \<rparr>"

text \<open>The direct write when the channel of the batcher is full: into the first open alert of the same
tenant and address, whatever its rule.\<close>

definition worker_fallback :: "'s redis \<Rightarrow> alert \<Rightarrow> 's worker \<Rightarrow> 's worker" where
  "worker_fallback rd a st =
     (case get_open_alerts_by_ip (a_tenant a) (a_source_ip a) (wk_db st) of (r, d) \<Rightarrow>
       (let st1 = st \<lparr> wk_db := d \<rparr> in
        case r of
          Inr (e # _) \<Rightarrow>
            (let e' = e \<lparr> a_last_seen := a_last_seen a, a_events_count := a_events_count e + a_events_count a \<rparr>;
                 st2 = update_alert_counted rd e' st1
             in st2 \<lparr> wk_live := wk_live st2 @ [e'] \<rparr>)
        | _ \<Rightarrow> worker_create a st1))"

definition worker_case :: "(nat \<Rightarrow> string) \<Rightarrow> response_engine \<Rightarrow> alert \<Rightarrow> db \<Rightarrow> db" where
  "worker_case sh re a d =
     (if a_severity a = Critical \<or> a_severity a = High then
        (case create_case_from_alert sh a None None None None None d of
           (Inl _, d') \<Rightarrow> d'
         | (Inr c, d') \<Rightarrow>
             (let names = preview_actions re a in
              if names = [] then d'
              else ignore (record_case_event (a_tenant a) (ca_id c) ''response.plan_created''
                ''Automated responder actions launched'' None None
                (JObj [(''actions'', JArr (map JStr names)), (''alert_id'', JStr (sh (a_id a)))])) d'))
      else d)"

definition tenant_stats_key :: "string \<Rightarrow> string \<Rightarrow> string" where
  "tenant_stats_key t what = ''siem:tenant:'' @ t @ '':stats:'' @ what"

definition worker_counters :: "'s redis \<Rightarrow> alert \<Rightarrow> 's worker \<Rightarrow> 's worker" where
  "worker_counters rd a st =
     (let key = tenant_stats_key (a_tenant a) in
      case increment_counter rd (key ''total_alerts'') 86400 (wk_cache st) of (ta, c1) \<Rightarrow>
      case increment_counter rd (key ''active_alerts'') 86400 c1 of (aa, c2) \<Rightarrow>
      let c3 = (if a_severity a = Critical
                then ignore (increment_counter rd (key ''critical_alerts'') 86400) c2 else c2) in
      case get_counter rd (key ''total_logs'') c3 of (n_logs, c4) \<Rightarrow>
        (case (ta, aa, result_or None n_logs) of
           (Inr n_ta, Inr n_aa, Some n_tl) \<Rightarrow>
             (case get_counter rd (key ''critical_alerts'') c4 of (n_crit, c5) \<Rightarrow>
               (let n_ca = option_or 0 (result_or None n_crit);
                    s = \<lparr> ds_tenant = a_tenant a, ds_logs = int n_tl, ds_alerts = int n_ta,
                          ds_active = int n_aa, ds_critical = int n_ca \<rparr>
                in st \<lparr> wk_cache := c5, wk_stats := wk_stats st @ [s],
                        wk_db := ignore (save_stats (a_tenant a) (int n_tl) (int n_ta) (int n_aa) (int n_ca))
                          (wk_db st) \<rparr>))
         | _ \<Rightarrow> st \<lparr> wk_cache := c4 \<rparr>))"

definition alert_pipeline_key :: string where "alert_pipeline_key = ''siem:health:alert_pipeline_last_seen''"

text \<open>One alert from Kafka.  \<open>room\<close> is the answer of the channel of the batcher.\<close>

definition worker_step ::
  "reliability_ext \<Rightarrow> 's redis \<Rightarrow> (nat \<Rightarrow> string) \<Rightarrow> response_engine \<Rightarrow> instant \<Rightarrow> bool \<Rightarrow> alert \<Rightarrow> 's worker \<Rightarrow> 's worker" where
  "worker_step R rd sh re now room a st =
     (let c1 = ignore (record_alert_delivery_latency R rd (of_int (max (millis_of (now - a_first_seen a)) 0))) (wk_cache st);
          c2 = ignore (set_string rd alert_pipeline_key (show_int (timestamp now)) (Some 300)) c1;
          st1 = st \<lparr> wk_cache := c2 \<rparr>;
          st2 = (if room then st1 \<lparr> wk_batch := wk_batch st1 @ [a] \<rparr> else worker_fallback rd a st1);
          st3 = st2 \<lparr> wk_responses := wk_responses st2 @ [(a, response_handle re a)] \<rparr>;
          st4 = st3 \<lparr> wk_db := worker_case sh re a (wk_db st3) \<rparr>
      in worker_counters rd a st4)"

section \<open>Facts\<close>

text \<open>Every mailbox holds the logs of its worker, in the order of dispatch.\<close>

lemma dispatch_filter:
  "dispatch_logs hash key n open_box ls boxes w
     = boxes w @ filter (\<lambda>l. open_box w \<and> detection_partition_index hash key n l = w) ls"
  by (induction ls arbitrary: boxes) (auto simp: dispatch_logs_def dispatch_log_def Let_def)

text \<open>An alert of the engine ends in exactly one place: the topic, the dead-letter topic, or the database
attempt of the fallback.\<close>

lemma route_alert_live [simp]: "pl_live (route_alert deliver re slack a P) = pl_live P @ [a]"
  by (auto simp: route_alert_def Let_def split: prod.split sum.split)

lemma route_alerts_live: "pl_live (route_alerts deliver re slack i as P) = pl_live P @ as"
  by (induction as arbitrary: i P) simp_all

definition rows_for :: "db \<Rightarrow> nat list" where
  "rows_for d = map ar_id (db_alerts d)"

lemma create_alert_rows:
  "rows_for (snd (create_alert a d)) = rows_for d \<or> rows_for (snd (create_alert a d)) = rows_for d @ [a_id a]"
  by (auto simp: create_alert_def insert_alerts_def stmt_def Let_def rows_for_def row_of_alert_def)

lemma manager_rows:
  assumes "no_faults d" "alert_fits a" "a_id a \<notin> set (rows_for d)"
  shows "rows_for (snd (manager_handle_alert re slack a d)) = rows_for d @ [a_id a]"
    and "no_faults (snd (manager_handle_alert re slack a d))"
  using assms
  by (auto simp: manager_handle_alert_def bind_ok_def ok_def create_alert_def insert_alerts_def stmt_def Let_def
      no_faults_def rows_for_def row_of_alert_def)

lemma route_alert_places:
  assumes "no_faults (pl_db P)" "alert_fits a" "a_id a \<notin> set (rows_for (pl_db P))"
  shows "let P' = route_alert deliver re slack a P in no_faults (pl_db P') \<and>
     (pl_topic P' = pl_topic P @ [a] \<and> pl_dead P' = pl_dead P \<and> rows_for (pl_db P') = rows_for (pl_db P)
      \<or> pl_topic P' = pl_topic P \<and> pl_dead P' = pl_dead P @ [a] \<and> rows_for (pl_db P') = rows_for (pl_db P)
      \<or> pl_topic P' = pl_topic P \<and> pl_dead P' = pl_dead P \<and> rows_for (pl_db P') = rows_for (pl_db P) @ [a_id a])"
proof -
  obtain r lg where s: "send_alert_with_retry deliver 3 200 (Some alerts_dlq_topic) = (r, lg)" by fastforce
  obtain q d where m: "manager_handle_alert re slack a (pl_db P) = (q, d)" by fastforce
  then have d: "rows_for d = rows_for (pl_db P) @ [a_id a]" "no_faults d"
    using manager_rows[OF assms, of re slack] by simp_all
  show ?thesis using d assms(1)
    by (cases r; cases q) (auto simp: route_alert_def s m Let_def split: prod.split)
qed

text \<open>The fallback of the worker writes no new row when an open alert of the address exists.\<close>

lemma open_by_ip_first:
  assumes "no_faults d" "r \<in> set (db_alerts d)" "ar_tenant r = t" "ar_source_ip r = ip" "is_open_status (ar_status r)"
  obtains e rest where "get_open_alerts_by_ip t ip d = (Inr (e # rest), d \<lparr> db_calls := db_calls d + 1 \<rparr>)"
proof -
  let ?xs = "filter (\<lambda>r. ar_tenant r = t \<and> ar_source_ip r = ip \<and> is_open_status (ar_status r)) (db_alerts d)"
  have "r \<in> set (by_last_seen ?xs)" using assms by (simp add: by_last_seen_def)
  then have "take 10 (by_last_seen ?xs) \<noteq> []" by (cases "by_last_seen ?xs") auto
  then obtain x ys where "take 10 (by_last_seen ?xs) = x # ys" by (cases "take 10 (by_last_seen ?xs)") auto
  then show thesis using assms(1)
    by (intro that[of "alert_of_row x" "map alert_of_row ys"]) (simp add: get_open_alerts_by_ip_def select_cases no_faults_def)
qed

lemma update_alert_rows_for: "rows_for (snd (update_alert a d)) = rows_for d"
proof -
  have "map ar_id (map (\<lambda>r. if ar_id r = a_id a then r \<lparr> ar_last_seen := x, ar_status := y,
       ar_events_count := z, ar_updated := u \<rparr> else r) rows) = map ar_id rows" for x y z u rows
    by (induction rows) auto
  then show ?thesis
    by (auto simp: update_alert_def bind_ok_def select_cases execute_def stmt_def Let_def update_alert_rows_def
        rows_for_def ok_def split: option.split)
qed

lemma worker_fallback_merges:
  assumes "no_faults (wk_db st)" "r \<in> set (db_alerts (wk_db st))" "ar_tenant r = a_tenant a"
    and "ar_source_ip r = a_source_ip a" "is_open_status (ar_status r)"
  shows "rows_for (wk_db (worker_fallback rd a st)) = rows_for (wk_db st)"
proof -
  obtain e rest where q: "get_open_alerts_by_ip (a_tenant a) (a_source_ip a) (wk_db st)
      = (Inr (e # rest), wk_db st \<lparr> db_calls := db_calls (wk_db st) + 1 \<rparr>)"
    using open_by_ip_first[OF assms] .
  have calls: "rows_for (d \<lparr> db_calls := n \<rparr>) = rows_for d" for d n by (simp add: rows_for_def)
  have upd: "rows_for (wk_db (update_alert_counted rd b s)) = rows_for (wk_db s)" for b s
    using update_alert_rows_for[of b "wk_db s"] by (cases "update_alert b (wk_db s)") (simp add: update_alert_counted_def)
  show ?thesis by (simp add: worker_fallback_def q Let_def upd calls)
qed

end
