(* ===== verification/Operations.thy ===== *)
theory Operations
  imports Reliability Compliance_Api
begin

text \<open>Running the service: the registry of background tasks and its bounded shutdown, the statistics
written to the database, the weekly reliability report and the Kafka producer task (\<open>main.rs\<close>),
connecting to Kafka and the lag of a partition (\<open>queue/kafka.rs\<close>), the labels of the metrics
(\<open>monitoring/metrics.rs\<close>, \<open>api/middleware/telemetry.rs\<close>), and the dashboard and health endpoints
(\<open>api/handlers/dashboard.rs\<close>, \<open>api/handlers/health.rs\<close>).\<close>

section \<open>The task registry\<close>

text \<open>A task is its name with what it would do when awaited: end by itself at an instant, cleanly or
with a join error, or never.\<close>

datatype task_end = Ends instant bool | Never

record managed_task =
  mt_name :: string
  mt_end :: task_end
  mt_linger :: nat

datatype drain_outcome = Clean | Join_Error | Aborted

definition registry_push :: "string \<Rightarrow> task_end \<Rightarrow> nat \<Rightarrow> managed_task list \<Rightarrow> managed_task list" where
  "registry_push name e linger ts = ts @ [\<lparr> mt_name = name, mt_end = e, mt_linger = linger \<rparr>]"

text \<open>An aborted task is awaited without a limit: it stops where it next gives up its thread, \<open>mt_linger\<close> after the
abort, unless it ends by itself before that.\<close>

definition stopped_at :: "instant \<Rightarrow> managed_task \<Rightarrow> instant" where
  "stopped_at now t = (case mt_end t of
       Ends e _ \<Rightarrow> max now (min e (now + int (mt_linger t)))
     | Never \<Rightarrow> now + int (mt_linger t))"

text \<open>The tasks are awaited one after the other until the deadline.\<close>

fun drain_tasks :: "instant \<Rightarrow> instant \<Rightarrow> managed_task list \<Rightarrow> (string \<times> drain_outcome) list \<times> instant" where
  "drain_tasks deadline now [] = ([], now)"
| "drain_tasks deadline now (t # ts) =
     (if deadline \<le> now then
        (case drain_tasks deadline (stopped_at now t) ts of (rs, n) \<Rightarrow> ((mt_name t, Aborted) # rs, n))
      else (case mt_end t of
          Ends e cleanly \<Rightarrow>
            if max now e \<le> deadline
            then (case drain_tasks deadline (max now e) ts of (rs, n) \<Rightarrow>
              ((mt_name t, if cleanly then Clean else Join_Error) # rs, n))
            else (case drain_tasks deadline (stopped_at deadline t) ts of (rs, n) \<Rightarrow> ((mt_name t, Aborted) # rs, n))
        | Never \<Rightarrow> (case drain_tasks deadline (stopped_at deadline t) ts of (rs, n) \<Rightarrow> ((mt_name t, Aborted) # rs, n))))"

definition registry_drain :: "int \<Rightarrow> instant \<Rightarrow> managed_task list \<Rightarrow> (string \<times> drain_outcome) list \<times> instant" where
  "registry_drain grace now ts = drain_tasks (now + grace) now ts"

section \<open>Statistics\<close>

definition stats_key :: "string \<Rightarrow> string" where
  "stats_key what = ''siem:stats:'' @ what"

text \<open>A counter that is missing or cannot be read is 0.\<close>

definition counter_or_zero :: "'s redis \<Rightarrow> string \<Rightarrow> 's rcache \<Rightarrow> int \<times> 's rcache" where
  "counter_or_zero rd key c = (case get_counter rd key c of (r, c') \<Rightarrow> (int (option_or 0 (result_or None r)), c'))"

text \<open>The body of the periodic sync and of the final checkpoint.\<close>

definition persist_stats :: "'s redis \<Rightarrow> 's app \<Rightarrow> (error + unit) \<times> 's app" where
  "persist_stats rd s =
     (case counter_or_zero rd (stats_key ''total_logs'') (ap_cache s) of (n_logs, c1) \<Rightarrow>
      case counter_or_zero rd (stats_key ''total_alerts'') c1 of (n_alerts, c2) \<Rightarrow>
      case counter_or_zero rd (stats_key ''active_alerts'') c2 of (n_active, c3) \<Rightarrow>
      case counter_or_zero rd (stats_key ''critical_alerts'') c3 of (n_critical, c4) \<Rightarrow>
      via_db (save_stats [] n_logs n_alerts n_active n_critical) (s \<lparr> ap_cache := c4 \<rparr>))"

definition final_stats_checkpoint :: "'s redis \<Rightarrow> 's app \<Rightarrow> 's app" where
  "final_stats_checkpoint rd s = snd (persist_stats rd s)"

definition stats_sync_tick :: "'s redis \<Rightarrow> 's app \<Rightarrow> 's app" where
  "stats_sync_tick rd s = snd (persist_stats rd s)"

section \<open>The weekly report\<close>

definition weekly_report :: "string \<Rightarrow> string \<Rightarrow> string \<Rightarrow> instant \<Rightarrow> instant \<Rightarrow> json \<Rightarrow> report_create" where
  "weekly_report ty name st started completed summary = \<lparr> rp_tenant = [], rp_type = ty,
     rp_drill = name, rp_status = st, rp_started = started, rp_completed = completed, rp_summary = summary \<rparr>"

definition store_report :: "report_create \<Rightarrow> 's app \<Rightarrow> 's app" where
  "store_report p = ignore (via_db (insert_reliability_report p))"

definition weekly_replay ::
  "'s env \<Rightarrow> reliability_ext \<Rightarrow> (json \<Rightarrow> nat \<Rightarrow> nat \<Rightarrow> error + json) option \<Rightarrow> 's ingest \<Rightarrow> 's ingest" where
  "weekly_replay E R search g = (case replay_recent_logs E R search [] 25 g of
      (Inl _, g1) \<Rightarrow> g1
    | (Inr summary, g1) \<Rightarrow>
        (let st = (if 0 < option_or 0 (Option.bind (json_get summary ''replayed'') as_u64)
                   then ''passed'' else ''degraded'')
         in on_app (store_report (weekly_report ''replay_drill'' ''weekly-auto-replay-drill'' st
              (app_now (ig_app g)) (app_now (ig_app g1)) summary)) g1))"

definition weekly_chaos :: "'s env \<Rightarrow> probes \<Rightarrow> 's app \<Rightarrow> 's app" where
  "weekly_chaos E P s = (case health_probe_summary E P s of (summary, s1) \<Rightarrow>
     (let st = (if option_or False (Option.bind (json_get summary ''all_healthy'') as_bool)
                then ''passed'' else ''failed'')
      in store_report (weekly_report ''chaos_drill'' ''weekly-auto-chaos-drill'' st (app_now s) (app_now s1) summary) s1))"

text \<open>The JSON of a snapshot is a parameter.\<close>

definition weekly_summary ::
  "'s env \<Rightarrow> reliability_ext \<Rightarrow> (slo_snapshot \<Rightarrow> json) \<Rightarrow> 's app \<Rightarrow> 's app" where
  "weekly_summary E R show_slo s = (case build_reliability_overview E R [] s of
      (Inl _, s1) \<Rightarrow> s1
    | (Inr (snap, reports), s1) \<Rightarrow>
        store_report (weekly_report ''weekly_summary'' ''weekly-reliability-summary'' (ss_status snap)
          (app_now s1) (app_now s1)
          (JObj [(''recent_reports'', JNum (PosInt (length reports))), (''snapshot'', show_slo snap)])) s1)"

definition weekly_tick ::
  "'s env \<Rightarrow> reliability_ext \<Rightarrow> (slo_snapshot \<Rightarrow> json) \<Rightarrow> probes
   \<Rightarrow> (json \<Rightarrow> nat \<Rightarrow> nat \<Rightarrow> error + json) option \<Rightarrow> 's ingest \<Rightarrow> 's ingest" where
  "weekly_tick E R show_slo P search g =
     on_app (weekly_summary E R show_slo \<circ> weekly_chaos E P) (weekly_replay E R search g)"

section \<open>Kafka\<close>

text \<open>The producer task sends the ingested logs one by one; at the shutdown it sends what is left in its
channel.  A send that fails loses its log.\<close>

definition producer_sends :: "(log \<Rightarrow> bool) \<Rightarrow> log list \<Rightarrow> log list" where
  "producer_sends okay ls = filter okay ls"

text \<open>Connecting: at most five attempts, each creating the producer and the two consumers.\<close>

record connect_attempt =
  ct_producer :: bool
  ct_consumer :: bool
  ct_alert_consumer :: bool

function connect_loop :: "(nat \<Rightarrow> connect_attempt) \<Rightarrow> nat \<Rightarrow> nat \<Rightarrow> (error + nat) \<times> nat list" where
  "connect_loop world att backoff =
     (let n = att + 1; w = world n in
      if ct_producer w \<and> ct_consumer w \<and> ct_alert_consumer w then (Inr n, [])
      else if 5 \<le> n then (Inl Queue_Error, [])
      else (case connect_loop world n (min (backoff * 2) 10000) of (r, ps) \<Rightarrow> (r, backoff # ps)))"
  by auto
termination by (relation "measure (\<lambda>(world, att, backoff). 5 - att)") auto

declare connect_loop.simps [simp del]

definition kafka_connect :: "(nat \<Rightarrow> connect_attempt) \<Rightarrow> (error + nat) \<times> nat list" where
  "kafka_connect world = connect_loop world 0 500"

definition partition_lag :: "int \<Rightarrow> int \<Rightarrow> int" where
  "partition_lag high current = (if current \<le> high then high - current else 0)"

text \<open>One sample of the lag: for every assigned partition whose watermarks can be read, its high water
mark, and where its offset is known, that offset and the lag.\<close>

record partition_state =
  pt_topic :: string
  pt_id :: int
  pt_offset :: "int option"
  pt_high :: "int option"

datatype gauge = Highwater string int int | Consumer_Offset string int int | Lag string int int

definition partition_gauges :: "partition_state \<Rightarrow> gauge list" where
  "partition_gauges p =
     (case pt_high p of
        None \<Rightarrow> []
      | Some high \<Rightarrow> Highwater (pt_topic p) (pt_id p) high #
          (case pt_offset p of
             None \<Rightarrow> []
           | Some current \<Rightarrow> [Consumer_Offset (pt_topic p) (pt_id p) current,
                              Lag (pt_topic p) (pt_id p) (partition_lag high current)]))"

definition sample_lag :: "partition_state list option \<Rightarrow> gauge list" where
  "sample_lag assignment = (case assignment of None \<Rightarrow> [] | Some ps \<Rightarrow> concat (map partition_gauges ps))"

section \<open>Labels\<close>

record tenant_labels =
  tn_labels :: "(string \<times> string) list"
  tn_limit :: nat

definition set_tenant_label_limit :: "nat \<Rightarrow> tenant_labels \<Rightarrow> tenant_labels" where
  "set_tenant_label_limit n s = s \<lparr> tn_limit := max n 1 \<rparr>"

text \<open>\<open>{:03}\<close> pads a number with zeros to three places.\<close>

definition pad3 :: "nat \<Rightarrow> string" where
  "pad3 n = (let s = show_nat n in replicate (3 - length s) (CHR ''0'') @ s)"

definition bounded_tenant_label :: "(string \<Rightarrow> nat) \<Rightarrow> string \<Rightarrow> tenant_labels \<Rightarrow> string \<times> tenant_labels" where
  "bounded_tenant_label hash t s =
     (case map_of (tn_labels s) t of
        Some l \<Rightarrow> (l, s)
      | None \<Rightarrow>
          (let limit = max (tn_limit s) 1 in
           if length (tn_labels s) < limit then (t, s \<lparr> tn_labels := al_update t t (tn_labels s) \<rparr>)
           else (''tenant_bucket_'' @ pad3 (hash t mod limit), s)))"

definition normalize_segment :: "(string \<Rightarrow> bool) \<Rightarrow> string \<Rightarrow> string" where
  "normalize_segment is_uuid seg =
     (if seg = [] then []
      else if list_all is_digit seg \<or> is_uuid seg then '':id''
      else seg)"

fun join_with :: "char \<Rightarrow> string list \<Rightarrow> string" where
  "join_with d [] = []"
| "join_with d [w] = w"
| "join_with d (w # ws) = w @ [d] @ join_with d ws"

definition normalize_route :: "(string \<Rightarrow> bool) \<Rightarrow> string \<Rightarrow> string" where
  "normalize_route is_uuid path = join_with (CHR ''/'') (map (normalize_segment is_uuid) (split_on (CHR ''/'') path))"

section \<open>The dashboard\<close>

record stats_reply =
  st_tenant :: string
  st_logs :: int
  st_alerts :: int
  st_active :: int
  st_critical :: int

definition tenant_counter :: "'s env \<Rightarrow> string \<Rightarrow> string \<Rightarrow> 's app \<Rightarrow> int option \<times> 's app" where
  "tenant_counter E t what s = (case get_counter (ev_rd E) (''siem:tenant:'' @ t @ '':stats:'' @ what) (ap_cache s) of
     (r, c) \<Rightarrow> (map_option int (result_or None r), s \<lparr> ap_cache := c \<rparr>))"

definition seed_counter :: "'s env \<Rightarrow> string \<Rightarrow> string \<Rightarrow> int \<Rightarrow> 's app \<Rightarrow> 's app" where
  "seed_counter E t what v = ignore (via_cache (set_counter (ev_rd E)
     (''siem:tenant:'' @ t @ '':stats:'' @ what) (int_as_u64 v) (Some 86400)))"

definition stats_from_db :: "'s env \<Rightarrow> string \<Rightarrow> (stats_reply, 's) handler" where
  "stats_from_db E t =
     bind_ok (or_status 500 (via_db (get_stats t))) (\<lambda>(n_logs, n_alerts, n_active, n_critical) s.
       reply 200 \<lparr> st_tenant = t, st_logs = n_logs, st_alerts = n_alerts, st_active = n_active,
           st_critical = n_critical \<rparr>
         (seed_counter E t ''critical_alerts'' n_critical (seed_counter E t ''active_alerts'' n_active
           (seed_counter E t ''total_alerts'' n_alerts (seed_counter E t ''total_logs'' n_logs s)))))"

definition dashboard_stats_handler :: "'s env \<Rightarrow> claims option \<Rightarrow> (stats_reply, 's) handler" where
  "dashboard_stats_handler E cls = with_claims cls (\<lambda>cl.
     bind_ok (require 403 (is_analyst cl)) (\<lambda>_.
     bind_ok (enforce_tenant_fixed_window E (cl_tenant cl) ''api_requests''
                (tl_api_requests (ev_limits E)) 1) (\<lambda>_ s0.
       case tenant_counter E (cl_tenant cl) ''total_logs'' s0 of (a, s1) \<Rightarrow>
       case tenant_counter E (cl_tenant cl) ''total_alerts'' s1 of (b, s2) \<Rightarrow>
       case tenant_counter E (cl_tenant cl) ''active_alerts'' s2 of (c, s3) \<Rightarrow>
       case tenant_counter E (cl_tenant cl) ''critical_alerts'' s3 of (d, s4) \<Rightarrow>
         (case (a, b, c, d) of
            (Some n_logs, Some n_alerts, Some n_active, Some n_critical) \<Rightarrow>
              reply 200 \<lparr> st_tenant = cl_tenant cl, st_logs = n_logs, st_alerts = n_alerts,
                st_active = n_active, st_critical = n_critical \<rparr> s4
          | _ \<Rightarrow> stats_from_db E (cl_tenant cl) s4))))"

section \<open>Health\<close>

text \<open>The texts of the details are left out; \<open>sh_details\<close> says whether there is one.\<close>

record service_health =
  sh_status :: string
  sh_seen :: "string option"
  sh_age :: "int option"
  sh_details :: bool

definition sat_sub64 :: "int \<Rightarrow> int \<Rightarrow> int" where
  "sat_sub64 a b = max (- (2 ^ 63)) (min (2 ^ 63 - 1) (a - b))"

definition heartbeat_status :: "'s env \<Rightarrow> string \<Rightarrow> int \<Rightarrow> 's app \<Rightarrow> service_health \<times> 's app" where
  "heartbeat_status E key max_age s = (case via_cache (get_string (ev_rd E) key) s of
      (Inr (Some v), s') \<Rightarrow> (case parse_int 64 v of
          Some t \<Rightarrow> (let age = sat_sub64 (timestamp (app_now s)) t in
            (\<lparr> sh_status = (if age \<le> max_age then ''healthy'' else ''degraded''), sh_seen = Some v,
               sh_age = Some age, sh_details = False \<rparr>, s'))
        | None \<Rightarrow> (\<lparr> sh_status = ''degraded'', sh_seen = Some v, sh_age = None, sh_details = True \<rparr>, s'))
    | (_, s') \<Rightarrow> (\<lparr> sh_status = ''down'', sh_seen = None, sh_age = None, sh_details = True \<rparr>, s'))"

definition probe_health :: "bool \<Rightarrow> service_health" where
  "probe_health up = \<lparr> sh_status = (if up then ''healthy'' else ''down''), sh_seen = None, sh_age = None,
     sh_details = True \<rparr>"

definition overall_health :: "(string \<times> service_health) list \<Rightarrow> string" where
  "overall_health svs =
     (if list_all (\<lambda>(_, h). sh_status h = ''healthy'') svs then ''healthy''
      else if list_ex (\<lambda>(_, h). sh_status h = ''healthy'') svs then ''degraded''
      else ''down'')"

text \<open>The services in the order of the map, which sorts by name.\<close>

definition detailed_health ::
  "'s env \<Rightarrow> probes \<Rightarrow> 's app \<Rightarrow> (string \<times> (string \<times> service_health) list) \<times> 's app" where
  "detailed_health E P s0 =
     (case via_db db_ping s0 of (r_db, s1) \<Rightarrow>
      case via_cache (ping (ev_rd E)) s1 of (r_rd, s2) \<Rightarrow>
      case heartbeat_status E ''siem:health:agent_last_seen'' 300 s2 of (h_agent, s3) \<Rightarrow>
      case heartbeat_status E ''siem:health:indexer_last_seen'' 300 s3 of (h_indexer, s4) \<Rightarrow>
      case heartbeat_status E ''siem:health:alert_pipeline_last_seen'' 300 s4 of (h_alerts, s5) \<Rightarrow>
      (let svs = [(''agent'', h_agent), (''alert_pipeline'', h_alerts),
             (''api'', \<lparr> sh_status = ''healthy'', sh_seen = Some (ev_time E (app_now s0)), sh_age = Some 0,
                        sh_details = True \<rparr>),
             (''elasticsearch'', probe_health (elastic_ok P)), (''indexer'', h_indexer),
             (''kafka'', probe_health (pr_kafka P)), (''postgres'', probe_health (is_ok r_db)),
             (''redis'', probe_health (is_ok r_rd))]
       in ((overall_health svs, svs), s5)))"

section \<open>Facts\<close>

text \<open>The drain gives one outcome per task, in order, and is over by the deadline.\<close>

text \<open>How long the aborted tasks may keep the drain waiting.\<close>

abbreviation lingering :: "managed_task list \<Rightarrow> int" where
  "lingering ts \<equiv> int (sum_list (map mt_linger ts))"

lemma stopped_bounds: "now \<le> stopped_at now t \<and> stopped_at now t \<le> now + int (mt_linger t)"
  by (cases "mt_end t") (auto simp: stopped_at_def)

lemma drain_tasks_facts:
  "map fst (fst (drain_tasks deadline now ts)) = map mt_name ts
   \<and> now \<le> snd (drain_tasks deadline now ts) \<and> snd (drain_tasks deadline now ts) \<le> max now deadline + lingering ts"
proof (induction ts arbitrary: now)
  case (Cons t ts)
  have aborted: "map fst (fst (drain_tasks deadline (stopped_at u t) ts)) = map mt_name ts
      \<and> now \<le> snd (drain_tasks deadline (stopped_at u t) ts)
      \<and> snd (drain_tasks deadline (stopped_at u t) ts) \<le> max now deadline + lingering (t # ts)"
    if "now \<le> u" "u = max now deadline" for u
    using Cons[of "stopped_at u t"] stopped_bounds[of u t] that by auto
  show ?case
  proof (cases "deadline \<le> now")
    case True
    then show ?thesis using aborted[of now] by (auto split: prod.split)
  next
    case False
    show ?thesis
    proof (cases "mt_end t")
      case Never
      then show ?thesis using False aborted[of deadline] by (auto split: prod.split)
    next
      case (Ends e cleanly)
      then show ?thesis using False aborted[of deadline] Cons[of "max now e"] by (auto split: prod.split)
    qed
  qed
qed simp

text \<open>Once the deadline has passed every task left is aborted.\<close>

lemma drain_after_deadline:
  "deadline \<le> now \<Longrightarrow> fst (drain_tasks deadline now ts) = map (\<lambda>t. (mt_name t, Aborted)) ts"
proof (induction ts arbitrary: now)
  case (Cons t ts)
  then have "deadline \<le> stopped_at now t" using stopped_bounds[of now t] by linarith
  then show ?case using Cons.IH[of "stopped_at now t"] Cons.prems by (auto split: prod.split)
qed simp

text \<open>Labels: a tenant keeps its label, and at most the limit of tenants has one of its own.\<close>

definition labels_ok :: "tenant_labels \<Rightarrow> bool" where
  "labels_ok s \<longleftrightarrow> distinct (map fst (tn_labels s)) \<and> length (tn_labels s) \<le> max (tn_limit s) 1
     \<and> list_all (\<lambda>(t, l). l = t) (tn_labels s)"

lemma al_update_new: "k \<notin> fst ` set m \<Longrightarrow> al_update k v m = m @ [(k, v)]"
  by (induction k v m rule: al_update.induct) auto

lemma bounded_label_ok: "labels_ok s \<Longrightarrow> labels_ok (snd (bounded_tenant_label hash t s))"
proof (cases "map_of (tn_labels s) t")
  case None
  then have "t \<notin> fst ` set (tn_labels s)" by (simp add: map_of_eq_None_iff)
  then show "labels_ok s \<Longrightarrow> labels_ok (snd (bounded_tenant_label hash t s))"
    by (auto simp: bounded_tenant_label_def None Let_def labels_ok_def al_update_new)
qed (simp add: bounded_tenant_label_def)

lemma bounded_label_stable:
  "labels_ok s \<Longrightarrow> map_of (tn_labels s) t = Some l \<Longrightarrow>
     map_of (tn_labels (snd (bounded_tenant_label hash u s))) t = Some l"
  by (auto simp: bounded_tenant_label_def Let_def split: option.splits)

text \<open>Normalizing a route twice is normalizing it once.\<close>

lemma split_join:
  "ws \<noteq> [] \<Longrightarrow> \<forall>w \<in> set ws. d \<notin> set w \<Longrightarrow> split_on d (join_with d ws) = ws"
proof (induction d ws rule: join_with.induct)
  case (3 d w v ws)
  have "split_on d (u @ d # r) = u # split_on d r" if "d \<notin> set u" for u r
    using that by (induction u) auto
  then show ?case using 3 by simp
qed (simp_all add: split_on_no_sep)

lemma split_parts: "w \<in> set (split_on d s) \<Longrightarrow> d \<notin> set w"
  by (induction s arbitrary: w) (auto split: if_splits list.splits)

lemma normalize_segment_sep: "CHR ''/'' \<notin> set seg \<Longrightarrow> CHR ''/'' \<notin> set (normalize_segment f seg)"
  by (simp add: normalize_segment_def)

lemma normalize_segment_idem: "\<not> f '':id'' \<Longrightarrow> normalize_segment f (normalize_segment f seg) = normalize_segment f seg"
  by (simp add: normalize_segment_def is_digit_def)

lemma normalize_route_segments:
  "split_on (CHR ''/'') (normalize_route f path) = map (normalize_segment f) (split_on (CHR ''/'') path)"
  unfolding normalize_route_def
  by (rule split_join) (auto dest: split_parts normalize_segment_sep)

lemma normalize_route_idem: "\<not> f '':id'' \<Longrightarrow> normalize_route f (normalize_route f path) = normalize_route f path"
  unfolding normalize_route_def[of f "normalize_route f path"] normalize_route_segments
  by (simp add: normalize_segment_idem normalize_route_def comp_def)

lemma connect_attempts:
  "connect_loop world att backoff = (r, ps) \<Longrightarrow> att < 5 \<Longrightarrow> length ps \<le> 4 - att \<and> (\<forall>n. r = Inr n \<longrightarrow> n = att + length ps + 1)"
proof (induction world att backoff arbitrary: r ps rule: connect_loop.induct)
  case (1 world att backoff)
  show ?case
  proof (cases "ct_producer (world (att + 1)) \<and> ct_consumer (world (att + 1)) \<and> ct_alert_consumer (world (att + 1))
      \<or> 5 \<le> att + 1")
    case True
    then show ?thesis using "1.prems" by (auto simp: connect_loop.simps[of world att] Let_def split: if_splits)
  next
    case False
    obtain q qs where q: "connect_loop world (att + 1) (min (backoff * 2) 10000) = (q, qs)" by fastforce
    have e: "r = q" "ps = backoff # qs"
      using "1.prems"(1) False by (auto simp: connect_loop.simps[of world att] Let_def q[simplified])
    show ?thesis using "1.IH"[OF refl refl _ _ q] False e by auto
  qed
qed

end
