(* ===== verification/Frames.thy ===== *)
theory Frames
  imports App
begin

text \<open>Three properties of effectful code that are proved along its structure: \<open>preserves v m\<close>, no run of
\<open>m\<close> changes the view \<open>v\<close> of the state; \<open>refuses C m\<close>, the errors of \<open>m\<close> are statuses of \<open>C\<close>; and \<open>clean v m\<close>,
a run of \<open>m\<close> that is refused with a status below 500 leaves the view.\<close>

named_theorems frame \<open>introduction rules of preserves\<close>
named_theorems refusal \<open>introduction rules of refuses\<close>
named_theorems cleaning \<open>introduction rules of clean\<close>

definition preserves :: "('s \<Rightarrow> 'v) \<Rightarrow> ('e, 'a, 's) eff \<Rightarrow> bool" where
  "preserves v m \<longleftrightarrow> (\<forall>s. v (snd (m s)) = v s)"

definition refuses :: "'e set \<Rightarrow> ('e, 'a, 's) eff \<Rightarrow> bool" where
  "refuses C m \<longleftrightarrow> (\<forall>s e. fst (m s) = Inl e \<longrightarrow> e \<in> C)"

definition clean :: "('s \<Rightarrow> 'v) \<Rightarrow> (nat, 'a, 's) eff \<Rightarrow> bool" where
  "clean v m \<longleftrightarrow> (\<forall>s e. fst (m s) = Inl e \<longrightarrow> e < 500 \<longrightarrow> v (snd (m s)) = v s)"

definition yields :: "('a \<Rightarrow> bool) \<Rightarrow> ('e, 'a, 's) eff \<Rightarrow> bool" where
  "yields P m \<longleftrightarrow> (\<forall>s x. fst (m s) = Inr x \<longrightarrow> P x)"

section \<open>Views that are kept\<close>

lemma preservesD: "preserves v m \<Longrightarrow> m s = (r, s') \<Longrightarrow> v s' = v s"
  unfolding preserves_def by (metis snd_conv)

lemma preserves_snd: "preserves v m \<Longrightarrow> v (snd (m s)) = v s"
  by (simp add: preserves_def)

lemma preserves_ignore: "preserves v m \<Longrightarrow> v (ignore m s) = v s"
  by (simp add: preserves_def ignore_def)

lemma preserves_ok [frame]: "preserves v (ok x)"
  by (simp add: preserves_def ok_def)

lemma preserves_fail [frame]: "preserves v (fail e)"
  by (simp add: preserves_def fail_def)

lemma preserves_reply [frame]: "preserves v (reply c x)"
  unfolding reply_def by (rule preserves_ok)

lemma preserves_require [frame]: "preserves v (require c b)"
  by (simp add: preserves_def require_def ok_def fail_def)

lemma preserves_bind [frame]: "preserves v m \<Longrightarrow> (\<And>x. preserves v (f x)) \<Longrightarrow> preserves v (bind_ok m f)"
  by (auto simp: preserves_def bind_ok_def split: prod.split sum.split) (metis snd_conv)+

lemma preserves_bind_yields:
  "yields P m \<Longrightarrow> preserves v m \<Longrightarrow> (\<And>x. P x \<Longrightarrow> preserves v (f x)) \<Longrightarrow> preserves v (bind_ok m f)"
  by (auto simp: preserves_def yields_def bind_ok_def split: prod.split sum.split) (metis snd_conv fst_conv)+

lemma preserves_found [frame]: "preserves v m \<Longrightarrow> preserves v (found m)"
  unfolding found_def by (rule preserves_bind) (auto split: option.split intro: frame)

lemma preserves_or_status [frame]: "preserves v m \<Longrightarrow> preserves v (or_status c m)"
  by (auto simp: preserves_def or_status_def split: prod.split sum.split) (metis snd_conv)+

lemma preserves_via_db [frame]: "preserves v m \<Longrightarrow> preserves (\<lambda>s. v (ap_db s)) (via_db m)"
  by (auto simp: preserves_def via_db_def split: prod.split) (metis snd_conv)

lemma preserves_via_cache [frame]: "preserves (\<lambda>s. v (ap_db s)) (via_cache m)"
  by (auto simp: preserves_def via_cache_def split: prod.split)

lemma preserves_claims [frame]:
  "(\<And>cl. cls = Some cl \<Longrightarrow> preserves v (f cl)) \<Longrightarrow> preserves v (with_claims cls f)"
  by (cases cls) (auto simp: preserves_def with_claims_def fail_def)

lemma preserves_quota [frame]: "preserves (\<lambda>s. v (ap_db s)) (enforce_tenant_fixed_window E t res limit cost)"
  unfolding enforce_tenant_fixed_window_def by (intro frame)

lemma preserves_pure [frame]: "preserves v (\<lambda>s. (f s, s))"
  by (simp add: preserves_def)

lemma preserves_reader: "(\<And>x. preserves v (f x)) \<Longrightarrow> preserves v (\<lambda>s. f (g s) s)"
  by (simp add: preserves_def)

lemma preserves_if [frame]: "preserves v m \<Longrightarrow> preserves v m' \<Longrightarrow> preserves v (if b then m else m')"
  by simp

lemma preserves_option [frame]:
  "preserves v m \<Longrightarrow> (\<And>x. preserves v (f x)) \<Longrightarrow> preserves v (case o' of None \<Rightarrow> m | Some x \<Rightarrow> f x)"
  by (cases o') auto

lemma preserves_each [frame]: "(\<And>x. preserves v (f x)) \<Longrightarrow> preserves v (for_each f xs)"
  unfolding preserves_def by (intro allI for_each_keeps[where P = "\<lambda>s. v s = v t" for t]) auto

text \<open>A computation that first looks at the state is kept when it is for every state it looks at.\<close>

lemma preserves_atI: "(\<And>s0. v (snd (m s0 s0)) = v s0) \<Longrightarrow> preserves v (\<lambda>s. m s s)"
  by (simp add: preserves_def)

lemma preserves_case:
  "preserves v m \<Longrightarrow> (\<And>r. preserves v (f r)) \<Longrightarrow> preserves v (\<lambda>s. case m s of (r, s') \<Rightarrow> f r s')"
  by (auto simp: preserves_def split: prod.split) (metis snd_conv)

section \<open>Refusals\<close>

lemma refuses_mono: "refuses C m \<Longrightarrow> C \<subseteq> D \<Longrightarrow> refuses D m"
  by (auto simp: refuses_def)

lemma refuses_ok [refusal]: "refuses C (ok x)"
  by (simp add: refuses_def ok_def)

lemma refuses_reply [refusal]: "refuses C (reply c x)"
  unfolding reply_def by (rule refuses_ok)

lemma refuses_fail [refusal]: "c \<in> C \<Longrightarrow> refuses C (fail c)"
  by (simp add: refuses_def fail_def)

lemma refuses_require [refusal]: "c \<in> C \<Longrightarrow> refuses C (require c b)"
  by (simp add: refuses_def require_def ok_def fail_def)

lemma refuses_or_status [refusal]: "c \<in> C \<Longrightarrow> refuses C (or_status c m)"
  by (auto simp: refuses_def or_status_def split: prod.split sum.split)

lemma refuses_bind [refusal]: "refuses C m \<Longrightarrow> (\<And>x. refuses C (f x)) \<Longrightarrow> refuses C (bind_ok m f)"
  by (auto simp: refuses_def bind_ok_def split: prod.splits sum.splits) (metis fst_conv)+

lemma refuses_found [refusal]: "404 \<in> C \<Longrightarrow> refuses C m \<Longrightarrow> refuses C (found m)"
  unfolding found_def by (rule refuses_bind) (auto split: option.split intro: refusal)

lemma refuses_claims [refusal]: "401 \<in> C \<Longrightarrow> (\<And>cl. refuses C (f cl)) \<Longrightarrow> refuses C (with_claims cls f)"
  by (cases cls) (auto simp: refuses_def with_claims_def fail_def)

lemma refuses_quota [refusal]:
  "429 \<in> C \<Longrightarrow> 500 \<in> C \<Longrightarrow> refuses C (enforce_tenant_fixed_window E t res limit cost)"
  unfolding enforce_tenant_fixed_window_def by (intro refusal)

lemma refuses_reader: "(\<And>x s. refuses C (f x s)) \<Longrightarrow> refuses C (\<lambda>s. f (g s) s s)"
  by (simp add: refuses_def)

lemma refuses_if [refusal]: "refuses C m \<Longrightarrow> refuses C m' \<Longrightarrow> refuses C (if b then m else m')"
  by simp

lemma refuses_option [refusal]:
  "refuses C m \<Longrightarrow> (\<And>x. refuses C (f x)) \<Longrightarrow> refuses C (case o' of None \<Rightarrow> m | Some x \<Rightarrow> f x)"
  by (cases o') auto

lemma refuses_each [refusal]: "(\<And>x. refuses C (f x)) \<Longrightarrow> refuses C (for_each f xs)"
proof (induction xs)
  case (Cons x xs)
  then have "refuses C (bind_ok (f x) (\<lambda>_. for_each f xs))" by (intro refusal) auto
  then show ?case by (simp add: refuses_def)
qed (simp add: refuses_def)

section \<open>Refusals that change nothing\<close>

lemma clean_read: "preserves v m \<Longrightarrow> clean v m"
  by (simp add: clean_def preserves_def)

lemma clean_late: "refuses {500..} m \<Longrightarrow> clean v m"
  by (fastforce simp: clean_def refuses_def)

lemma clean_after_read: "preserves v m \<Longrightarrow> (\<And>x. clean v (f x)) \<Longrightarrow> clean v (bind_ok m f)"
  by (auto simp: clean_def preserves_def bind_ok_def split: prod.splits sum.splits) (metis fst_conv snd_conv)+

lemma clean_before_late: "clean v m \<Longrightarrow> (\<And>x. refuses {500..} (f x)) \<Longrightarrow> clean v (bind_ok m f)"
  by (auto simp: clean_def refuses_def bind_ok_def split: prod.splits sum.splits)
    (metis fst_conv snd_conv leD)+

lemma clean_claims [cleaning]: "(\<And>cl. clean v (f cl)) \<Longrightarrow> clean v (with_claims cls f)"
  by (cases cls) (auto simp: clean_def with_claims_def fail_def)

lemma clean_reply [cleaning]: "clean v (reply c x)"
  by (rule clean_read) (rule frame)

lemma clean_fail [cleaning]: "clean v (fail c)"
  by (rule clean_read) (rule frame)

lemma clean_option [cleaning]:
  "clean v m \<Longrightarrow> (\<And>x. clean v (f x)) \<Longrightarrow> clean v (case o' of None \<Rightarrow> m | Some x \<Rightarrow> f x)"
  by (cases o') auto

lemma clean_reader: "(\<And>x. clean v (f x)) \<Longrightarrow> clean v (\<lambda>s. f (g s) s)"
  by (simp add: clean_def)

section \<open>What a run yields\<close>

lemma yields_reader: "(\<And>x. yields P (f x)) \<Longrightarrow> yields P (\<lambda>s. f (g s) s)"
  by (simp add: yields_def)

lemma yields_via_db: "yields P m \<Longrightarrow> yields P (via_db m)"
  by (auto simp: yields_def via_db_def split: prod.splits) (metis fst_conv)

lemma yields_or_status: "yields P m \<Longrightarrow> yields P (or_status c m)"
  by (auto simp: yields_def or_status_def split: prod.splits sum.splits) (metis fst_conv)

lemma yields_found: "yields (\<lambda>x. \<forall>y. x = Some y \<longrightarrow> P y) m \<Longrightarrow> yields P (found m)"
  by (auto simp: yields_def found_def bind_ok_def fail_def ok_def split: prod.splits sum.splits option.splits)
    (metis fst_conv)

lemma yields_select: "(\<And>d. P (f d)) \<Longrightarrow> yields P (select f)"
  by (simp add: yields_def select_cases)

end
