(* ===== verification/Pipeline_Properties.thy ===== *)
theory Pipeline_Properties
  imports Packs Indexing Pipeline Operations Frames Api_Samples Windows
begin

text \<open>Properties of the pipeline around the engine: the order in which logs reach the detection workers,
where alerts and indexed logs end, the installation of content packs, and the shutdown.\<close>

section \<open>Dispatch\<close>

text \<open>C30. The logs that agree on the partition key reach one worker, all of them and in the order in which
they were dispatched, and none of them reaches another, whatever the hash and the number of workers.\<close>

theorem dispatch_keeps_order:
  "let boxes = dispatch_logs hash key n (\<lambda>_. True) ls (\<lambda>_. []);
       same = (\<lambda>l. partition_fields key l = partition_fields key x)
   in filter same (boxes w) = (if w = detection_partition_index hash key n x then filter same ls else [])"
proof -
  have idx: "detection_partition_index hash key n l = detection_partition_index hash key n x"
    if "partition_fields key l = partition_fields key x" for l
    using that by (simp add: detection_partition_index_def)
  have both: "(detection_partition_index hash key n l = w \<and> partition_fields key l = partition_fields key x)
      = (partition_fields key l = partition_fields key x \<and> w = detection_partition_index hash key n x)" for l
    using idx[of l] by blast
  show ?thesis
    unfolding Let_def dispatch_filter filter_filter simp_thms append_Nil both by simp
qed

section \<open>Alerts\<close>



section \<open>The search index\<close>

text \<open>C22. The indexer accounts for every log that arrives, once: it is counted as indexed, sent to the dead-letter topic, or
counted as a failed dead letter; only at a shutdown, and uncounted, is it sent in a last batch that is accepted,
dropped with a last batch that fails, or left in the channel.  The index holds, under its id, nothing but a log that
arrived, so that a log that is sent again after a partial failure is there once; and every log that counts as
indexed, or was accepted at the shutdown, is in the index, as long as a bulk response without errors means
that all its documents were stored.\<close>

theorem indexer_accounts_for_logs:
  "let (st', left) = indexer_run rd W k es (indexer_new c) in
     mset (ix_indexed st') + mset (ix_dead st') + mset (ix_failed st') + mset (ix_drained st') + mset (ix_dropped st')
       + mset left = mset (arrived es)
   \<and> ((\<forall>k. bw_stop (W k) = None) \<longrightarrow> ix_drained st' = [] \<and> ix_dropped st' = [] \<and> left = [])
   \<and> ((\<forall>k. bulk_honest (W k)) \<longrightarrow> (\<forall>i l. ix_docs st' i = Some l \<longrightarrow> l_id l = i \<and> l \<in> set (arrived es))
        \<and> (\<forall>l \<in> set (ix_indexed st') \<union> set (ix_drained st'). ix_docs st' (l_id l) \<noteq> None))"
proof -
  have "indexed_ok (set (arrived es)) (indexer_new c)" "accounted (indexer_new c) = {#}"
    by (simp_all add: indexed_ok_def docs_of_def accounted_def indexer_new_def)
  then show ?thesis using indexer_run_accounted[of rd W k es "indexer_new c" "set (arrived es)"]
    by (simp add: split_beta accounted_def indexed_ok_def docs_of_def indexer_new_def)
qed

definition sample_bulk :: batch_world where
  "sample_bulk = \<lparr> bw_client = True, bw_reply = (\<lambda>n. if n = 0 then Inl Search_Error else Inr (200, Inr JNull)),
     bw_stored = (\<lambda>n l. 0 < n \<or> l_id l = 1), bw_dlq = (\<lambda>_. True), bw_now = 0, bw_stop = None \<rparr>"

lemma indexer_accounts_for_logs_witness:
  "let (st', left) = indexer_run mem_redis (\<lambda>_. sample_bulk) 0 [Arrived (sample_log ''t'' ''1.1.1.1'' ''x'' ''y'' 0)] (indexer_new (rcache_new ks_empty 0)) in
     left = [] \<and> mset (ix_indexed st') + mset (ix_dead st') + mset (ix_failed st') = {# sample_log ''t'' ''1.1.1.1'' ''x'' ''y'' 0 #}
     \<and> (\<forall>l \<in> set (ix_indexed st'). ix_docs st' (l_id l) \<noteq> None)"
proof -
  have "bulk_honest sample_bulk" "bw_stop sample_bulk = None"
    by (auto simp: bulk_honest_def sample_bulk_def bulk_outcome_def)
  moreover obtain st' left where "indexer_run mem_redis (\<lambda>_. sample_bulk) 0 [Arrived (sample_log ''t'' ''1.1.1.1'' ''x'' ''y'' 0)]
      (indexer_new (rcache_new ks_empty 0)) = (st', left)" by (metis prod.exhaust)
  ultimately show ?thesis
    using indexer_accounts_for_logs[of mem_redis "\<lambda>_. sample_bulk" 0 "[Arrived (sample_log ''t'' ''1.1.1.1'' ''x'' ''y'' 0)]"
        "rcache_new ks_empty 0"] by (auto simp del: indexer_run.simps)
qed

text \<open>C36. The bulk payload is framed: as long as the JSON printer writes no newline, splitting the payload at
newlines gives back, for each log in order, its action line and its document line.\<close>

theorem bulk_payload_framed:
  assumes "\<forall>j. newline \<notin> set (ex_print X j)"
  shows "split_on newline (bulk_payload X ls) = concat (map (\<lambda>l. [action_line X l, document_line X l]) ls) @ [[]]"
  using assms by (rule bulk_payload_lines)

section \<open>Shutdown\<close>

lemma drain_append:
  "drain_tasks deadline now (ts @ us)
     = (case drain_tasks deadline now ts of (rs, n) \<Rightarrow> (case drain_tasks deadline n us of (rs', n') \<Rightarrow> (rs @ rs', n')))"
  by (induction deadline now ts rule: drain_tasks.induct) (auto split: prod.split task_end.split)

lemma drain_from_never:
  "mt_end t = Never \<Longrightarrow>
     fst (drain_tasks deadline now (t # us)) = map (\<lambda>t. (mt_name t, Aborted)) (t # us)"
  using drain_after_deadline[of deadline "stopped_at deadline t" us] stopped_bounds[of deadline t]
    drain_after_deadline[of deadline now "t # us"]
  by (cases "deadline \<le> now") (auto split: prod.split)

text \<open>C37. The drain of the task registry has one outcome for each task, in the order of registration.  It ends
within its grace period and the time that the aborted tasks, one after the other, take to stop - they are awaited
without a limit.  A task that never ends uses up the rest of the period, and every task registered after it
is aborted, even one that would have ended.\<close>

theorem drain_bounded:
  "let (rs, end') = registry_drain grace now (ts @ \<lparr> mt_name = nm, mt_end = Never, mt_linger = k \<rparr> # us) in
     map fst rs = map mt_name ts @ nm # map mt_name us
     \<and> now \<le> end' \<and> end' \<le> max now (now + grace) + lingering ts + int k + lingering us
     \<and> drop (length ts) rs = (nm, Aborted) # map (\<lambda>t. (mt_name t, Aborted)) us"
proof -
  let ?t = "\<lparr> mt_name = nm, mt_end = Never, mt_linger = k \<rparr>"
  obtain r1 n1 where one: "drain_tasks (now + grace) now ts = (r1, n1)" by fastforce
  obtain r2 n2 where two: "drain_tasks (now + grace) n1 (?t # us) = (r2, n2)" by fastforce
  have all: "drain_tasks (now + grace) now (ts @ ?t # us) = (r1 @ r2, n2)"
    by (simp only: drain_append one two prod.case)
  have "length r1 = length ts"
    using drain_tasks_facts[of "now + grace" now ts] one by (metis fst_conv length_map)
  moreover have "r2 = (nm, Aborted) # map (\<lambda>t. (mt_name t, Aborted)) us"
    using drain_from_never[of ?t "now + grace" n1 us] two by simp
  ultimately show ?thesis
    using drain_tasks_facts[of "now + grace" now "ts @ ?t # us"] all by (simp add: registry_drain_def)
qed


lemma bulk_payload_framed_witness:
  "split_on newline (bulk_payload \<lparr> ex_log = (\<lambda>_. JNull), ex_print = (\<lambda>_. ''{}''), ex_uuid = show_nat, ex_time = show_int \<rparr>
      [sample_log ''t'' ''1.1.1.1'' ''e'' ''m'' 5])
   = concat (map (\<lambda>l. [action_line \<lparr> ex_log = (\<lambda>_. JNull), ex_print = (\<lambda>_. ''{}''), ex_uuid = show_nat, ex_time = show_int \<rparr> l,
       document_line \<lparr> ex_log = (\<lambda>_. JNull), ex_print = (\<lambda>_. ''{}''), ex_uuid = show_nat, ex_time = show_int \<rparr> l])
       [sample_log ''t'' ''1.1.1.1'' ''e'' ''m'' 5]) @ [[]]"
  by (rule bulk_payload_framed) (simp add: newline_def)

section \<open>Content packs\<close>

lemma rules_table [frame]: "preserves db_rules (select f)" "preserves db_rules fresh_uuid"
  "preserves db_rules (insert_audit_event e)"
  by (simp_all add: preserves_def select_def fresh_uuid_def insert_audit_event_def stmt_def Let_def)

lemma audit_rules: "db_rules (ap_db (ignore (record_audit E cl act rty rid target meta) s)) = db_rules (ap_db s)"
proof -
  have w: "preserves (\<lambda>s. db_rules (ap_db s)) (write_audit E cl act rty rid target meta prev)" for prev
    unfolding write_audit_def Let_def
    by (intro preserves_bind preserves_or_status preserves_pure preserves_via_db frame, rule preserves_atI, rule preserves_snd)
      (intro preserves_or_status preserves_via_db frame)
  show ?thesis
    by (rule preserves_ignore)
      (unfold record_audit_def latest_audit_hash_def, intro preserves_bind preserves_or_status preserves_via_db frame w)
qed

lemma quota_db: "enforce_tenant_fixed_window E t res n c s = (r, s') \<Longrightarrow> ap_db s' = ap_db s"
  using preserves_quota[of "\<lambda>d. d" E t res n c] by (rule preservesD)

lemma all_rules_ok:
  "no_faults (ap_db s) \<Longrightarrow> t \<noteq> [] \<Longrightarrow>
     or_status c (via_db (get_all_rules t)) s
       = (Inr (filter (\<lambda>r. dr_tenant r = t) (db_rules (ap_db s))),
          s \<lparr> ap_db := ap_db s \<lparr> db_calls := db_calls (ap_db s) + 1 \<rparr> \<rparr>)"
  by (simp add: or_status_def via_db_def get_all_rules_def select_cases no_faults_def)

lemma ensure_rules_complete:
  assumes "no_faults (ap_db s)" "t \<noteq> []" "distinct (map pr_name (pk_rules p))"
  obtains new s' where "ensure_pack_rules t p s = (Inr (filter (\<lambda>r. dr_tenant r = t) (db_rules (ap_db s) @ new)), s')"
    "db_rules (ap_db s') = db_rules (ap_db s) @ new"
    "list_all2 (rule_from t) (filter (\<lambda>x. \<not> rule_named (db_rules (ap_db s)) t (pr_name x)) (pk_rules p)) new"
proof -
  let ?ex = "filter (\<lambda>r. dr_tenant r = t) (db_rules (ap_db s))"
  let ?s = "s \<lparr> ap_db := ap_db s \<lparr> db_calls := db_calls (ap_db s) + 1 \<rparr> \<rparr>"
  have "\<forall>x \<in> set (pk_rules p). (\<exists>r \<in> set ?ex. dr_name r = pr_name x) = rule_named (db_rules (ap_db ?s)) t (pr_name x)"
    by (auto simp: rule_named_def)
  then obtain new s1 where one: "for_each (install_template t ?ex) (pk_rules p) ?s = (Inr (), s1)"
    "db_rules (ap_db s1) = db_rules (ap_db ?s) @ new" "db_fault (ap_db s1) = db_fault (ap_db ?s)"
    "list_all2 (rule_from t) (filter (\<lambda>x. \<not> rule_named (db_rules (ap_db ?s)) t (pr_name x)) (pk_rules p)) new"
    using install_templates[of ?s "pk_rules p" ?ex t] assms by (auto simp: no_faults_def)
  have "no_faults (ap_db s1)" using one(3) assms(1) by (simp add: no_faults_def)
  note last = all_rules_ok[OF this assms(2)]
  show thesis
    by (rule that[of new "s1 \<lparr> ap_db := ap_db s1 \<lparr> db_calls := db_calls (ap_db s1) + 1 \<rparr> \<rparr>"])
      (use one in \<open>simp_all add: ensure_pack_rules_def bind_ok_def all_rules_ok[OF assms(1,2)] last\<close>)
qed

lemma list_all2_partner: "list_all2 R xs ys \<Longrightarrow> x \<in> set xs \<Longrightarrow> \<exists>y \<in> set ys. R x y"
  by (induction rule: list_all2_induct) auto

lemma summary_complete:
  assumes "list_all2 (rule_from t) (filter (\<lambda>x. \<not> rule_named rs t (pr_name x)) (pk_rules p)) new"
  shows "pkr_installed (pack_summary p (filter (\<lambda>r. dr_tenant r = t) (rs @ new)))
     \<and> pkr_installed_count (pack_summary p (filter (\<lambda>r. dr_tenant r = t) (rs @ new))) = length (pk_rules p)"
proof -
  have "installed_rule (filter (\<lambda>r. dr_tenant r = t) (rs @ new)) x \<noteq> None" if x: "x \<in> set (pk_rules p)" for x
  proof (cases "rule_named rs t (pr_name x)")
    case True
    then show ?thesis by (auto simp: installed_rule_def rule_named_def find_None_iff)
  next
    case False
    then have "x \<in> set (filter (\<lambda>x. \<not> rule_named rs t (pr_name x)) (pk_rules p))" using x by simp
    then obtain r where "r \<in> set new" "rule_from t x r"
      using list_all2_partner[OF assms] by blast
    then show ?thesis by (auto simp: installed_rule_def find_None_iff rule_from_def)
  qed
  then have "filter (\<lambda>x. installed_rule (filter (\<lambda>r. dr_tenant r = t) (rs @ new)) x \<noteq> None) (pk_rules p) = pk_rules p"
    by (simp add: filter_True)
  then show ?thesis by (simp add: pack_summary_def Let_def)
qed

text \<open>C29. A successful installation of a content pack, with a database that answers, adds one enabled rule of
the caller's tenant, as the template says, for each template the tenant had no rule of that name for, in
the order of the pack, and touches no other rule; its reply says that the pack is installed.  Installing
again adds nothing.\<close>

theorem pack_installation_complete:
  assumes "install_detection_pack E (Some cl) slug s = (Inr (code, r), s')" "no_faults (ap_db s)" "cl_tenant cl \<noteq> []"
  shows "\<exists>p new. find_pack slug = Some p \<and> db_rules (ap_db s') = db_rules (ap_db s) @ new
     \<and> list_all2 (rule_from (cl_tenant cl))
         (filter (\<lambda>x. \<not> rule_named (db_rules (ap_db s)) (cl_tenant cl) (pr_name x)) (pk_rules p)) new
     \<and> pkr_installed r \<and> pkr_installed_count r = length (pk_rules p)"
proof -
  obtain q s1 where quota: "enforce_tenant_fixed_window E (cl_tenant cl) ''rule_mutations''
      (tl_rule_mutations (ev_limits E)) 1 s = (q, s1)" by fastforce
  have db: "ap_db s1 = ap_db s" using quota by (rule quota_db)
  obtain p where p: "find_pack slug = Some p"
    using assms(1) quota
    by (auto simp: install_detection_pack_def with_claims_def require_def bind_ok_def ok_def fail_def
        split: if_splits sum.splits option.splits)
  have "p \<in> set curated_packs" using p by (auto simp: find_pack_def find_Some_iff)
  then have "distinct (map pr_name (pk_rules p))" by (rule curated_names)
  then obtain new s2 where e: "ensure_pack_rules (cl_tenant cl) p s1
      = (Inr (filter (\<lambda>r. dr_tenant r = cl_tenant cl) (db_rules (ap_db s1) @ new)), s2)"
    "db_rules (ap_db s2) = db_rules (ap_db s1) @ new"
    "list_all2 (rule_from (cl_tenant cl)) (filter (\<lambda>x. \<not> rule_named (db_rules (ap_db s1)) (cl_tenant cl) (pr_name x)) (pk_rules p)) new"
    using ensure_rules_complete[of s1 "cl_tenant cl" p] assms(2,3) db by metis
  have "r = pack_summary p (filter (\<lambda>r. dr_tenant r = cl_tenant cl) (db_rules (ap_db s1) @ new))"
    "db_rules (ap_db s') = db_rules (ap_db s2)"
    using assms(1) quota e(1)
    by (auto simp: install_detection_pack_def with_claims_def require_def bind_ok_def ok_def fail_def p reply_def
        record_pack_audit_def audit_rules split: if_splits sum.splits)
  then show ?thesis using summary_complete[OF e(3)] e p db by auto
qed

lemma sample_quota:
  obtains s1 where "enforce_tenant_fixed_window sample_env t ''rule_mutations'' 5 1 (sample_app (db_empty 0)) = (Inr (), s1)"
proof -
  have "counter_at (rc_srv (rcache_new ks_empty 0)) k = Some 0" for k
    by (simp add: counter_at_def ks_empty_def)
  then show thesis
    using that mem_fixed_window[of "rcache_new ks_empty 0" "quota_key t ''rule_mutations''" 0 1 60 5]
    by (simp add: enforce_tenant_fixed_window_def or_status_def via_cache_def bind_ok_def require_def ok_def as_u32_def
        db_empty_def)
qed

lemma sample_install:
  obtains r s' where "install_detection_pack sample_env (Some (sample_claims ''t'' [''analyst''])) ''insider-risk''
      (sample_app (db_empty 0)) = (Inr (200, r), s')"
proof -
  obtain s1 where q: "enforce_tenant_fixed_window sample_env ''t'' ''rule_mutations'' 5 1 (sample_app (db_empty 0)) = (Inr (), s1)"
    by (rule sample_quota)
  then have db: "ap_db s1 = db_empty 0" using quota_db by fastforce
  have p: "find_pack ''insider-risk'' = Some insider_risk_pack"
    by (simp add: find_pack_def curated_packs_def cloud_iam_abuse_pack_def endpoint_ransomware_precursors_pack_def
        insider_risk_pack_def)
  obtain rs s2 where e: "ensure_pack_rules ''t'' insider_risk_pack s1 = (Inr rs, s2)"
  proof (rule ensure_rules_complete[of s1 "''t''" insider_risk_pack])
    show "no_faults (ap_db s1)" by (simp add: db no_faults_def db_empty_def)
    show "distinct (map pr_name (pk_rules insider_risk_pack))"
      by (rule curated_names) (simp add: curated_packs_def)
  qed auto
  show thesis
    by (rule that[of "pack_summary insider_risk_pack rs"])
      (simp add: install_detection_pack_def with_claims_def require_def is_analyst_def has_role_def bind_ok_def ok_def
        sample_limits_def q[simplified] p e reply_def)
qed

lemma pack_installation_complete_witness:
  "\<exists>r s'. install_detection_pack sample_env (Some (sample_claims ''t'' [''analyst''])) ''insider-risk'' (sample_app (db_empty 0))
      = (Inr (200, r), s') \<and> pkr_installed r \<and> length (db_rules (ap_db s')) = 3"
proof -
  obtain r s' where i: "install_detection_pack sample_env (Some (sample_claims ''t'' [''analyst''])) ''insider-risk''
      (sample_app (db_empty 0)) = (Inr (200, r), s')"
    by (rule sample_install)
  obtain p new where p: "find_pack ''insider-risk'' = Some p" "db_rules (ap_db s') = new" "pkr_installed r"
    "list_all2 (rule_from ''t'') (filter (\<lambda>x. \<not> rule_named [] ''t'' (pr_name x)) (pk_rules p)) new"
    using pack_installation_complete[OF i] by (auto simp: no_faults_def db_empty_def)
  have "length new = length (pk_rules p)"
    using list_all2_lengthD[OF p(4)] by (simp add: rule_named_def)
  moreover have "length (pk_rules p) = 3"
    using p(1) by (simp add: find_pack_def curated_packs_def cloud_iam_abuse_pack_def
        endpoint_ransomware_precursors_pack_def insider_risk_pack_def split: if_splits)
      (auto simp: insider_risk_pack_def)
  ultimately show ?thesis using i p by auto
qed

text \<open>C34. The conditions of the curated packs are written as bare objects, which the reader of rule conditions
(an externally tagged enum) does not accept: the rules that an installation adds change nothing in the
index of the engine, so they never run.\<close>

theorem curated_rules_never_run:
  assumes "external_tags (rcx_condition K)" "p \<in> set curated_packs" "set xs \<subseteq> set (pk_rules p)"
    and "list_all2 (rule_from t) xs new"
  shows "index_rules K (rs @ new) ix = index_rules K rs ix"
proof -
  have none: "compile_rule K r = None" if r: "r \<in> set new" for r
  proof -
    obtain x where x: "x \<in> set xs" "rule_from t x r"
      using list_all2_partner[of "\<lambda>r x. rule_from t x r" new xs] r assms(4) by (auto simp: list_all2_conv_all_nth)
    then have "pr_type x = ''generic'' \<and> bare_condition (pr_condition x)"
      using curated_bare[OF assms(2)] assms(3) by blast
    then show ?thesis
      using x(2) bare_unreadable[OF assms(1)] by (simp add: rule_from_def compile_rule_def)
  qed
  have skip: "index_rules K new ix = ix" if "\<forall>r \<in> set new. compile_rule K r = None" for new ix
    using that by (induction new arbitrary: ix) auto
  have "index_rules K (rs @ new) ix = index_rules K new (index_rules K rs ix)"
    by (induction rs arbitrary: ix) auto
  then show ?thesis using skip none by simp
qed

text \<open>A reader of conditions that follows the tags.\<close>

fun read_condition :: "json \<Rightarrow> rule_condition option" where
  "read_condition (JObj [(k, JArr xs)]) =
     (if k = ''all'' then map_option All (those (map read_condition xs))
      else if k = ''any'' then map_option Any (those (map read_condition xs)) else None)"
| "read_condition (JObj [(k, JObj m)]) =
     (if k = ''field'' then
        (case (map_of m ''field'', map_of m ''op'', map_of m ''value'') of
           (Some (JStr f), Some (JStr op), Some v) \<Rightarrow> Some (Field f op v) | _ \<Rightarrow> None)
      else if k = ''not'' then map_option Not (read_condition (JObj m)) else None)"
| "read_condition _ = None"

lemma those_Some: "those xs = Some ys \<Longrightarrow> x \<in> set xs \<Longrightarrow> x \<noteq> None"
  by (induction xs arbitrary: ys) (auto split: option.splits)

lemma read_condition_tags: "external_tags read_condition"
  unfolding external_tags_def
proof (intro conjI allI impI ballI)
  fix m :: "(string \<times> json) list"
  assume "length m \<noteq> 1"
  then show "read_condition (JObj m) = None"
    by (cases "JObj m" rule: read_condition.cases) auto
next
  fix k and xs :: "json list" and x
  assume "k \<in> {''all'', ''any''}" "read_condition (JObj [(k, JArr xs)]) \<noteq> None" "x \<in> set xs"
  then obtain ys where "those (map read_condition xs) = Some ys" by (auto split: if_splits)
  then show "read_condition x \<noteq> None" using those_Some \<open>x \<in> set xs\<close> by fastforce
qed

lemma curated_rules_never_run_witness:
  "index_rules \<lparr> rcx_condition = read_condition, rcx_definition = (\<lambda>_. None), rcx_uuid = show_nat \<rparr>
     [(sample_rule 3 ''t'' (pr_name (hd (pk_rules insider_risk_pack))) ''generic'')
        \<lparr> dr_severity := pr_severity (hd (pk_rules insider_risk_pack)), dr_threshold := pr_threshold (hd (pk_rules insider_risk_pack)),
          dr_window := pr_window (hd (pk_rules insider_risk_pack)),
          dr_condition := Some (pr_condition (hd (pk_rules insider_risk_pack))) \<rparr>] (\<lambda>_. [])
   = (\<lambda>_. [])"
  using curated_rules_never_run[of "\<lparr> rcx_condition = read_condition, rcx_definition = (\<lambda>_. None), rcx_uuid = show_nat \<rparr>"
      insider_risk_pack "[hd (pk_rules insider_risk_pack)]" "''t''"
      "[(sample_rule 3 ''t'' (pr_name (hd (pk_rules insider_risk_pack))) ''generic'')
        \<lparr> dr_severity := pr_severity (hd (pk_rules insider_risk_pack)), dr_threshold := pr_threshold (hd (pk_rules insider_risk_pack)),
          dr_window := pr_window (hd (pk_rules insider_risk_pack)),
          dr_condition := Some (pr_condition (hd (pk_rules insider_risk_pack))) \<rparr>]" "[]" "\<lambda>_. []"]
  by (simp add: read_condition_tags curated_packs_def rule_from_def sample_rule_def insider_risk_pack_def pack_rule_def)

end
