(* ===== verification/Cases_Api.thy ===== *)
theory Cases_Api
  imports App
begin

text \<open>The case endpoints (\<open>api/handlers/cases.rs\<close>).\<close>

section \<open>Requests\<close>

record create_case_request =
  ccr_alert_id :: nat
  ccr_owner_id :: "string option"
  ccr_owner_email :: "string option"
  ccr_title :: "string option"
  ccr_summary :: "string option"

record update_case_request =
  ucr_status :: "case_status option"
  ucr_owner_id :: "string option"
  ucr_owner_email :: "string option"
  ucr_outcome :: "string option"
  ucr_postmortem :: "string option"

definition require_case_roles :: "claims \<Rightarrow> bool" where
  "require_case_roles cl \<longleftrightarrow> is_analyst cl"

text \<open>The opening of every handler but the playbook list: claims, role, quota.\<close>

definition case_guard ::
  "'s env \<Rightarrow> claims option \<Rightarrow> string \<Rightarrow> nat \<Rightarrow> (claims \<Rightarrow> ('a, 's) http) \<Rightarrow> ('a, 's) http" where
  "case_guard E cls res limit f = with_claims cls (\<lambda>cl.
     bind_ok (require 403 (require_case_roles cl)) (\<lambda>_.
     bind_ok (enforce_tenant_fixed_window E (cl_tenant cl) res limit 1) (\<lambda>_. f cl)))"

section \<open>Reading\<close>

definition list_cases_handler :: "'s env \<Rightarrow> claims option \<Rightarrow> (case_record list, 's) handler" where
  "list_cases_handler E cls =
     case_guard E cls ''api_requests'' (tl_api_requests (ev_limits E)) (\<lambda>cl.
       bind_ok (or_status 500 (via_db (list_cases (cl_tenant cl)))) (\<lambda>cs. reply 200 cs))"

definition get_case_handler :: "'s env \<Rightarrow> claims option \<Rightarrow> nat \<Rightarrow> (case_detail, 's) handler" where
  "get_case_handler E cls i =
     case_guard E cls ''api_requests'' (tl_api_requests (ev_limits E)) (\<lambda>cl.
       bind_ok (found (or_status 500 (via_db (get_case_detail (cl_tenant cl) i)))) (\<lambda>c. reply 200 c))"

definition list_playbooks_handler :: "'s env \<Rightarrow> claims option \<Rightarrow> (playbook list, 's) handler" where
  "list_playbooks_handler E cls = with_claims cls (\<lambda>cl.
     bind_ok (require 403 (require_case_roles cl)) (\<lambda>_.
     bind_ok (or_status 500 (via_db (list_case_playbooks (cl_tenant cl)))) (\<lambda>ps. reply 200 ps)))"

section \<open>Writing\<close>

definition create_case_handler ::
  "'s env \<Rightarrow> claims option \<Rightarrow> create_case_request \<Rightarrow> (case_record, 's) handler" where
  "create_case_handler E cls b =
     case_guard E cls ''rule_mutations'' (tl_rule_mutations (ev_limits E)) (\<lambda>cl.
       bind_ok (found (or_status 500 (via_db (get_alert (cl_tenant cl) (ccr_alert_id b))))) (\<lambda>a.
       bind_ok (or_status 500 (via_db (create_case_from_alert (ev_uuid E) a (ccr_owner_id b)
                  (ccr_owner_email b) (ccr_title b) (ccr_summary b) None))) (\<lambda>c s.
         reply 201 c (ignore (record_case_audit E cl ''case.create'' (Some (ev_uuid E (ca_id c)))
           (JObj [(''alert_id'', JStr (ev_uuid E (a_id a))),
                  (''severity'', JStr (show_alert_severity (a_severity a)))])) s))))"

text \<open>Every optional field of the body is passed on as a value to set, so an absent field is a
request to store \<open>None\<close>.\<close>

definition changes_of_request :: "update_case_request \<Rightarrow> case_changes" where
  "changes_of_request b = \<lparr> cc_status = ucr_status b, cc_owner_id = Some (ucr_owner_id b),
     cc_owner_email = Some (ucr_owner_email b), cc_outcome = Some (ucr_outcome b),
     cc_postmortem = Some (ucr_postmortem b) \<rparr>"

text \<open>A missing case is the only error of \<open>update_case\<close> that is not a database error.\<close>

definition update_case_handler ::
  "'s env \<Rightarrow> claims option \<Rightarrow> nat \<Rightarrow> update_case_request \<Rightarrow> (case_record, 's) handler" where
  "update_case_handler E cls i b =
     case_guard E cls ''rule_mutations'' (tl_rule_mutations (ev_limits E)) (\<lambda>cl s.
       case via_db (update_case (cl_tenant cl) i (changes_of_request b)) s of
         (Inl Invalid_Input, s') \<Rightarrow> (Inl 404, s')
       | (Inl _, s') \<Rightarrow> (Inl 500, s')
       | (Inr c, s') \<Rightarrow> reply 200 c (ignore (record_case_audit E cl ''case.update''
             (Some (ev_uuid E (ca_id c)))
             (JObj [(''outcome'', opt_str (ca_outcome c)), (''owner_email'', opt_str (ca_owner_email c)),
                    (''owner_user_id'', opt_str (ca_owner_id c)), (''status'', JStr (ca_status c))])) s'))"

definition add_timeline_handler ::
  "'s env \<Rightarrow> claims option \<Rightarrow> nat \<Rightarrow> string \<Rightarrow> string \<Rightarrow> json option \<Rightarrow> (unit, 's) handler" where
  "add_timeline_handler E cls i event_type message meta =
     case_guard E cls ''rule_mutations'' (tl_rule_mutations (ev_limits E)) (\<lambda>cl.
       let ty = trim event_type in
       bind_ok (require 400 (ty \<noteq> [] \<and> trim message \<noteq> [])) (\<lambda>_.
       bind_ok (found (or_status 500 (via_db (get_case_by_id (cl_tenant cl) i)))) (\<lambda>c.
       bind_ok (or_status 500 (via_db (record_case_event (cl_tenant cl) (ca_id c) ty message
                  (Some (cl_sub cl)) (Some (cl_email cl)) (option_or (JObj []) meta)))) (\<lambda>_ s.
         reply 201 () (ignore (record_case_audit E cl ''case.timeline_event''
           (Some (ev_uuid E (ca_id c)))
           (JObj [(''event_type'', JStr ty), (''message'', JStr message)])) s)))))"

section \<open>Running a playbook\<close>

definition step_text :: "json \<Rightarrow> string \<Rightarrow> string \<Rightarrow> string" where
  "step_text step k d = option_or d (Option.bind (json_get step k) as_str)"

definition playbook_step :: "claims \<Rightarrow> nat \<Rightarrow> json \<Rightarrow> unit dbop" where
  "playbook_step cl i step =
     (let title = step_text step ''title'' ''Unnamed step'';
          action = step_text step ''action_type'' ''manual'';
          descr = step_text step ''description'' title;
          automated = option_or False (Option.bind (json_get step ''automated'') as_bool)
      in record_case_event (cl_tenant cl) i
           (if automated then ''playbook.step.automated'' else ''playbook.step.manual'') title
           (Some (cl_sub cl)) (Some (cl_email cl))
           (JObj [(''action_type'', JStr action), (''automated'', JBool automated),
                  (''description'', JStr descr), (''title'', JStr title)]))"

fun playbook_steps :: "claims \<Rightarrow> nat \<Rightarrow> json list \<Rightarrow> db \<Rightarrow> db" where
  "playbook_steps cl i [] d = d"
| "playbook_steps cl i (x # xs) d = playbook_steps cl i xs (ignore (playbook_step cl i x) d)"

definition start_playbook :: "'s env \<Rightarrow> claims \<Rightarrow> case_record \<Rightarrow> playbook \<Rightarrow> db \<Rightarrow> db" where
  "start_playbook E cl c p d =
     (let d1 = ignore (update_case (cl_tenant cl) (ca_id c)
                 (no_changes \<lparr> cc_status := Some C_Investigating \<rparr>)) d;
          d2 = ignore (record_case_event (cl_tenant cl) (ca_id c) ''playbook.started''
                 (''Playbook '' @ [CHR 39] @ pb_name p @ [CHR 39] @ '' started'')
                 (Some (cl_sub cl)) (Some (cl_email cl))
                 (JObj [(''playbook_id'', JStr (ev_uuid E (pb_id p))),
                        (''playbook_name'', JStr (pb_name p))])) d1
      in (case pb_steps p of JArr steps \<Rightarrow> playbook_steps cl (ca_id c) steps d2 | _ \<Rightarrow> d2))"

definition run_playbook_handler ::
  "'s env \<Rightarrow> claims option \<Rightarrow> nat \<Rightarrow> nat option \<Rightarrow> (string, 's) handler" where
  "run_playbook_handler E cls i pid =
     case_guard E cls ''rule_mutations'' (tl_rule_mutations (ev_limits E)) (\<lambda>cl.
       bind_ok (found (or_status 500 (via_db (get_case_by_id (cl_tenant cl) i)))) (\<lambda>c.
       bind_ok (case opt_orelse pid (ca_playbook_id c) of
                  None \<Rightarrow> fail 400
                | Some p \<Rightarrow> found (or_status 500 (via_db (get_case_playbook (cl_tenant cl) p)))) (\<lambda>p s.
         reply 200 (pb_name p) (ignore (record_case_audit E cl ''case.playbook_run''
           (Some (ev_uuid E (ca_id c)))
           (JObj [(''playbook_id'', JStr (ev_uuid E (pb_id p))),
                  (''playbook_name'', JStr (pb_name p))]))
           (s \<lparr> ap_db := start_playbook E cl c p (ap_db s) \<rparr>)))))"

end
