(* ===== verification/Rules_Api.thy ===== *)
theory Rules_Api
  imports App
begin

text \<open>The endpoints of the detection rules (\<open>api/handlers/rules.rs\<close>).  They ask for a token and a
quota; no role is required.\<close>

definition rule_guard ::
  "'s env \<Rightarrow> claims option \<Rightarrow> string \<Rightarrow> nat \<Rightarrow> (claims \<Rightarrow> ('a, 's) http) \<Rightarrow> ('a, 's) http" where
  "rule_guard E cls res limit f = with_claims cls (\<lambda>cl.
     bind_ok (enforce_tenant_fixed_window E (cl_tenant cl) res limit 1) (\<lambda>_. f cl))"

definition list_rules_handler :: "'s env \<Rightarrow> claims option \<Rightarrow> (detection_rule list, 's) handler" where
  "list_rules_handler E cls =
     rule_guard E cls ''api_requests'' (tl_api_requests (ev_limits E)) (\<lambda>cl.
       bind_ok (or_status 500 (via_db (get_all_rules (cl_tenant cl)))) (\<lambda>rs. reply 200 rs))"

definition get_rule_handler :: "'s env \<Rightarrow> claims option \<Rightarrow> nat \<Rightarrow> (detection_rule, 's) handler" where
  "get_rule_handler E cls i =
     rule_guard E cls ''api_requests'' (tl_api_requests (ev_limits E)) (\<lambda>cl.
       bind_ok (found (or_status 500 (via_db (get_rule_by_id (cl_tenant cl) i)))) (\<lambda>r. reply 200 r))"

text \<open>The tenant of the body is replaced by the tenant of the token.\<close>

definition create_rule_handler ::
  "'s env \<Rightarrow> claims option \<Rightarrow> rule_create \<Rightarrow> (detection_rule, 's) handler" where
  "create_rule_handler E cls b =
     rule_guard E cls ''rule_mutations'' (tl_rule_mutations (ev_limits E)) (\<lambda>cl.
       bind_ok (or_status 500 (via_db (create_rule (b \<lparr> rc_tenant := cl_tenant cl \<rparr>)))) (\<lambda>r.
       bind_ok (record_rule_audit E cl ''rule.create'' (Some (ev_uuid E (dr_id r)))
           (JObj [(''name'', JStr (dr_name r)), (''rule_type'', JStr (dr_rule_type r)),
                  (''severity'', JStr (dr_severity r))])) (\<lambda>_.
       reply 201 r)))"

definition update_rule_handler ::
  "'s env \<Rightarrow> claims option \<Rightarrow> nat \<Rightarrow> rule_update \<Rightarrow> (detection_rule, 's) handler" where
  "update_rule_handler E cls i u =
     rule_guard E cls ''rule_mutations'' (tl_rule_mutations (ev_limits E)) (\<lambda>cl.
       bind_ok (or_status 500 (via_db (update_rule (cl_tenant cl) i u))) (\<lambda>r.
       bind_ok (record_rule_audit E cl ''rule.update'' (Some (ev_uuid E (dr_id r)))
           (JObj [(''enabled'', JBool (dr_enabled r)), (''name'', JStr (dr_name r)),
                  (''severity'', JStr (dr_severity r))])) (\<lambda>_.
       reply 200 r)))"

definition delete_rule_handler :: "'s env \<Rightarrow> claims option \<Rightarrow> nat \<Rightarrow> (unit, 's) handler" where
  "delete_rule_handler E cls i =
     rule_guard E cls ''rule_mutations'' (tl_rule_mutations (ev_limits E)) (\<lambda>cl.
       bind_ok (or_status 500 (via_db (delete_rule (cl_tenant cl) i))) (\<lambda>_.
       bind_ok (record_rule_audit E cl ''rule.delete'' (Some (ev_uuid E i))
           (JObj [(''deleted'', JBool True)])) (\<lambda>_.
       reply 204 ())))"

definition toggle_update :: "detection_rule \<Rightarrow> rule_update" where
  "toggle_update r = \<lparr> ru_name = None, ru_description = None, ru_severity = None,
     ru_threshold = None, ru_window = None, ru_condition = None,
     ru_enabled = Some (\<not> dr_enabled r) \<rparr>"

definition toggle_rule_handler :: "'s env \<Rightarrow> claims option \<Rightarrow> nat \<Rightarrow> (detection_rule, 's) handler" where
  "toggle_rule_handler E cls i =
     rule_guard E cls ''rule_mutations'' (tl_rule_mutations (ev_limits E)) (\<lambda>cl.
       bind_ok (found (or_status 500 (via_db (get_rule_by_id (cl_tenant cl) i)))) (\<lambda>r.
       bind_ok (or_status 500 (via_db (update_rule (cl_tenant cl) i (toggle_update r)))) (\<lambda>r'.
       bind_ok (record_rule_audit E cl ''rule.toggle'' (Some (ev_uuid E (dr_id r')))
           (JObj [(''enabled'', JBool (dr_enabled r'))])) (\<lambda>_.
       reply 200 r'))))"

end
