(* ===== verification/Tokens.thy ===== *)
theory Tokens
  imports Config App
begin

text \<open>Tokens (\<open>auth/jwt.rs\<close>, \<open>auth/tokens.rs\<close>, \<open>api/middleware/auth.rs\<close>): the claims of access and
websocket tokens, the cache of published verification keys, the decoding of a token, the secret
and hash of refresh tokens, and the middleware that guards a route.  The \<open>jsonwebtoken\<close>,
\<open>hmac\<close> and \<open>base64\<close> crates and the key endpoint are parameters; the clock of the key cache is in
seconds.\<close>

section \<open>Settings\<close>

definition expected_issuer :: "env_vars \<Rightarrow> string" where
  "expected_issuer env = env_or env ''JWT_ISSUER'' ''mini-siem''"

definition expected_audience :: "env_vars \<Rightarrow> string" where
  "expected_audience env = env_or env ''JWT_AUDIENCE'' ''mini-siem-api''"

definition jwks_cache_ttl :: "env_vars \<Rightarrow> nat" where
  "jwks_cache_ttl env = env_uint env 64 ''JWT_JWKS_TTL_SECS'' 300"

definition jwks_stale_ttl :: "env_vars \<Rightarrow> nat" where
  "jwks_stale_ttl env = env_uint env 64 ''JWT_JWKS_STALE_TTL_SECS'' 600"

text \<open>\<open>str::replace\<close> of an escaped newline (backslash, n) by a newline.\<close>

fun unescape_newlines :: "string \<Rightarrow> string" where
  "unescape_newlines [] = []"
| "unescape_newlines [c] = [c]"
| "unescape_newlines (c # d # s) = (if c = CHR 92 \<and> d = CHR ''n'' then CHR 10 # unescape_newlines s
     else c # unescape_newlines (d # s))"

section \<open>Claims\<close>

definition create_claims ::
  "env_vars \<Rightarrow> instant \<Rightarrow> string \<Rightarrow> string \<Rightarrow> string \<Rightarrow> string list \<Rightarrow> int \<Rightarrow> claims" where
  "create_claims env now uid t email roles mins =
     \<lparr> cl_sub = uid, cl_tenant = t, cl_email = email, cl_roles = roles,
       cl_iss = expected_issuer env, cl_aud = expected_audience env, cl_token_use = None,
       cl_jti = None, cl_exp = int_as_u64 (timestamp (now + minutes mins)),
       cl_iat = int_as_u64 (timestamp now) \<rparr>"

definition create_ws_claims ::
  "env_vars \<Rightarrow> string \<Rightarrow> instant \<Rightarrow> string \<Rightarrow> string \<Rightarrow> string \<Rightarrow> string list \<Rightarrow> int \<Rightarrow> claims" where
  "create_ws_claims env jti now uid t email roles secs =
     \<lparr> cl_sub = uid, cl_tenant = t, cl_email = email, cl_roles = roles,
       cl_iss = expected_issuer env, cl_aud = expected_audience env, cl_token_use = Some ''ws'',
       cl_jti = Some jti, cl_exp = int_as_u64 (timestamp (now + seconds secs)),
       cl_iat = int_as_u64 (timestamp now) \<rparr>"

section \<open>The cache of verification keys\<close>

record jwk =
  jk_kid :: "string option"
  jk_kty :: string
  jk_n :: "string option"
  jk_e :: "string option"

record 'k jwks_cache =
  jc_expires_at :: nat
  jc_stale_until :: nat
  jc_keys :: "string \<Rightarrow> 'k option"

text \<open>Collecting the RSA keys of a response; a malformed RSA key fails the whole fetch.\<close>

fun collect_keys ::
  "(string \<Rightarrow> string \<Rightarrow> 'k option) \<Rightarrow> jwk list \<Rightarrow> (string \<Rightarrow> 'k option) \<Rightarrow> error + (string \<Rightarrow> 'k option)" where
  "collect_keys build [] m = Inr m"
| "collect_keys build (j # js) m =
     (if jk_kty j \<noteq> ''RSA'' then collect_keys build js m
      else case jk_kid j of None \<Rightarrow> collect_keys build js m
      | Some kid \<Rightarrow> (case jk_n j of None \<Rightarrow> Inl Parse_Error
          | Some n \<Rightarrow> (case jk_e j of None \<Rightarrow> Inl Parse_Error
              | Some e \<Rightarrow> (case build n e of None \<Rightarrow> Inl Crypto_Error
                  | Some key \<Rightarrow> collect_keys build js (m(kid \<mapsto> key))))))"

definition fetch_jwks ::
  "env_vars \<Rightarrow> (string \<Rightarrow> string \<Rightarrow> 'k option) \<Rightarrow> nat \<Rightarrow> error + jwk list \<Rightarrow> error + 'k jwks_cache" where
  "fetch_jwks env build now resp = (case resp of Inl e \<Rightarrow> Inl e
     | Inr js \<Rightarrow> (case collect_keys build js Map.empty of Inl e \<Rightarrow> Inl e
         | Inr m \<Rightarrow> Inr \<lparr> jc_expires_at = now + jwks_cache_ttl env,
                         jc_stale_until = now + jwks_cache_ttl env + jwks_stale_ttl env,
                         jc_keys = m \<rparr>))"

text \<open>One lookup: the answer of the endpoint, if it is asked, is a parameter.  The result carries
whether it was asked.\<close>

definition cached_key :: "'k jwks_cache option \<Rightarrow> nat \<Rightarrow> string \<Rightarrow> 'k option" where
  "cached_key cache now kid = (case cache of None \<Rightarrow> None
     | Some c \<Rightarrow> if jc_expires_at c > now \<or> jc_stale_until c > now then jc_keys c kid else None)"

definition get_decoding_key_for_kid ::
  "env_vars \<Rightarrow> (string \<Rightarrow> string \<Rightarrow> 'k option) \<Rightarrow> error + 'k \<Rightarrow> nat \<Rightarrow> error + jwk list \<Rightarrow> string option
   \<Rightarrow> 'k jwks_cache option \<Rightarrow> (error + 'k) \<times> bool \<times> 'k jwks_cache option" where
  "get_decoding_key_for_kid env build local now resp kid cache =
     (if env ''JWT_JWKS_URL'' = None then (local, False, cache)
      else case kid of None \<Rightarrow> (Inl Auth_Error, False, cache)
      | Some k \<Rightarrow> (case cached_key cache now k of
          Some key \<Rightarrow> (Inr key, False, cache)
        | None \<Rightarrow> (case fetch_jwks env build now resp of
              Inl e \<Rightarrow> (case cache of
                  Some c \<Rightarrow> (if jc_stale_until c > now
                     then (case jc_keys c k of Some key \<Rightarrow> (Inr key, True, cache)
                           | None \<Rightarrow> (Inl e, True, cache))
                     else (Inl e, True, cache))
                | None \<Rightarrow> (Inl e, True, cache))
            | Inr c \<Rightarrow> (case jc_keys c k of
                  None \<Rightarrow> (Inl Auth_Error, True, cache)
                | Some key \<Rightarrow> (Inr key, True, Some c)))))"

text \<open>One tick of the refresh task.\<close>

definition jwks_refresh_tick ::
  "env_vars \<Rightarrow> (string \<Rightarrow> string \<Rightarrow> 'k option) \<Rightarrow> nat \<Rightarrow> error + jwk list \<Rightarrow> 'k jwks_cache option
   \<Rightarrow> 'k jwks_cache option" where
  "jwks_refresh_tick env build now resp cache =
     (case fetch_jwks env build now resp of Inl _ \<Rightarrow> cache | Inr c \<Rightarrow> Some c)"

section \<open>Keys of the service\<close>

text \<open>A key is read from the environment the first time it is needed and kept; a failure is not kept.  The
parser of the PEM text and the encoder are parameters.\<close>

definition pem_key ::
  "(string \<Rightarrow> 'k option) \<Rightarrow> string \<Rightarrow> env_vars \<Rightarrow> 'k option \<Rightarrow> (error + 'k) \<times> 'k option" where
  "pem_key build var env memo = (case memo of
      Some k \<Rightarrow> (Inr k, memo)
    | None \<Rightarrow> (case env var of
          None \<Rightarrow> (Inl Auth_Error, None)
        | Some pem \<Rightarrow> (case build (unescape_newlines pem) of
              None \<Rightarrow> (Inl Crypto_Error, None)
            | Some k \<Rightarrow> (Inr k, Some k))))"

definition get_encoding_key ::
  "(string \<Rightarrow> 'k option) \<Rightarrow> env_vars \<Rightarrow> 'k option \<Rightarrow> (error + 'k) \<times> 'k option" where
  "get_encoding_key build = pem_key build ''JWT_PRIVATE_KEY''"

definition get_decoding_key ::
  "(string \<Rightarrow> 'k option) \<Rightarrow> env_vars \<Rightarrow> 'k option \<Rightarrow> (error + 'k) \<times> 'k option" where
  "get_decoding_key build = pem_key build ''JWT_PUBLIC_KEY''"

section \<open>Decoding\<close>

text \<open>The \<open>jsonwebtoken\<close> crate: the algorithm and key id of a header, the check of a token against
a key and a validation, keys from a modulus and an exponent or from a PEM text, and what it is for the
signature of a token to be valid under a key.\<close>

record validation =
  va_alg :: string
  va_issuer :: string
  va_audience :: string
  va_exp :: bool
  va_nbf :: bool
  va_required :: "string list"

record 'k jwt_lib =
  jl_header :: "string \<Rightarrow> (string \<times> string option) option"
  jl_decode :: "string \<Rightarrow> 'k \<Rightarrow> validation \<Rightarrow> nat \<Rightarrow> claims option"
  jl_build :: "string \<Rightarrow> string \<Rightarrow> 'k option"
  jl_pem :: "string \<Rightarrow> 'k option"
  jl_signed :: "string \<Rightarrow> string \<Rightarrow> 'k \<Rightarrow> bool"

text \<open>The environment does not change while the service runs, so the key that was kept is the key it gives.\<close>

definition local_key :: "env_vars \<Rightarrow> 'k jwt_lib \<Rightarrow> error + 'k" where
  "local_key env L = fst (get_decoding_key (jl_pem L) env None)"

definition validation_of :: "env_vars \<Rightarrow> validation" where
  "validation_of env = \<lparr> va_alg = ''RS256'', va_issuer = expected_issuer env,
     va_audience = expected_audience env, va_exp = True, va_nbf = True,
     va_required = [''exp'', ''iat'', ''iss'', ''aud'', ''sub''] \<rparr>"

definition decode_jwt ::
  "env_vars \<Rightarrow> 'k jwt_lib \<Rightarrow> nat \<Rightarrow> error + jwk list \<Rightarrow> string \<Rightarrow> 'k jwks_cache option
   \<Rightarrow> (error + claims) \<times> 'k jwks_cache option" where
  "decode_jwt env L now resp token cache = (case jl_header L token of
      None \<Rightarrow> (Inl Parse_Error, cache)
    | Some (alg, kid) \<Rightarrow>
        if alg \<noteq> ''RS256'' then (Inl Auth_Error, cache)
        else (case get_decoding_key_for_kid env (jl_build L) (local_key env L) now resp kid cache of
            (Inl e, _, c') \<Rightarrow> (Inl e, c')
          | (Inr key, _, c') \<Rightarrow> (case jl_decode L token key (validation_of env) now of
                None \<Rightarrow> (Inl Auth_Error, c') | Some cl \<Rightarrow> (Inr cl, c'))))"

text \<open>The documented behaviour of \<open>decode\<close>: it returns claims only when the signature is valid under the key
for the algorithm of the validation, and the claims satisfy the validation (with the crate's default leeway of
60 seconds).\<close>

definition decode_laws :: "'k jwt_lib \<Rightarrow> bool" where
  "decode_laws L \<longleftrightarrow> (\<forall>tok key v now cl. jl_decode L tok key v now = Some cl \<longrightarrow>
     jl_signed L (va_alg v) tok key \<and> cl_iss cl = va_issuer v \<and> cl_aud cl = va_audience v \<and> (va_exp v \<longrightarrow> now \<le> cl_exp cl + 60))"

text \<open>The keys that are trusted for a token with the key id \<open>kid\<close>: without a configured endpoint the one of
\<open>JWT_PUBLIC_KEY\<close>, else the key the endpoint publishes under that id - an RSA key of its answer, or one that
was kept from an earlier answer and is not stale.\<close>

definition published_key :: "'k jwt_lib \<Rightarrow> jwk list \<Rightarrow> string \<Rightarrow> 'k \<Rightarrow> bool" where
  "published_key L js kid key \<longleftrightarrow> (\<exists>j \<in> set js. jk_kty j = ''RSA'' \<and> jk_kid j = Some kid
     \<and> (\<exists>n e. jk_n j = Some n \<and> jk_e j = Some e \<and> jl_build L n e = Some key))"

definition trusted_key ::
  "env_vars \<Rightarrow> 'k jwt_lib \<Rightarrow> nat \<Rightarrow> error + jwk list \<Rightarrow> 'k jwks_cache option \<Rightarrow> string option \<Rightarrow> 'k \<Rightarrow> bool" where
  "trusted_key env L now resp cache kid key \<longleftrightarrow>
     (if env ''JWT_JWKS_URL'' = None
      then (\<exists>pem. env ''JWT_PUBLIC_KEY'' = Some pem \<and> jl_pem L (unescape_newlines pem) = Some key)
      else (\<exists>k. kid = Some k \<and>
        ((\<exists>js. resp = Inr js \<and> published_key L js k key)
         \<or> (\<exists>c. cache = Some c \<and> (now < jc_expires_at c \<or> now < jc_stale_until c) \<and> jc_keys c k = Some key))))"

section \<open>Refresh tokens\<close>

definition first_set :: "env_vars \<Rightarrow> string list \<Rightarrow> string option" where
  "first_set env ks = foldr (\<lambda>k r. case env k of Some v \<Rightarrow> Some v | None \<Rightarrow> r) ks None"

definition refresh_token_secret :: "env_vars \<Rightarrow> string option" where
  "refresh_token_secret env = map_option unescape_newlines
     (first_set env [''REFRESH_TOKEN_HMAC_SECRET'', ''JWT_REFRESH_TOKEN_SECRET'', ''JWT_PRIVATE_KEY''])"

definition hash_refresh_token :: "env_vars \<Rightarrow> (string \<Rightarrow> string \<Rightarrow> string option) \<Rightarrow> string \<Rightarrow> error + string" where
  "hash_refresh_token env mac token = (case refresh_token_secret env of
      None \<Rightarrow> Inl Invalid_Input
    | Some secret \<Rightarrow> (case mac secret token of None \<Rightarrow> Inl Crypto_Error | Some h \<Rightarrow> Inr h))"

section \<open>The middleware\<close>

record headers =
  hd_authorization :: "string option"
  hd_ws_token :: "string option"
  hd_protocol :: "string option"

definition strip_prefix :: "string \<Rightarrow> string \<Rightarrow> string option" where
  "strip_prefix p s = (if starts_with s p then Some (drop (length p) s) else None)"

definition first_some :: "'a option \<Rightarrow> 'a option \<Rightarrow> 'a option" where
  "first_some a b = (case a of None \<Rightarrow> b | Some x \<Rightarrow> Some x)"

definition protocol_token :: "string \<Rightarrow> string option" where
  "protocol_token s = (case List.map_filter (strip_prefix ''ws-token.'') (map trim (split_on (CHR '','') s)) of
      [] \<Rightarrow> None | t # _ \<Rightarrow> Some t)"

definition request_token :: "headers \<Rightarrow> string option" where
  "request_token h = first_some (Option.bind (hd_authorization h) (strip_prefix ''Bearer ''))
     (first_some (hd_ws_token h) (Option.bind (hd_protocol h) protocol_token))"

definition jwt_auth ::
  "env_vars \<Rightarrow> 'k jwt_lib \<Rightarrow> nat \<Rightarrow> error + jwk list \<Rightarrow> headers \<Rightarrow> 'k jwks_cache option
   \<Rightarrow> claims option \<times> 'k jwks_cache option" where
  "jwt_auth env L now resp h cache = (case request_token h of
      None \<Rightarrow> (None, cache)
    | Some tok \<Rightarrow> (case decode_jwt env L now resp tok cache of
          (Inl _, c') \<Rightarrow> (None, c') | (Inr cl, c') \<Rightarrow> (Some cl, c')))"

section \<open>Facts\<close>

lemma cached_key_until_stale:
  "jc_expires_at c \<le> jc_stale_until c \<Longrightarrow>
   cached_key (Some c) now kid = (if now < jc_stale_until c then jc_keys c kid else None)"
  by (auto simp: cached_key_def)

lemma fetch_window:
  "fetch_jwks env build now resp = Inr c \<Longrightarrow>
     jc_expires_at c = now + jwks_cache_ttl env
     \<and> jc_stale_until c = now + jwks_cache_ttl env + jwks_stale_ttl env"
  by (auto simp: fetch_jwks_def split: sum.splits)

text \<open>A key that was read stays the same whatever the environment becomes.\<close>

lemma pem_key_kept: "pem_key build var env memo = (Inr k, m) \<Longrightarrow> pem_key build var env' m = (Inr k, m)"
  by (cases memo; cases "env var"; cases "build (unescape_newlines (the (env var)))")
     (simp_all add: pem_key_def split: option.splits, auto)

lemma published_Cons:
  "published_key L (j # js) k key \<longleftrightarrow> published_key L js k key \<or> jk_kty j = ''RSA'' \<and> jk_kid j = Some k
     \<and> (\<exists>n e. jk_n j = Some n \<and> jk_e j = Some e \<and> jl_build L n e = Some key)"
  by (auto simp: published_key_def)

lemma collected_published:
  "collect_keys (jl_build L) js m = Inr m' \<Longrightarrow> m' k = Some key \<Longrightarrow> m k = Some key \<or> published_key L js k key"
proof (induction js arbitrary: m)
  case (Cons j js)
  have rest: "collect_keys (jl_build L) js m0 = Inr m' \<Longrightarrow> m0 k = Some key \<or> published_key L js k key" for m0
    using Cons by blast
  show ?case using Cons.prems(1)
    by (auto simp: published_Cons split: if_splits option.splits dest!: rest)
qed simp

lemma key_trusted:
  assumes "fst (get_decoding_key_for_kid env (jl_build L) (local_key env L) now resp kid cache) = Inr key"
  shows "trusted_key env L now resp cache kid key"
proof (cases "env ''JWT_JWKS_URL''")
  case None
  then show ?thesis using assms
    by (auto simp: get_decoding_key_for_kid_def trusted_key_def local_key_def get_decoding_key_def pem_key_def
        split: option.splits)
next
  case (Some url)
  have fetched: "published_key L js k key" if "collect_keys (jl_build L) js Map.empty = Inr m" "m k = Some key" for js k m
    using collected_published[OF that] by simp
  show ?thesis using assms Some
    by (cases resp) (auto simp: get_decoding_key_for_kid_def trusted_key_def cached_key_def fetch_jwks_def
        split: option.splits sum.splits if_splits intro: fetched)
qed

lemma decode_jwt_valid:
  assumes "decode_laws L" "fst (decode_jwt env L now resp tok cache) = Inr cl"
  shows "cl_iss cl = expected_issuer env \<and> cl_aud cl = expected_audience env \<and> now \<le> cl_exp cl + 60
    \<and> (\<exists>kid key. jl_header L tok = Some (''RS256'', kid) \<and> jl_signed L ''RS256'' tok key
        \<and> trusted_key env L now resp cache kid key)"
proof -
  obtain kid key where h: "jl_header L tok = Some (''RS256'', kid)"
    and k: "fst (get_decoding_key_for_kid env (jl_build L) (local_key env L) now resp kid cache) = Inr key"
    and d: "jl_decode L tok key (validation_of env) now = Some cl"
    using assms(2)
    by (auto simp: decode_jwt_def split: option.splits if_splits sum.splits prod.splits)
  show ?thesis using h d key_trusted[OF k] assms(1) unfolding decode_laws_def validation_of_def by fastforce
qed

lemma request_token_order:
  "hd_authorization h = Some (''Bearer '' @ t) \<Longrightarrow> request_token h = Some t"
  by (simp add: request_token_def strip_prefix_def starts_with_def first_some_def)

end
