(* ===== verification/Auth_Api.thy ===== *)
theory Auth_Api
  imports Tokens
begin

text \<open>The authentication endpoints (\<open>api/handlers/auth.rs\<close>) and the alert endpoints that use the
tokens (\<open>api/handlers/alerts.rs\<close>).  Password hashing, random tokens, the encoding of a token and
the parser of a UUID are parameters.\<close>

record auth_ext =
  ax_env :: env_vars
  ax_mac :: "string \<Rightarrow> string \<Rightarrow> string option"
  ax_hash_password :: "nat \<Rightarrow> string \<Rightarrow> string option"
  ax_verify :: "string \<Rightarrow> string \<Rightarrow> bool option"
  ax_random :: "nat \<Rightarrow> string"
  ax_encode :: "claims \<Rightarrow> string option"
  ax_parse_uuid :: "string \<Rightarrow> nat option"

abbreviation token_hash :: "auth_ext \<Rightarrow> string \<Rightarrow> error + string" where
  "token_hash X \<equiv> hash_refresh_token (ax_env X) (ax_mac X)"

definition tenant_or_default :: "string \<Rightarrow> string" where
  "tenant_or_default t = (if t = [] then ''default'' else t)"

record token_pair =
  tp_access :: string
  tp_refresh :: string

definition of_option :: "nat \<Rightarrow> 'a option \<Rightarrow> ('a, 's) http" where
  [effect_simps]: "of_option code x = (case x of None \<Rightarrow> fail code | Some y \<Rightarrow> ok y)"

definition attempt_window :: "'s env \<Rightarrow> string \<Rightarrow> nat \<Rightarrow> (unit, 's) http" where
  "attempt_window E key limit =
     bind_ok (or_status 500 (via_cache (allow_sliding_window (ev_rd E) key 60000 limit)))
       (\<lambda>allowed. require 429 allowed)"

section \<open>Register and log in\<close>

text \<open>What a client gets to see of an account (\<open>db/models/user.rs\<close>).\<close>

record user_response =
  us_id :: nat
  us_tenant :: string
  us_email :: string
  us_role :: string

definition user_response_of :: "user_row \<Rightarrow> user_response" where
  "user_response_of u = \<lparr> us_id = u_id u, us_tenant = u_tenant u, us_email = u_email u, us_role = u_role u \<rparr>"

definition register :: "'s env \<Rightarrow> auth_ext \<Rightarrow> string \<Rightarrow> string \<Rightarrow> string \<Rightarrow> (user_response, 's) handler" where
  "register E X tenant email pw =
     (let t = tenant_or_default tenant in
      bind_ok (require 400 (email \<noteq> [] \<and> 8 \<le> length pw)) (\<lambda>_.
      bind_ok (attempt_window E (''rate_limit:register:'' @ t @ '':'' @ email) 3) (\<lambda>_.
      bind_ok (or_status 500 (via_db (get_user_by_email t email))) (\<lambda>u.
      bind_ok (require 409 (u = None)) (\<lambda>_.
      bind_ok (or_status 500 (via_db fresh_uuid)) (\<lambda>salt.
      bind_ok (of_option 500 (ax_hash_password X salt pw)) (\<lambda>h s.
        case via_db (create_user t email h ''user'') s of
          (Inr u, s') \<Rightarrow> reply 201 (user_response_of u) s'
        | (Inl Db_Conflict, s') \<Rightarrow> fail 409 s'
        | (Inl _, s') \<Rightarrow> fail 500 s')))))))"

definition refresh_ttl :: nat where "refresh_ttl = 7 * 24 * 3600"

text \<open>The pair handed out after a login or a refresh.\<close>

definition issue_pair :: "'s env \<Rightarrow> auth_ext \<Rightarrow> user_row \<Rightarrow> (token_pair, 's) http" where
  "issue_pair E X u s0 =
     (bind_ok (of_option 500 (ax_encode X (create_claims (ax_env X) (app_now s0) (ev_uuid E (u_id u))
          (u_tenant u) (u_email u) [u_role u] 15))) (\<lambda>acc.
      bind_ok (or_status 500 (via_db fresh_uuid)) (\<lambda>r.
      let tok = ax_random X r in
      bind_ok (or_status 500 (via_cache (store_refresh_token (token_hash X) (ev_rd E)
                 (ev_uuid E (u_id u)) (u_tenant u) tok refresh_ttl))) (\<lambda>_.
      ok \<lparr> tp_access = acc, tp_refresh = tok \<rparr>)))) s0"

definition login :: "'s env \<Rightarrow> auth_ext \<Rightarrow> string \<Rightarrow> string \<Rightarrow> string \<Rightarrow> (token_pair, 's) handler" where
  "login E X tenant email pw =
     (let t = tenant_or_default tenant in
      bind_ok (attempt_window E (''rate_limit:login:'' @ t @ '':'' @ email) 5) (\<lambda>_.
      bind_ok (or_status 500 (via_db (get_user_by_email t email))) (\<lambda>ou.
      bind_ok (of_option 401 ou) (\<lambda>u.
      bind_ok (require 401 (ax_verify X pw (u_password_hash u) = Some True)) (\<lambda>_.
      bind_ok (issue_pair E X u) (\<lambda>p. reply 200 p))))))"

section \<open>Refresh and log out\<close>

text \<open>\<open>rsplit\_once(':')\<close>, and the whole string when there is no colon.\<close>

definition after_last_colon :: "string \<Rightarrow> string" where
  "after_last_colon s = last (split_on (CHR '':'') s)"

definition refresh :: "'s env \<Rightarrow> auth_ext \<Rightarrow> string \<Rightarrow> string \<Rightarrow> (token_pair, 's) handler" where
  "refresh E X tenant tok =
     (let t = tenant_or_default tenant in
      bind_ok (or_status 500 (via_cache (get_user_id_by_refresh_token (token_hash X) (ev_rd E) tok))) (\<lambda>ov.
      bind_ok (of_option 401 ov) (\<lambda>v.
      bind_ok (of_option 500 (ax_parse_uuid X (after_last_colon v))) (\<lambda>uid.
      bind_ok (or_status 500 (via_db (get_user_by_id t uid))) (\<lambda>ou.
      bind_ok (of_option 401 ou) (\<lambda>u s.
        bind_ok (issue_pair E X u) (\<lambda>p. reply 200 p)
          (ignore (via_cache (revoke_refresh_token (token_hash X) (ev_rd E) tok)) s)))))))"

definition logout :: "'s env \<Rightarrow> auth_ext \<Rightarrow> string \<Rightarrow> (unit, 's) handler" where
  "logout E X tok =
     bind_ok (or_status 500 (via_cache (revoke_refresh_token (token_hash X) (ev_rd E) tok))) (\<lambda>_.
     reply 200 ())"

definition me :: "'s env \<Rightarrow> auth_ext \<Rightarrow> claims option \<Rightarrow> (user_response, 's) handler" where
  "me E X cls = with_claims cls (\<lambda>cl.
     bind_ok (of_option 401 (ax_parse_uuid X (cl_sub cl))) (\<lambda>uid.
     bind_ok (found (or_status 500 (via_db (get_user_by_id (cl_tenant cl) uid)))) (\<lambda>u. reply 200 (user_response_of u))))"

section \<open>Websocket tokens\<close>

definition ws_token_key :: "string \<Rightarrow> string \<Rightarrow> string" where
  "ws_token_key t jti = ''ws_token:'' @ t @ '':'' @ jti"

definition ws_token :: "'s env \<Rightarrow> auth_ext \<Rightarrow> claims option \<Rightarrow> (string, 's) handler" where
  "ws_token E X cls = with_claims cls (\<lambda>cl.
     bind_ok (or_status 500 (via_db fresh_uuid)) (\<lambda>j s0.
     let jti = ev_uuid E j;
         wcl = create_ws_claims (ax_env X) jti (app_now s0) (cl_sub cl) (cl_tenant cl) (cl_email cl)
                 (cl_roles cl) 60
     in bind_ok (enforce_tenant_fixed_window E (cl_tenant cl) ''ws_connections''
                   (tl_ws_connections (ev_limits E)) 1) (\<lambda>_.
        bind_ok (of_option 500 (ax_encode X wcl)) (\<lambda>tok.
        bind_ok (or_status 500 (via_cache (set_string (ev_rd E) (ws_token_key (cl_tenant cl) jti)
                   (cl_sub cl) (Some 60)))) (\<lambda>_. reply 200 tok))) s0))"

text \<open>Opening the alert websocket: role, quota, and the single use of a websocket token.  Every
failure of the quota is answered 429.\<close>

definition recode :: "nat \<Rightarrow> ('a, 's) http \<Rightarrow> ('a, 's) http" where
  [effect_simps]: "recode code m s = (case m s of (Inl _, s') \<Rightarrow> (Inl code, s') | (Inr x, s') \<Rightarrow> (Inr x, s'))"

definition consume_ws_token :: "'s env \<Rightarrow> claims \<Rightarrow> (unit, 's) http" where
  "consume_ws_token E cl =
     (if cl_token_use cl = Some ''ws'' then
        bind_ok (of_option 401 (cl_jti cl)) (\<lambda>jti.
        bind_ok (or_status 401 (via_cache (get_string (ev_rd E) (ws_token_key (cl_tenant cl) jti)))) (\<lambda>ov.
        bind_ok (of_option 401 ov) (\<lambda>v.
        bind_ok (require 401 (v = cl_sub cl)) (\<lambda>_.
        or_status 401 (via_cache (delete_key (ev_rd E) (ws_token_key (cl_tenant cl) jti)))))))
      else ok ())"

definition ws_alerts_open :: "'s env \<Rightarrow> claims option \<Rightarrow> (claims, 's) http" where
  "ws_alerts_open E cls = with_claims cls (\<lambda>cl.
     bind_ok (require 403 (is_analyst cl)) (\<lambda>_.
     bind_ok (recode 429 (enforce_tenant_fixed_window E (cl_tenant cl) ''ws_connections''
                (tl_ws_connections (ev_limits E)) 1)) (\<lambda>_.
     bind_ok (consume_ws_token E cl) (\<lambda>_. ok cl))))"

text \<open>What the session task forwards to its client: the alerts and the statistics of the tenant of
the claims.\<close>

datatype ws_event = Ws_Alert alert | Ws_Stats string

definition ws_forwards :: "claims \<Rightarrow> ws_event \<Rightarrow> bool" where
  "ws_forwards cl e = (case e of Ws_Alert a \<Rightarrow> a_tenant a = cl_tenant cl
     | Ws_Stats t \<Rightarrow> t = cl_tenant cl)"

definition ws_session :: "claims \<Rightarrow> ws_event list \<Rightarrow> ws_event list" where
  "ws_session cl es = filter (ws_forwards cl) es"

definition list_alerts_handler :: "'s env \<Rightarrow> claims option \<Rightarrow> (alert list, 's) handler" where
  "list_alerts_handler E cls = with_claims cls (\<lambda>cl.
     bind_ok (require 403 (is_analyst cl)) (\<lambda>_.
     bind_ok (enforce_tenant_fixed_window E (cl_tenant cl) ''api_requests''
                (tl_api_requests (ev_limits E)) 1) (\<lambda>_.
     bind_ok (or_status 500 (via_db (get_recent_alerts (cl_tenant cl) 50))) (\<lambda>as. reply 200 as))))"

end
