(* ===== verification/Server.thy ===== *)
theory Server
  imports Cases_Api Rules_Api Compliance_Api Auth_Api Packs Operations
begin

text \<open>The HTTP server (\<open>api/server.rs\<close>): the table of routes, which of them stand behind the
\<open>JwtAuth\<close> middleware, and the handler each one calls.  Parsing of paths, queries and bodies is the web
framework's: a route carries the values that were parsed.\<close>

section \<open>Routes\<close>

datatype public_route =
    Root | Health | Health_Services
  | Register string string string | Login string string string | Ws_Token
  | Refresh string string | Logout string

datatype log_route =
    Me | Ingest_Log ingest_request | Ingest_Batch "ingest_request list" | Recent_Logs
  | List_Alerts | Dashboard | List_Audit "string option" "int option" | Ws_Alerts

datatype content_route =
    List_Rules | Create_Rule rule_create | Get_Rule nat | Update_Rule nat rule_update
  | Delete_Rule nat | Toggle_Rule nat
  | List_Packs | Get_Pack string | Install_Pack string
  | Get_Cost_Policy | Update_Cost_Policy cost_update | Cost_Dashboard

datatype case_route =
    List_Cases | Get_Case nat | Create_Case create_case_request | Update_Case nat update_case_request
  | Add_Timeline nat string string "json option" | Run_Playbook nat "nat option" | List_Playbooks

datatype ops_route =
    Overview | List_Reports | Create_Report report_create | Replay_Drill | Chaos_Drill
  | Get_Policy "string option" | Update_Policy "string option" compliance_request
  | Key_Rotation "string option" | Access_Review "string option" | Evidence "string option"

text \<open>The routes of the first group are outside every scope that is wrapped in \<open>JwtAuth\<close>.\<close>

datatype route =
  Public public_route | Logs log_route | Content content_route | Cases_Of case_route | Ops ops_route

definition is_public :: "route \<Rightarrow> bool" where
  "is_public r = (case r of Public _ \<Rightarrow> True | _ \<Rightarrow> False)"

text \<open>What a reply carries.\<close>

datatype reply_body =
    Refused | Nothing | Up | Alive "string \<times> (string \<times> service_health) list"
  | A_User user_response | A_Pair token_pair | A_Token string | A_Socket claims
  | Accepted ingest_response | All_Accepted "ingest_response list" | Documents "json list"
  | Alerts "alert list" | Stats stats_reply
  | A_Rule detection_rule | Rules "detection_rule list" | Audit "audit_event list"
  | A_Case case_record | Cases "case_record list" | A_Case_Detail case_detail
  | Playbooks "playbook list" | A_Run string
  | A_Pack pack_response | Packs "pack_response list"
  | A_Cost_Policy cost_policy | A_Cost_Dashboard cost_dashboard
  | An_Overview "slo_snapshot \<times> reliability_report list" | A_Report reliability_report
  | Reports "reliability_report list"
  | A_Policy compliance_policy | A_Review json | A_Bundle evidence_bundle

section \<open>Handlers\<close>

text \<open>A request: its route, the headers the middleware reads, and the answer of the key endpoint should
it be asked.\<close>

record incoming =
  in_route :: route
  in_headers :: headers
  in_jwks :: "error + jwk list"

text \<open>What the handlers are given: the environment of the application state, and the libraries and
clients of the single parts.  \<open>wi_front\<close> is the framework in front of the handlers: the status of a request that it
answers itself, because of its method, its headers or its body, or because a scope registered earlier takes
its path.\<close>

record ('s, 'k) wiring =
  wi_env :: "'s env"
  wi_auth :: auth_ext
  wi_cost :: cost_ext
  wi_rel :: reliability_ext
  wi_probes :: probes
  wi_search :: "(json \<Rightarrow> nat \<Rightarrow> nat \<Rightarrow> error + json) option"
  wi_jwt :: "'k jwt_lib"
  wi_front :: "incoming \<Rightarrow> nat option"

definition answer :: "('a \<Rightarrow> reply_body) \<Rightarrow> (nat + nat \<times> 'a) \<times> 's \<Rightarrow> (nat \<times> reply_body) \<times> 's" where
  "answer f p = (case p of (Inl c, s) \<Rightarrow> ((c, Refused), s) | (Inr (c, x), s) \<Rightarrow> ((c, f x), s))"

definition in_app :: "('a \<Rightarrow> reply_body) \<Rightarrow> ('a, 's) handler \<Rightarrow> 's ingest \<Rightarrow> (nat \<times> reply_body) \<times> 's ingest" where
  "in_app f h g = answer f (via_app h g)"

definition socket :: "(claims, 's) http \<Rightarrow> (claims, 's) handler" where
  "socket h = bind_ok h (\<lambda>cl. reply 101 cl)"

text \<open>The handlers of the public routes run without claims.\<close>

definition handle_public ::
  "('s, 'k) wiring \<Rightarrow> claims option \<Rightarrow> public_route \<Rightarrow> 's ingest \<Rightarrow> (nat \<times> reply_body) \<times> 's ingest" where
  "handle_public W cls r = (case r of
       Register t email pw \<Rightarrow> in_app A_User (register (wi_env W) (wi_auth W) t email pw)
     | Login t email pw \<Rightarrow> in_app A_Pair (login (wi_env W) (wi_auth W) t email pw)
     | Ws_Token \<Rightarrow> in_app A_Token (ws_token (wi_env W) (wi_auth W) cls)
     | Refresh t tok \<Rightarrow> in_app A_Pair (refresh (wi_env W) (wi_auth W) t tok)
     | Logout tok \<Rightarrow> in_app (\<lambda>_. Nothing) (logout (wi_env W) (wi_auth W) tok)
     | Health_Services \<Rightarrow> (\<lambda>g. case detailed_health (wi_env W) (wi_probes W) (ig_app g) of
         (h, a) \<Rightarrow> ((200, Alive h), g \<lparr> ig_app := a \<rparr>))
     | Root \<Rightarrow> (\<lambda>g. ((200, Up), g))
     | Health \<Rightarrow> (\<lambda>g. ((200, Up), g)))"

definition handle_logs ::
  "('s, 'k) wiring \<Rightarrow> claims option \<Rightarrow> log_route \<Rightarrow> 's ingest \<Rightarrow> (nat \<times> reply_body) \<times> 's ingest" where
  "handle_logs W cls r = (case r of
       Me \<Rightarrow> in_app A_User (me (wi_env W) (wi_auth W) cls)
     | Ingest_Log q \<Rightarrow> (\<lambda>g. answer Accepted (ingest_log (wi_env W) (wi_cost W) cls q g))
     | Ingest_Batch qs \<Rightarrow> (\<lambda>g. answer All_Accepted (ingest_batch (wi_env W) (wi_cost W) cls qs g))
     | Recent_Logs \<Rightarrow> in_app Documents (recent_logs (wi_env W) (wi_search W) cls)
     | List_Alerts \<Rightarrow> in_app Alerts (list_alerts_handler (wi_env W) cls)
     | Dashboard \<Rightarrow> in_app Stats (dashboard_stats_handler (wi_env W) cls)
     | Ws_Alerts \<Rightarrow> in_app A_Socket (socket (ws_alerts_open (wi_env W) cls))
     | List_Audit t n \<Rightarrow> in_app Audit (list_audit_handler (wi_env W) cls t n))"

definition handle_content ::
  "('s, 'k) wiring \<Rightarrow> claims option \<Rightarrow> content_route \<Rightarrow> 's ingest \<Rightarrow> (nat \<times> reply_body) \<times> 's ingest" where
  "handle_content W cls r = (case r of
       List_Rules \<Rightarrow> in_app Rules (list_rules_handler (wi_env W) cls)
     | Create_Rule b \<Rightarrow> in_app A_Rule (create_rule_handler (wi_env W) cls b)
     | Get_Rule i \<Rightarrow> in_app A_Rule (get_rule_handler (wi_env W) cls i)
     | Update_Rule i u \<Rightarrow> in_app A_Rule (update_rule_handler (wi_env W) cls i u)
     | Delete_Rule i \<Rightarrow> in_app (\<lambda>_. Nothing) (delete_rule_handler (wi_env W) cls i)
     | Toggle_Rule i \<Rightarrow> in_app A_Rule (toggle_rule_handler (wi_env W) cls i)
     | List_Packs \<Rightarrow> in_app Packs (list_detection_packs (wi_env W) cls)
     | Get_Pack slug \<Rightarrow> in_app A_Pack (get_detection_pack (wi_env W) cls slug)
     | Install_Pack slug \<Rightarrow> in_app A_Pack (install_detection_pack (wi_env W) cls slug)
     | Get_Cost_Policy \<Rightarrow> in_app A_Cost_Policy (get_cost_policy_handler (wi_env W) (wi_cost W) cls)
     | Update_Cost_Policy u \<Rightarrow> in_app A_Cost_Policy (update_cost_policy_handler (wi_env W) (wi_cost W) cls u)
     | Cost_Dashboard \<Rightarrow> in_app A_Cost_Dashboard (cost_dashboard_handler (wi_env W) (wi_cost W) cls))"

definition handle_cases ::
  "('s, 'k) wiring \<Rightarrow> claims option \<Rightarrow> case_route \<Rightarrow> 's ingest \<Rightarrow> (nat \<times> reply_body) \<times> 's ingest" where
  "handle_cases W cls r = (case r of
       List_Cases \<Rightarrow> in_app Cases (list_cases_handler (wi_env W) cls)
     | Get_Case i \<Rightarrow> in_app A_Case_Detail (get_case_handler (wi_env W) cls i)
     | Create_Case b \<Rightarrow> in_app A_Case (create_case_handler (wi_env W) cls b)
     | Update_Case i b \<Rightarrow> in_app A_Case (update_case_handler (wi_env W) cls i b)
     | Add_Timeline i ty msg m \<Rightarrow> in_app (\<lambda>_. Nothing) (add_timeline_handler (wi_env W) cls i ty msg m)
     | Run_Playbook i p \<Rightarrow> in_app A_Run (run_playbook_handler (wi_env W) cls i p)
     | List_Playbooks \<Rightarrow> in_app Playbooks (list_playbooks_handler (wi_env W) cls))"

definition handle_ops ::
  "('s, 'k) wiring \<Rightarrow> claims option \<Rightarrow> ops_route \<Rightarrow> 's ingest \<Rightarrow> (nat \<times> reply_body) \<times> 's ingest" where
  "handle_ops W cls r = (case r of
       Overview \<Rightarrow> in_app An_Overview (overview_handler (wi_env W) (wi_rel W) cls)
     | List_Reports \<Rightarrow> in_app Reports (list_reports_handler cls)
     | Create_Report b \<Rightarrow> in_app A_Report (create_report_handler cls b)
     | Replay_Drill \<Rightarrow> (\<lambda>g. answer A_Report (replay_drill_handler (wi_env W) (wi_rel W) (wi_search W) cls g))
     | Chaos_Drill \<Rightarrow> in_app A_Report (chaos_drill_handler (wi_env W) (wi_probes W) cls)
     | Get_Policy t \<Rightarrow> in_app A_Policy (get_policy_handler (wi_env W) cls t)
     | Update_Policy t q \<Rightarrow> in_app A_Policy (update_policy_handler (wi_env W) cls t q)
     | Key_Rotation t \<Rightarrow> in_app A_Policy (key_rotation_handler (wi_env W) cls t)
     | Access_Review t \<Rightarrow> in_app A_Review (access_review_handler (wi_env W) cls t)
     | Evidence t \<Rightarrow> in_app A_Bundle (evidence_handler (wi_env W) cls t))"

definition dispatch_route ::
  "('s, 'k) wiring \<Rightarrow> claims option \<Rightarrow> route \<Rightarrow> 's ingest \<Rightarrow> (nat \<times> reply_body) \<times> 's ingest" where
  "dispatch_route W cls r = (case r of
       Public x \<Rightarrow> handle_public W cls x
     | Logs x \<Rightarrow> handle_logs W cls x
     | Content x \<Rightarrow> handle_content W cls x
     | Cases_Of x \<Rightarrow> handle_cases W cls x
     | Ops x \<Rightarrow> handle_ops W cls x)"

text \<open>Every route, one by one.\<close>

lemma route_cases:
  "(\<And>x. P (Public x)) \<Longrightarrow> (\<And>x. P (Logs x)) \<Longrightarrow> (\<And>x. P (Content x)) \<Longrightarrow> (\<And>x. P (Cases_Of x)) \<Longrightarrow>
     (\<And>x. P (Ops x)) \<Longrightarrow> P r"
  by (cases r) auto

lemmas routing = dispatch_route_def handle_ops_def handle_cases_def handle_content_def handle_logs_def handle_public_def

section \<open>Serving\<close>

record ('s, 'k) server =
  sv_ingest :: "'s ingest"
  sv_keys :: "'k jwks_cache option"

definition sv_db :: "('s, 'k) server \<Rightarrow> db" where
  "sv_db S = ap_db (ig_app (sv_ingest S))"

definition sv_now :: "('s, 'k) server \<Rightarrow> nat" where
  "sv_now S = nat (timestamp (db_now (sv_db S)))"

definition authenticate ::
  "('s, 'k) wiring \<Rightarrow> incoming \<Rightarrow> ('s, 'k) server \<Rightarrow> claims option \<times> 'k jwks_cache option" where
  "authenticate W r S = jwt_auth (ax_env (wi_auth W)) (wi_jwt W) (sv_now S) (in_jwks r) (in_headers r) (sv_keys S)"

definition serve :: "('s, 'k) wiring \<Rightarrow> incoming \<Rightarrow> ('s, 'k) server \<Rightarrow> (nat \<times> reply_body) \<times> ('s, 'k) server" where
  "serve W r S = (case wi_front W r of Some c \<Rightarrow> ((c, Refused), S) | None \<Rightarrow>
     (if is_public (in_route r)
      then (case dispatch_route W None (in_route r) (sv_ingest S) of (a, g) \<Rightarrow> (a, S \<lparr> sv_ingest := g \<rparr>))
      else (case authenticate W r S of
          (None, ks) \<Rightarrow> ((401, Refused), S \<lparr> sv_keys := ks \<rparr>)
        | (Some cl, ks) \<Rightarrow> (case dispatch_route W (Some cl) (in_route r) (sv_ingest S) of
              (a, g) \<Rightarrow> (a, S \<lparr> sv_ingest := g, sv_keys := ks \<rparr>)))))"

fun serve_all :: "('s, 'k) wiring \<Rightarrow> incoming list \<Rightarrow> ('s, 'k) server \<Rightarrow> (nat \<times> reply_body) list \<times> ('s, 'k) server" where
  "serve_all W [] S = ([], S)"
| "serve_all W (r # rs) S = (case serve W r S of (a, S1) \<Rightarrow>
     (case serve_all W rs S1 of (as, S2) \<Rightarrow> (a # as, S2)))"

end
