(* ===== verification/Upkeep.thy ===== *)
theory Upkeep
  imports Server Frames
begin

text \<open>Invariants of the database under the HTTP server.  \<open>maintains I m\<close>: no run of \<open>m\<close> leads out of \<open>I\<close>.
The locale \<open>db_contract\<close> says what the statements of the handlers owe to an invariant \<open>I\<close> when they run for a
tenant that \<open>T\<close> admits; inside it, every handler, every route and every request is shown to maintain
\<open>I\<close> for a caller that \<open>T\<close> admits.  The theories that follow interpret the locale.\<close>

section \<open>Maintained invariants\<close>

named_theorems upkeep \<open>introduction rules of maintains\<close>

definition maintains :: "('s \<Rightarrow> bool) \<Rightarrow> ('e, 'a, 's) eff \<Rightarrow> bool" where
  "maintains I m \<longleftrightarrow> (\<forall>s. I s \<longrightarrow> I (snd (m s)))"

lemma maintains_snd: "maintains I m \<Longrightarrow> I s \<Longrightarrow> I (snd (m s))"
  by (simp add: maintains_def)

lemma maintainsD: "maintains I m \<Longrightarrow> m s = (r, s') \<Longrightarrow> I s \<Longrightarrow> I s'"
  using maintains_snd[of I m s] by simp

lemma maintains_ignore: "maintains I m \<Longrightarrow> I s \<Longrightarrow> I (ignore m s)"
  by (simp add: maintains_def ignore_def)

lemma maintains_view: "preserves v m \<Longrightarrow> maintains (\<lambda>s. P (v s)) m"
  by (simp add: maintains_def preserves_def)

lemma maintains_ok [upkeep]: "maintains I (ok x)"
  by (simp add: maintains_def ok_def)

lemma maintains_fail [upkeep]: "maintains I (fail e)"
  by (simp add: maintains_def fail_def)

lemma maintains_reply [upkeep]: "maintains I (reply c x)"
  unfolding reply_def by (rule maintains_ok)

lemma maintains_require [upkeep]: "maintains I (require c b)"
  by (simp add: maintains_def require_def ok_def fail_def)

lemma maintains_bind [upkeep]: "maintains I m \<Longrightarrow> (\<And>x. maintains I (f x)) \<Longrightarrow> maintains I (bind_ok m f)"
  by (auto simp: maintains_def bind_ok_def split: prod.split sum.split)

lemma maintains_bind_yields:
  assumes "yields P m" "maintains I m" "\<And>x. P x \<Longrightarrow> maintains I (f x)"
  shows "maintains I (bind_ok m f)"
  unfolding maintains_def
proof (intro allI impI)
  fix s assume "I s"
  moreover obtain r s' where m: "m s = (r, s')" by fastforce
  ultimately have "I s'" using maintainsD[OF assms(2)] by blast
  moreover have "P x" if "r = Inr x" for x using assms(1) m that unfolding yields_def by (metis fst_conv)
  ultimately show "I (snd (bind_ok m f s))"
    using maintains_snd[OF assms(3)] by (cases r) (auto simp: bind_ok_def m)
qed

lemma maintains_bind_at: "I (snd (m s)) \<Longrightarrow> (\<And>x. maintains I (f x)) \<Longrightarrow> I (snd (bind_ok m f s))"
  by (auto simp: maintains_def bind_ok_def split: prod.split sum.split)

lemma maintains_bind_to:
  "maintains J m \<Longrightarrow> J s \<Longrightarrow> (\<And>s. J s \<Longrightarrow> I s) \<Longrightarrow> (\<And>x s. J s \<Longrightarrow> I (snd (f x s))) \<Longrightarrow> I (snd (bind_ok m f s))"
  by (auto simp: bind_ok_def dest!: maintainsD split: prod.split sum.split)

lemma maintains_found [upkeep]: "maintains I m \<Longrightarrow> maintains I (found m)"
  unfolding found_def by (rule maintains_bind) (auto split: option.split intro: upkeep)

lemma maintains_or_status [upkeep]: "maintains I m \<Longrightarrow> maintains I (or_status c m)"
  by (auto simp: maintains_def or_status_def split: prod.split sum.split)

lemma maintains_recode [upkeep]: "maintains I m \<Longrightarrow> maintains I (recode c m)"
  by (auto simp: maintains_def recode_def split: prod.split sum.split)

lemma maintains_via_db [upkeep]: "maintains I m \<Longrightarrow> maintains (\<lambda>s. I (ap_db s)) (via_db m)"
  by (auto simp: maintains_def via_db_def split: prod.split)

lemma maintains_via_cache [upkeep]: "maintains (\<lambda>s. I (ap_db s)) (via_cache m)"
  by (auto simp: maintains_def via_cache_def split: prod.split)

lemma maintains_claims [upkeep]:
  "(\<And>cl. cls = Some cl \<Longrightarrow> maintains I (f cl)) \<Longrightarrow> maintains I (with_claims cls f)"
  by (cases cls) (auto simp: maintains_def with_claims_def fail_def)

lemma maintains_quota [upkeep]: "maintains (\<lambda>s. I (ap_db s)) (enforce_tenant_fixed_window E t res limit cost)"
  unfolding enforce_tenant_fixed_window_def by (intro upkeep)

lemma maintains_pure [upkeep]: "maintains I (\<lambda>s. (f s, s))"
  by (simp add: maintains_def)

lemma maintains_of_option [upkeep]: "maintains I (of_option c x)"
  unfolding of_option_def by (cases x) (simp_all add: maintains_def ok_def fail_def)

lemma maintains_option [upkeep]:
  "maintains I m \<Longrightarrow> (\<And>x. maintains I (f x)) \<Longrightarrow> maintains I (case o' of None \<Rightarrow> m | Some x \<Rightarrow> f x)"
  by (cases o') auto

lemma maintains_if [upkeep]: "maintains I m \<Longrightarrow> maintains I m' \<Longrightarrow> maintains I (if b then m else m')"
  by simp

lemma maintains_each [upkeep]: "(\<And>x. maintains I (f x)) \<Longrightarrow> maintains I (for_each f xs)"
  unfolding maintains_def by (intro allI impI for_each_keeps[where P = I]) auto

text \<open>A computation that first looks at the state is fine when it is for every state it looks at.\<close>

lemma maintains_atI: "(\<And>s0. maintains I (m s0)) \<Longrightarrow> maintains I (\<lambda>s. m s s)"
  by (simp add: maintains_def)

lemma maintains_case:
  "maintains I m \<Longrightarrow> (\<And>r. maintains I (f r)) \<Longrightarrow> maintains I (\<lambda>s. case m s of (r, s') \<Rightarrow> f r s')"
  by (auto simp: maintains_def split: prod.split)

lemma maintains_select: "(\<And>d n. I d \<Longrightarrow> I (d \<lparr> db_calls := n \<rparr>)) \<Longrightarrow> maintains I (select f)"
  by (simp add: maintains_def select_cases)

lemma maintains_stmt:
  "(\<And>d n. I d \<Longrightarrow> I (d \<lparr> db_calls := n \<rparr>)) \<Longrightarrow> maintains I f \<Longrightarrow> maintains I (stmt f)"
  by (simp add: maintains_def stmt_def Let_def)

text \<open>The invariant of a state around the database.\<close>

abbreviation keeps :: "(db \<Rightarrow> bool) \<Rightarrow> ('e, 'a, 's app) eff \<Rightarrow> bool" where
  "keeps I \<equiv> maintains (\<lambda>s. I (ap_db s))"

abbreviation keeps_inner :: "(db \<Rightarrow> bool) \<Rightarrow> ('e, 'a, 's ingest) eff \<Rightarrow> bool" where
  "keeps_inner I \<equiv> maintains (\<lambda>g. I (ap_db (ig_app g)))"

lemma maintains_via_app [upkeep]: "keeps I m \<Longrightarrow> keeps_inner I (via_app m)"
  by (auto simp: maintains_def via_app_def split: prod.split)

lemma keeps_reply_after: "(\<And>s. I (ap_db s) \<Longrightarrow> I (ap_db (f s))) \<Longrightarrow> keeps I (\<lambda>s. reply c x (f s))"
  by (simp add: maintains_def reply_def ok_def)

lemma keeps_reply_at: "keeps I (\<lambda>s. reply c (f s) s)"
  by (simp add: maintains_def reply_def ok_def)

lemma app_of_cache [simp]:
  "ap_db (ignore (via_cache m) s) = ap_db s" "ap_db (snd (via_cache m s)) = ap_db s"
  by (simp_all add: ignore_def via_cache_def split: prod.split)

lemma via_cache_db: "via_cache m s = (r, s') \<Longrightarrow> ap_db s' = ap_db s"
  by (auto simp: via_cache_def split: prod.splits)

section \<open>Cases that exist\<close>

definition has_case :: "string \<Rightarrow> nat \<Rightarrow> db \<Rightarrow> bool" where
  "has_case t i d \<longleftrightarrow> (t, i) \<in> set (map (\<lambda>c. (ca_tenant c, ca_id c)) (db_cases d))"

lemma has_case_simps [simp]:
  "has_case t i (d \<lparr> db_calls := n \<rparr>) = has_case t i d" "has_case t i (d \<lparr> db_next := n \<rparr>) = has_case t i d"
  "has_case t i (d \<lparr> db_timeline := xs \<rparr>) = has_case t i d"
  by (simp_all add: has_case_def)

lemma has_case_event: "maintains (has_case t i) (record_case_event u j ty msg uid em m)"
  unfolding record_case_event_def by (rule maintains_stmt) (simp_all add: maintains_def has_case_def)

lemma map_key_update:
  "(\<And>x. k (w x) = k x) \<Longrightarrow> map k (map (\<lambda>x. if P x then w x else x) xs) = map k xs"
  by (induction xs) auto

lemma has_case_written: "maintains (has_case t i) (write_case u j m)"
  unfolding write_case_def
  by (rule maintains_stmt)
    (simp_all add: maintains_def has_case_def Let_def map_key_update del: set_map map_map list.map_comp split: option.split)

lemma has_case_update: "maintains (has_case t i) (update_case u j ch)"
proof -
  have "maintains (has_case t i) (\<lambda>d. write_case u j (merged_case ch (db_now d) c) d)" for c
    by (rule maintains_atI) (rule has_case_written)
  then show ?thesis unfolding update_case_def get_case_by_id_def
    by (intro maintains_bind maintains_option upkeep maintains_select)
      (auto simp: maintains_def Let_def intro!: maintains_ignore[OF has_case_event])
qed

lemma found_case:
  assumes "bind_ok (found (or_status c (via_db (get_case_by_id t i)))) f s = (r, s')"
  obtains "ap_db s' = (ap_db s) \<lparr> db_calls := db_calls (ap_db s) + 1 \<rparr>"
    | x where "has_case t i (ap_db s)" "ca_id x = i" "ca_tenant x = t"
        "f x (s \<lparr> ap_db := (ap_db s) \<lparr> db_calls := db_calls (ap_db s) + 1 \<rparr> \<rparr>) = (r, s')"
proof -
  let ?d = "(ap_db s) \<lparr> db_calls := db_calls (ap_db s) + 1 \<rparr>"
  let ?q = "first_row (\<lambda>c. ca_tenant c = t \<and> ca_id c = i) (db_cases (ap_db s))"
  consider "ap_db s' = ?d" | x where "?q = Some x" "f x (s \<lparr> ap_db := ?d \<rparr>) = (r, s')"
    using assms
    by (auto simp: bind_ok_def found_def or_status_def via_db_def get_case_by_id_def select_cases fail_def ok_def
        split: option.splits if_splits)
  then show ?thesis
  proof cases
    case (2 x)
    have "has_case t i (ap_db s)" "ca_id x = i" "ca_tenant x = t"
      using first_row_Some[OF 2(1)] by (auto simp: has_case_def)
    then show ?thesis using 2(2) that(2) by blast
  qed (rule that(1))
qed

section \<open>What the statements owe\<close>

text \<open>\<open>T\<close> says which tenants the statements may write for.\<close>

locale db_contract =
  fixes I :: "db \<Rightarrow> bool" and T :: "string \<Rightarrow> bool"
  assumes calls: "I (d \<lparr> db_calls := n \<rparr>) = I d"
    and next_id: "I d \<Longrightarrow> I (d \<lparr> db_next := db_next d + 1 \<rparr>)"
    and user_row: "T t \<Longrightarrow> maintains I (create_user t email h role)"
    and rule_row: "T (rc_tenant c) \<Longrightarrow> maintains I (create_rule c)"
    and rule_change: "T t \<Longrightarrow> maintains I (update_rule t i u)"
    and rule_gone: "T t \<Longrightarrow> maintains I (delete_rule t i)"
    and audit_row: "T (ae_tenant e) \<Longrightarrow> ae_id e = db_next d \<Longrightarrow> I d \<Longrightarrow>
      I (snd (insert_audit_event e (d \<lparr> db_next := db_next d + 1 \<rparr>)))"
    and policy_row: "T (cp_tenant p) \<Longrightarrow> maintains I (upsert_compliance_policy p)"
    and cost_row: "maintains I (upsert_cost_policy k)"
    and report_row: "T (rp_tenant r) \<Longrightarrow> maintains I (insert_reliability_report r)"
    and playbook_rows: "T t \<Longrightarrow> maintains I (ensure_default_playbooks t)"
    and event_row: "T t \<Longrightarrow> has_case t i d \<Longrightarrow> I d \<Longrightarrow> I (snd (record_case_event t i ty msg uid em m d))"
    and case_rows: "T (a_tenant a) \<Longrightarrow> maintains I (open_case sh a uid em title summ pb)"
    and case_change: "T t \<Longrightarrow> maintains I (update_case t i ch)"
begin

lemma reading [upkeep]: "maintains I (select f)"
  by (rule maintains_select) (simp add: calls)

lemma uuid [upkeep]: "maintains I fresh_uuid"
  using next_id by (simp add: maintains_def fresh_uuid_def)

lemmas statements [upkeep] = user_row rule_row rule_change rule_gone policy_row cost_row report_row playbook_rows
  case_rows case_change

lemma listings [upkeep]:
  "maintains I (list_audit_events u n)" "maintains I (get_recent_alerts u n)" "maintains I (latest_audit_hash u)"
  unfolding list_audit_events_def get_recent_alerts_def latest_audit_hash_def
  by (simp_all add: maintains_def stmt_def select_def Let_def calls)

lemma new_case_from_alert [upkeep]:
  "T (a_tenant a) \<Longrightarrow> maintains I (create_case_from_alert sh a uid em title summ pid)"
  unfolding create_case_from_alert_def get_case_by_alert_id_def choose_playbook_def get_case_playbook_def
    list_case_playbooks_def
  by (intro upkeep) auto

lemma read_at: "keeps I (\<lambda>s. or_status c (via_db (select (g s))) s)"
  by (rule maintains_atI) (intro upkeep)

text \<open>The audit trail.\<close>

lemma audit_written: "T (cl_tenant cl) \<Longrightarrow> keeps I (write_audit E cl act rty rid target meta prev)"
proof -
  assume cl: "T (cl_tenant cl)"
  have "keeps I (bind_ok (or_status 500 (via_db fresh_uuid)) (\<lambda>i s. or_status 500 (via_db (insert_audit_event (f i s))) s))"
    if "\<And>i s. ae_tenant (f i s) = cl_tenant cl \<and> ae_id (f i s) = i" for f :: "nat \<Rightarrow> 'a app \<Rightarrow> audit_event"
    unfolding maintains_def
  proof (intro allI impI)
    fix s :: "'a app"
    assume "I (ap_db s)"
    then have "I (snd (insert_audit_event (f (db_next (ap_db s)) s') ((ap_db s) \<lparr> db_next := db_next (ap_db s) + 1 \<rparr>)))" for s'
      using audit_row[of "f (db_next (ap_db s)) s'"] that cl by simp
    then show "I (ap_db (snd (bind_ok (or_status 500 (via_db fresh_uuid))
        (\<lambda>i s. or_status 500 (via_db (insert_audit_event (f i s))) s) s)))"
      by (auto simp: bind_ok_def or_status_def via_db_def fresh_uuid_def split: prod.split sum.split) (metis snd_conv)+
  qed
  then show ?thesis unfolding write_audit_def Let_def
    by (intro maintains_bind[OF maintains_or_status[OF maintains_pure]]) simp
qed

lemma audit_recorded [upkeep]: "T (cl_tenant cl) \<Longrightarrow> keeps I (record_audit E cl act rty rid target meta)"
  unfolding record_audit_def by (intro maintains_bind maintains_or_status maintains_via_db listings audit_written)

lemma audit_ignored:
  "T (cl_tenant cl) \<Longrightarrow> I (ap_db s) \<Longrightarrow> I (ap_db (ignore (record_audit E cl act rty rid target meta) s))"
  using maintains_ignore[OF audit_recorded] .

end

section \<open>The handlers\<close>

lemmas record_audits = record_cost_audit_def record_case_audit_def record_rule_audit_def record_compliance_audit_def record_audit_view_def
  record_pack_audit_def

lemmas reads = list_cases_def get_case_by_id_def get_case_detail_def list_case_alert_ids_def list_case_timeline_def
  get_case_playbook_def get_alert_def get_all_rules_def get_rule_by_id_def get_compliance_policy_def list_users_by_tenant_def
  list_audit_events_since_def get_user_by_email_def get_user_by_id_def get_cost_policy_def list_reliability_reports_def
  get_stats_def db_ping_def

lemma alert_of_tenant: "yields (\<lambda>x. \<forall>a. x = Some a \<longrightarrow> a_tenant a = u) (get_alert u i)"
  unfolding get_alert_def by (rule yields_select) (auto simp: alert_of_row_def dest: first_row_Some)

lemma policy_of_tenant: "yields (\<lambda>p. cp_tenant p = u) (get_compliance_policy u)"
  unfolding get_compliance_policy_def
  by (rule yields_select)
    (auto simp: option_or_def default_compliance_def dest: first_row_Some split: option.split)

text \<open>Effects that leave the database alone.\<close>

lemma seed_counter_db [simp]: "ap_db (seed_counter E u what v s) = ap_db s"
  by (simp add: seed_counter_def)

lemma usage_or_zero_db: "usage_or_zero E key s = (n, s') \<Longrightarrow> ap_db s' = ap_db s"
  by (auto simp: usage_or_zero_def dest!: via_cache_db split: prod.splits)

lemma enrich_rows_db: "enrich_dimension_rows E day u dm rs s = (rs', s') \<Longrightarrow> ap_db s' = ap_db s"
  by (induction rs arbitrary: s rs' s') (auto dest!: usage_or_zero_db split: prod.splits)

lemma top_rows_db: "top_rows E day u dm s = (rs, s') \<Longrightarrow> ap_db s' = ap_db s"
  by (auto simp: top_rows_def dest!: via_cache_db split: prod.splits)

lemma tenant_counter_db: "tenant_counter E u what s = (n, s') \<Longrightarrow> ap_db s' = ap_db s"
  by (auto simp: tenant_counter_def split: prod.splits)

lemma heartbeat_db: "heartbeat_status E key n s = (h, s') \<Longrightarrow> ap_db s' = ap_db s"
  by (auto simp: heartbeat_status_def Let_def dest!: via_cache_db split: prod.splits sum.splits option.splits)

lemma record_usage_db: "ap_db (record_cost_usage E K u d s) = ap_db s"
proof -
  have f: "ap_db (fold g xs s) = ap_db s" if "\<And>x s. ap_db (g x s) = ap_db s" for g xs and s :: "'a app"
    using that by (induction xs arbitrary: s) auto
  have c: "ap_db (count_bytes E k n s) = ap_db s" "ap_db (count_one E k s) = ap_db s"
    "ap_db (count_rank E k m n s) = ap_db s" for k m n and s :: "'a app"
    by (simp_all add: count_bytes_def count_one_def count_rank_def)
  have o': "ap_db (count_outcome E day u d what s) = ap_db s" for day what and s :: "'a app"
    unfolding count_outcome_def by (auto simp: f c split: prod.split)
  show ?thesis by (auto simp: record_cost_usage_def Let_def f c o' split: prod.split)
qed

lemma ingest_heartbeat_db [simp]: "ap_db (ingest_heartbeat E a) = ap_db a"
  by (simp add: ingest_heartbeat_def Let_def set_key_def)

lemma send_replayed_app [simp]: "ig_app (send_replayed l g) = ig_app g"
  by (simp add: send_replayed_def split: slow_result.split)

lemma replay_hits_app: "replay_hits E R hs n g = (k, g') \<Longrightarrow> ig_app g' = ig_app g"
  by (induction E R hs n g rule: replay_hits.induct) (auto split: option.splits)

lemma replay_app: "replay_recent_logs E R search u n g = (r, g') \<Longrightarrow> ig_app g' = ig_app g"
  by (auto simp: replay_recent_logs_def dest!: replay_hits_app split: option.splits sum.splits prod.splits)

context db_contract
begin

lemma rules_keep:
  assumes "\<And>cl. cls = Some cl \<Longrightarrow> T (cl_tenant cl)"
  shows "keeps I (list_rules_handler E cls)" "keeps I (get_rule_handler E cls i)"
    "keeps I (create_rule_handler E cls b)" "keeps I (update_rule_handler E cls i u)"
    "keeps I (delete_rule_handler E cls i)" "keeps I (toggle_rule_handler E cls i)"
  using assms
  unfolding list_rules_handler_def get_rule_handler_def create_rule_handler_def update_rule_handler_def
    delete_rule_handler_def toggle_rule_handler_def rule_guard_def record_audits reads
  by (intro upkeep keeps_reply_after read_at keeps_reply_at; simp)+

lemma packs_keep:
  assumes "\<And>cl. cls = Some cl \<Longrightarrow> T (cl_tenant cl)"
  shows "keeps I (list_detection_packs E cls)" "keeps I (get_detection_pack E cls slug)"
    "keeps I (install_detection_pack E cls slug)"
  using assms
  unfolding list_detection_packs_def get_detection_pack_def install_detection_pack_def ensure_pack_rules_def
    install_template_def record_audits reads
  by (intro upkeep keeps_reply_after read_at keeps_reply_at; simp add: rule_of_template_def audit_ignored)+

end

text \<open>Cases.  The events of a playbook run and of the timeline endpoint are for a case the handler found.\<close>

context db_contract
begin

lemma event_on_case: "T t \<Longrightarrow> maintains (\<lambda>d. I d \<and> has_case t i d) (record_case_event t i ty msg uid em m)"
  using event_row maintains_snd[OF has_case_event] by (auto simp: maintains_def)

lemma playbook_run_keeps:
  assumes "T (cl_tenant cl)" "I d" "has_case (cl_tenant cl) (ca_id c) d"
  shows "I (start_playbook E cl c p d)"
proof -
  let ?J = "\<lambda>d. I d \<and> has_case (cl_tenant cl) (ca_id c) d"
  have event: "?J d \<Longrightarrow> ?J (ignore (record_case_event (cl_tenant cl) (ca_id c) ty msg u em m) d)" for ty msg u em m d
    using maintains_ignore[OF event_on_case[OF assms(1)]] .
  have steps: "?J d \<Longrightarrow> ?J (playbook_steps cl (ca_id c) xs d)" for xs d
    by (induction xs arbitrary: d) (simp_all only: playbook_steps.simps playbook_step_def Let_def event)
  have upd: "?J (ignore (update_case (cl_tenant cl) (ca_id c) ch) d)" for ch
    using maintains_ignore[OF case_change[OF assms(1)]] maintains_ignore[OF has_case_update] assms(2,3) by blast
  note run = event[OF upd] and all = steps[OF event[OF upd]]
  show ?thesis
    by (cases "pb_steps p")
      (simp_all add: start_playbook_def Let_def run[THEN conjunct1] all[THEN conjunct1])
qed

lemma cases_keep:
  assumes "\<And>cl. cls = Some cl \<Longrightarrow> T (cl_tenant cl)"
  shows "keeps I (list_cases_handler E cls)" "keeps I (get_case_handler E cls i)"
    "keeps I (list_playbooks_handler E cls)"
  using assms
  unfolding list_cases_handler_def get_case_handler_def list_playbooks_handler_def list_case_playbooks_def
    case_guard_def reads
  by (intro upkeep; simp)+

lemma case_found_keeps:
  fixes f :: "case_record \<Rightarrow> (nat, 'a, 's app) eff"
  assumes "\<And>c s. ca_id c = i \<Longrightarrow> I (ap_db s) \<Longrightarrow> has_case t i (ap_db s) \<Longrightarrow> I (ap_db (snd (f c s)))"
  shows "keeps I (bind_ok (found (or_status k (via_db (get_case_by_id t i)))) f)"
  unfolding maintains_def
proof (intro allI impI)
  fix s :: "'s app"
  assume I: "I (ap_db s)"
  obtain r s' where m: "bind_ok (found (or_status k (via_db (get_case_by_id t i)))) f s = (r, s')" by fastforce
  then show "I (ap_db (snd (bind_ok (found (or_status k (via_db (get_case_by_id t i)))) f s)))"
  proof (cases rule: found_case)
    case 1
    then show ?thesis using I m by (simp add: calls)
  next
    case (2 c)
    then show ?thesis using assms[of c "s \<lparr> ap_db := (ap_db s) \<lparr> db_calls := db_calls (ap_db s) + 1 \<rparr> \<rparr>"] I m
      by (simp add: calls)
  qed
qed

lemma event_keeps_at:
  "T t \<Longrightarrow> I (ap_db s) \<Longrightarrow> has_case t i (ap_db s) \<Longrightarrow>
     I (ap_db (snd (or_status k (via_db (record_case_event t i ty msg uid em m)) s)))"
  using event_row[of t i "ap_db s" ty msg uid em m] by (auto simp: or_status_def via_db_def split: prod.split sum.split)

lemma timeline_keeps:
  assumes "\<And>cl. cls = Some cl \<Longrightarrow> T (cl_tenant cl)"
  shows "keeps I (add_timeline_handler E cls i ty msg m)"
  using assms unfolding add_timeline_handler_def case_guard_def record_audits Let_def
  by (intro maintains_claims maintains_bind[OF maintains_require] maintains_bind[OF maintains_quota] case_found_keeps
      maintains_bind_at[where I = "\<lambda>s. I (ap_db s)"] event_keeps_at keeps_reply_after audit_ignored) simp_all

lemma run_playbook_keeps:
  assumes "\<And>cl. cls = Some cl \<Longrightarrow> T (cl_tenant cl)"
  shows "keeps I (run_playbook_handler E cls i p)"
proof -
  have "maintains (\<lambda>s. I (ap_db s) \<and> has_case (cl_tenant cl) i (ap_db s))
      (case o' of None \<Rightarrow> fail 400 | Some p \<Rightarrow> found (or_status 500 (via_db (get_case_playbook (cl_tenant cl) p))))"
    for cl :: claims and o' :: "nat option"
    unfolding get_case_playbook_def
    by (intro maintains_option maintains_fail maintains_found maintains_or_status
        maintains_via_db[where I = "\<lambda>d. I d \<and> has_case (cl_tenant cl) i d"] maintains_select) (simp add: calls)
  note lookup = this
  show ?thesis using assms unfolding run_playbook_handler_def case_guard_def record_audits
    by (intro maintains_claims maintains_bind[OF maintains_require] maintains_bind[OF maintains_quota] case_found_keeps
        maintains_bind_to[OF lookup, where I = "\<lambda>s. I (ap_db s)"])
      (simp_all add: reply_def ok_def audit_ignored playbook_run_keeps)
qed

end

context db_contract
begin

lemma create_case_keeps:
  assumes "\<And>cl. cls = Some cl \<Longrightarrow> T (cl_tenant cl)"
  shows "keeps I (create_case_handler E cls b)"
proof -
  have with_alert: "keeps I (bind_ok (found (or_status 500 (via_db (get_alert u i)))) f)"
    if "\<And>a. a_tenant a = u \<Longrightarrow> keeps I (f a)" for u i and f :: "alert \<Rightarrow> (nat \<times> case_record, 'a) http"
    by (rule maintains_bind_yields[OF yields_found[OF yields_or_status[OF yields_via_db[OF alert_of_tenant]]]])
      (auto intro!: maintains_found maintains_or_status maintains_via_db reading that simp: get_alert_def)
  show ?thesis using assms unfolding create_case_handler_def case_guard_def record_audits
    by (intro maintains_claims maintains_bind[OF maintains_require] maintains_bind[OF maintains_quota] with_alert)
      (intro upkeep keeps_reply_after; simp add: audit_ignored)
qed

lemma update_case_keeps:
  assumes "\<And>cl. cls = Some cl \<Longrightarrow> T (cl_tenant cl)"
  shows "keeps I (update_case_handler E cls i b)"
proof -
  have "keeps I (\<lambda>s. case via_db (update_case u i ch) s of
         (Inl Invalid_Input, s') \<Rightarrow> (Inl 404, s')
       | (Inl _, s') \<Rightarrow> (Inl 500, s')
       | (Inr c, s') \<Rightarrow> reply 200 c (ignore (record_audit E cl act rty (r c) tg (m c)) s'))"
    if "T u" "T (cl_tenant cl)" for u ch act rty r tg m and cl :: claims
  proof -
    have "keeps I (\<lambda>s. case via_db (update_case u i ch) s of (q, s') \<Rightarrow>
        (case q of Inl e \<Rightarrow> (if e = Invalid_Input then Inl 404 else Inl 500, s')
         | Inr c \<Rightarrow> reply 200 c (ignore (record_audit E cl act rty (r c) tg (m c)) s')))"
      using that
      by (intro maintains_case maintains_via_db case_change)
        (auto simp: maintains_def reply_def ok_def audit_ignored split: sum.split)
    moreover have "(\<lambda>s. case via_db (update_case u i ch) s of (q, s') \<Rightarrow>
        (case q of Inl e \<Rightarrow> (if e = Invalid_Input then Inl 404 else Inl 500, s')
         | Inr c \<Rightarrow> reply 200 c (ignore (record_audit E cl act rty (r c) tg (m c)) s')))
      = (\<lambda>s. case via_db (update_case u i ch) s of
         (Inl Invalid_Input, s') \<Rightarrow> (Inl 404, s')
       | (Inl _, s') \<Rightarrow> (Inl 500, s')
       | (Inr c, s') \<Rightarrow> reply 200 c (ignore (record_audit E cl act rty (r c) tg (m c)) s'))"
      by (intro ext) (auto split: prod.split sum.split error.split)
    ultimately show ?thesis by simp
  qed
  then show ?thesis using assms unfolding update_case_handler_def case_guard_def record_audits
    by (intro upkeep; simp)
qed

lemma save_policy_keeps:
  assumes "T target" "T (cl_tenant cl)" "\<And>now p. cp_tenant (f now p) = cp_tenant p"
  shows "keeps I (save_policy E cl target act f)"
proof -
  have up: "keeps I (\<lambda>s. or_status 500 (via_db (upsert_compliance_policy
              ((f (app_now s) p) \<lparr> cp_updated := app_now s \<rparr>))) s)" if "cp_tenant p = target" for p
    by (rule maintains_atI) (intro upkeep, simp add: assms that)
  show ?thesis unfolding save_policy_def record_audits
    by (rule maintains_bind_yields[OF yields_or_status[OF yields_via_db[OF policy_of_tenant]]])
      (auto intro!: maintains_bind maintains_reply maintains_or_status maintains_via_db reading audit_recorded up
        assms(2) simp: get_compliance_policy_def)
qed

lemma compliance_keeps:
  assumes "\<And>cl. cls = Some cl \<Longrightarrow> T (cl_tenant cl)"
  shows "keeps I (get_policy_handler E cls q)"
    "keeps I (access_review_handler E cls q)" "keeps I (evidence_handler E cls q)"
  using assms
  unfolding get_policy_handler_def access_review_handler_def evidence_handler_def admin_guard_def record_audits reads Let_def
  by (intro upkeep read_at keeps_reply_at; simp add: audit_ignored)+

lemma policies_keep:
  assumes "\<And>cl. cls = Some cl \<Longrightarrow> T (option_or (cl_tenant cl) q) \<and> T (cl_tenant cl)"
  shows "keeps I (update_policy_handler E cls q u)" "keeps I (key_rotation_handler E cls q)"
  using assms unfolding update_policy_handler_def key_rotation_handler_def admin_guard_def
  by (intro upkeep save_policy_keeps; simp add: apply_request_def)+

end

text \<open>Cost control, the dashboard and health.\<close>

context db_contract
begin

lemma load_cost_keeps: "keeps I (load_tenant_cost_policy E K u)"
  unfolding maintains_def load_tenant_cost_policy_def
  by (auto simp: get_cost_policy_def bind_ok_def ok_def via_db_def select_cases calls
      dest!: via_cache_db split: prod.split sum.split option.split if_splits)

lemma save_cost_keeps: "keeps I (save_tenant_cost_policy E K p)"
  unfolding save_tenant_cost_policy_def
  by (intro upkeep) (simp add: maintains_def ok_def)

lemma read_usage_keeps: "keeps I (read_usage E key)"
  unfolding read_usage_def by (intro upkeep)

lemma cost_dashboard_keeps: "keeps I (build_cost_dashboard E K u)"
  unfolding build_cost_dashboard_def Let_def
  by (rule maintains_bind[OF load_cost_keeps], rule maintains_atI)
    (intro maintains_bind read_usage_keeps,
     auto simp: maintains_def ok_def dest!: top_rows_db enrich_rows_db split: prod.split)

lemma cost_keeps:
  assumes "\<And>cl. cls = Some cl \<Longrightarrow> T (cl_tenant cl)"
  shows "keeps I (get_cost_policy_handler E K cls)" "keeps I (update_cost_policy_handler E K cls u)"
    "keeps I (cost_dashboard_handler E K cls)"
  using assms
  unfolding get_cost_policy_handler_def update_cost_policy_handler_def cost_dashboard_handler_def record_cost_audit_def
  by (intro upkeep keeps_reply_after load_cost_keeps save_cost_keeps cost_dashboard_keeps; simp add: audit_ignored)+

lemma dashboard_keeps: "keeps I (dashboard_stats_handler E cls)"
proof -
  have from_db: "keeps I (stats_from_db E u)" for u
    unfolding stats_from_db_def reads
    by (intro upkeep) (auto simp: maintains_def reply_def ok_def split: prod.split)
  show ?thesis unfolding dashboard_stats_handler_def
    by (intro upkeep) (auto simp: maintains_def reply_def ok_def maintains_snd[OF from_db]
      dest!: tenant_counter_db split: prod.split option.split)
qed

lemma ping_keeps: "via_db db_ping s = (r, s') \<Longrightarrow> I (ap_db s) \<Longrightarrow> I (ap_db s')"
  unfolding db_ping_def by (rule maintainsD[OF maintains_via_db[OF reading]])

lemma health_keeps: "I (ap_db s) \<Longrightarrow> I (ap_db (snd (detailed_health E P s)))"
  by (auto simp: detailed_health_def Let_def dest!: heartbeat_db via_cache_db ping_keeps split: prod.split)

text \<open>Accounts.\<close>

lemma attempts_keep: "keeps I (attempt_window E key n)"
  unfolding attempt_window_def by (intro upkeep)

lemma issue_pair_keeps: "keeps I (issue_pair E X u)"
  unfolding issue_pair_def Let_def by (rule maintains_atI) (intro upkeep)

lemma register_keeps: "T (tenant_or_default u) \<Longrightarrow> keeps I (register E X u email pw)"
proof -
  assume T: "T (tenant_or_default u)"
  have "keeps I (\<lambda>s. case via_db (create_user (tenant_or_default u) email h role) s of
          (Inr u, s') \<Rightarrow> reply 201 (user_response_of u) s' | (Inl Db_Conflict, s') \<Rightarrow> fail 409 s' | (Inl _, s') \<Rightarrow> fail 500 s')" for h role
    by (rule maintains_case[OF maintains_via_db[OF user_row[OF T]]])
      (simp add: maintains_def reply_def ok_def fail_def split: sum.split error.split)
  note created = this
  show ?thesis unfolding register_def Let_def reads
    by (intro maintains_bind attempts_keep maintains_of_option created maintains_require maintains_or_status maintains_via_db
        reading uuid)
qed

lemma accounts_keep:
  "keeps I (login E X u email pw)" "keeps I (logout E X tok)" "keeps I (me E X cls)"
  unfolding login_def logout_def me_def Let_def reads by (intro upkeep attempts_keep issue_pair_keeps)+

lemma refresh_keeps: "keeps I (refresh E X u tok)"
proof -
  have "keeps I (\<lambda>s. bind_ok (issue_pair E X w) (\<lambda>p. reply 200 p) (ignore (via_cache m) s))" for w m
    unfolding maintains_def
    by (intro allI impI maintains_snd[where I = "\<lambda>s. I (ap_db s)"] maintains_bind issue_pair_keeps maintains_reply) simp
  then show ?thesis unfolding refresh_def Let_def reads by (intro upkeep)
qed

lemma sockets_keep: "keeps I (ws_token E X cls)" "keeps I (ws_alerts_open E cls)"
proof -
  show "keeps I (ws_token E X cls)"
    unfolding ws_token_def Let_def
    by (rule maintains_claims, rule maintains_bind, intro upkeep, rule maintains_atI) (intro upkeep)
  show "keeps I (ws_alerts_open E cls)"
    unfolding ws_alerts_open_def consume_ws_token_def by (intro upkeep)
qed

lemma listings_keep:
  assumes "\<And>cl. cls = Some cl \<Longrightarrow> T (cl_tenant cl)"
  shows "keeps I (list_alerts_handler E cls)" "keeps I (list_audit_handler E cls q n)"
    "keeps I (recent_logs E search cls)"
  using assms
  unfolding list_alerts_handler_def list_audit_handler_def recent_logs_def record_audits Let_def
  by (intro upkeep; simp add: upkeep split: option.split sum.split)+

end

text \<open>Reliability, ingestion and replay.\<close>

context db_contract
begin

lemma overview_keeps: "keeps I (overview_handler E R cls)"
proof -
  have "keeps I (build_reliability_overview E R u)" for u
    unfolding build_reliability_overview_def maintains_def list_reliability_reports_def
    by (auto simp: bind_ok_def ok_def via_db_def select_cases calls split: prod.split)
  then show ?thesis unfolding overview_handler_def analyst_only_def by (intro upkeep)
qed

lemma reports_keep:
  assumes "\<And>cl. cls = Some cl \<Longrightarrow> T (cl_tenant cl)"
  shows "keeps I (list_reports_handler cls)" "keeps I (create_report_handler cls b)"
  using assms unfolding list_reports_handler_def create_report_handler_def analyst_only_def reads
  by (intro upkeep; simp)+

lemma chaos_keeps:
  assumes "\<And>cl. cls = Some cl \<Longrightarrow> T (cl_tenant cl)"
  shows "keeps I (chaos_drill_handler E P cls)"
proof -
  have probe: "I (ap_db s) \<Longrightarrow> I (ap_db s')" if "health_probe_summary E P s = (j, s')" for s s' :: "'a app" and j
    using that by (auto simp: health_probe_summary_def dest!: via_cache_db ping_keeps split: prod.splits)
  have rest: "keeps I (bind_ok (or_status 500 (via_db fresh_uuid)) (\<lambda>i.
       bind_ok (or_status 500 (via_db (insert_reliability_report (drill_report u ty (f i) b x y j))))
         (\<lambda>r. reply 200 r)))" if "T u" for u ty f b x y j
    using that by (intro upkeep; simp add: drill_report_def)
  show ?thesis using assms unfolding chaos_drill_handler_def analyst_only_def Let_def
    by (intro maintains_claims maintains_bind maintains_require)
      (auto simp: maintains_def maintains_snd[OF rest] dest!: probe split: prod.split)
qed

lemma decision_keeps: "keeps I (evaluate_cost_decision E K u q)"
  unfolding evaluate_cost_decision_def Let_def
  by (rule maintains_bind[OF load_cost_keeps], rule maintains_atI) (intro upkeep read_usage_keeps)

lemma cost_gate_keeps: "cost_gate E K u q g = (d, g') \<Longrightarrow> I (ap_db (ig_app g)) \<Longrightarrow> I (ap_db (ig_app g'))"
  by (auto simp: cost_gate_def Let_def record_usage_db dest!: maintainsD[OF decision_keeps] split: prod.splits)

lemma enqueue_keeps: "keeps_inner I (enqueue_ingest_log l)"
  by (simp add: maintains_def enqueue_ingest_log_def Let_def split: slow_result.split)

lemma ingest_log_keeps: "keeps_inner I (ingest_log E K cls q)"
proof -
  have rest: "keeps_inner I (bind_ok (enqueue_ingest_log l) (\<lambda>_ g2. (Inr x, on_app f g2)))"
    if "\<And>a. ap_db (f a) = ap_db a" for l x and f :: "'a app \<Rightarrow> 'a app"
    by (intro maintains_bind enqueue_keeps) (simp add: maintains_def on_app_def that)
  show ?thesis
  proof (cases cls)
    case (Some cl)
    show ?thesis unfolding Some ingest_log_def option.case Let_def
      by (rule maintains_bind, intro upkeep, rule maintains_atI, rule maintains_bind, intro upkeep)
        (auto simp: maintains_def maintains_snd[OF rest] dest!: cost_gate_keeps split: prod.split)
  qed (simp add: ingest_log_def maintains_fail)
qed

lemma ingest_items_keep: "keeps_inner I (ingest_items E K u now qs)"
proof -
  have rest: "keeps_inner I (bind_ok (enqueue_ingest_log l) (\<lambda>_. ok x))" for l x
    by (intro maintains_bind enqueue_keeps upkeep)
  have item: "keeps_inner I (ingest_item E K u now q)" for q
    unfolding ingest_item_def
    by (rule maintains_bind, intro upkeep)
      (auto simp: maintains_def maintains_snd[OF rest] dest!: cost_gate_keeps split: prod.split)
  show ?thesis by (induction qs) (simp_all add: maintains_ok maintains_bind item)
qed

lemma ingest_batch_keeps: "keeps_inner I (ingest_batch E K cls qs)"
proof (cases cls)
  case (Some cl)
  show ?thesis unfolding Some ingest_batch_def option.case
    by (rule maintains_bind, intro upkeep, rule maintains_atI, rule maintains_bind[OF ingest_items_keep])
      (simp add: maintains_def on_app_def Let_def)
qed (simp add: ingest_batch_def maintains_fail)

lemma replay_keeps:
  assumes "\<And>cl. cls = Some cl \<Longrightarrow> T (cl_tenant cl)"
  shows "keeps_inner I (replay_drill_handler E R search cls)"
proof (cases cls)
  case (Some cl)
  have rest: "keeps_inner I (bind_ok (via_app (or_status 500 (via_db fresh_uuid))) (\<lambda>i g2.
          via_app (bind_ok (or_status 500 (via_db (insert_reliability_report
              (drill_report (cl_tenant cl) ty (f i) p x (h g2) j)))) (\<lambda>rec. reply 200 rec)) g2))"
    for ty f p x j and h :: "'a ingest \<Rightarrow> instant"
    by (rule maintains_bind, intro upkeep, rule maintains_atI, intro upkeep)
      (simp add: drill_report_def assms[OF Some])
  show ?thesis
    by (auto simp: Some replay_drill_handler_def Let_def maintains_def fail_def maintains_snd[OF rest]
      dest!: replay_app split: prod.split)
qed (simp add: replay_drill_handler_def maintains_fail)

end

section \<open>Requests\<close>

text \<open>The tenants a request names besides that of its caller: a registration names the tenant of the new
account, a compliance change the tenant of its query.\<close>

definition names :: "route \<Rightarrow> string set" where
  "names r = (case r of
       Public (Register u _ _) \<Rightarrow> {tenant_or_default u}
     | Ops (Update_Policy (Some q) _) \<Rightarrow> {q}
     | Ops (Key_Rotation (Some q)) \<Rightarrow> {q}
     | _ \<Rightarrow> {})"

lemma answer_snd: "snd (answer f p) = snd p"
  by (auto simp: answer_def split: prod.split sum.split)

context db_contract
begin

lemma in_app_keeps: "keeps I h \<Longrightarrow> I (ap_db (ig_app g)) \<Longrightarrow> I (ap_db (ig_app (snd (in_app f h g))))"
  using maintains_snd[OF maintains_via_app] by (simp add: in_app_def answer_snd)

lemma answer_keeps: "keeps_inner I h \<Longrightarrow> I (ap_db (ig_app g)) \<Longrightarrow> I (ap_db (ig_app (snd (answer f (h g)))))"
  using maintains_snd[of _ h g] by (simp add: answer_snd)

lemma socket_keeps: "keeps I h \<Longrightarrow> keeps I (socket h)"
  unfolding socket_def by (intro upkeep)

lemma dispatch_keeps:
  assumes "\<And>cl. cls = Some cl \<Longrightarrow> T (cl_tenant cl)" "\<forall>t \<in> names r. T t" "I (ap_db (ig_app g))"
  shows "I (ap_db (ig_app (snd (dispatch_route W cls r g))))"
proof -
  note own = rules_keep packs_keep create_case_keeps update_case_keeps cases_keep timeline_keeps run_playbook_keeps
    compliance_keeps cost_keeps listings_keep reports_keep chaos_keeps
  note step = dispatch_route_def in_app_keeps answer_keeps own[OF assms(1)] assms(3)
  have policies: "T (option_or (cl_tenant cl) q) \<and> T (cl_tenant cl)" if "cls = Some cl" "\<forall>t \<in> set_option q. T t" for cl q
    using assms(1)[OF that(1)] that(2) by (cases q) (simp_all add: option_or_def)
  show ?thesis
  proof (cases r)
    case (Public x)
    then show ?thesis using assms
      by (cases x) (simp_all add: step names_def handle_public_def register_keeps accounts_keep refresh_keeps sockets_keep
        health_keeps split_beta)
  next
    case (Logs x)
    then show ?thesis
      by (cases x) (simp_all add: step handle_logs_def accounts_keep dashboard_keeps socket_keeps sockets_keep
        answer_keeps[OF ingest_log_keeps] answer_keeps[OF ingest_batch_keeps])
  next
    case (Content x)
    then show ?thesis by (cases x) (simp_all add: step handle_content_def)
  next
    case (Cases_Of x)
    then show ?thesis by (cases x) (simp_all add: step handle_cases_def)
  next
    case (Ops x)
    then show ?thesis using assms(2)
      by (cases x) (auto simp: step names_def handle_ops_def overview_keeps intro!: in_app_keeps policies_keep policies
        answer_keeps[OF replay_keeps[OF assms(1)]] split: option.splits)
  qed
qed

lemma serve_keeps:
  assumes "\<And>cl. fst (authenticate W r S) = Some cl \<Longrightarrow> T (cl_tenant cl)" "\<forall>t \<in> names (in_route r). T t" "I (sv_db S)"
  shows "I (sv_db (snd (serve W r S)))"
  using dispatch_keeps[of None "in_route r" "sv_ingest S" W]
    dispatch_keeps[of "fst (authenticate W r S)" "in_route r" "sv_ingest S" W] assms
  by (auto simp: serve_def sv_db_def split: prod.splits option.splits)

lemma serve_all_keeps:
  assumes "\<forall>r \<in> set rs. (\<forall>S cl. fst (authenticate W r S) = Some cl \<longrightarrow> T (cl_tenant cl)) \<and> (\<forall>t \<in> names (in_route r). T t)"
    and "I (sv_db S)"
  shows "I (sv_db (snd (serve_all W rs S)))"
  using assms
proof (induction rs arbitrary: S)
  case (Cons r rs)
  have "I (sv_db (snd (serve W r S)))" by (rule serve_keeps) (use Cons.prems in auto)
  then show ?case using Cons by (simp add: split_beta)
qed simp

end

end
