(* ===== verification/Isolation.thy ===== *)
theory Isolation
  imports Upkeep
begin

text \<open>Tenants and requests.  \<open>tenant_rows t\<close> is what the database holds for the tenant \<open>t\<close>; the statements
of the handlers, run for another tenant, preserve it, and so do the requests of other tenants.\<close>

section \<open>The rows of a tenant\<close>

definition tenant_rows ::
  "string \<Rightarrow> db \<Rightarrow> (alert_row list \<times> user_row list \<times> detection_rule list \<times> audit_event list)
     \<times> (compliance_policy list \<times> reliability_report list)
     \<times> (playbook list \<times> case_record list \<times> alert_link list \<times> timeline_event list)" where
  "tenant_rows t d =
     ((filter (\<lambda>r. ar_tenant r = t) (db_alerts d), filter (\<lambda>r. u_tenant r = t) (db_users d),
       filter (\<lambda>r. dr_tenant r = t) (db_rules d), filter (\<lambda>r. ae_tenant r = t) (db_audit d)),
      (filter (\<lambda>r. cp_tenant r = t) (db_compliance d), filter (\<lambda>r. rr_tenant r = t) (db_reports d)),
      (filter (\<lambda>r. pb_tenant r = t) (db_playbooks d), filter (\<lambda>r. ca_tenant r = t) (db_cases d),
       filter (\<lambda>r. li_tenant r = t) (db_links d), filter (\<lambda>r. te_tenant r = t) (db_timeline d)))"

named_theorems apart \<open>statements for another tenant keep the rows of a tenant\<close>

lemma tenant_rows_calls [simp]: "tenant_rows t (d \<lparr> db_calls := n \<rparr>) = tenant_rows t d"
  by (simp add: tenant_rows_def)

lemma rows_stmt: "preserves (tenant_rows t) f \<Longrightarrow> preserves (tenant_rows t) (stmt f)"
  by (simp add: preserves_def stmt_def Let_def)

lemma rows_select [apart]: "preserves (tenant_rows t) (select f)"
  unfolding select_def by (rule rows_stmt) (rule frame)

lemma rows_execute: "(\<And>d. tenant_rows t (f d) = tenant_rows t d) \<Longrightarrow> preserves (tenant_rows t) (execute f)"
  unfolding execute_def by (rule rows_stmt) (simp add: preserves_def)

lemma rows_uuid [apart]: "preserves (tenant_rows t) fresh_uuid"
  by (simp add: preserves_def fresh_uuid_def tenant_rows_def)

lemma filter_map_other:
  "(\<And>x. x \<in> set xs \<Longrightarrow> P x \<Longrightarrow> g x = x) \<Longrightarrow> (\<And>x. x \<in> set xs \<Longrightarrow> \<not> P x \<Longrightarrow> \<not> P (g x)) \<Longrightarrow>
     filter P (map g xs) = filter P xs"
  by (induction xs) auto

section \<open>Statements\<close>

lemma rows_create_user [apart]: "u \<noteq> t \<Longrightarrow> preserves (tenant_rows t) (create_user u email h role)"
  unfolding create_user_def by (rule rows_stmt) (auto simp: preserves_def tenant_rows_def Let_def)

lemma rows_create_rule [apart]: "rc_tenant c \<noteq> t \<Longrightarrow> preserves (tenant_rows t) (create_rule c)"
  unfolding create_rule_def by (rule rows_stmt) (auto simp: preserves_def tenant_rows_def Let_def)

lemma rows_write_rule [apart]: "u \<noteq> t \<Longrightarrow> preserves (tenant_rows t) (write_rule u i m)"
  unfolding write_rule_def
  by (rule rows_stmt) (auto simp: preserves_def tenant_rows_def Let_def filter_map_other split: option.split)

lemma rows_update_rule [apart]: "u \<noteq> t \<Longrightarrow> preserves (tenant_rows t) (update_rule u i c)"
  unfolding update_rule_def get_rule_by_id_def by (intro frame apart)

lemma rows_delete_rule [apart]: "u \<noteq> t \<Longrightarrow> preserves (tenant_rows t) (delete_rule u i)"
  unfolding delete_rule_def by (rule rows_execute) (auto simp: tenant_rows_def intro!: filter_cong)

lemma rows_insert_audit [apart]: "ae_tenant e \<noteq> t \<Longrightarrow> preserves (tenant_rows t) (insert_audit_event e)"
  unfolding insert_audit_event_def by (rule rows_stmt) (auto simp: preserves_def tenant_rows_def)

lemma rows_list_audit [apart]: "preserves (tenant_rows t) (list_audit_events u n)"
  unfolding list_audit_events_def by (rule rows_stmt) (simp add: preserves_def)

lemma rows_recent_alerts [apart]: "preserves (tenant_rows t) (get_recent_alerts u n)"
  unfolding get_recent_alerts_def by (rule rows_stmt) (simp add: preserves_def)

lemma rows_upsert_compliance [apart]: "cp_tenant p \<noteq> t \<Longrightarrow> preserves (tenant_rows t) (upsert_compliance_policy p)"
  unfolding upsert_compliance_policy_def
  by (rule rows_stmt) (auto simp: preserves_def tenant_rows_def Let_def filter_map_other)

lemma rows_upsert_cost [apart]: "preserves (tenant_rows t) (upsert_cost_policy p)"
  unfolding upsert_cost_policy_def by (rule rows_stmt) (simp add: preserves_def tenant_rows_def Let_def)

lemma rows_insert_report [apart]: "rp_tenant p \<noteq> t \<Longrightarrow> preserves (tenant_rows t) (insert_reliability_report p)"
  unfolding insert_reliability_report_def by (rule rows_stmt) (simp add: preserves_def tenant_rows_def Let_def)

lemma rows_ensure_playbooks [apart]: "u \<noteq> t \<Longrightarrow> preserves (tenant_rows t) (ensure_default_playbooks u)"
  unfolding ensure_default_playbooks_def
  by (intro frame apart rows_execute) (simp add: tenant_rows_def)

lemma rows_list_playbooks [apart]: "u \<noteq> t \<Longrightarrow> preserves (tenant_rows t) (list_case_playbooks u)"
  unfolding list_case_playbooks_def by (intro frame apart)

lemma rows_record_event [apart]: "u \<noteq> t \<Longrightarrow> preserves (tenant_rows t) (record_case_event u i ty msg uid em m)"
  unfolding record_case_event_def by (rule rows_stmt) (simp add: preserves_def tenant_rows_def)

lemma rows_insert_case [apart]: "ca_tenant c \<noteq> t \<Longrightarrow> preserves (tenant_rows t) (insert_case c)"
  unfolding insert_case_def by (rule rows_stmt) (simp add: preserves_def tenant_rows_def)

lemma rows_insert_link [apart]: "u \<noteq> t \<Longrightarrow> preserves (tenant_rows t) (insert_link i a u)"
  unfolding insert_link_def by (rule rows_stmt) (simp add: preserves_def tenant_rows_def)

lemma rows_write_case [apart]: "u \<noteq> t \<Longrightarrow> preserves (tenant_rows t) (write_case u i m)"
  unfolding write_case_def
  by (rule rows_stmt) (auto simp: preserves_def tenant_rows_def Let_def filter_map_other split: option.split)

lemma rows_events: "u \<noteq> t \<Longrightarrow> tenant_rows t (ignore (record_case_event u i ty msg uid em m) d) = tenant_rows t d"
  by (rule preserves_ignore) (rule apart)

lemma rows_update_case [apart]: "u \<noteq> t \<Longrightarrow> preserves (tenant_rows t) (update_case u i ch)"
proof -
  assume u: "u \<noteq> t"
  have "preserves (tenant_rows t) (\<lambda>d. write_case u i (merged_case ch (db_now d) c) d)" for c
    using u by (simp add: preserves_def preserves_snd[OF rows_write_case])
  then show ?thesis
    unfolding update_case_def get_case_by_id_def
    by (intro preserves_bind preserves_option frame rows_select) (simp_all add: preserves_def Let_def rows_events u)
qed

lemma rows_announce: "a_tenant a \<noteq> t \<Longrightarrow> tenant_rows t (announce_case sh a uid em pb i c d) = tenant_rows t d"
  by (simp add: announce_case_def Let_def rows_events split: option.split)

lemma rows_open_case [apart]:
  "a_tenant a \<noteq> t \<Longrightarrow> preserves (tenant_rows t) (open_case sh a uid em title summ pb)"
proof -
  assume a: "a_tenant a \<noteq> t"
  then have "preserves (tenant_rows t) (\<lambda>d. insert_case (new_case a uid em title summ pb i (db_now d)) d)" for i
    by (simp add: preserves_def preserves_snd[OF rows_insert_case] new_case_def split: option.split)
  then show ?thesis
    unfolding open_case_def
    by (intro preserves_bind rows_uuid rows_insert_link) (simp_all add: preserves_def rows_announce a)
qed

lemma rows_create_case [apart]:
  "a_tenant a \<noteq> t \<Longrightarrow> preserves (tenant_rows t) (create_case_from_alert sh a uid em title summ pid)"
  unfolding create_case_from_alert_def get_case_by_alert_id_def choose_playbook_def get_case_playbook_def
  by (intro frame apart) auto

section \<open>Requests of other tenants\<close>

interpretation other: db_contract "\<lambda>d. tenant_rows t d = rows" "\<lambda>u. u \<noteq> t" for t rows
proof
  note view = maintains_view[where v = "tenant_rows t" and P = "\<lambda>x. x = rows"]
  show "tenant_rows t (d \<lparr> db_next := db_next d + 1 \<rparr>) = rows" if "tenant_rows t d = rows" for d
    using that by (simp add: tenant_rows_def)
  show "tenant_rows t (snd (insert_audit_event e (d \<lparr> db_next := db_next d + 1 \<rparr>))) = rows"
    if "ae_tenant e \<noteq> t" "ae_id e = db_next d" "tenant_rows t d = rows" for e d
    using that(3) by (subst preserves_snd[OF rows_insert_audit[OF that(1)]]) (simp add: tenant_rows_def)
  show "tenant_rows t (snd (record_case_event u i ty msg uid em m d)) = rows"
    if "u \<noteq> t" "has_case u i d" "tenant_rows t d = rows" for u i d ty msg uid em m
    using that(3) by (simp add: preserves_snd[OF rows_record_event[OF that(1)]])
qed (auto intro!: maintains_view[where v = "tenant_rows t" and P = "\<lambda>x. x = rows"] apart)

end
