(* ===== verification/Statuses.thy ===== *)
theory Statuses
  imports Isolation
begin

text \<open>The statuses of the replies: which ones there are, and that a request refused with a status below
500 leaves every table of the database as it was.\<close>

section \<open>The statuses of a handler\<close>

definition statuses :: "nat set \<Rightarrow> (nat, nat \<times> 'a, 's) eff \<Rightarrow> bool" where
  "statuses C m \<longleftrightarrow> (\<forall>s. case fst (m s) of Inl c \<Rightarrow> c \<in> C | Inr (c, _) \<Rightarrow> c \<in> C)"

named_theorems replying \<open>introduction rules of statuses\<close>

definition served :: "nat set" where
  "served = {101, 200, 201, 202, 204, 400, 401, 403, 404, 409, 429, 500, 503}"

lemma served_simps [simp]:
  "101 \<in> served" "200 \<in> served" "201 \<in> served" "202 \<in> served" "204 \<in> served" "400 \<in> served" "401 \<in> served"
  "403 \<in> served" "404 \<in> served" "409 \<in> served" "429 \<in> served" "500 \<in> served" "503 \<in> served"
  by (simp_all add: served_def)

lemma statuses_reply [replying]: "c \<in> C \<Longrightarrow> statuses C (reply c x)"
  by (simp add: statuses_def reply_def ok_def)

lemma statuses_reply_after [replying]: "c \<in> C \<Longrightarrow> statuses C (\<lambda>s. reply c x (f s))"
  by (simp add: statuses_def reply_def ok_def)

lemma statuses_reply_at [replying]: "c \<in> C \<Longrightarrow> statuses C (\<lambda>s. reply c (f s) s)"
  by (simp add: statuses_def reply_def ok_def)

lemma statuses_fail [replying]: "c \<in> C \<Longrightarrow> statuses C (fail c)"
  by (simp add: statuses_def fail_def)

lemma statuses_bind [replying]: "refuses C m \<Longrightarrow> (\<And>x. statuses C (f x)) \<Longrightarrow> statuses C (bind_ok m f)"
proof -
  assume m: "refuses C m" and f: "\<And>x. statuses C (f x)"
  have "case fst (bind_ok m f s) of Inl c \<Rightarrow> c \<in> C | Inr (c, _) \<Rightarrow> c \<in> C" for s
  proof (cases "m s")
    case (Pair r s')
    show ?thesis
    proof (cases r)
      case (Inl e)
      have "e \<in> C" using m Pair Inl unfolding refuses_def by (metis fst_conv)
      then show ?thesis by (simp add: bind_ok_def Pair Inl)
    next
      case (Inr x)
      then show ?thesis using f[of x] by (simp add: bind_ok_def Pair statuses_def)
    qed
  qed
  then show ?thesis by (simp add: statuses_def)
qed

lemma statuses_claims [replying]: "401 \<in> C \<Longrightarrow> (\<And>cl. statuses C (f cl)) \<Longrightarrow> statuses C (with_claims cls f)"
  by (cases cls) (auto simp: statuses_def with_claims_def fail_def)

lemma statuses_option [replying]:
  "statuses C m \<Longrightarrow> (\<And>x. statuses C (f x)) \<Longrightarrow> statuses C (case o' of None \<Rightarrow> m | Some x \<Rightarrow> f x)"
  by (cases o') auto

lemma statuses_sum [replying]:
  "(\<And>e. statuses C (f e)) \<Longrightarrow> (\<And>x. statuses C (g x)) \<Longrightarrow> statuses C (case r of Inl e \<Rightarrow> f e | Inr x \<Rightarrow> g x)"
  by (cases r) auto

lemma statuses_if [replying]: "statuses C m \<Longrightarrow> statuses C m' \<Longrightarrow> statuses C (if b then m else m')"
  by simp

lemma statuses_at: "(\<And>s0. statuses C (m s0)) \<Longrightarrow> statuses C (\<lambda>s. m s s)"
  by (simp add: statuses_def)

lemma statuses_match: "(\<And>r. statuses C (f r)) \<Longrightarrow> statuses C (\<lambda>s. case m s of (r, s') \<Rightarrow> f r s')"
  by (simp add: statuses_def split: prod.split)

lemma statuses_match_at:
  "(\<And>r s0 s1. statuses C (f r s0 s1)) \<Longrightarrow> statuses C (\<lambda>s. case m s of (r, s') \<Rightarrow> f r s s' s')"
  by (simp add: statuses_def split: prod.split)

lemma refuses_match: "(\<And>r. refuses C (f r)) \<Longrightarrow> refuses C (\<lambda>s. case m s of (r, s') \<Rightarrow> f r s')"
  by (simp add: refuses_def split: prod.split)

lemma statuses_done: "c \<in> C \<Longrightarrow> statuses C (\<lambda>s. (Inr (c, x), f s))"
  by (simp add: statuses_def)

lemma statuses_ite: "statuses C m \<Longrightarrow> statuses C m' \<Longrightarrow> statuses C (\<lambda>s. if b then m s else m' s)"
  by (cases b) simp_all

lemma refuses_ite: "refuses C m \<Longrightarrow> refuses C m' \<Longrightarrow> refuses C (\<lambda>s. if b then m s else m' s)"
  by (cases b) simp_all

lemma refuses_done: "refuses C (\<lambda>s. (Inr x, f s))"
  by (simp add: refuses_def)

lemma statuses_pre: "statuses C m \<Longrightarrow> statuses C (\<lambda>s. m (f s))"
  by (simp add: statuses_def)

lemma refuses_late: "(\<And>s0. refuses C (m s0)) \<Longrightarrow> refuses C (\<lambda>s. m s (f s))"
  by (simp add: refuses_def)

lemma statuses_via_app [replying]: "statuses C m \<Longrightarrow> statuses C (via_app m)"
  by (auto simp: statuses_def via_app_def split: prod.split) (metis fst_conv)

lemma refuses_via_app [refusal]: "refuses C m \<Longrightarrow> refuses C (via_app m)"
  by (auto simp: refuses_def via_app_def split: prod.splits) (metis fst_conv)

lemma refuses_of_option [refusal]: "c \<in> C \<Longrightarrow> refuses C (of_option c x)"
  by (cases x) (simp_all add: of_option_def refuses_def fail_def ok_def)

lemma refuses_recode [refusal]: "c \<in> C \<Longrightarrow> refuses C (recode c m)"
  by (auto simp: refuses_def recode_def split: prod.split sum.split)

lemma refuses_attempts [refusal]: "429 \<in> C \<Longrightarrow> 500 \<in> C \<Longrightarrow> refuses C (attempt_window E key n)"
  unfolding attempt_window_def by (intro refusal)

lemma refuses_at_status [refusal]: "c \<in> C \<Longrightarrow> refuses C (\<lambda>s. or_status c (f s) s)"
  by (auto simp: refuses_def or_status_def split: prod.split sum.split)

lemma refuses_write_audit: "500 \<in> C \<Longrightarrow> refuses C (write_audit E cl act rty rid target meta prev)"
  unfolding write_audit_def Let_def
  by (intro refusal)

lemma refuses_audit [refusal]: "500 \<in> C \<Longrightarrow> refuses C (record_audit E cl act rty rid target meta)"
  unfolding record_audit_def by (intro refusal refuses_write_audit)

lemma refuses_issue_pair [refusal]: "500 \<in> C \<Longrightarrow> refuses C (issue_pair E X u)"
  unfolding issue_pair_def Let_def by (rule refuses_late[where f = "\<lambda>s. s"]) (intro refusal)

lemma refuses_pack_rules [refusal]: "500 \<in> C \<Longrightarrow> refuses C (ensure_pack_rules t p)"
  unfolding ensure_pack_rules_def install_template_def by (intro refusal)

lemma refuses_enqueue [refusal]: "503 \<in> C \<Longrightarrow> refuses C (enqueue_ingest_log l)"
  by (simp add: refuses_def enqueue_ingest_log_def Let_def split: slow_result.split)

lemma refuses_socket_token [refusal]: "401 \<in> C \<Longrightarrow> refuses C (consume_ws_token E cl)"
  unfolding consume_ws_token_def by (intro refusal)

lemma refuses_build [refusal]: "500 \<in> C \<Longrightarrow> refuses C (or_status 500 m)"
  by (rule refuses_or_status)

section \<open>Every handler\<close>

lemma statuses_rules:
  "statuses served (list_rules_handler E cls)" "statuses served (get_rule_handler E cls i)"
  "statuses served (create_rule_handler E cls b)" "statuses served (update_rule_handler E cls i u)"
  "statuses served (delete_rule_handler E cls i)" "statuses served (toggle_rule_handler E cls i)"
  "statuses served (list_detection_packs E cls)" "statuses served (get_detection_pack E cls slug)"
  "statuses served (install_detection_pack E cls slug)"
  unfolding list_rules_handler_def get_rule_handler_def create_rule_handler_def update_rule_handler_def
    delete_rule_handler_def toggle_rule_handler_def rule_guard_def list_detection_packs_def get_detection_pack_def
    install_detection_pack_def record_audits
  by (intro replying refusal; simp)+

lemma statuses_update_case: "statuses served (update_case_handler E cls i b)"
  unfolding update_case_handler_def case_guard_def
  by (intro replying refusal; (simp add: statuses_def reply_def ok_def split: prod.split sum.split error.split)?)

lemma statuses_cases:
  "statuses served (list_cases_handler E cls)" "statuses served (get_case_handler E cls i)"
  "statuses served (list_playbooks_handler E cls)" "statuses served (create_case_handler E cls b)"
  "statuses served (add_timeline_handler E cls i ty msg m)" "statuses served (run_playbook_handler E cls i p)"
  unfolding list_cases_handler_def get_case_handler_def list_playbooks_handler_def create_case_handler_def
    add_timeline_handler_def run_playbook_handler_def case_guard_def record_audits Let_def
  by (intro replying refusal; simp)+

lemma statuses_compliance:
  "statuses served (get_policy_handler E cls q)" "statuses served (update_policy_handler E cls q u)"
  "statuses served (key_rotation_handler E cls q)" "statuses served (access_review_handler E cls q)"
  "statuses served (evidence_handler E cls q)"
  unfolding get_policy_handler_def update_policy_handler_def key_rotation_handler_def access_review_handler_def
    evidence_handler_def save_policy_def admin_guard_def record_audits Let_def
  by (intro replying refusal; simp)+

lemma statuses_cost:
  "statuses served (get_cost_policy_handler E K cls)" "statuses served (update_cost_policy_handler E K cls u)"
  "statuses served (cost_dashboard_handler E K cls)"
  unfolding get_cost_policy_handler_def update_cost_policy_handler_def cost_dashboard_handler_def record_cost_audit_def
  by (intro replying refusal; simp)+

lemma statuses_stats_from_db: "statuses served (stats_from_db E u)"
  unfolding stats_from_db_def
  by (intro replying refusal; simp add: statuses_def reply_def ok_def split: prod.split)

lemma statuses_dashboard: "statuses served (dashboard_stats_handler E cls)"
proof -
  have "statuses served (\<lambda>s. case (a, b, c, d) of
      (Some w, Some x, Some y, Some z) \<Rightarrow> reply 200 (r w x y z) s | _ \<Rightarrow> stats_from_db E t s)" for a b c d r t
    using statuses_stats_from_db
    by (cases a; cases b; cases c; cases d) (simp_all add: statuses_reply)
  then show ?thesis unfolding dashboard_stats_handler_def
    by (intro statuses_claims statuses_bind refusal statuses_match; simp)
qed

lemma statuses_accounts:
  "statuses served (login E X u email pw)" "statuses served (logout E X tok)" "statuses served (me E X cls)"
  "statuses served (list_alerts_handler E cls)" "statuses served (list_audit_handler E cls q n)"
  "statuses served (recent_logs E search cls)"
  unfolding login_def logout_def me_def list_alerts_handler_def list_audit_handler_def recent_logs_def record_audits Let_def
  by (intro replying refusal; simp)+

lemma statuses_register: "statuses served (register E X u email pw)"
  unfolding register_def Let_def
  by (intro replying refusal; (simp add: statuses_def reply_def ok_def fail_def split: prod.split sum.split error.split)?)

lemma statuses_refresh: "statuses served (refresh E X u tok)"
proof -
  have "statuses served (\<lambda>s. bind_ok (issue_pair E X w) (\<lambda>p. reply 200 p) (f s))" for w f
    by (rule statuses_pre, intro statuses_bind statuses_reply refusal; simp)
  then show ?thesis unfolding refresh_def Let_def
    by (intro statuses_bind refusal; simp)
qed

lemma statuses_ws_token: "statuses served (ws_token E X cls)"
  unfolding ws_token_def Let_def
  by (rule statuses_claims, simp, rule statuses_bind, intro refusal, simp, rule statuses_at)
    (intro statuses_bind statuses_reply refusal; simp)

lemma statuses_ws_alerts: "statuses served (socket (ws_alerts_open E cls))"
proof -
  have "refuses served (ws_alerts_open E cls)"
    unfolding ws_alerts_open_def by (intro refusal; simp)
  then show ?thesis unfolding socket_def by (intro statuses_bind statuses_reply; simp)
qed

lemma statuses_reliability:
  "statuses served (overview_handler E R cls)" "statuses served (list_reports_handler cls)"
  "statuses served (create_report_handler cls b)"
  unfolding overview_handler_def list_reports_handler_def create_report_handler_def analyst_only_def
  by (intro replying refusal; simp)+

lemma statuses_chaos: "statuses served (chaos_drill_handler E P cls)"
  unfolding chaos_drill_handler_def analyst_only_def Let_def
  by (rule statuses_claims, simp, rule statuses_bind, intro refusal, simp, rule statuses_match_at)
    (intro statuses_bind statuses_reply refusal; simp)

lemma statuses_replay: "statuses served (replay_drill_handler E R search cls)"
proof (cases cls)
  case (Some cl)
  show ?thesis unfolding Some replay_drill_handler_def option.case Let_def
    by (rule statuses_if, rule statuses_fail, simp, rule statuses_match_at, rule statuses_bind, intro refusal, simp)
      (intro statuses_via_app statuses_bind statuses_reply refusal; simp)
qed (simp add: replay_drill_handler_def statuses_fail)

lemma statuses_ingest_log: "statuses served (ingest_log E K cls q)"
proof (cases cls)
  case (Some cl)
  have "statuses served (bind_ok (enqueue_ingest_log l) (\<lambda>_ g2. (Inr (202, x), f g2)))" for l x f
    by (rule statuses_bind, intro refusal, simp, rule statuses_done) simp
  note kept = this
  have gate: "statuses served (\<lambda>g. case cost_gate E K u q g of (d, g1) \<Rightarrow>
      if \<not> kd_keep d then (Inr (202, r d), g1)
      else bind_ok (enqueue_ingest_log (l d)) (\<lambda>_ g2. (Inr (202, x d), f d g2)) g1)" for u r l x f
    by (intro statuses_match statuses_ite statuses_done kept) simp
  show ?thesis unfolding Some ingest_log_def option.case Let_def
    by (rule statuses_bind, intro refusal, simp, rule statuses_at, rule statuses_bind, intro refusal, simp, simp) (rule gate)
qed (simp add: ingest_log_def statuses_fail)

lemma refuses_ingest_item: "refuses served (ingest_item E K u now q)"
  unfolding ingest_item_def
  by (rule refuses_bind, intro refusal, simp, intro refuses_match refuses_ite refuses_done)
    (intro refusal; simp)

lemma refuses_ingest_items: "refuses served (ingest_items E K u now qs)"
  by (induction qs) (simp_all add: refuses_ok refuses_bind refuses_ingest_item)

lemma statuses_ingest_batch: "statuses served (ingest_batch E K cls qs)"
proof (cases cls)
  case (Some cl)
  show ?thesis unfolding Some ingest_batch_def option.case
    by (rule statuses_bind, intro refusal, simp, simp, rule statuses_at, rule statuses_bind[OF refuses_ingest_items])
      (simp add: statuses_def)
qed (simp add: ingest_batch_def statuses_fail)

section \<open>Every request\<close>

lemma in_app_status: "statuses C h \<Longrightarrow> fst (fst (in_app f h g)) \<in> C"
proof -
  assume "statuses C h"
  then have "statuses C (via_app h)" by (rule statuses_via_app)
  then show ?thesis
    by (cases "via_app h g") (auto simp: in_app_def answer_def statuses_def split: sum.splits dest!: spec[of _ g])
qed

lemma answer_status: "statuses C h \<Longrightarrow> fst (fst (answer f (h g))) \<in> C"
  by (cases "h g") (auto simp: answer_def statuses_def split: sum.splits dest!: spec[of _ g])

lemma dispatch_status: "fst (fst (dispatch_route W cls r g)) \<in> served"
proof (cases r)
  case (Public x)
  then show ?thesis
    by (cases x) (simp_all add: dispatch_route_def handle_public_def in_app_status statuses_accounts statuses_register
      statuses_refresh statuses_ws_token split_beta)
next
  case (Logs x)
  then show ?thesis
    by (cases x) (simp_all add: dispatch_route_def handle_logs_def in_app_status statuses_accounts statuses_compliance
      statuses_dashboard statuses_ws_alerts answer_status[OF statuses_ingest_log] answer_status[OF statuses_ingest_batch])
next
  case (Content x)
  then show ?thesis
    by (cases x) (simp_all add: dispatch_route_def handle_content_def in_app_status statuses_rules statuses_cost)
next
  case (Cases_Of x)
  then show ?thesis
    by (cases x) (simp_all add: dispatch_route_def handle_cases_def in_app_status statuses_update_case statuses_cases)
next
  case (Ops x)
  then show ?thesis
    by (cases x) (simp_all add: dispatch_route_def handle_ops_def in_app_status statuses_compliance statuses_reliability
      statuses_chaos answer_status[OF statuses_replay])
qed

end
