(* ===== verification/Refusals.thy ===== *)
theory Refusals
  imports Statuses
begin

text \<open>A request that is answered with a status from 400 to 499 leaves every table of the database as it
was: the guards and lookups of a handler come before its writes, and a failing write is answered 500.\<close>

section \<open>Tables\<close>

text \<open>The database without the counters of statements and of fresh ids.\<close>

definition tables :: "db \<Rightarrow> db" where
  "tables d = d \<lparr> db_calls := 0, db_next := 0 \<rparr>"

lemma tables_simps [simp]: "tables (d \<lparr> db_calls := n \<rparr>) = tables d" "tables (d \<lparr> db_next := n \<rparr>) = tables d"
  by (simp_all add: tables_def)

named_theorems table_reads \<open>operations that keep the tables\<close>

lemma preserves_recode [frame]: "preserves v m \<Longrightarrow> preserves v (recode c m)"
  by (auto simp: preserves_def recode_def split: prod.split sum.split) (metis snd_conv)+

lemma tables_stmt: "preserves tables f \<Longrightarrow> preserves tables (stmt f)"
  by (simp add: preserves_def stmt_def Let_def)

lemma tables_select [table_reads]: "preserves tables (select f)"
  unfolding select_def by (rule tables_stmt) (rule frame)

lemma tables_uuid [table_reads]: "preserves tables fresh_uuid"
  by (simp add: preserves_def fresh_uuid_def)

lemma tables_list_audit [table_reads]: "preserves tables (list_audit_events u n)"
  unfolding list_audit_events_def by (rule tables_stmt) (simp add: preserves_def)

lemma tables_recent_alerts [table_reads]: "preserves tables (get_recent_alerts u n)"
  unfolding get_recent_alerts_def by (rule tables_stmt) (simp add: preserves_def)

abbreviation keeps_tables :: "('e, 'a, 's app) eff \<Rightarrow> bool" where
  "keeps_tables \<equiv> preserves (\<lambda>s. tables (ap_db s))"

section \<open>Tidy handlers\<close>

definition status_of :: "nat + nat \<times> 'a \<Rightarrow> nat" where
  "status_of r = (case r of Inl c \<Rightarrow> c | Inr (c, _) \<Rightarrow> c)"

definition tidy :: "('s \<Rightarrow> 'v) \<Rightarrow> (nat, nat \<times> 'a, 's) eff \<Rightarrow> bool" where
  "tidy v m \<longleftrightarrow> (\<forall>s. status_of (fst (m s)) \<in> {400..<500} \<longrightarrow> v (snd (m s)) = v s)"

definition late :: "nat set" where
  "late = - {400..<500}"

lemma late_simps [simp]:
  "101 \<in> late" "200 \<in> late" "201 \<in> late" "202 \<in> late" "204 \<in> late" "500 \<in> late" "503 \<in> late"
  by (simp_all add: late_def)

named_theorems tidying \<open>introduction rules of tidy, up to the first write\<close>

lemma tidy_late: "statuses late m \<Longrightarrow> tidy v m"
proof -
  assume m: "statuses late m"
  have "status_of (fst (m s)) \<in> late" for s
    using m by (auto simp: statuses_def status_of_def split: sum.splits prod.splits dest!: spec[of _ s])
  then show ?thesis by (auto simp: tidy_def late_def)
qed

lemma tidy_preserves: "preserves v m \<Longrightarrow> tidy v m"
  by (simp add: tidy_def preserves_def)

lemma tidy_read: "preserves v m \<Longrightarrow> (\<And>x. tidy v (f x)) \<Longrightarrow> tidy v (bind_ok m f)"
proof -
  assume m: "preserves v m" and f: "\<And>x. tidy v (f x)"
  have "status_of (fst (bind_ok m f s)) \<in> {400..<500} \<Longrightarrow> v (snd (bind_ok m f s)) = v s" for s
  proof (cases "m s")
    case (Pair r s')
    have same: "v s' = v s" using preservesD[OF m Pair] .
    assume "status_of (fst (bind_ok m f s)) \<in> {400..<500}"
    then show ?thesis using same f unfolding tidy_def
      by (cases r) (auto simp: bind_ok_def Pair)
  qed
  then show ?thesis by (simp add: tidy_def)
qed

lemma tidy_claims [tidying]: "(\<And>cl. tidy v (f cl)) \<Longrightarrow> tidy v (with_claims cls f)"
  by (cases cls) (auto simp: tidy_def with_claims_def fail_def)

lemma tidy_require [tidying]: "(\<And>x. tidy v (f x)) \<Longrightarrow> tidy v (bind_ok (require c b) f)"
  by (rule tidy_read) (rule frame)

lemma tidy_quota [tidying]:
  "(\<And>x. tidy (\<lambda>s. v (ap_db s)) (f x)) \<Longrightarrow>
     tidy (\<lambda>s. v (ap_db s)) (bind_ok (enforce_tenant_fixed_window E t res n c) f)"
  by (rule tidy_read) (rule frame)

lemma tidy_select [tidying]:
  "(\<And>x. tidy (\<lambda>s. tables (ap_db s)) (f x)) \<Longrightarrow>
     tidy (\<lambda>s. tables (ap_db s)) (bind_ok (or_status c (via_db (select g))) f)"
  by (rule tidy_read) (intro frame table_reads)

lemma tidy_found [tidying]:
  "(\<And>x. tidy (\<lambda>s. tables (ap_db s)) (f x)) \<Longrightarrow>
     tidy (\<lambda>s. tables (ap_db s)) (bind_ok (found (or_status c (via_db (select g)))) f)"
  by (rule tidy_read) (intro frame table_reads)

lemma tidy_reply [tidying]: "tidy v (reply c x)"
  by (rule tidy_preserves) (rule frame)

lemma tidy_fail [tidying]: "tidy v (fail c)"
  by (rule tidy_preserves) (rule frame)

lemma tidy_option [tidying]:
  "tidy v m \<Longrightarrow> (\<And>x. tidy v (f x)) \<Longrightarrow> tidy v (case o' of None \<Rightarrow> m | Some x \<Rightarrow> f x)"
  by (cases o') auto

abbreviation tidy_app :: "(nat, nat \<times> 'a, 's app) eff \<Rightarrow> bool" where
  "tidy_app \<equiv> tidy (\<lambda>s. tables (ap_db s))"

section \<open>Every handler\<close>

lemma tidy_rules:
  "tidy_app (list_rules_handler E cls)" "tidy_app (get_rule_handler E cls i)" "tidy_app (create_rule_handler E cls b)"
  "tidy_app (update_rule_handler E cls i u)" "tidy_app (delete_rule_handler E cls i)"
  "tidy_app (toggle_rule_handler E cls i)"
  unfolding list_rules_handler_def get_rule_handler_def create_rule_handler_def update_rule_handler_def
    delete_rule_handler_def toggle_rule_handler_def rule_guard_def record_audits get_all_rules_def get_rule_by_id_def
  by (intro tidying; rule tidy_late, intro replying refusal; simp)+

lemma tidy_packs:
  "tidy_app (list_detection_packs E cls)" "tidy_app (get_detection_pack E cls slug)"
  "tidy_app (install_detection_pack E cls slug)"
  unfolding list_detection_packs_def get_detection_pack_def install_detection_pack_def record_audits get_all_rules_def
  by (intro tidying; rule tidy_late, intro replying refusal; simp)+

lemma tidy_cases:
  "tidy_app (list_cases_handler E cls)" "tidy_app (list_playbooks_handler E cls)"
  "tidy_app (create_case_handler E cls b)" "tidy_app (add_timeline_handler E cls i ty msg m)"
  unfolding list_cases_handler_def list_playbooks_handler_def create_case_handler_def
    add_timeline_handler_def case_guard_def record_audits Let_def list_cases_def get_alert_def get_case_by_id_def
  by (intro tidying; rule tidy_late, intro replying refusal; simp)+

lemma tables_case_detail: "preserves tables (get_case_detail u i)"
  unfolding get_case_detail_def get_case_by_id_def list_case_alert_ids_def list_case_timeline_def get_case_playbook_def
  by (intro frame table_reads)

lemma tidy_get_case: "tidy_app (get_case_handler E cls i)"
  unfolding get_case_handler_def case_guard_def
  by (intro tidying tidy_read[OF preserves_found] frame tables_case_detail)

text \<open>An update that does not find its case writes nothing.\<close>

lemma update_missing_tables: "update_case u i ch d = (Inl Invalid_Input, d') \<Longrightarrow> tables d' = tables d"
proof -
  assume u: "update_case u i ch d = (Inl Invalid_Input, d')"
  show "tables d' = tables d"
  proof (cases "get_case_by_id u i d")
    case (Pair r d1)
    have same: "tables d1 = tables d"
      using preserves_snd[of tables "get_case_by_id u i" d] tables_select Pair by (metis get_case_by_id_def snd_conv)
    consider e where "r = Inl e" | "r = Inr None" | c where "r = Inr (Some c)" by (cases r) auto
    then show ?thesis
    proof cases
      case 3
      have "fst (write_case u i m d1) \<noteq> Inl Invalid_Input" for m
        by (simp add: write_case_def stmt_def Let_def split: option.split)
      then have "fst (update_case u i ch d) \<noteq> Inl Invalid_Input"
        by (auto simp: update_case_def bind_ok_def Pair 3 Let_def split: prod.split sum.split) (metis fst_conv)
      then show ?thesis using u by simp
    qed (use u same in \<open>auto simp: update_case_def bind_ok_def Pair fail_def\<close>)
  qed
qed

lemma tidy_update_case: "tidy_app (update_case_handler E cls i b)"
proof -
  have "tidy_app (\<lambda>s. case via_db (update_case u i ch) s of
         (Inl Invalid_Input, s') \<Rightarrow> (Inl 404, s')
       | (Inl _, s') \<Rightarrow> (Inl 500, s')
       | (Inr c, s') \<Rightarrow> reply 200 c (f c s'))" for u ch f
    unfolding tidy_def
    by (auto simp: status_of_def via_db_def reply_def ok_def update_missing_tables
        split: prod.split sum.split error.split)
  then show ?thesis unfolding update_case_handler_def case_guard_def by (intro tidying)
qed

lemma tidy_run_playbook: "tidy_app (run_playbook_handler E cls i p)"
proof -
  have "keeps_tables (case q of None \<Rightarrow> fail 400 | Some x \<Rightarrow> found (or_status 500 (via_db (get_case_playbook u x))))" for q u
    unfolding get_case_playbook_def by (intro frame table_reads)
  note choose = tidy_read[OF this]
  show ?thesis unfolding run_playbook_handler_def case_guard_def get_case_by_id_def
    by (intro tidying choose; rule tidy_late, intro replying; simp)
qed

lemma tidy_compliance:
  "tidy_app (get_policy_handler E cls q)" "tidy_app (update_policy_handler E cls q u)"
  "tidy_app (key_rotation_handler E cls q)" "tidy_app (access_review_handler E cls q)"
  "tidy_app (evidence_handler E cls q)"
  unfolding get_policy_handler_def update_policy_handler_def key_rotation_handler_def access_review_handler_def
    evidence_handler_def save_policy_def admin_guard_def record_audits Let_def get_compliance_policy_def
    list_users_by_tenant_def
  by (intro tidying; rule tidy_late, intro replying refusal; simp)+

lemma tidy_cost:
  "tidy_app (get_cost_policy_handler E K cls)" "tidy_app (update_cost_policy_handler E K cls u)"
  "tidy_app (cost_dashboard_handler E K cls)"
  unfolding get_cost_policy_handler_def update_cost_policy_handler_def cost_dashboard_handler_def record_cost_audit_def
  by (intro tidying; rule tidy_late, intro replying refusal; simp)+

lemma tidy_dashboard: "tidy_app (dashboard_stats_handler E cls)"
proof -
  have st: "statuses late (stats_from_db E u)" for u
    unfolding stats_from_db_def
    by (intro replying refusal; simp add: statuses_def reply_def ok_def split: prod.split)
  have "statuses late (\<lambda>s. case (a, b, c, d) of
      (Some w, Some x, Some y, Some z) \<Rightarrow> reply 200 (r w x y z) s | _ \<Rightarrow> stats_from_db E t s)" for a b c d r t
    using st by (cases a; cases b; cases c; cases d) (simp_all add: statuses_reply)
  then show ?thesis unfolding dashboard_stats_handler_def
    by (intro tidying; intro tidy_late statuses_match)
qed

lemma tidy_listings:
  "tidy_app (list_alerts_handler E cls)" "tidy_app (list_audit_handler E cls q n)" "tidy_app (recent_logs E search cls)"
  unfolding list_alerts_handler_def list_audit_handler_def recent_logs_def record_audits Let_def
  by (intro tidying; (rule tidy_late | simp add: tidy_fail tidy_reply split: sum.split); intro replying refusal; simp)+

text \<open>A taken address is refused before the insertion.\<close>

lemma tidy_register: "tidy_app (register E X u email pw)"
proof -
  have tables_conflict: "tables d' = tables d" if "create_user w em h role d = (Inl Db_Conflict, d')" for w em h role d d'
    using that by (auto simp: create_user_def stmt_def Let_def split: if_splits)
  have created: "tidy_app (\<lambda>s. case via_db (create_user w em h role) s of
          (Inr u, s') \<Rightarrow> reply 201 (user_response_of u) s' | (Inl Db_Conflict, s') \<Rightarrow> fail 409 s' | (Inl _, s') \<Rightarrow> fail 500 s')" for w em h role
    unfolding tidy_def
    by (auto simp: status_of_def via_db_def reply_def ok_def fail_def tables_conflict split: prod.split sum.split error.split)
  note uuid = tidy_read[OF preserves_or_status[OF preserves_via_db[OF tables_uuid]]]
  have attempts: "keeps_tables (attempt_window E key n)" for key n
    unfolding attempt_window_def by (intro frame)
  show ?thesis unfolding register_def Let_def get_user_by_email_def of_option_def
    by (intro tidying tidy_read[OF attempts] uuid tidy_read[OF preserves_option] frame created)
qed

lemma keeps_tables_pair: "keeps_tables (issue_pair E X u)"
  unfolding preserves_def issue_pair_def Let_def of_option_def
  by (rule allI, rule preserves_snd) (intro frame table_reads)

lemma keeps_tables_login: "keeps_tables (login E X u email pw)"
  unfolding login_def Let_def get_user_by_email_def attempt_window_def of_option_def
  by (intro frame table_reads keeps_tables_pair)

lemma keeps_tables_refresh: "keeps_tables (refresh E X u tok)"
proof -
  have "keeps_tables (\<lambda>s. bind_ok (issue_pair E X w) (\<lambda>p. reply 200 p) (ignore (via_cache m) s))" for w m
    unfolding preserves_def
    by (rule allI, subst preserves_snd[OF preserves_bind[OF keeps_tables_pair preserves_reply]]) simp
  then show ?thesis unfolding refresh_def Let_def get_user_by_id_def of_option_def by (intro frame table_reads)
qed

lemma keeps_tables_logout: "keeps_tables (logout E X tok)"
  unfolding logout_def by (intro frame)

lemma keeps_tables_me: "keeps_tables (me E X cls)"
  unfolding me_def get_user_by_id_def of_option_def by (intro frame table_reads)

lemma keeps_tables_ws: "keeps_tables (ws_token E X cls)" "keeps_tables (socket (ws_alerts_open E cls))"
proof -
  show "keeps_tables (ws_token E X cls)"
    unfolding ws_token_def Let_def of_option_def
    by (rule preserves_claims, rule preserves_bind, intro frame table_reads, rule preserves_atI, rule preserves_snd)
      (intro frame)
  show "keeps_tables (socket (ws_alerts_open E cls))"
    unfolding socket_def ws_alerts_open_def consume_ws_token_def of_option_def by (intro frame)
qed

lemma tidy_reliability:
  "tidy_app (overview_handler E R cls)" "tidy_app (list_reports_handler cls)" "tidy_app (create_report_handler cls b)"
  "tidy_app (chaos_drill_handler E P cls)"
proof -
  show "tidy_app (overview_handler E R cls)" "tidy_app (list_reports_handler cls)" "tidy_app (create_report_handler cls b)"
    unfolding overview_handler_def list_reports_handler_def create_report_handler_def analyst_only_def
    by (intro tidying; rule tidy_late, intro replying refusal; simp)+
  show "tidy_app (chaos_drill_handler E P cls)"
    unfolding chaos_drill_handler_def analyst_only_def Let_def
    by (intro tidying, rule tidy_late, rule statuses_match_at) (intro replying refusal; simp)
qed

section \<open>Ingestion and replay\<close>

abbreviation tidy_inner :: "(nat, nat \<times> 'a, 's ingest) eff \<Rightarrow> bool" where
  "tidy_inner \<equiv> tidy (\<lambda>g. tables (ap_db (ig_app g)))"

lemma tables_via_app: "keeps_tables m \<Longrightarrow> preserves (\<lambda>g. tables (ap_db (ig_app g))) (via_app m)"
  by (auto simp: preserves_def via_app_def split: prod.split) (metis snd_conv)

lemma tidy_via_app: "tidy_app m \<Longrightarrow> tidy_inner (via_app m)"
  by (auto simp: tidy_def via_app_def split: prod.split) (metis fst_conv snd_conv)

lemma tidy_at: "(\<And>s0. tidy v (m s0)) \<Longrightarrow> tidy v (\<lambda>s. m s s)"
  by (simp add: tidy_def)

lemma tidy_guard_inner:
  "(\<And>x. tidy_inner (f x)) \<Longrightarrow> tidy_inner (bind_ok (via_app (enforce_tenant_fixed_window E t res n c)) f)"
  by (rule tidy_read[OF tables_via_app]) (intro frame)

lemma tidy_uuid_inner:
  "(\<And>x. tidy_inner (f x)) \<Longrightarrow> tidy_inner (bind_ok (via_app (or_status c (via_db fresh_uuid))) f)"
  by (rule tidy_read[OF tables_via_app]) (intro frame table_reads)

lemma late_gate:
  "statuses late (\<lambda>g. case cost_gate E K u q g of (d, g1) \<Rightarrow>
      if \<not> kd_keep d then (Inr (202, r d), g1)
      else bind_ok (enqueue_ingest_log (l d)) (\<lambda>_ g2. (Inr (202, x d), f d g2)) g1)"
  by (intro statuses_match statuses_ite statuses_done statuses_bind refusal; simp)

lemma tidy_ingest_log: "tidy_inner (ingest_log E K cls q)"
proof (cases cls)
  case (Some cl)
  show ?thesis unfolding Some ingest_log_def option.case Let_def
    by (rule tidy_uuid_inner, rule tidy_at, rule tidy_guard_inner, rule tidy_late, rule late_gate)
qed (simp add: ingest_log_def tidy_fail)

lemma late_ingest_item: "refuses late (ingest_item E K u now q)"
  unfolding ingest_item_def
  by (rule refuses_bind, intro refusal, simp, intro refuses_match refuses_ite refuses_done)
    (intro refusal; simp)

lemma late_ingest_items: "refuses late (ingest_items E K u now qs)"
  by (induction qs) (simp_all add: refuses_ok refuses_bind late_ingest_item)

lemma tidy_ingest_batch: "tidy_inner (ingest_batch E K cls qs)"
proof (cases cls)
  case (Some cl)
  show ?thesis unfolding Some ingest_batch_def option.case
    by (rule tidy_guard_inner, rule tidy_late, rule statuses_at, rule statuses_bind[OF late_ingest_items], rule statuses_done)
      simp
qed (simp add: ingest_batch_def tidy_fail)

lemma tidy_replay: "tidy_inner (replay_drill_handler E R search cls)"
proof (cases cls)
  case (Some cl)
  have done_late: "statuses late (\<lambda>g. case replay_recent_logs E R search u 25 g of (r, g1) \<Rightarrow>
      bind_ok (via_app (or_status 500 (via_db fresh_uuid))) (\<lambda>i g2. via_app (bind_ok (or_status 500 (m r g g1 i)) (\<lambda>r. reply 200 r)) g2) g1)"
    for u m
    by (rule statuses_match_at, rule statuses_bind, intro refusal, simp) (intro statuses_via_app statuses_bind statuses_reply refusal; simp)
  show ?thesis
  proof (cases "is_analyst cl")
    case True
    then show ?thesis unfolding Some replay_drill_handler_def option.case Let_def
      by simp (rule tidy_late, rule done_late)
  qed (simp add: Some replay_drill_handler_def tidy_fail)
qed (simp add: replay_drill_handler_def tidy_fail)

section \<open>Every request\<close>

lemma answer_tidy:
  "tidy_inner h \<Longrightarrow> fst (fst (answer f (h g))) \<in> {400..<500} \<Longrightarrow>
     tables (ap_db (ig_app (snd (answer f (h g))))) = tables (ap_db (ig_app g))"
proof -
  assume h: "tidy_inner h" and c: "fst (fst (answer f (h g))) \<in> {400..<500}"
  have "fst (fst (answer f (h g))) = status_of (fst (h g))" "snd (answer f (h g)) = snd (h g)"
    by (auto simp: answer_def status_of_def split: prod.split sum.split)
  then show ?thesis using h c by (simp add: tidy_def)
qed

definition quiet :: "('s ingest \<Rightarrow> (nat \<times> reply_body) \<times> 's ingest) \<Rightarrow> bool" where
  "quiet h \<longleftrightarrow> (\<forall>g. fst (fst (h g)) \<in> {400..<500} \<longrightarrow> tables (ap_db (ig_app (snd (h g)))) = tables (ap_db (ig_app g)))"

lemma quiet_answer: "tidy_inner h \<Longrightarrow> quiet (\<lambda>g. answer f (h g))"
  unfolding quiet_def using answer_tidy by blast

lemma quiet_app: "tidy_app h \<Longrightarrow> quiet (in_app f h)"
  unfolding in_app_def by (intro quiet_answer tidy_via_app)

lemma quiet_up: "quiet (\<lambda>g. ((200, b), g))"
  by (simp add: quiet_def)

lemma quiet_alive: "quiet (\<lambda>g. case m (ig_app g) of (h, a) \<Rightarrow> ((200, f h), g \<lparr> ig_app := a \<rparr>))"
  by (simp add: quiet_def split_beta)

lemma dispatch_quiet: "quiet (dispatch_route W cls r)"
proof (cases r)
  case (Public x)
  then show ?thesis
    by (cases x) (simp_all add: dispatch_route_def handle_public_def quiet_up quiet_alive quiet_app tidy_register
      tidy_preserves[OF keeps_tables_login] tidy_preserves[OF keeps_tables_refresh] tidy_preserves[OF keeps_tables_logout]
      tidy_preserves[OF keeps_tables_ws(1)] tidy_preserves[OF keeps_tables_ws(2)])
next
  case (Logs x)
  then show ?thesis
    by (cases x) (simp_all add: dispatch_route_def handle_logs_def quiet_app tidy_dashboard tidy_listings tidy_compliance
      tidy_preserves[OF keeps_tables_me] tidy_preserves[OF keeps_tables_ws(1)] tidy_preserves[OF keeps_tables_ws(2)]
      quiet_answer tidy_ingest_log tidy_ingest_batch)
next
  case (Content x)
  then show ?thesis
    by (cases x) (simp_all add: dispatch_route_def handle_content_def quiet_app tidy_rules tidy_packs tidy_cost)
next
  case (Cases_Of x)
  then show ?thesis
    by (cases x) (simp_all add: dispatch_route_def handle_cases_def quiet_app tidy_cases tidy_get_case tidy_update_case
      tidy_run_playbook tidy_listings)
next
  case (Ops x)
  then show ?thesis
    by (cases x) (simp_all add: dispatch_route_def handle_ops_def quiet_app tidy_compliance tidy_reliability quiet_answer
      tidy_replay)
qed

lemma dispatch_tidy:
  "fst (fst (dispatch_route W cls r g)) \<in> {400..<500} \<Longrightarrow>
     tables (ap_db (ig_app (snd (dispatch_route W cls r g)))) = tables (ap_db (ig_app g))"
  using dispatch_quiet[of W cls r] unfolding quiet_def by blast

lemma serve_tidy:
  "fst (fst (serve W r S)) \<in> {400..<500} \<Longrightarrow> tables (sv_db (snd (serve W r S))) = tables (sv_db S)"
  using dispatch_tidy[of W _ "in_route r" "sv_ingest S"]
  by (auto simp: serve_def sv_db_def split_beta split: option.splits if_splits)

end
