(* ===== verification/Server_Properties.thy ===== *)
theory Server_Properties
  imports Refusals Api_Samples
begin

text \<open>Properties of the HTTP server over sequences of requests: who is let in, what a tenant's requests can
touch, which statuses there are, and what a refused request leaves.\<close>

section \<open>A sample server\<close>

definition sample_auth :: auth_ext where
  "sample_auth = \<lparr> ax_env = (\<lambda>v. if v = ''JWT_PUBLIC_KEY'' then Some ''pem'' else None), ax_mac = (\<lambda>k s. Some (k @ s)), ax_hash_password = (\<lambda>n s. Some s),
     ax_verify = (\<lambda>a b. Some (a = b)), ax_random = show_nat, ax_encode = (\<lambda>_. Some ''tok''),
     ax_parse_uuid = parse_nat \<rparr>"

definition sample_cost :: cost_ext where
  "sample_cost = \<lparr> kx_day = (\<lambda>_. ''d''), kx_hash = List.length, kx_ser = (\<lambda>_. []), kx_de = (\<lambda>_. None),
     kx_ratio = (\<lambda>_. ''0.00'') \<rparr>"

text \<open>A token library that reads the one good token, whose claims are those of an analyst of \<open>acme\<close>.\<close>

definition acme_claims :: claims where
  "acme_claims = sample_claims ''acme'' [''analyst''] \<lparr> cl_iss := ''mini-siem'', cl_aud := ''mini-siem-api'' \<rparr>"

definition sample_jwt :: "unit jwt_lib" where
  "sample_jwt = \<lparr> jl_header = (\<lambda>t. if t = ''good'' then Some (''RS256'', None) else None),
     jl_decode = (\<lambda>t _ v now. if t = ''good'' \<and> va_alg v = ''RS256'' \<and> va_issuer v = cl_iss acme_claims \<and> va_audience v = cl_aud acme_claims
        \<and> now \<le> cl_exp acme_claims + 60 then Some acme_claims else None),
     jl_build = (\<lambda>_ _. Some ()), jl_pem = (\<lambda>_. Some ()),
     jl_signed = (\<lambda>a t _. a = ''RS256'' \<and> t = ''good'') \<rparr>"

definition sample_wiring :: "(keyspace, unit) wiring" where
  "sample_wiring = \<lparr> wi_env = sample_env, wi_auth = sample_auth, wi_cost = sample_cost,
     wi_rel = \<lparr> rx_parse = (\<lambda>_. None), rx_show3 = (\<lambda>_. []), rx_log = (\<lambda>_. None) \<rparr>,
     wi_probes = \<lparr> pr_kafka = True, pr_elastic = None \<rparr>, wi_search = None, wi_jwt = sample_jwt, wi_front = (\<lambda>_. None) \<rparr>"

definition sample_server :: "db \<Rightarrow> (keyspace, unit) server" where
  "sample_server d = \<lparr> sv_ingest = \<lparr> ig_app = sample_app d, ig_sent = [], ig_attempts = 0,
     ig_outcome = (\<lambda>_. Delivered) \<rparr>, sv_keys = None \<rparr>"

definition bearer :: "string \<Rightarrow> route \<Rightarrow> incoming" where
  "bearer tok r = \<lparr> in_route = r, in_headers = \<lparr> hd_authorization = Some (''Bearer '' @ tok),
     hd_ws_token = None, hd_protocol = None \<rparr>, in_jwks = Inl Auth_Error \<rparr>"

lemma bearer_simps [simp]:
  "in_route (bearer tok r) = r" "request_token (in_headers (bearer tok r)) = Some tok"
  by (simp_all add: bearer_def request_token_order)

lemma sample_wiring_simps [simp]:
  "wi_jwt sample_wiring = sample_jwt" "ax_env (wi_auth sample_wiring) = (\<lambda>v. if v = ''JWT_PUBLIC_KEY'' then Some ''pem'' else None)"
  "wi_front sample_wiring = (\<lambda>_. None)"
  by (simp_all add: sample_wiring_def sample_auth_def)

lemma sample_jwt_laws: "decode_laws sample_jwt"
  by (auto simp: decode_laws_def sample_jwt_def)

lemma sample_authenticate:
  "fst (authenticate sample_wiring (bearer tok r) S) = Some cl \<Longrightarrow> tok = ''good'' \<and> cl = acme_claims"
  by (auto simp: authenticate_def jwt_auth_def decode_jwt_def get_decoding_key_for_kid_def sample_jwt_def
      split: option.splits if_splits prod.splits sum.splits)

section \<open>Who is let in\<close>

text \<open>C4. A request to a route behind the middleware is answered by the framework or with 401, with the database,
the cache and the ingestion channel untouched, unless it carries a token whose RS256 signature is valid under the
configured public key - or, when a key endpoint is configured, under the RSA key that it publishes for the
token's key id - and whose claims name the configured issuer and audience and are not expired (by more than
the leeway).\<close>

theorem protected_requires_token:
  assumes "decode_laws (wi_jwt W)" "\<not> is_public (in_route r)"
  shows "(wi_front W r = Some (fst (fst (serve W r S))) \<or> fst (serve W r S) = (401, Refused))
         \<and> sv_ingest (snd (serve W r S)) = sv_ingest S
     \<or> (\<exists>tok kid key cl. request_token (in_headers r) = Some tok \<and> jl_header (wi_jwt W) tok = Some (''RS256'', kid)
          \<and> jl_signed (wi_jwt W) ''RS256'' tok key
          \<and> trusted_key (ax_env (wi_auth W)) (wi_jwt W) (sv_now S) (in_jwks r) (sv_keys S) kid key
          \<and> fst (authenticate W r S) = Some cl \<and> cl_iss cl = expected_issuer (ax_env (wi_auth W))
          \<and> cl_aud cl = expected_audience (ax_env (wi_auth W)) \<and> sv_now S \<le> cl_exp cl + 60)"
proof (cases "wi_front W r")
  case None
  obtain c ks where A: "authenticate W r S = (c, ks)" by fastforce
  show ?thesis
  proof (cases c)
    case None
    then show ?thesis using assms(2) A \<open>wi_front W r = None\<close> by (simp add: serve_def)
  next
    case (Some cl)
    then obtain tok where tok: "request_token (in_headers r) = Some tok"
      and d: "fst (decode_jwt (ax_env (wi_auth W)) (wi_jwt W) (sv_now S) (in_jwks r) tok (sv_keys S)) = Inr cl"
      using A by (auto simp: authenticate_def jwt_auth_def split: option.splits prod.splits sum.splits)
    show ?thesis using decode_jwt_valid[OF assms(1) d] tok A Some by auto
  qed
qed (simp add: serve_def)

lemma protected_requires_token_witness:
  "fst (serve sample_wiring (bearer ''forged'' (Content (Delete_Rule 3))) (sample_server (db_empty 0))) = (401, Refused)"
proof -
  have "fst (authenticate sample_wiring (bearer ''forged'' (Content (Delete_Rule 3))) (sample_server (db_empty 0))) \<noteq> Some cl" for cl
    using sample_authenticate by fastforce
  then show ?thesis
    using protected_requires_token[of sample_wiring "bearer ''forged'' (Content (Delete_Rule 3))" "sample_server (db_empty 0)"]
      sample_jwt_laws by (auto simp: is_public_def)
qed

section \<open>Tenants\<close>

text \<open>C2. Tenant isolation of the whole API: no sequence of requests of other tenants, to any route,
accepted or refused, changes what the database holds for a tenant (its alerts, users, rules, audit
events, compliance policy, reports, playbooks, cases, links and timelines), except for a registration
into it and for an administrator's compliance request that names it.\<close>

theorem tenant_isolation:
  assumes "\<forall>r \<in> set rs. (\<forall>S cl. fst (authenticate W r S) = Some cl \<longrightarrow> cl_tenant cl \<noteq> t) \<and> t \<notin> names (in_route r)"
  shows "tenant_rows t (sv_db (snd (serve_all W rs S))) = tenant_rows t (sv_db S)"
  by (rule other.serve_all_keeps) (use assms in auto)

lemma tenant_isolation_witness:
  "tenant_rows ''globex'' (sv_db (snd (serve_all sample_wiring
      [bearer ''good'' (Content (Delete_Rule 3)), bearer ''good'' (Content (Install_Pack ''insider-risk'')), bearer ''good'' (Cases_Of (Run_Playbook 1 None))]
      (sample_server ((db_empty 0) \<lparr> db_rules := [sample_rule 3 ''globex'' ''r'' ''generic''] \<rparr>)))))
   = tenant_rows ''globex'' ((db_empty 0) \<lparr> db_rules := [sample_rule 3 ''globex'' ''r'' ''generic''] \<rparr>)"
  by (subst tenant_isolation)
    (auto dest!: sample_authenticate simp: acme_claims_def sample_claims_def sample_server_def sv_db_def names_def)

section \<open>Refused requests\<close>

text \<open>C3. A request that is answered with a client error, 400 to 499, has changed no table: the guards and
lookups come before the writes, on every route.\<close>

theorem refused_requests_write_nothing:
  assumes "fst (serve W r S) = (c, b)" "400 \<le> c" "c < 500"
  shows "tables (sv_db (snd (serve W r S))) = tables (sv_db S)"
  by (rule serve_tidy) (simp add: assms)

lemma refused_requests_write_nothing_witness:
  "tables (sv_db (snd (serve sample_wiring (bearer ''good'' (Content (Get_Pack ''nope''))) (sample_server (db_empty 0)))))
     = tables (db_empty 0)"
proof -
  have "fst (serve sample_wiring (bearer ''good'' (Content (Get_Pack ''nope''))) (sample_server (db_empty 0))) = (404, Refused)"
    by (simp add: serve_def is_public_def routing authenticate_def jwt_auth_def decode_jwt_def get_decoding_key_for_kid_def sample_jwt_def
        validation_of_def expected_issuer_def expected_audience_def env_or_def acme_claims_def sample_server_def sv_now_def
        sv_db_def db_empty_def timestamp_def in_app_def via_app_def answer_def sample_wiring_def get_detection_pack_def
        with_claims_def is_analyst_def has_role_def require_def bind_ok_def ok_def find_pack_def curated_packs_def
        cloud_iam_abuse_pack_def endpoint_ransomware_precursors_pack_def insider_risk_pack_def fail_def sample_claims_def
        sample_auth_def option_or_def local_key_def get_decoding_key_def pem_key_def)
  then show ?thesis
    using refused_requests_write_nothing[of sample_wiring "bearer ''good'' (Content (Get_Pack ''nope''))" "sample_server (db_empty 0)"]
    by (simp add: sample_server_def sv_db_def)
qed

text \<open>The endpoint that hands out websocket tokens stands outside the middleware, so no request to it
carries claims: it always answers 401, whatever token comes with the request.\<close>

theorem ws_token_never_granted:
  assumes "in_route r = Public Ws_Token" "wi_front W r = None"
  shows "fst (serve W r S) = (401, Refused)"
  by (simp add: serve_def is_public_def routing assms in_app_def answer_def via_app_def ws_token_def with_claims_def fail_def)

lemma ws_token_never_granted_witness:
  "fst (serve sample_wiring (bearer ''good'' (Public Ws_Token)) (sample_server (db_empty 0))) = (401, Refused)"
  by (rule ws_token_never_granted) simp_all

end
