(* ===== verification/Actions.thy ===== *)
theory Actions
  imports Response Config
begin

text \<open>The actions of the response engine (\<open>response/actions/mod.rs\<close>), the Slack notifier the service uses
(\<open>alerting/notifiers/slack.rs\<close>), and the policies set up at the start (\<open>main.rs\<close>).  The HTTP client and
the process launcher are parameters: what they answer.\<close>

section \<open>Webhooks and scripts\<close>

text \<open>A webhook posts the alert; \<open>None\<close> is a request that could not be sent, otherwise there is a status.\<close>

definition is_success :: "nat \<Rightarrow> bool" where
  "is_success code \<longleftrightarrow> 200 \<le> code \<and> code < 300"

definition webhook_execute :: "(string \<Rightarrow> alert \<Rightarrow> nat option) \<Rightarrow> string \<Rightarrow> alert \<Rightarrow> error + unit" where
  "webhook_execute post url a = (case post url a of
      None \<Rightarrow> Inl Queue_Error
    | Some code \<Rightarrow> if is_success code then Inr () else Inl Queue_Error)"

definition webhook_action :: "(string \<Rightarrow> alert \<Rightarrow> nat option) \<Rightarrow> string \<Rightarrow> string \<Rightarrow> action" where
  "webhook_action post name url = \<lparr> act_name = name, act_run = (\<lambda>a. is_ok (webhook_execute post url a)) \<rparr>"

text \<open>A script gets its arguments and four variables; \<open>None\<close> is a script that could not be started, otherwise
there is whether it succeeded.\<close>

definition script_env :: "(nat \<Rightarrow> string) \<Rightarrow> alert \<Rightarrow> (string \<times> string) list" where
  "script_env sh a = [(''ALERT_ID'', sh (a_id a)), (''ALERT_SEVERITY'', show_alert_severity (a_severity a)),
     (''ALERT_SOURCE_IP'', a_source_ip a), (''ALERT_DESCRIPTION'', a_description a)]"

definition script_execute ::
  "(string \<Rightarrow> string list \<Rightarrow> (string \<times> string) list \<Rightarrow> bool option) \<Rightarrow> (nat \<Rightarrow> string) \<Rightarrow> string \<Rightarrow> string list
   \<Rightarrow> alert \<Rightarrow> error + unit" where
  "script_execute run sh path args a = (case run path args (script_env sh a) of
      None \<Rightarrow> Inl Queue_Error
    | Some success \<Rightarrow> if success then Inr () else Inl Queue_Error)"

definition script_action ::
  "(string \<Rightarrow> string list \<Rightarrow> (string \<times> string) list \<Rightarrow> bool option) \<Rightarrow> (nat \<Rightarrow> string) \<Rightarrow> string \<Rightarrow> string
   \<Rightarrow> string list \<Rightarrow> action" where
  "script_action run sh name path args =
     \<lparr> act_name = name, act_run = (\<lambda>a. is_ok (script_execute run sh path args a)) \<rparr>"

section \<open>Slack\<close>

text \<open>The notifier prints a line when a webhook is configured, and posts nothing.\<close>

definition slack_send :: "string option \<Rightarrow> alert \<Rightarrow> string option" where
  "slack_send webhook a = map_option (\<lambda>url. ''Slack webhook '' @ url @ '' would receive alert '' @ a_description a) webhook"

section \<open>The policies of the service\<close>

definition startup_policies :: "(string \<Rightarrow> alert \<Rightarrow> nat option) \<Rightarrow> config \<Rightarrow> response_engine" where
  "startup_policies post cfg = (case cf_slack_webhook cfg of
      None \<Rightarrow> response_new
    | Some url \<Rightarrow> add_global_severity_policy Critical (webhook_action post ''Critical Slack Hook'' url) response_new)"

section \<open>Facts\<close>

lemma webhook_run: "act_run (webhook_action post name url) a = (case post url a of None \<Rightarrow> False | Some c \<Rightarrow> is_success c)"
  by (simp add: webhook_action_def webhook_execute_def is_ok_def split: option.split)

lemma script_run:
  "act_run (script_action run sh name path args) a = (run path args (script_env sh a) = Some True)"
  by (auto simp: script_action_def script_execute_def is_ok_def split: option.split)

text \<open>With the policies of the service, the only action is the webhook of the critical alerts.\<close>

lemma startup_actions:
  assumes "a_tenant a \<noteq> ''*''"
  shows "response_handle (startup_policies post cfg) a = (case cf_slack_webhook cfg of
      Some url \<Rightarrow> if a_severity a = Critical
        then [(''Critical Slack Hook'', case post url a of None \<Rightarrow> False | Some c \<Rightarrow> is_success c)] else []
    | None \<Rightarrow> [])"
  using assms
  by (auto simp: startup_policies_def response_new_def add_global_severity_policy_def add_severity_policy_def
      push_action_def response_handle_def collect_actions_def option_or_def webhook_run split: option.split)
    (simp_all add: webhook_action_def)

end
