(* ===== verification/Startup.thy ===== *)
theory Startup
  imports Auth_Api Actions Operations Indexing
begin

text \<open>Starting and stopping the service (\<open>main.rs\<close>): the settings that bound its tasks, the keys of the token
library (\<open>auth/jwt.rs\<close>), the account seeded for development (\<open>db/postgres.rs\<close>), the connection to
Elasticsearch, and the shutdown.\<close>

section \<open>Settings\<close>

text \<open>Sizes and intervals that must not be 0 are raised to 1.\<close>

record settings =
  se_workers :: nat
  se_mailbox :: nat
  se_partition_key :: string
  se_lag_interval :: nat
  se_lag_timeout :: nat
  se_limits :: tenant_limits
  se_labels :: tenant_labels

definition startup_settings :: "tenant_labels \<Rightarrow> config \<Rightarrow> settings" where
  "startup_settings labels cfg = \<lparr> se_workers = max (cf_detection_workers cfg) 1,
     se_mailbox = max (cf_mailbox_size cfg) 1, se_partition_key = cf_partition_key cfg,
     se_lag_interval = max (cf_lag_interval cfg) 1, se_lag_timeout = max (cf_lag_timeout cfg) 1,
     se_limits = tenant_limits_of cfg, se_labels = set_tenant_label_limit (cf_max_labels cfg) labels \<rparr>"

section \<open>Keys\<close>

record jwt_header =
  jh_alg :: string
  jh_typ :: "string option"

definition encode_jwt ::
  "(string \<Rightarrow> 'k option) \<Rightarrow> (jwt_header \<Rightarrow> claims \<Rightarrow> 'k \<Rightarrow> string option) \<Rightarrow> env_vars \<Rightarrow> claims \<Rightarrow> 'k option
   \<Rightarrow> (error + string) \<times> 'k option" where
  "encode_jwt build enc env cl memo = (case get_encoding_key build env memo of
      (Inl e, m) \<Rightarrow> (Inl e, m)
    | (Inr k, m) \<Rightarrow> (case enc \<lparr> jh_alg = ''RS256'', jh_typ = Some ''JWT'' \<rparr> cl k of
          None \<Rightarrow> (Inl Crypto_Error, m) | Some tok \<Rightarrow> (Inr tok, m)))"

text \<open>The task that refreshes the verification keys runs when an endpoint is configured.\<close>

definition jwks_task :: "env_vars \<Rightarrow> (string \<times> nat) option" where
  "jwks_task env = map_option (\<lambda>url. (url, jwks_cache_ttl env)) (env ''JWT_JWKS_URL'')"

definition jwks_timeout :: "env_vars \<Rightarrow> nat" where
  "jwks_timeout env = env_uint env 64 ''JWT_JWKS_TIMEOUT_MS'' 3000"

section \<open>The development account\<close>

definition seed_flag :: "env_vars \<Rightarrow> bool" where
  "seed_flag env = (case env ''SEED_MOCK_ADMIN'' of None \<Rightarrow> False
     | Some v \<Rightarrow> v = ''1'' \<or> to_lowercase v = ''true'')"

definition max_connections :: "env_vars \<Rightarrow> nat" where
  "max_connections env = env_uint env 32 ''DATABASE_MAX_CONNECTIONS'' 20"

text \<open>Every failure is logged and dropped.\<close>

definition seed_admin :: "env_vars \<Rightarrow> (string \<Rightarrow> string option) \<Rightarrow> db \<Rightarrow> db" where
  "seed_admin env hash_password d =
     (if \<not> seed_flag env then d
      else (let email = env_or env ''MOCK_ADMIN_EMAIL'' ''admin@example.com'';
                password = env_or env ''MOCK_ADMIN_PASSWORD'' ''password123'' in
        case get_user_by_email ''default'' email d of
          (Inr (Some _), d1) \<Rightarrow> d1
        | (Inr None, d1) \<Rightarrow> (case hash_password password of
              Some h \<Rightarrow> ignore (create_user ''default'' email h ''admin'') d1
            | None \<Rightarrow> d1)
        | (Inl _, d1) \<Rightarrow> d1))"

section \<open>Elasticsearch\<close>

text \<open>The client that is kept: after the start, and after a tick of the task that reconnects every 30 seconds
while there is none.\<close>

definition elastic_start :: "http_exchange \<Rightarrow> string \<Rightarrow> string option" where
  "elastic_start http host = (case elastic_new http host of Inl _ \<Rightarrow> None | Inr base \<Rightarrow> Some base)"

definition elastic_reconnect :: "http_exchange \<Rightarrow> string \<Rightarrow> string option \<Rightarrow> string option" where
  "elastic_reconnect http host client = (case client of
      Some _ \<Rightarrow> client
    | None \<Rightarrow> (case elastic_new http host of Inl _ \<Rightarrow> None | Inr base \<Rightarrow> Some base))"

section \<open>Shutdown\<close>

text \<open>The tasks get 15 seconds, then the statistics are written a last time.\<close>

definition shutdown_service ::
  "'s redis \<Rightarrow> managed_task list \<Rightarrow> 's app \<Rightarrow> (string \<times> drain_outcome) list \<times> 's app" where
  "shutdown_service rd tasks s =
     (case registry_drain (seconds 15) (app_now s) tasks of (outcomes, now) \<Rightarrow>
        (outcomes, final_stats_checkpoint rd (s \<lparr> ap_db := (ap_db s) \<lparr> db_now := now \<rparr> \<rparr>)))"

section \<open>Facts\<close>

lemma settings_positive:
  "0 < se_workers (startup_settings labels cfg)" "0 < se_mailbox (startup_settings labels cfg)"
  "0 < se_lag_interval (startup_settings labels cfg)" "0 < se_lag_timeout (startup_settings labels cfg)"
  by (simp_all add: startup_settings_def)

text \<open>Seeding twice is seeding once.\<close>

lemma seed_admin_once:
  assumes "\<not> seed_flag env \<or> no_faults d"
  shows "db_users (seed_admin env h' (seed_admin env h d)) = db_users (seed_admin env h d)
    \<or> (\<forall>u \<in> set (db_users d). \<not> (u_tenant u = ''default'' \<and> u_email u = env_or env ''MOCK_ADMIN_EMAIL'' ''admin@example.com''))
      \<and> h (env_or env ''MOCK_ADMIN_PASSWORD'' ''password123'') = None"
  using assms
  by (auto simp: seed_admin_def Let_def get_user_by_email_def select_cases no_faults_def ignore_def create_user_def stmt_def
      first_row_None dest!: first_row_Some split: option.splits)

end
