(* ===== verification/Runtime.thy ===== *)
theory Runtime
  imports Startup Pipeline
begin

text \<open>The running parts of the engine (\<open>detection/engine.rs\<close>): loading and reloading its rules, and the
task that publishes its counters; the records handed to Kafka (\<open>queue/kafka.rs\<close>); the counters of the HTTP
middleware (\<open>api/middleware/telemetry.rs\<close>) and the settings of the tracing exporter
(\<open>monitoring/metrics.rs\<close>).\<close>

section \<open>The rules of the engine\<close>

text \<open>The rules of every tenant are read and the index is replaced; when they cannot be read the old index
stays.\<close>

definition reload_rules :: "rule_codec \<Rightarrow> (error, unit, db \<times> rule_index) eff" where
  "reload_rules K p = (case p of (d, ix) \<Rightarrow>
     (case get_enabled_rules [] d of
        (Inl e, d') \<Rightarrow> (Inl e, (d', ix))
      | (Inr rs, d') \<Rightarrow> (Inr (), (d', index_rules K rs (\<lambda>_. [])))))"

text \<open>A new engine starts from empty counters; a failure of the first load is logged.\<close>

definition engine_new :: "rule_codec \<Rightarrow> db \<Rightarrow> local_stats \<times> (db \<times> rule_index)" where
  "engine_new K d = (stats_zero, ignore (reload_rules K) (d, \<lambda>_. []))"

text \<open>\<open>get_stats\<close> counts the entries of the index: tags, not rules.\<close>

definition engine_get_stats :: "rule_index \<Rightarrow> json" where
  "engine_get_stats ix = JObj [(''rules_loaded'',
     JNum (PosInt (length (filter (\<lambda>t. ix t \<noteq> []) [Auth, Network, Malware]))))]"

section \<open>The counters on the dashboard\<close>

text \<open>\<open>as i64\<close> of the four counters; the snapshot names no tenant.\<close>

definition stats_snapshot :: "local_stats \<Rightarrow> dashboard_stats" where
  "stats_snapshot s = \<lparr> ds_tenant = [], ds_logs = sint (ls_logs s), ds_alerts = sint (ls_alerts s),
     ds_active = sint (ls_active s), ds_critical = sint (ls_critical s) \<rparr>"

text \<open>One round of the task: it takes a note, then at most one more within 100 milliseconds, and publishes a
snapshot.  \<open>notes\<close> are the notes in the channel at the end of that time.\<close>

definition stats_board :: "local_stats \<Rightarrow> nat \<Rightarrow> nat \<times> dashboard_stats option" where
  "stats_board s notes = (if notes = 0 then (0, None) else (notes - min notes 2, Some (stats_snapshot s)))"

section \<open>Alerts on the console\<close>

text \<open>The alert handler of \<open>main.rs\<close>: the lines the notifier prints for the alerts of the live channel.\<close>

definition alert_handler :: "string option \<Rightarrow> alert list \<Rightarrow> string list" where
  "alert_handler webhook as = List.map_filter (slack_send webhook) as"

section \<open>Retention of indexed logs\<close>

text \<open>The query of the retention cycle for a tenant, and what its deletions answer; errors are logged.\<close>

definition retention_query :: "(instant \<Rightarrow> string) \<Rightarrow> string \<Rightarrow> instant \<Rightarrow> json" where
  "retention_query rfc t cutoff = JObj [(''bool'', JObj [(''filter'', JArr
     [JObj [(''term'', JObj [(''tenant_id'', JStr t)])],
      JObj [(''range'', JObj [(''@timestamp'', JObj [(''lt'', JStr (rfc cutoff))])])]])])]"

definition purge_indexed ::
  "http_exchange \<Rightarrow> (instant \<Rightarrow> string) \<Rightarrow> string option \<Rightarrow> string \<Rightarrow> (string \<times> instant) list \<Rightarrow> (error + unit) list" where
  "purge_indexed http rfc client index tenants = (case client of
      None \<Rightarrow> []
    | Some base \<Rightarrow> map (\<lambda>(t, cutoff). delete_by_query http base index (retention_query rfc t cutoff)) tenants)"

section \<open>Records for Kafka\<close>

record kafka_record =
  kr_topic :: string
  kr_key :: string
  kr_headers :: "(string \<times> string) list"
  kr_payload :: string

definition default_topic :: string where "default_topic = ''siem-logs''"

definition alerts_topic :: string where "alerts_topic = ''siem-alerts''"

definition logs_dlq_topic :: string where "logs_dlq_topic = ''siem-logs-dlq''"

text \<open>The serializer, the text of a UUID and the producer are parameters.\<close>

definition send_log_to ::
  "(log \<Rightarrow> string option) \<Rightarrow> (nat \<Rightarrow> string) \<Rightarrow> (kafka_record \<Rightarrow> bool) \<Rightarrow> string \<Rightarrow> log \<Rightarrow> error + unit" where
  "send_log_to ser sh send topic l = (case ser l of
      None \<Rightarrow> Inl Parse_Error
    | Some payload \<Rightarrow>
        if send \<lparr> kr_topic = topic, kr_key = sh (l_id l), kr_headers = [(''source_ip'', l_source_ip l)],
                  kr_payload = payload \<rparr>
        then Inr () else Inl Queue_Error)"

definition send_log ::
  "(log \<Rightarrow> string option) \<Rightarrow> (nat \<Rightarrow> string) \<Rightarrow> (kafka_record \<Rightarrow> bool) \<Rightarrow> log \<Rightarrow> error + unit" where
  "send_log ser sh send l = (case ser l of
      None \<Rightarrow> Inl Parse_Error
    | Some payload \<Rightarrow>
        if send \<lparr> kr_topic = default_topic, kr_key = sh (l_id l), kr_headers = [(''source_ip'', l_source_ip l)],
                  kr_payload = payload \<rparr>
        then Inr () else Inl Queue_Error)"

definition send_alert ::
  "(alert \<Rightarrow> string option) \<Rightarrow> (nat \<Rightarrow> string) \<Rightarrow> (kafka_record \<Rightarrow> bool) \<Rightarrow> alert \<Rightarrow> error + unit" where
  "send_alert ser sh send a = (case ser a of
      None \<Rightarrow> Inl Parse_Error
    | Some payload \<Rightarrow>
        if send \<lparr> kr_topic = alerts_topic, kr_key = sh (a_id a), kr_headers = [], kr_payload = payload \<rparr>
        then Inr () else Inl Queue_Error)"

section \<open>The counters of the HTTP middleware\<close>

text \<open>The requests in flight, the last value of their gauge, and the two counters by their labels.\<close>

record http_counters =
  hc_inflight :: "64 word"
  hc_gauge :: nat
  hc_requests :: "string \<times> string \<times> string \<Rightarrow> nat"
  hc_errors :: "string \<times> string \<Rightarrow> nat"

definition status_class :: "nat \<Rightarrow> string" where
  "status_class code = show_nat (code div 100) @ ''xx''"

definition request_begins :: "http_counters \<Rightarrow> http_counters" where
  "request_begins s = s \<lparr> hc_inflight := hc_inflight s + 1, hc_gauge := unat (hc_inflight s + 1) \<rparr>"

text \<open>The answer of the service is its status, or an error, which counts as 500.\<close>

definition request_ends :: "(string \<Rightarrow> bool) \<Rightarrow> string \<Rightarrow> string \<Rightarrow> error + nat \<Rightarrow> http_counters \<Rightarrow> http_counters" where
  "request_ends is_uuid method path result s =
     (let route = normalize_route is_uuid path;
          code = (case result of Inr c \<Rightarrow> c | Inl _ \<Rightarrow> 500);
          class = status_class code;
          key = (method, route, class);
          s1 = s \<lparr> hc_inflight := hc_inflight s - 1, hc_gauge := unat (hc_inflight s) - 1,
                   hc_requests := (hc_requests s)(key := hc_requests s key + 1) \<rparr>
      in if 500 \<le> code
         then s1 \<lparr> hc_errors := (hc_errors s1)((route, class) := hc_errors s1 (route, class) + 1) \<rparr>
         else s1)"

section \<open>The tracing exporter\<close>

text \<open>The parser of a decimal number is a parameter, on the finite numbers.\<close>

record trace_settings =
  ts_endpoint :: string
  ts_ratio :: rat
  ts_queue :: nat
  ts_batch :: nat
  ts_delay :: nat

definition init_tracing :: "(string \<Rightarrow> rat option) \<Rightarrow> env_vars \<Rightarrow> trace_settings" where
  "init_tracing parse_f64 env = \<lparr>
     ts_endpoint = env_or env ''OTEL_EXPORTER_OTLP_ENDPOINT'' ''http://127.0.0.1:4317'',
     ts_ratio = max 0 (min 1 (option_or 1 (Option.bind (env ''OTEL_TRACES_SAMPLER_ARG'') parse_f64))),
     ts_queue = env_uint env 64 ''OTEL_BSP_MAX_QUEUE_SIZE'' 2048,
     ts_batch = env_uint env 64 ''OTEL_BSP_MAX_EXPORT_BATCH_SIZE'' 512,
     ts_delay = env_uint env 64 ''OTEL_BSP_SCHEDULE_DELAY_MS'' 5000 \<rparr>"

section \<open>Facts\<close>

lemma reload_rules_ok:
  "reload_rules K (d, ix) = (Inr u, (d', ix')) \<Longrightarrow> ix' = index_rules K (filter dr_enabled (db_rules d)) (\<lambda>_. [])"
  by (auto simp: reload_rules_def get_enabled_rules_def select_cases split: if_splits)

lemma reload_rules_failed: "reload_rules K (d, ix) = (Inl e, (d', ix')) \<Longrightarrow> ix' = ix"
  by (auto simp: reload_rules_def split: prod.splits sum.splits)

text \<open>Every rule of the index was compiled from an enabled rule of the database.\<close>

lemma reload_rules_origin:
  assumes "snd (reload_rules K (d, ix)) = (d', ix')" "c \<in> set (ix' t)"
  shows "c \<in> set (ix t) \<or> (\<exists>r \<in> set (db_rules d). dr_enabled r \<and> compile_rule K r = Some c)"
  using assms
  by (auto simp: reload_rules_def get_enabled_rules_def select_cases index_rules_apply map_filter_set split: if_splits)

text \<open>The notes never exceed the channel, and a round of the statistics task takes some.\<close>

lemma note_sent_bounded: "n \<le> 1024 \<Longrightarrow> note_sent n \<le> 1024"
  by (simp add: note_sent_def)

lemma stats_board_takes: "stats_board s n = (m, Some x) \<Longrightarrow> m < n"
  by (auto simp: stats_board_def split: if_splits)

lemma send_log_topic: "send_log ser sh send = send_log_to ser sh send default_topic"
  by (rule ext) (simp add: send_log_def send_log_to_def)

lemma inflight_balanced: "hc_inflight (request_ends u m p r (request_begins s)) = hc_inflight s"
  by (simp add: request_ends_def request_begins_def Let_def)

end
