(* ===== verification/Background.thy ===== *)
theory Background
  imports Upkeep Pipeline Operations
begin

text \<open>The contract of \<open>Upkeep\<close> extended to the statements of the background tasks: the statistics, the sweep of
overdue cases and the weekly report (\<open>task_contract\<close>), then the alert worker, the batcher and the hand-over of
alerts, which write alerts (\<open>store_contract\<close>), and, for invariants that survive deletions, the retention cycle
(\<open>purge_contract\<close>).\<close>

section \<open>The contracts\<close>

locale task_contract = db_contract I "\<lambda>_. True" for I +
  assumes stats_row: "maintains I (save_stats t x1 x2 x3 x4)"
    and now_free: "I (d \<lparr> db_now := n \<rparr>) = I d"

locale store_contract = task_contract +
  assumes alert_insert: "maintains I (insert_alerts as)"
    and alert_upsert: "maintains I (upsert_alerts_batch as)"
    and alert_change: "maintains I (update_alert a)"

locale purge_contract = store_contract +
  assumes audit_purge: "maintains I (purge_audit_events_before t cutoff)"
    and alert_purge: "maintains I (purge_alerts_before t cutoff)"

section \<open>The case of an alert\<close>

text \<open>\<open>create_case_from_alert\<close> returns a case that exists.\<close>

lemma create_case_exists:
  assumes "create_case_from_alert sh a uid em title summ pid d = (Inr c, d')"
  shows "has_case (a_tenant a) (ca_id c) d'"
proof -
  note s = open_case_rows
  obtain q d1 where 0: "get_case_by_alert_id (a_tenant a) (a_id a) d = (Inr q, d1)"
    and 1: "(case q of Some c \<Rightarrow> ok c | None \<Rightarrow> bind_ok (ensure_default_playbooks (a_tenant a)) (\<lambda>_.
         bind_ok (choose_playbook (a_tenant a) pid) (\<lambda>pb. open_case sh a uid em title summ pb))) d1 = (Inr c, d')"
    using assms unfolding create_case_from_alert_def by (rule bind_ok_InrE)
  show ?thesis
  proof (cases q)
    case None
    from 1 obtain u d2 where "bind_ok (choose_playbook (a_tenant a) pid) (\<lambda>pb. open_case sh a uid em title summ pb) d2 = (Inr c, d')"
      unfolding None option.case by (rule bind_ok_InrE)
    then obtain pb d3 where "open_case sh a uid em title summ pb d3 = (Inr c, d')" by (rule bind_ok_InrE)
    then show ?thesis using open_case_rows by (fastforce simp: has_case_def)
  next
    case (Some x)
    then have "x \<in> set (cases_of_alert (a_tenant a) (a_id a) d)" "db_cases d' = db_cases d" "c = x"
      using 0 1 by (auto simp: by_alert_query ok_def split: list.splits if_splits)
    then show ?thesis by (force simp: cases_of_alert_def has_case_def)
  qed
qed

section \<open>Tasks that leave the alerts alone\<close>

context task_contract
begin

lemma worker_case_keeps: "I d \<Longrightarrow> I (worker_case sh re a d)"
proof -
  assume I: "I d"
  obtain r d' where c: "create_case_from_alert sh a None None None None None d = (r, d')" by fastforce
  have I': "I d'" using maintainsD[OF new_case_from_alert c I] by simp
  show ?thesis
  proof (cases r)
    case (Inr k)
    have "I (ignore (record_case_event (a_tenant a) (ca_id k) ty msg u em m) d')" for ty msg u em m
      using event_row[OF TrueI create_case_exists I'] c Inr by (simp add: ignore_def)
    then show ?thesis using c Inr I I' by (simp add: worker_case_def Let_def)
  qed (use c I I' in \<open>simp add: worker_case_def\<close>)
qed

lemma worker_counters_keep: "I (wk_db st) \<Longrightarrow> I (wk_db (worker_counters rd a st))"
  by (auto simp: worker_counters_def Let_def intro!: maintains_ignore[OF stats_row] split: prod.split sum.split option.split)

text \<open>The sweep of overdue cases, the statistics and the weekly report.\<close>

lemma sweep_keeps: "maintains I escalate_overdue_cases"
proof -
  have "maintains I (escalate_all cs n)" for cs n
    by (induction cs arbitrary: n) (auto simp: escalate_one_def intro!: upkeep)
  then show ?thesis unfolding escalate_overdue_cases_def by (intro upkeep)
qed

lemma sync_keeps: "I (ap_db s) \<Longrightarrow> I (ap_db (stats_sync_tick rd s))"
  by (auto simp: stats_sync_tick_def persist_stats_def intro!: maintains_snd[OF maintains_via_db[OF stats_row]]
      split: prod.split)

lemma store_report_keeps: "I (ap_db s) \<Longrightarrow> I (ap_db (store_report p s))"
  unfolding store_report_def by (rule maintains_ignore[OF maintains_via_db[OF report_row]]) simp_all

lemma weekly_keeps: "I (ap_db (ig_app g)) \<Longrightarrow> I (ap_db (ig_app (weekly_tick E R show_slo P search g)))"
proof -
  assume I: "I (ap_db (ig_app g))"
  have "I (ap_db (ig_app (weekly_replay E R search g)))"
    using I by (auto simp: weekly_replay_def Let_def on_app_def intro!: store_report_keeps dest!: replay_app
        split: prod.split sum.split)
  moreover have "I (ap_db (weekly_chaos E P s))" if "I (ap_db s)" for s :: "'a app"
    using that by (auto simp: weekly_chaos_def Let_def health_probe_summary_def intro!: store_report_keeps
        dest!: via_cache_db ping_keeps split: prod.splits)
  moreover have "I (ap_db (weekly_summary E R show_slo s))" if "I (ap_db s)" for s :: "'a app"
    using that by (auto simp: weekly_summary_def build_reliability_overview_def list_reliability_reports_def bind_ok_def
        ok_def via_db_def select_cases calls intro!: store_report_keeps split: prod.splits sum.splits)
  ultimately show ?thesis by (simp add: weekly_tick_def on_app_def)
qed

end

section \<open>Alerts\<close>

lemma maintains_attempt:
  "maintains I m \<Longrightarrow> (\<And>r s. I s \<Longrightarrow> I (snd (f r s))) \<Longrightarrow> maintains I (attempt m f)"
  by (auto simp: maintains_def attempt_def split: prod.split)

context store_contract
begin

lemma create_keeps: "maintains I (create_alert a)"
  unfolding create_alert_def by (rule alert_insert)

lemma manager_keeps: "maintains I (manager_handle_alert re slack a)"
  unfolding manager_handle_alert_def by (intro upkeep create_keeps)

lemma route_alert_keeps: "I (pl_db P) \<Longrightarrow> I (pl_db (route_alert deliver re slack a P))"
  using maintains_snd[OF manager_keeps, of "pl_db P" re slack a]
  by (auto simp: route_alert_def Let_def split: prod.split sum.split)

lemma route_alerts_keep: "I (pl_db P) \<Longrightarrow> I (pl_db (route_alerts deliver re slack i as P))"
  by (induction as arbitrary: i P) (simp_all add: route_alert_keeps)

text \<open>The worker.\<close>

lemma update_counted_keeps: "I (wk_db st) \<Longrightarrow> I (wk_db (update_alert_counted rd a st))"
  using maintains_snd[OF alert_change, of "wk_db st" a] by (auto simp: update_alert_counted_def split: prod.split)

lemma worker_create_keeps: "I (wk_db st) \<Longrightarrow> I (wk_db (worker_create a st))"
  by (simp add: worker_create_def maintains_ignore[OF create_keeps])

lemma worker_fallback_keeps: "I (wk_db st) \<Longrightarrow> I (wk_db (worker_fallback rd a st))"
  unfolding worker_fallback_def get_open_alerts_by_ip_def Let_def
  by (auto dest!: maintainsD[OF reading] intro!: worker_create_keeps update_counted_keeps
      split: prod.splits sum.split list.split)

end

context store_contract
begin

lemma worker_step_keeps: "I (wk_db st) \<Longrightarrow> I (wk_db (worker_step R rd sh re now room a st))"
  unfolding worker_step_def Let_def
  by (intro worker_counters_keep) (auto intro!: worker_case_keeps worker_fallback_keeps)

text \<open>The batcher.\<close>

lemma flush_tenant_keeps: "maintains I (flush_tenant E t kas)"
proof -
  have read: "maintains I (get_open_alerts_by_ips t ips)" for ips
    unfolding get_open_alerts_by_ips_def by (intro upkeep)
  have "maintains I (bind_ok (if cr = [] then ok () else create_alerts_batch cr) (\<lambda>_ d.
           (Inr (), if up = [] then d else ignore (upsert_alerts_batch up) d)))" for cr up
    unfolding create_alerts_batch_def
    by (intro maintains_bind upkeep alert_insert) (simp add: maintains_def maintains_ignore[OF alert_upsert])
  note upsert = maintains_snd[OF this]
  have "I (snd ((case split_batch ex ks of (cr, up) \<Rightarrow> bind_ok (if cr = [] then ok () else create_alerts_batch cr)
      (\<lambda>_ d. (Inr (), if up = [] then d else ignore (upsert_alerts_batch up) d))) s))" if "I s" for ex ks s
    using upsert[OF that] by (simp add: split_beta)
  with read show ?thesis unfolding flush_tenant_def by (intro maintains_attempt) simp_all
qed

lemma flush_keeps: "maintains I (flush_batch E as)"
  unfolding flush_batch_def by (intro upkeep maintains_each) (auto intro: flush_tenant_keeps)

lemma batcher_flush_keeps_db: "I (bt_db b) \<Longrightarrow> I (bt_db (batcher_flush E b))"
  by (simp add: batcher_flush_def maintains_ignore[OF flush_keeps])

lemma batcher_step_keeps_db: "I (bt_db b) \<Longrightarrow> I (bt_db (batcher_step E n ev b))"
  by (cases ev) (auto simp: Let_def intro!: batcher_flush_keeps_db)

end

section \<open>Retention\<close>

context purge_contract
begin

lemma retain_keeps: "I d \<Longrightarrow> I (snd (retain_tenant p d))"
  by (simp add: retain_tenant_def Let_def maintains_ignore[OF audit_purge] maintains_ignore[OF alert_purge] split: option.split)

lemma retain_all_keeps: "I d \<Longrightarrow> I (snd (retain_all ps d))"
proof (induction ps arbitrary: d)
  case (Cons p ps)
  then show ?case using retain_keeps[of d p] by (cases "retain_tenant p d") (auto simp: split_beta split: option.split)
qed simp

lemma retention_keeps: "I d \<Longrightarrow> I (snd (run_tenant_retention_cycle elastic d))"
proof -
  assume "I d"
  obtain r d1 where l: "list_compliance_policies d = (r, d1)" by fastforce
  then have "I d1" using \<open>I d\<close> maintainsD[OF reading] unfolding list_compliance_policies_def by blast
  then show ?thesis using l retain_all_keeps[of d1]
    by (simp add: run_tenant_retention_cycle_def split_beta split: sum.split)
qed

end

end
