(* ===== verification/Wellformed.thy ===== *)
theory Wellformed
  imports Background
begin

text \<open>The well-formedness of the database, the append-only tables and the life of a case, each an
invariant of every statement: interpretations of the contracts of \<open>Upkeep\<close> and \<open>Background\<close>.\<close>

section \<open>Keys\<close>

text \<open>The keys of a table are distinct and were handed out before.\<close>

definition keys_below :: "('r \<Rightarrow> nat) \<Rightarrow> nat \<Rightarrow> 'r list \<Rightarrow> bool" where
  "keys_below key n rows \<longleftrightarrow> distinct (map key rows) \<and> list_all (\<lambda>r. key r < n) rows"

lemma keys_below_mono: "keys_below key n rows \<Longrightarrow> n \<le> m \<Longrightarrow> keys_below key m rows"
  by (auto simp: keys_below_def list_all_iff)

lemma keys_below_Suc [simp, intro]: "keys_below key n rows \<Longrightarrow> keys_below key (Suc n) rows"
  by (erule keys_below_mono) simp

lemma keys_below_snoc [intro]: "keys_below key n rows \<Longrightarrow> key r = n \<Longrightarrow> keys_below key (Suc n) (rows @ [r])"
  by (auto simp: keys_below_def list_all_iff)

lemma keys_below_filter [intro]: "keys_below key n rows \<Longrightarrow> keys_below key n (filter P rows)"
  by (auto simp: keys_below_def list_all_iff distinct_map_filter)

lemma keys_below_map [intro]:
  "keys_below key n rows \<Longrightarrow> (\<And>r. key (f r) = key r) \<Longrightarrow> keys_below key n (map f rows)"
  by (auto simp: keys_below_def list_all_iff comp_def)

section \<open>Well-formed tables\<close>

definition wf_accounts :: "db \<Rightarrow> bool" where
  "wf_accounts d \<longleftrightarrow> keys_below u_id (db_next d) (db_users d)
     \<and> distinct (map (\<lambda>u. (u_tenant u, u_email u)) (db_users d))"

definition wf_rules :: "db \<Rightarrow> bool" where
  "wf_rules d \<longleftrightarrow> keys_below dr_id (db_next d) (db_rules d)
     \<and> distinct (map (\<lambda>r. (dr_tenant r, dr_name r)) (db_rules d))"

definition wf_policies :: "db \<Rightarrow> bool" where
  "wf_policies d \<longleftrightarrow> distinct (map cp_tenant (db_compliance d)) \<and> distinct (map kp_tenant (db_cost d))
     \<and> distinct (map sr_tenant (db_stats d))"

definition wf_records :: "db \<Rightarrow> bool" where
  "wf_records d \<longleftrightarrow> keys_below ae_id (db_next d) (db_audit d) \<and> keys_below rr_id (db_next d) (db_reports d)
     \<and> keys_below pb_id (db_next d) (db_playbooks d) \<and> distinct (map ar_id (db_alerts d))"

text \<open>A case has a readable status, with the instants that the status calls for, and is the only one of its
alert; links and timeline events belong to a case of the same tenant.\<close>

definition case_keys :: "case_record list \<Rightarrow> (string \<times> nat) set" where
  "case_keys cs = set (map (\<lambda>c. (ca_tenant c, ca_id c)) cs)"

definition wf_cases :: "db \<Rightarrow> bool" where
  "wf_cases d \<longleftrightarrow> keys_below ca_id (db_next d) (db_cases d) \<and> list_all case_ok (db_cases d)
     \<and> distinct (map (\<lambda>c. (ca_tenant c, ca_alert_id c)) (db_cases d))
     \<and> keys_below te_id (db_next d) (db_timeline d)
     \<and> list_all (\<lambda>e. (te_tenant e, te_case e) \<in> case_keys (db_cases d)) (db_timeline d)
     \<and> list_all (\<lambda>l. (li_tenant l, li_case l) \<in> case_keys (db_cases d)) (db_links d)
     \<and> distinct (map (\<lambda>l. (li_tenant l, li_alert l)) (db_links d))"

lemma has_case_keys: "has_case t i d \<longleftrightarrow> (t, i) \<in> case_keys (db_cases d)"
  by (simp add: has_case_def case_keys_def)

definition db_wf :: "db \<Rightarrow> bool" where
  "db_wf d \<longleftrightarrow> wf_accounts d \<and> wf_rules d \<and> wf_policies d \<and> wf_records d \<and> wf_cases d"

lemmas wf_defs = wf_accounts_def wf_rules_def wf_policies_def wf_records_def wf_cases_def

lemma wf_calls [simp]: "db_wf (d \<lparr> db_calls := n \<rparr>) = db_wf d"
  by (simp add: db_wf_def wf_defs)

lemma wf_next: "db_wf d \<Longrightarrow> db_wf (d \<lparr> db_next := Suc (db_next d) \<rparr>)"
  by (simp add: db_wf_def wf_defs)

lemma wf_stmt: "(\<And>d. db_wf d \<Longrightarrow> db_wf (snd (f d))) \<Longrightarrow> maintains db_wf (stmt f)"
  by (rule maintains_stmt) (simp_all add: maintains_def)

section \<open>Statements\<close>

named_theorems tidy_rows \<open>statements keep the database well-formed\<close>

lemma wf_user [tidy_rows]: "maintains db_wf (create_user t email h role)"
  unfolding create_user_def
  by (rule wf_stmt) (auto simp: db_wf_def wf_defs Let_def)

lemma wf_new_rule [tidy_rows]: "maintains db_wf (create_rule c)"
  unfolding create_rule_def
  by (rule wf_stmt) (auto simp: db_wf_def wf_defs Let_def)

lemma distinct_map_rename:
  assumes "distinct (map k xs)" "\<And>x y. x \<in> set xs \<Longrightarrow> y \<in> set xs \<Longrightarrow> P x \<Longrightarrow> P y \<Longrightarrow> x = y"
    and "\<And>x y. x \<in> set xs \<Longrightarrow> y \<in> set xs \<Longrightarrow> P x \<Longrightarrow> \<not> P y \<Longrightarrow> k (w x) \<noteq> k y"
  shows "distinct (map k (map (\<lambda>x. if P x then w x else x) xs))"
proof -
  have d: "distinct xs" "inj_on k (set xs)" using assms(1) by (auto simp: distinct_map)
  have "inj_on (\<lambda>x. k (if P x then w x else x)) (set xs)"
  proof (rule inj_onI)
    fix x y assume xy: "x \<in> set xs" "y \<in> set xs" "k (if P x then w x else x) = k (if P y then w y else y)"
    then show "x = y"
      using assms(2,3)[OF xy(1,2)] assms(3)[OF xy(2,1)] inj_onD[OF d(2) _ xy(1,2)]
      by (cases "P x"; cases "P y") auto
  qed
  then show ?thesis using d(1) by (simp add: distinct_map comp_def)
qed

lemma wf_write_rule: "maintains db_wf (write_rule t i m)"
  unfolding write_rule_def
proof (rule wf_stmt)
  fix d :: db assume wf: "db_wf d"
  let ?P = "\<lambda>r. dr_tenant r = t \<and> dr_id r = i"
  let ?w = "\<lambda>r. r \<lparr> dr_name := dr_name m, dr_description := dr_description m,
                   dr_severity := dr_severity m, dr_threshold := dr_threshold m,
                   dr_window := dr_window m, dr_condition := dr_condition m,
                   dr_enabled := dr_enabled m, dr_updated := pg_time (db_now d) \<rparr>"
  have ids: "distinct (map dr_id (db_rules d))" using wf by (simp add: db_wf_def wf_rules_def keys_below_def)
  have names: "distinct (map (\<lambda>r. (dr_tenant r, dr_name r)) (map (\<lambda>r. if ?P r then ?w r else r) (db_rules d)))"
    if "\<not> (\<exists>r \<in> set (db_rules d). dr_tenant r = t \<and> dr_name r = dr_name m \<and> dr_id r \<noteq> i)"
  proof (rule distinct_map_rename)
    show "x = y" if "x \<in> set (db_rules d)" "y \<in> set (db_rules d)" "?P x" "?P y" for x y
      using ids that by (auto simp: distinct_map dest: inj_onD)
  qed (use wf that in \<open>auto simp: db_wf_def wf_rules_def\<close>)
  have keys: "keys_below dr_id (db_next d) (map (\<lambda>r. if ?P r then ?w r else r) (db_rules d))"
    using wf by (auto simp: db_wf_def wf_rules_def)
  show "db_wf (snd (case first_row ?P (db_rules d) of None \<Rightarrow> (Inl Db_Error, d)
     | Some cur \<Rightarrow> if \<exists>r \<in> set (db_rules d). dr_tenant r = t \<and> dr_name r = dr_name m \<and> dr_id r \<noteq> i
         then (Inl Db_Error, d)
         else (let w = ?w in (Inr (w cur), d \<lparr> db_rules := map (\<lambda>r. if ?P r then w r else r) (db_rules d) \<rparr>))))"
    using wf names keys by (auto simp: db_wf_def wf_defs Let_def split: option.split)
qed

lemma wf_select: "maintains db_wf (select f)"
  by (rule maintains_select) simp

lemma wf_change_rule [tidy_rows]: "maintains db_wf (update_rule t i u)"
  unfolding update_rule_def get_rule_by_id_def by (intro upkeep wf_select wf_write_rule)

lemma wf_delete_rule [tidy_rows]: "maintains db_wf (delete_rule t i)"
  unfolding delete_rule_def execute_def
  by (rule wf_stmt) (auto simp: db_wf_def wf_defs distinct_map_filter)

lemma wf_audit_event:
  "ae_id e = db_next d \<Longrightarrow> db_wf d \<Longrightarrow> db_wf (snd (insert_audit_event e (d \<lparr> db_next := Suc (db_next d) \<rparr>)))"
  by (auto simp: insert_audit_event_def stmt_def Let_def db_wf_def wf_defs)

lemma distinct_upsert:
  "distinct (map k xs) \<Longrightarrow> k row = t \<Longrightarrow>
     distinct (map k (if t \<in> k ` set xs then map (\<lambda>x. if k x = t then row else x) xs else xs @ [row]))"
proof -
  assume d: "distinct (map k xs)" and k: "k row = t"
  have "map k (map (\<lambda>x. if k x = t then row else x) xs) = map k xs" using k by (induction xs) auto
  then have "distinct (map k (map (\<lambda>x. if k x = t then row else x) xs))" using d by metis
  then show ?thesis using d k by (auto simp del: map_map list.map_comp)
qed

lemma wf_policy [tidy_rows]: "maintains db_wf (upsert_compliance_policy p)"
  unfolding upsert_compliance_policy_def
  by (rule wf_stmt) (simp add: db_wf_def wf_defs Let_def distinct_upsert split del: if_split)

lemma wf_cost [tidy_rows]: "maintains db_wf (upsert_cost_policy p)"
  unfolding upsert_cost_policy_def
  by (rule wf_stmt) (simp add: db_wf_def wf_defs Let_def distinct_upsert split del: if_split)

lemma wf_stats [tidy_rows]: "maintains db_wf (save_stats t x1 x2 x3 x4)"
  unfolding save_stats_def execute_def
  by (rule wf_stmt) (simp add: db_wf_def wf_defs Let_def distinct_upsert split del: if_split)

lemma wf_report [tidy_rows]: "maintains db_wf (insert_reliability_report r)"
  unfolding insert_reliability_report_def
  by (rule wf_stmt) (auto simp: db_wf_def wf_defs Let_def)

lemma wf_playbooks [tidy_rows]: "maintains db_wf (ensure_default_playbooks t)"
  unfolding ensure_default_playbooks_def execute_def
  by (intro upkeep wf_select wf_stmt) (auto simp: db_wf_def wf_defs)

text \<open>Cases.\<close>

lemma wf_event:
  "has_case t i d \<Longrightarrow> db_wf d \<Longrightarrow> db_wf (snd (record_case_event t i ty msg uid em m d))"
  by (auto simp: record_case_event_def stmt_def Let_def db_wf_def wf_defs has_case_keys)

lemma wf_insert_case:
  assumes "ca_id c = db_next d" "case_ok c" "db_wf d"
  shows "db_wf (snd (insert_case c (d \<lparr> db_next := Suc (db_next d) \<rparr>)))"
  using assms by (auto simp: insert_case_def stmt_def Let_def db_wf_def wf_defs case_keys_def list_all_iff)

lemma wf_insert_link:
  "has_case t i d \<Longrightarrow> db_wf d \<Longrightarrow> db_wf (snd (insert_link i a t d))"
  by (auto simp: insert_link_def stmt_def Let_def db_wf_def wf_defs has_case_keys)

lemma new_case_ok: "case_ok (new_case a uid em title summ pb i now)"
proof -
  have "parse_case_status ''NEW'' = Some C_New" using parse_show_case_status[of C_New] by simp
  then show ?thesis unfolding case_ok_def
    by (intro exI[of _ C_New]) (simp add: new_case_def is_final_status_def split: option.split)
qed

lemma wf_announce:
  assumes "has_case (a_tenant a) i d" "db_wf d"
  shows "db_wf (announce_case sh a uid em pb i c d)"
proof -
  let ?J = "\<lambda>d. db_wf d \<and> has_case (a_tenant a) i d"
  have J: "?J d \<Longrightarrow> ?J (ignore (record_case_event (a_tenant a) i ty msg u e m) d)" for ty msg u e m d
    using wf_event maintains_ignore[OF has_case_event] by (auto simp: ignore_def)
  note two = J[OF J, of d]
  show ?thesis using assms J[OF two] two
    by (simp add: announce_case_def Let_def split: option.split)
qed

lemma wf_open_case [tidy_rows]: "maintains db_wf (open_case sh a uid em title summ pb)"
  unfolding maintains_def
proof (intro allI impI)
  fix d assume wf: "db_wf d"
  let ?c = "new_case a uid em title summ pb (db_next d) (db_now d)"
  obtain r d1 where c: "insert_case ?c (d \<lparr> db_next := Suc (db_next d) \<rparr>) = (r, d1)" by fastforce
  have wf1: "db_wf d1" using wf_insert_case[of ?c d, OF _ new_case_ok wf] c by (simp add: new_case_simps)
  obtain q d2 where l: "insert_link (db_next d) (a_id a) (a_tenant a) d1 = (q, d2)" by fastforce
  have "has_case (a_tenant a) (db_next d) d1" if "r = Inr x" for x
    using insert_case_ok[of ?c _ x d1] c that by (simp add: has_case_def new_case_simps)
  moreover have "db_cases d2 = db_cases d1" using insert_link_ok[OF l] by simp
  ultimately show "db_wf (snd (open_case sh a uid em title summ pb d))"
    using wf1 l c wf_insert_link[of "a_tenant a" "db_next d" d1 "a_id a"]
    by (auto simp: open_case_def bind_ok_def fresh_uuid_def has_case_def intro!: wf_announce split: sum.split)
qed

lemma case_keys_rewrite: "case_keys (map (\<lambda>c. if P c then written_case m now c else c) cs) = case_keys cs"
  unfolding case_keys_def by (subst map_key_update) simp_all

lemma wf_write_case: "maintains db_wf (\<lambda>d. write_case t i (merged_case ch (db_now d) c) d)"
  unfolding maintains_def
proof (intro allI impI)
  fix d assume wf: "db_wf d"
  let ?m = "merged_case ch (db_now d) c"
  let ?cs = "map (\<lambda>x. if ca_tenant x = t \<and> ca_id x = i then written_case ?m (db_now d) x else x) (db_cases d)"
  have "map (\<lambda>c. (ca_tenant c, ca_alert_id c)) ?cs = map (\<lambda>c. (ca_tenant c, ca_alert_id c)) (db_cases d)"
    by (rule map_key_update) simp
  moreover have "keys_below ca_id (db_next d) ?cs" "list_all case_ok ?cs"
    using wf by (auto simp: db_wf_def wf_cases_def list_all_iff merged_ok)
  ultimately have "db_wf (d \<lparr> db_calls := n, db_cases := ?cs \<rparr>)" for n
    using wf by (simp add: db_wf_def wf_defs case_keys_rewrite del: map_map list.map_comp)
  moreover have "snd (write_case t i ?m d)
      = d \<lparr> db_calls := Suc (db_calls d), db_cases := ?cs \<rparr> \<or> snd (write_case t i ?m d) = d \<lparr> db_calls := Suc (db_calls d) \<rparr>"
    by (auto simp: write_case_def stmt_def Let_def written_case_def split: option.split)
  ultimately show "db_wf (snd (write_case t i ?m d))" using wf by (elim disjE) simp_all
qed

lemma wf_change_case [tidy_rows]: "maintains db_wf (update_case t i ch)"
proof -
  have found: "maintains (\<lambda>d. db_wf d \<and> has_case t i d) (\<lambda>d. write_case t i (merged_case ch (db_now d) c) d)" for c
    using maintains_snd[OF wf_write_case] maintains_snd[OF has_case_written] by (auto simp: maintains_def)
  have event: "db_wf d \<and> has_case t i d \<Longrightarrow> db_wf (ignore (record_case_event t i ty msg u e m) d)
      \<and> has_case t i (ignore (record_case_event t i ty msg u e m) d)" for d ty msg u e m
    using wf_event maintains_ignore[OF has_case_event] by (auto simp: ignore_def)
  have after: "maintains (\<lambda>d. db_wf d \<and> has_case t i d) (bind_ok (\<lambda>d. write_case t i (merged_case ch (db_now d) c) d) (\<lambda>r d.
           let d1 = (if b1 r then ignore (record_case_event t i ty (msg r) (u r) (e r) (m r)) d else d);
               d2 = (if b2 r then ignore (record_case_event t i ty' msg' (u' r) (e' r) (m' r)) d1 else d1)
           in (Inr r, d2)))" for c b1 ty msg u e m b2 ty' msg' u' e' m'
    by (rule maintains_bind[OF found]) (auto simp: maintains_def Let_def event)
  show ?thesis
    unfolding maintains_def
  proof (intro allI impI)
    fix d assume wf: "db_wf d"
    let ?d = "d \<lparr> db_calls := db_calls d + 1 \<rparr>"
    consider "db_fault d (db_calls d)" | "\<not> db_fault d (db_calls d)" "first_row (\<lambda>c. ca_tenant c = t \<and> ca_id c = i) (db_cases d) = None"
      | c where "\<not> db_fault d (db_calls d)" "first_row (\<lambda>c. ca_tenant c = t \<and> ca_id c = i) (db_cases d) = Some c"
      by fastforce
    then show "db_wf (snd (update_case t i ch d))"
    proof cases
      case (3 c)
      then have "has_case t i ?d" by (auto simp: has_case_def dest!: first_row_Some)
      then have ready: "db_wf ?d \<and> has_case t i ?d" using wf by simp
      have get: "get_case_by_id t i d = (Inr (Some c), ?d)" using 3 by (simp add: get_case_by_id_def select_cases)
      have "bind_ok (get_case_by_id t i) f d = f (Some c) ?d" for f :: "case_record option \<Rightarrow> case_record dbop"
        using get by (simp add: bind_ok_def)
      then show ?thesis unfolding update_case_def
        by (simp only: option.case) (rule conjunct1[OF maintains_snd[OF after ready]])
    qed (use wf in \<open>simp_all add: update_case_def bind_ok_def get_case_by_id_def select_cases fail_def\<close>)
  qed
qed

text \<open>Alerts and retention.\<close>

lemma wf_alert_rows: "db_wf d \<Longrightarrow> distinct (map ar_id rows) \<Longrightarrow> db_wf (d \<lparr> db_alerts := rows \<rparr>)"
  by (simp add: db_wf_def wf_defs)

lemma wf_alert_ids: "db_wf d \<Longrightarrow> distinct (map ar_id (db_alerts d))"
  by (simp add: db_wf_def wf_records_def)

lemma wf_insert_alerts [tidy_rows]: "maintains db_wf (insert_alerts as)"
proof -
  have "map ar_id (map row_of_alert as) = map a_id as" by (simp add: row_of_alert_def comp_def)
  then have ids: "map ar_id (xs @ map row_of_alert as) = map ar_id xs @ map a_id as" for xs by simp
  show ?thesis unfolding insert_alerts_def
    by (rule wf_stmt)
      (auto intro!: wf_alert_rows simp: ids wf_alert_ids list_all_iff image_iff simp del: map_append list.map_comp map_map, metis)
qed

lemma upsert_row_ids: "set (map ar_id (upsert_row a rows)) \<subseteq> insert (a_id a) (set (map ar_id rows))"
  by (auto simp: upsert_row_def row_of_alert_def)

lemma upsert_row_distinct:
  assumes "distinct (map ar_id rows)" "\<forall>r \<in> set rows. ar_id r = a_id a \<longrightarrow> ar_tenant r = a_tenant a"
  shows "distinct (map ar_id (upsert_row a rows))"
proof -
  have "map ar_id (map (\<lambda>r. if P r then w r else r) rows) = map ar_id rows" if "\<forall>r. ar_id (w r) = ar_id r" for P w
    by (rule map_key_update) (simp add: that)
  then show ?thesis using assms
    by (auto simp: upsert_row_def row_of_alert_def simp del: map_map list.map_comp)
qed

lemma upsert_rows_distinct:
  assumes "distinct (map ar_id rows)" "distinct (map a_id as)"
    and "\<forall>a \<in> set as. \<forall>r \<in> set rows. ar_id r = a_id a \<longrightarrow> ar_tenant r = a_tenant a"
  shows "distinct (map ar_id (fold upsert_row as rows))"
  using assms
proof (induction as arbitrary: rows)
  case (Cons a as)
  have "ar_tenant r = a_tenant b" if "b \<in> set as" "r \<in> set (upsert_row a rows)" "ar_id r = a_id b" for b r
  proof -
    have "ar_id r \<noteq> a_id a" using Cons.prems(2) that(1,3) by force
    then have "\<exists>r' \<in> set rows. ar_id r' = ar_id r \<and> ar_tenant r' = ar_tenant r"
      using that(2) by (auto simp: upsert_row_def row_of_alert_def split: if_splits)
    then show ?thesis using Cons.prems(3) that(1,3) by auto
  qed
  then show ?case using Cons upsert_row_distinct[of rows a] by simp
qed simp

lemma wf_upsert_alerts [tidy_rows]: "maintains db_wf (upsert_alerts_batch as)"
  unfolding upsert_alerts_batch_def
  by (intro upkeep wf_stmt) (auto simp: list_all_iff wf_alert_ids intro!: wf_alert_rows upsert_rows_distinct)

lemma wf_update_alert [tidy_rows]: "maintains db_wf (update_alert a)"
  unfolding update_alert_def execute_def update_alert_rows_def
  by (intro upkeep wf_select wf_stmt)
    (auto simp: map_key_update wf_alert_ids intro!: wf_alert_rows simp del: map_map list.map_comp)

lemma wf_purges [tidy_rows]:
  "maintains db_wf (purge_audit_events_before t cutoff)" "maintains db_wf (purge_alerts_before t cutoff)"
  unfolding purge_audit_events_before_def purge_alerts_before_def
  by (rule wf_stmt, auto simp: db_wf_def wf_defs Let_def distinct_map_filter)+

lemma wf_environment: "db_wf (d \<lparr> db_now := n \<rparr>) = db_wf d" "db_wf (d \<lparr> db_fault := h \<rparr>) = db_wf d"
  by (simp_all add: db_wf_def wf_defs)

interpretation formed: purge_contract db_wf
proof unfold_locales
  show "db_wf (snd (insert_audit_event e (d \<lparr> db_next := db_next d + 1 \<rparr>)))" if "ae_id e = db_next d" "db_wf d" for e d
    using wf_audit_event[OF that] by simp
  show "db_wf (snd (record_case_event t i ty msg uid em m d))" if "has_case t i d" "db_wf d" for t i ty msg uid em m d
    by (rule wf_event[OF that])
  show "db_wf (d \<lparr> db_next := db_next d + 1 \<rparr>)" if "db_wf d" for d using wf_next[OF that] by simp
qed (simp_all add: tidy_rows wf_environment)

end
