(* ===== verification/Growth.thy ===== *)
theory Growth
  imports Wellformed "HOL-Library.Sublist"
begin

text \<open>Tables that only grow, audit events that are never altered, and the life of a case: further
interpretations of the contracts of \<open>Background\<close>.\<close>

section \<open>Tables that only grow\<close>

text \<open>Accounts, audit events, reports, playbooks, links and timeline events are appended; \<open>d0\<close> is an earlier
state of the database.\<close>

definition appended :: "db \<Rightarrow> db \<Rightarrow> bool" where
  "appended d0 d \<longleftrightarrow> prefix (db_users d0) (db_users d) \<and> prefix (db_audit d0) (db_audit d)
     \<and> prefix (db_reports d0) (db_reports d) \<and> prefix (db_playbooks d0) (db_playbooks d)
     \<and> prefix (db_links d0) (db_links d) \<and> prefix (db_timeline d0) (db_timeline d)"

lemma appended_refl [simp]: "appended d d"
  by (simp add: appended_def)

lemma appended_stmt:
  "(\<And>d. appended d0 d \<Longrightarrow> appended d0 (snd (f d))) \<Longrightarrow> maintains (appended d0) (stmt f)"
  by (rule maintains_stmt) (simp_all add: maintains_def appended_def)

lemma appended_select: "maintains (appended d0) (select f)"
  by (rule maintains_select) (simp add: appended_def)

lemma appended_uuid: "maintains (appended d0) fresh_uuid"
  by (simp add: maintains_def fresh_uuid_def appended_def)

named_theorems appending \<open>statements only append\<close>

lemma appended_statements [appending]:
  "maintains (appended d0) (create_user t email h role)" "maintains (appended d0) (create_rule c)"
  "maintains (appended d0) (write_rule t i m)" "maintains (appended d0) (insert_audit_event e)"
  "maintains (appended d0) (upsert_compliance_policy p)" "maintains (appended d0) (upsert_cost_policy k)"
  "maintains (appended d0) (insert_reliability_report r)" "maintains (appended d0) (insert_case x)"
  "maintains (appended d0) (record_case_event t i ty msg uid em js)" "maintains (appended d0) (insert_link i n t)"
  "maintains (appended d0) (write_case t i x)" "maintains (appended d0) (insert_alerts as)"
  unfolding create_user_def create_rule_def write_rule_def insert_audit_event_def upsert_compliance_policy_def
    upsert_cost_policy_def insert_reliability_report_def insert_case_def record_case_event_def insert_link_def
    write_case_def insert_alerts_def
  by (rule appended_stmt, auto simp: appended_def Let_def split: option.split)+

lemma appended_executed [appending]:
  "maintains (appended d0) (delete_rule t i)" "maintains (appended d0) (save_stats t x1 x2 x3 x4)"
  unfolding delete_rule_def save_stats_def execute_def
  by (rule appended_stmt, auto simp: appended_def Let_def)+

lemma appended_playbooks [appending]: "maintains (appended d0) (ensure_default_playbooks t)"
  unfolding ensure_default_playbooks_def execute_def
  by (intro upkeep appended_select appended_stmt) (auto simp: appended_def)

lemma appended_alerts [appending]:
  "maintains (appended d0) (upsert_alerts_batch as)" "maintains (appended d0) (update_alert a)"
  unfolding upsert_alerts_batch_def update_alert_def execute_def update_alert_rows_def
  by (intro upkeep appended_select appended_stmt, auto simp: appended_def)+

lemma appended_rule [appending]: "maintains (appended d0) (update_rule t i u)"
  unfolding update_rule_def get_rule_by_id_def by (intro upkeep appended_select appending)

lemma appended_ignored: "appended d0 d \<Longrightarrow> appended d0 (ignore (record_case_event t i ty msg uid em js) d)"
  by (rule maintains_ignore[OF appended_statements(9)])

lemma appended_case [appending]: "maintains (appended d0) (update_case t i ch)"
proof -
  have "maintains (appended d0) (\<lambda>d. write_case t i (merged_case ch (db_now d) c) d)" for c
    by (rule maintains_atI) (rule appending)
  then show ?thesis unfolding update_case_def get_case_by_id_def
    by (intro maintains_bind maintains_option upkeep appended_select)
      (auto simp: maintains_def Let_def intro!: appended_ignored)
qed

lemma appended_open [appending]: "maintains (appended d0) (open_case sh a uid em title summ pb)"
proof -
  have "maintains (appended d0) (\<lambda>d. insert_case (new_case a uid em title summ pb i (db_now d)) d)" for i
    by (rule maintains_atI) (rule appending)
  then show ?thesis unfolding open_case_def
    by (intro maintains_bind appended_uuid appending)
      (auto simp: maintains_def announce_case_def Let_def intro!: appended_ignored split: option.split)
qed

lemma appended_environment:
  "appended d0 (d \<lparr> db_calls := n \<rparr>) = appended d0 d" "appended d0 (d \<lparr> db_next := n \<rparr>) = appended d0 d"
  "appended d0 (d \<lparr> db_now := i \<rparr>) = appended d0 d" "appended d0 (d \<lparr> db_fault := h \<rparr>) = appended d0 d"
  by (simp_all add: appended_def)

interpretation grown: store_contract "appended d0" for d0
proof unfold_locales
  show "appended d0 (snd (insert_audit_event e (d \<lparr> db_next := db_next d + 1 \<rparr>)))" if "appended d0 d" for e d
    using maintains_snd[OF appended_statements(4)] that by (simp add: appended_environment)
  show "appended d0 (snd (record_case_event t i ty msg uid em m d))" if "appended d0 d" for t i ty msg uid em m d
    using maintains_snd[OF appended_statements(9) that] .
qed (simp_all add: appending appended_environment)

section \<open>Audit events are never altered\<close>

text \<open>\<open>e\<close> was handed out an id, and no row has that id with other contents: the event is there as it was, or
it is gone.\<close>

definition unaltered :: "audit_event \<Rightarrow> db \<Rightarrow> bool" where
  "unaltered e d \<longleftrightarrow> ae_id e < db_next d \<and> (\<forall>x \<in> set (db_audit d). ae_id x = ae_id e \<longrightarrow> x = e)"

lemma unaltered_start: "db_wf d \<Longrightarrow> e \<in> set (db_audit d) \<Longrightarrow> unaltered e d"
  by (auto simp: unaltered_def db_wf_def wf_records_def keys_below_def list_all_iff distinct_map dest: inj_onD)

lemma unaltered_stmt:
  "(\<And>d. unaltered e d \<Longrightarrow> unaltered e (snd (f d))) \<Longrightarrow> maintains (unaltered e) (stmt f)"
  by (rule maintains_stmt) (simp_all add: maintains_def unaltered_def)

lemma unaltered_select: "maintains (unaltered e) (select f)"
  by (rule maintains_select) (simp add: unaltered_def)

lemma unaltered_uuid: "maintains (unaltered e) fresh_uuid"
  by (simp add: maintains_def fresh_uuid_def unaltered_def)

named_theorems altering \<open>statements alter no audit event\<close>

lemma unaltered_statements [altering]:
  "maintains (unaltered e) (create_user t email h role)" "maintains (unaltered e) (create_rule c)"
  "maintains (unaltered e) (write_rule t i m)"
  "maintains (unaltered e) (upsert_compliance_policy p)" "maintains (unaltered e) (upsert_cost_policy k)"
  "maintains (unaltered e) (insert_reliability_report r)" "maintains (unaltered e) (insert_case x)"
  "maintains (unaltered e) (record_case_event t i ty msg uid em js)" "maintains (unaltered e) (insert_link i n t)"
  "maintains (unaltered e) (write_case t i x)" "maintains (unaltered e) (insert_alerts as)"
  "maintains (unaltered e) (purge_audit_events_before t cutoff)" "maintains (unaltered e) (purge_alerts_before t cutoff)"
  unfolding create_user_def create_rule_def write_rule_def upsert_compliance_policy_def
    upsert_cost_policy_def insert_reliability_report_def insert_case_def record_case_event_def insert_link_def
    write_case_def insert_alerts_def purge_audit_events_before_def purge_alerts_before_def
  by (rule unaltered_stmt, auto simp: unaltered_def Let_def split: option.split)+

lemma unaltered_executed [altering]:
  "maintains (unaltered e) (delete_rule t i)" "maintains (unaltered e) (save_stats t x1 x2 x3 x4)"
  unfolding delete_rule_def save_stats_def execute_def
  by (rule unaltered_stmt, auto simp: unaltered_def Let_def)+

lemma unaltered_playbooks [altering]: "maintains (unaltered e) (ensure_default_playbooks t)"
  unfolding ensure_default_playbooks_def execute_def
  by (intro upkeep unaltered_select unaltered_stmt) (auto simp: unaltered_def)

lemma unaltered_alerts [altering]:
  "maintains (unaltered e) (upsert_alerts_batch as)" "maintains (unaltered e) (update_alert a)"
  unfolding upsert_alerts_batch_def update_alert_def execute_def update_alert_rows_def
  by (intro upkeep unaltered_select unaltered_stmt, auto simp: unaltered_def)+

lemma unaltered_rule [altering]: "maintains (unaltered e) (update_rule t i u)"
  unfolding update_rule_def get_rule_by_id_def by (intro upkeep unaltered_select altering)

lemma unaltered_ignored: "unaltered e d \<Longrightarrow> unaltered e (ignore (record_case_event t i ty msg uid em js) d)"
  by (rule maintains_ignore[OF unaltered_statements(8)])

lemma unaltered_case [altering]: "maintains (unaltered e) (update_case t i ch)"
proof -
  have "maintains (unaltered e) (\<lambda>d. write_case t i (merged_case ch (db_now d) c) d)" for c
    by (rule maintains_atI) (rule altering)
  then show ?thesis unfolding update_case_def get_case_by_id_def
    by (intro maintains_bind maintains_option upkeep unaltered_select)
      (auto simp: maintains_def Let_def intro!: unaltered_ignored)
qed

lemma unaltered_open [altering]: "maintains (unaltered e) (open_case sh a uid em title summ pb)"
proof -
  have "maintains (unaltered e) (\<lambda>d. insert_case (new_case a uid em title summ pb i (db_now d)) d)" for i
    by (rule maintains_atI) (rule altering)
  then show ?thesis unfolding open_case_def
    by (intro maintains_bind unaltered_uuid altering)
      (auto simp: maintains_def announce_case_def Let_def intro!: unaltered_ignored split: option.split)
qed

interpretation unaltered: purge_contract "unaltered e" for e
proof unfold_locales
  show "unaltered e (snd (insert_audit_event x (d \<lparr> db_next := db_next d + 1 \<rparr>)))" if "ae_id x = db_next d" "unaltered e d" for x d
    using that by (auto simp: insert_audit_event_def stmt_def Let_def unaltered_def)
  show "unaltered e (snd (record_case_event t i ty msg uid em m d))" if "unaltered e d" for t i ty msg uid em m d
    using maintains_snd[OF unaltered_statements(8) that] .
qed (simp_all add: altering, simp_all add: unaltered_def)

section \<open>The life of a case\<close>

text \<open>The cases \<open>cs\<close> of an earlier state are still there, each as updates may have left it.\<close>

definition followed :: "case_record list \<Rightarrow> db \<Rightarrow> bool" where
  "followed cs d \<longleftrightarrow> db_wf d \<and> (\<exists>xs ys. db_cases d = xs @ ys \<and> list_all2 case_follows cs xs)"

lemma follows_refl: "list_all2 case_follows cs cs"
  by (rule list_all2_refl) (simp add: case_follows_def)

lemma followed_start: "db_wf d \<Longrightarrow> followed (db_cases d) d"
  unfolding followed_def using follows_refl by (metis append_Nil2)

text \<open>A statement that keeps the database well-formed and only appends cases.\<close>

lemma followed_append:
  assumes "followed cs d" "db_wf d'" "prefix (db_cases d) (db_cases d')"
  shows "followed cs d'"
proof -
  obtain xs ys zs where "db_cases d = xs @ ys" "list_all2 case_follows cs xs" "db_cases d' = db_cases d @ zs"
    using assms(1,3) by (auto simp: followed_def prefix_def)
  then have "db_cases d' = xs @ (ys @ zs) \<and> list_all2 case_follows cs xs" by simp
  then show ?thesis using assms(2) unfolding followed_def by blast
qed

lemma followed_wf: "followed cs d \<Longrightarrow> db_wf d"
  by (simp add: followed_def)

lemma followed_by: "maintains db_wf m \<Longrightarrow> preserves db_cases m \<Longrightarrow> maintains (followed cs) m"
proof -
  assume m: "maintains db_wf m" "preserves db_cases m"
  have "followed cs (snd (m d))" if "followed cs d" for d
    by (rule followed_append[OF that maintains_snd[OF m(1) followed_wf[OF that]]]) (simp add: preserves_snd[OF m(2)])
  then show ?thesis by (simp add: maintains_def)
qed

lemma cases_stmt: "preserves db_cases f \<Longrightarrow> preserves db_cases (stmt f)"
  by (simp add: preserves_def stmt_def Let_def)

lemma cases_select: "preserves db_cases (select f)"
  unfolding select_def by (rule cases_stmt) (rule frame)

named_theorems caseless \<open>statements that touch no case\<close>

lemma cases_kept [caseless]:
  "preserves db_cases (create_user t email h role)" "preserves db_cases (create_rule c)"
  "preserves db_cases (delete_rule t i)" "preserves db_cases (upsert_compliance_policy p)"
  "preserves db_cases (upsert_cost_policy k)" "preserves db_cases (insert_reliability_report r)"
  "preserves db_cases (insert_alerts as)" "preserves db_cases (save_stats t x1 x2 x3 x4)"
  "preserves db_cases (purge_audit_events_before t cutoff)" "preserves db_cases (purge_alerts_before t cutoff)"
  "preserves db_cases (insert_audit_event e)" "preserves db_cases (record_case_event t j ty msg uid em js)"
  "preserves db_cases (write_rule t i m)"
  unfolding create_user_def create_rule_def delete_rule_def upsert_compliance_policy_def upsert_cost_policy_def
    insert_reliability_report_def insert_alerts_def save_stats_def execute_def purge_audit_events_before_def
    purge_alerts_before_def insert_audit_event_def record_case_event_def write_rule_def
  by (rule cases_stmt, simp add: preserves_def Let_def split: option.split)+

lemma cases_kept_playbooks [caseless]: "preserves db_cases (ensure_default_playbooks t)"
  unfolding ensure_default_playbooks_def execute_def
  by (intro frame cases_select cases_stmt) (simp add: preserves_def)

lemma cases_kept_alerts [caseless]:
  "preserves db_cases (upsert_alerts_batch as)" "preserves db_cases (update_alert a)"
  unfolding upsert_alerts_batch_def update_alert_def execute_def update_alert_rows_def
  by (intro frame cases_select cases_stmt, simp add: preserves_def)+

lemma cases_kept_rule [caseless]: "preserves db_cases (update_rule t i u)"
  unfolding update_rule_def get_rule_by_id_def by (intro frame cases_select caseless)

text \<open>The two operations on cases.\<close>

lemma followed_update: "maintains (followed cs) (update_case t i ch)"
  unfolding maintains_def
proof (intro allI impI)
  fix d assume f: "followed cs d"
  then have ok: "cases_ok d" by (auto simp: followed_def cases_ok_def db_wf_def wf_cases_def keys_below_def)
  obtain xs ys where c: "db_cases d = xs @ ys" "list_all2 case_follows cs xs" using f by (auto simp: followed_def)
  have "list_all2 case_follows (xs @ ys) (db_cases (snd (update_case t i ch d)))"
    using update_case_follows(2)[OF ok] c(1) by simp
  then obtain xs' ys' where c': "db_cases (snd (update_case t i ch d)) = xs' @ ys'" "list_all2 case_follows xs xs'"
    unfolding list_all2_append1 by blast
  have "list_all2 case_follows cs xs'"
    using list_all2_trans[of case_follows case_follows case_follows, OF _ c(2) c'(2)] follows_trans by blast
  then show "followed cs (snd (update_case t i ch d))"
    using f c'(1) maintains_snd[OF wf_change_case, of d] unfolding followed_def by blast
qed

lemma open_case_appends: "prefix (db_cases d) (db_cases (snd (open_case sh a uid em title summ pb d)))"
proof -
  have "db_cases (announce_case sh a uid em pb i c d) = db_cases d" for i c d
    using announce_same by (auto simp: same_but_timeline_def)
  then show ?thesis
    by (auto simp: open_case_def bind_ok_def fresh_uuid_def insert_case_def insert_link_def stmt_def Let_def
        split: prod.split sum.split)
qed

lemma followed_open: "maintains (followed cs) (open_case sh a uid em title summ pb)"
proof -
  have "followed cs (snd (open_case sh a uid em title summ pb d))" if "followed cs d" for d
    by (rule followed_append[OF that maintains_snd[OF wf_open_case followed_wf[OF that]] open_case_appends])
  then show ?thesis by (simp add: maintains_def)
qed

interpretation followed: purge_contract "followed cs" for cs
proof unfold_locales
  show "followed cs (snd (insert_audit_event e (d \<lparr> db_next := db_next d + 1 \<rparr>)))"
    if "ae_id e = db_next d" "followed cs d" for e d
    using that wf_audit_event[of e d] preserves_snd[OF cases_kept(11)] by (simp add: followed_def)
  show "followed cs (snd (record_case_event t i ty msg uid em m d))" if "has_case t i d" "followed cs d" for t i ty msg uid em m d
    using that wf_event[of t i d] preserves_snd[OF cases_kept(12)] by (simp add: followed_def)
qed (simp_all add: followed_by tidy_rows caseless followed_update followed_open,
  simp_all add: followed_def wf_next wf_environment)

section \<open>Statements that touch no alert\<close>

text \<open>The alerts, and the faults to come, are out of reach of every handler and of the tasks of
\<open>task_contract\<close>.\<close>

definition alert_view :: "db \<Rightarrow> alert_row list \<times> (nat \<Rightarrow> bool)" where
  "alert_view d = (db_alerts d, db_fault d)"

lemma alert_view_fields [simp]:
  "alert_view (d \<lparr> db_calls := n \<rparr>) = alert_view d" "alert_view (d \<lparr> db_next := n \<rparr>) = alert_view d"
  "alert_view (d \<lparr> db_now := i \<rparr>) = alert_view d"
  by (simp_all add: alert_view_def)

lemma view_stmt: "preserves alert_view f \<Longrightarrow> preserves alert_view (stmt f)"
  by (simp add: preserves_def stmt_def Let_def)

lemma view_select: "preserves alert_view (select f)"
  unfolding select_def by (rule view_stmt) (rule frame)

named_theorems alertless \<open>statements that touch no alert\<close>

lemma view_kept [alertless]:
  "preserves alert_view (create_user t email h role)" "preserves alert_view (create_rule c)"
  "preserves alert_view (delete_rule t i)" "preserves alert_view (upsert_compliance_policy p)"
  "preserves alert_view (upsert_cost_policy k)" "preserves alert_view (insert_reliability_report r)"
  "preserves alert_view (save_stats t x1 x2 x3 x4)"
  "preserves alert_view (insert_audit_event e)" "preserves alert_view (record_case_event t j ty msg uid em js)"
  "preserves alert_view (write_rule t i m)" "preserves alert_view (write_case t j cs)"
  "preserves alert_view (insert_case cs)" "preserves alert_view (insert_link j n t)"
  unfolding create_user_def create_rule_def delete_rule_def upsert_compliance_policy_def upsert_cost_policy_def
    insert_reliability_report_def save_stats_def execute_def insert_audit_event_def record_case_event_def
    write_rule_def write_case_def insert_case_def insert_link_def
  by (rule view_stmt, simp add: preserves_def Let_def alert_view_def split: option.split)+

lemma view_playbooks [alertless]: "preserves alert_view (ensure_default_playbooks t)"
  unfolding ensure_default_playbooks_def execute_def
  by (intro frame view_select view_stmt) (simp add: preserves_def alert_view_def)

lemma view_rule [alertless]: "preserves alert_view (update_rule t i u)"
  unfolding update_rule_def get_rule_by_id_def by (intro frame view_select alertless)

lemma view_open [alertless]: "preserves alert_view (open_case sh a uid em title summ pb)"
proof -
  have "alert_view (announce_case sh a uid em pb i c d) = alert_view d" for i c d
    by (simp add: announce_case_def Let_def preserves_ignore[OF view_kept(9)] split: option.split)
  then show ?thesis
    by (auto simp: preserves_def open_case_def bind_ok_def fresh_uuid_def insert_case_def insert_link_def stmt_def Let_def
        alert_view_def split: prod.split sum.split)
qed

lemma view_case [alertless]: "preserves alert_view (update_case t i ch)"
  unfolding update_case_def get_case_by_id_def
  by (intro frame view_select alertless preserves_atI)
    (auto simp: Let_def preserves_def preserves_ignore[OF view_kept(9)] preserves_snd[OF view_kept(11)])

lemma keeps_view: "preserves alert_view m \<Longrightarrow> maintains (\<lambda>d. alert_view d = v) m"
  by (simp add: maintains_def preserves_def)

interpretation quiet: task_contract "\<lambda>d. alert_view d = v" for v
proof unfold_locales
  show "alert_view (snd (insert_audit_event e (d \<lparr> db_next := db_next d + 1 \<rparr>))) = v" if "alert_view d = v" for e d
    using that preserves_snd[OF view_kept(8)] by simp
  show "alert_view (snd (record_case_event t i ty msg uid em m d)) = v" if "alert_view d = v" for t i ty msg uid em m d
    using that preserves_snd[OF view_kept(9)] by simp
qed (simp_all add: alertless keeps_view)

end
