(* ===== verification/System.thy ===== *)
theory System
  imports Runtime Consumers Growth Isolation
begin

text \<open>The running service (\<open>main.rs\<close>): its state, one step per task of the process, and its runs.  A step
handles one message, one request or one tick as a whole; the order of the steps is free, which is the
interleaving of the tasks between their messages.\<close>

section \<open>The state\<close>

text \<open>The server holds the database, the cache and the ingest channel (\<open>ig_sent\<close>).  The other queues are the
topic of logs, the log channel and the indexer channel (in the log consumer), the mailboxes of the detection
workers, the alert topic (in the pipeline), the channel of the alert worker (in the alert consumer), the channel
of the batcher (in the worker) and its buffer.  The copies of the database and of the cache in the component
records are set before a step of the component and read after it.\<close>

record ('s, 'k) siem =
  si_server :: "('s, 'k) server"
  si_logs :: "log list"
  si_consumer :: "'s rcache log_consumer"
  si_boxes :: "nat \<Rightarrow> log list"
  si_rules :: rule_index
  si_stats :: local_stats
  si_pipe :: pipeline
  si_alerts :: "'s rcache alert_consumer"
  si_worker :: "'s worker"
  si_batcher :: batcher
  si_indexer :: "'s indexer"
  si_elastic :: "string option"
  si_board :: "dashboard_stats list"
  si_retaining :: bool

text \<open>What stays fixed while the service runs: the settings, the response policies and the libraries.\<close>

record ('s, 'k) plant =
  pt_wiring :: "('s, 'k) wiring"
  pt_settings :: settings
  pt_codec :: rule_codec
  pt_engine :: engine_ext
  pt_group_hash :: "string \<Rightarrow> error + string"
  pt_fields_hash :: "string list \<Rightarrow> nat"
  pt_sample_hash :: "nat \<Rightarrow> nat"
  pt_limits :: limit_config
  pt_pause :: bool
  pt_pause_timeout :: nat
  pt_response :: response_engine
  pt_slack :: "alert \<Rightarrow> bool"
  pt_batch :: batch_env
  pt_show_slo :: "slo_snapshot \<Rightarrow> json"
  pt_es_host :: string

definition pt_redis :: "('s, 'k) plant \<Rightarrow> 's redis" where
  "pt_redis P = ev_rd (wi_env (pt_wiring P))"

definition si_app :: "('s, 'k) siem \<Rightarrow> 's app" where
  "si_app S = ig_app (sv_ingest (si_server S))"

abbreviation si_db :: "('s, 'k) siem \<Rightarrow> db" where
  "si_db S \<equiv> ap_db (si_app S)"

abbreviation si_cache :: "('s, 'k) siem \<Rightarrow> 's rcache" where
  "si_cache S \<equiv> ap_cache (si_app S)"

abbreviation si_now :: "('s, 'k) siem \<Rightarrow> instant" where
  "si_now S \<equiv> db_now (si_db S)"

definition on_ingest :: "('s ingest \<Rightarrow> 's ingest) \<Rightarrow> ('s, 'k) siem \<Rightarrow> ('s, 'k) siem" where
  "on_ingest f S = S \<lparr> si_server := (si_server S) \<lparr> sv_ingest := f (sv_ingest (si_server S)) \<rparr> \<rparr>"

definition on_state :: "('s app \<Rightarrow> 's app) \<Rightarrow> ('s, 'k) siem \<Rightarrow> ('s, 'k) siem" where
  "on_state f S = on_ingest (on_app f) S"

definition put_cache :: "'s rcache \<Rightarrow> ('s, 'k) siem \<Rightarrow> ('s, 'k) siem" where
  "put_cache c S = on_state (\<lambda>a. a \<lparr> ap_cache := c \<rparr>) S"

definition put_db :: "db \<Rightarrow> ('s, 'k) siem \<Rightarrow> ('s, 'k) siem" where
  "put_db d S = on_state (\<lambda>a. a \<lparr> ap_db := d \<rparr>) S"

lemma si_app_updates [simp]:
  "si_app (on_ingest f S) = ig_app (f (sv_ingest (si_server S)))"
  "si_app (on_state h S) = h (si_app S)"
  "si_app (put_cache c S) = (si_app S) \<lparr> ap_cache := c \<rparr>" "si_app (put_db d S) = (si_app S) \<lparr> ap_db := d \<rparr>"
  by (simp_all add: si_app_def on_ingest_def on_state_def put_cache_def put_db_def on_app_def)

lemma si_app_fields [simp]:
  "si_app (S \<lparr> si_server := (si_server S) \<lparr> sv_keys := ks \<rparr> \<rparr>) = si_app S"
  "si_app (S \<lparr> si_logs := a1 \<rparr>) = si_app S" "si_app (S \<lparr> si_consumer := a2 \<rparr>) = si_app S"
  "si_app (S \<lparr> si_boxes := a3 \<rparr>) = si_app S" "si_app (S \<lparr> si_rules := a4 \<rparr>) = si_app S"
  "si_app (S \<lparr> si_stats := a5 \<rparr>) = si_app S" "si_app (S \<lparr> si_pipe := a6 \<rparr>) = si_app S"
  "si_app (S \<lparr> si_alerts := a7 \<rparr>) = si_app S" "si_app (S \<lparr> si_worker := a8 \<rparr>) = si_app S"
  "si_app (S \<lparr> si_batcher := a9 \<rparr>) = si_app S" "si_app (S \<lparr> si_indexer := a10 \<rparr>) = si_app S"
  "si_app (S \<lparr> si_elastic := a11 \<rparr>) = si_app S" "si_app (S \<lparr> si_board := a12 \<rparr>) = si_app S" "si_app (S \<lparr> si_retaining := a13 \<rparr>) = si_app S"
  by (simp_all add: si_app_def)

lemma update_fields [simp]:
  "si_logs (on_ingest f S) = si_logs S" "si_consumer (on_ingest f S) = si_consumer S"
  "si_boxes (on_ingest f S) = si_boxes S" "si_rules (on_ingest f S) = si_rules S"
  "si_pipe (on_ingest f S) = si_pipe S" "si_alerts (on_ingest f S) = si_alerts S"
  "si_worker (on_ingest f S) = si_worker S" "si_batcher (on_ingest f S) = si_batcher S"
  "si_stats (on_ingest f S) = si_stats S" "si_indexer (on_ingest f S) = si_indexer S"
  "si_logs (on_state h S) = si_logs S" "si_consumer (on_state h S) = si_consumer S"
  "si_boxes (on_state h S) = si_boxes S" "si_rules (on_state h S) = si_rules S"
  "si_pipe (on_state h S) = si_pipe S" "si_alerts (on_state h S) = si_alerts S"
  "si_worker (on_state h S) = si_worker S" "si_batcher (on_state h S) = si_batcher S"
  "si_stats (on_state h S) = si_stats S" "si_indexer (on_state h S) = si_indexer S"
  "si_logs (put_cache c S) = si_logs S" "si_consumer (put_cache c S) = si_consumer S"
  "si_boxes (put_cache c S) = si_boxes S" "si_rules (put_cache c S) = si_rules S"
  "si_pipe (put_cache c S) = si_pipe S" "si_alerts (put_cache c S) = si_alerts S"
  "si_worker (put_cache c S) = si_worker S" "si_batcher (put_cache c S) = si_batcher S"
  "si_stats (put_cache c S) = si_stats S" "si_indexer (put_cache c S) = si_indexer S"
  "si_logs (put_db d S) = si_logs S" "si_consumer (put_db d S) = si_consumer S"
  "si_boxes (put_db d S) = si_boxes S" "si_rules (put_db d S) = si_rules S"
  "si_pipe (put_db d S) = si_pipe S" "si_alerts (put_db d S) = si_alerts S"
  "si_worker (put_db d S) = si_worker S" "si_batcher (put_db d S) = si_batcher S"
  "si_stats (put_db d S) = si_stats S" "si_indexer (put_db d S) = si_indexer S"
  by (simp_all add: on_ingest_def on_state_def put_cache_def put_db_def)

lemmas puts = put_cache_def put_db_def on_state_def

section \<open>The tasks\<close>

text \<open>The producer takes a log from the ingest channel; a send that fails loses it.\<close>

definition produce_tick :: "bool \<Rightarrow> ('s, 'k) siem \<Rightarrow> ('s, 'k) siem" where
  "produce_tick okay S = (case ig_sent (sv_ingest (si_server S)) of
      [] \<Rightarrow> S
    | l # ls \<Rightarrow> on_ingest (\<lambda>g. g \<lparr> ig_sent := ls \<rparr>) (if okay then S \<lparr> si_logs := si_logs S @ [l] \<rparr> else S))"

definition consume_tick ::
  "('s, 'k) plant \<Rightarrow> channel_env \<Rightarrow> try_result option \<Rightarrow> ('s, 'k) siem \<Rightarrow> ('s, 'k) siem" where
  "consume_tick P ch idx S = (case si_logs S of
      [] \<Rightarrow> S
    | l # ls \<Rightarrow>
        (let st = consume_log (redis_cache (pt_group_hash P) (pt_redis P)) (pt_sample_hash P) (pt_limits P)
               (pt_pause P) (pt_pause_timeout P) (si_now S) ch idx (Some l)
               ((si_consumer S) \<lparr> lg_cache := si_cache S \<rparr>)
         in put_cache (lg_cache st) (S \<lparr> si_logs := ls, si_consumer := st \<rparr>)))"

definition dispatch_tick :: "('s, 'k) plant \<Rightarrow> (nat \<Rightarrow> bool) \<Rightarrow> ('s, 'k) siem \<Rightarrow> ('s, 'k) siem" where
  "dispatch_tick P open_box S = (case lg_out (si_consumer S) of
      [] \<Rightarrow> S
    | l # ls \<Rightarrow> S \<lparr> si_consumer := (si_consumer S) \<lparr> lg_out := ls \<rparr>,
        si_boxes := dispatch_log (pt_fields_hash P) (se_partition_key (pt_settings P))
          (se_workers (pt_settings P)) open_box l (si_boxes S) \<rparr>)"

text \<open>A detection worker takes a log from its mailbox: \<open>uuid\<close> are the new ids, \<open>ms\<close> the time it took,
\<open>sched\<close> the order in which the rules complete, \<open>deliver\<close> what the sends of the alerts answer.\<close>

definition detect_tick ::
  "('s, 'k) plant \<Rightarrow> nat \<Rightarrow> nat \<Rightarrow> rat \<Rightarrow> (compiled_rule list \<Rightarrow> compiled_rule list) \<Rightarrow> (nat \<Rightarrow> nat \<Rightarrow> bool)
   \<Rightarrow> ('s, 'k) siem \<Rightarrow> ('s, 'k) siem" where
  "detect_tick P w uuid ms sched deliver S = (case si_boxes S w of
      [] \<Rightarrow> S
    | l # ls \<Rightarrow>
        (case process_log (pt_engine P) (pt_group_hash P) (wi_rel (pt_wiring P)) (pt_redis P) sched (si_rules S) uuid
            (si_now S) ms deliver (pt_response P) (pt_slack P) l
            ((si_stats S, si_cache S), (si_pipe S) \<lparr> pl_db := si_db S \<rparr>) of
          ((st, c), pl) \<Rightarrow> put_db (pl_db pl) (put_cache c
            (S \<lparr> si_boxes := (si_boxes S)(w := ls), si_stats := st, si_pipe := pl \<rparr>))))"

definition alert_tick :: "('s, 'k) plant \<Rightarrow> channel_env \<Rightarrow> ('s, 'k) siem \<Rightarrow> ('s, 'k) siem" where
  "alert_tick P ch S = (case pl_topic (si_pipe S) of
      [] \<Rightarrow> S
    | a # as \<Rightarrow>
        (let st = consume_alert (redis_cache (pt_group_hash P) (pt_redis P)) (pt_pause P) (pt_pause_timeout P)
               (si_now S) ch (Some a) ((si_alerts S) \<lparr> al_cache := si_cache S \<rparr>)
         in put_cache (al_cache st) (S \<lparr> si_pipe := (si_pipe S) \<lparr> pl_topic := as \<rparr>, si_alerts := st \<rparr>)))"

text \<open>The channel of the batcher has 1000 places and closes with it.\<close>

definition work_tick :: "('s, 'k) plant \<Rightarrow> ('s, 'k) siem \<Rightarrow> ('s, 'k) siem" where
  "work_tick P S = (case al_out (si_alerts S) of
      [] \<Rightarrow> S
    | a # as \<Rightarrow>
        (let room = (length (wk_batch (si_worker S)) < 1000 \<and> bt_running (si_batcher S));
             st = worker_step (wi_rel (pt_wiring P)) (pt_redis P) (ev_uuid (wi_env (pt_wiring P))) (pt_response P)
               (si_now S) room a ((si_worker S) \<lparr> wk_cache := si_cache S, wk_db := si_db S \<rparr>)
         in put_db (wk_db st) (put_cache (wk_cache st)
              (S \<lparr> si_alerts := (si_alerts S) \<lparr> al_out := as \<rparr>, si_worker := st \<rparr>))))"

definition batcher_tick :: "('s, 'k) plant \<Rightarrow> batcher_event \<Rightarrow> ('s, 'k) siem \<Rightarrow> ('s, 'k) siem" where
  "batcher_tick P ev S = (let b = batcher_step (pt_batch P) 100 ev ((si_batcher S) \<lparr> bt_db := si_db S \<rparr>)
     in put_db (bt_db b) (S \<lparr> si_batcher := b \<rparr>))"

definition batch_tick :: "('s, 'k) plant \<Rightarrow> ('s, 'k) siem \<Rightarrow> ('s, 'k) siem" where
  "batch_tick P S = (case wk_batch (si_worker S) of
      [] \<Rightarrow> S
    | a # as \<Rightarrow> batcher_tick P (Received a) (S \<lparr> si_worker := (si_worker S) \<lparr> wk_batch := as \<rparr> \<rparr>))"

text \<open>The indexer takes the next \<open>n\<close> logs of its channel as one batch.\<close>

definition index_tick :: "('s, 'k) plant \<Rightarrow> nat \<Rightarrow> batch_world \<Rightarrow> ('s, 'k) siem \<Rightarrow> ('s, 'k) siem" where
  "index_tick P n W S =
     (let st = index_batch (pt_redis P) W (take n (lg_index (si_consumer S))) ((si_indexer S) \<lparr> ix_cache := si_cache S \<rparr>)
      in put_cache (ix_cache st) (S \<lparr> si_consumer := (si_consumer S) \<lparr> lg_index := drop n (lg_index (si_consumer S)) \<rparr>,
           si_indexer := st \<rparr>))"

definition reload_tick :: "('s, 'k) plant \<Rightarrow> ('s, 'k) siem \<Rightarrow> ('s, 'k) siem" where
  "reload_tick P S = (case ignore (reload_rules (pt_codec P)) (si_db S, si_rules S) of
     (d, ix) \<Rightarrow> put_db d (S \<lparr> si_rules := ix \<rparr>))"

definition flush_tick :: "('s, 'k) plant \<Rightarrow> ('s, 'k) siem \<Rightarrow> ('s, 'k) siem" where
  "flush_tick P S = (case flush_stats (pt_redis P) (si_stats S, si_cache S) of
     (st, c) \<Rightarrow> put_cache c (S \<lparr> si_stats := st \<rparr>))"

definition board_tick :: "('s, 'k) siem \<Rightarrow> ('s, 'k) siem" where
  "board_tick S = (case stats_board (si_stats S) (pl_notes (si_pipe S)) of
      (_, None) \<Rightarrow> S
    | (n, Some x) \<Rightarrow> S \<lparr> si_pipe := (si_pipe S) \<lparr> pl_notes := n \<rparr>, si_board := si_board S @ [x] \<rparr>)"

definition sweep_tick :: "db \<Rightarrow> db" where
  "sweep_tick d = ignore escalate_overdue_cases d"

definition retention_tick :: "('s, 'k) siem \<Rightarrow> ('s, 'k) siem" where
  "retention_tick S = (if si_retaining S
     then (case run_tenant_retention_cycle (si_elastic S \<noteq> None) (si_db S) of
        ((_, alive), d) \<Rightarrow> put_db d (S \<lparr> si_retaining := alive \<rparr>))
     else S)"

definition sampler_tick :: "('s, 'k) plant \<Rightarrow> 's app \<Rightarrow> 's app" where
  "sampler_tick P = ignore (record_ingest_availability_sample (wi_env (pt_wiring P)) (wi_probes (pt_wiring P)))"

definition reporter_tick :: "('s, 'k) plant \<Rightarrow> 's ingest \<Rightarrow> 's ingest" where
  "reporter_tick P = weekly_tick (wi_env (pt_wiring P)) (wi_rel (pt_wiring P)) (pt_show_slo P)
     (wi_probes (pt_wiring P)) (wi_search (pt_wiring P))"

text \<open>The maintenance of the first-level cache, with the refreshes it starts.\<close>

definition maintenance_tick :: "('s, 'k) plant \<Rightarrow> 's rcache \<Rightarrow> 's rcache" where
  "maintenance_tick P c = run_spawned (pt_redis P) (l1_maintenance 300 30 100 c)"

text \<open>Time passes: the server of the cache moves by itself, as its keys expire.\<close>

definition clock_tick :: "instant \<Rightarrow> ('s \<Rightarrow> 's) \<Rightarrow> 's app \<Rightarrow> 's app" where
  "clock_tick now move a = a \<lparr> ap_cache := (ap_cache a) \<lparr> rc_now := now, rc_srv := move (rc_srv (ap_cache a)) \<rparr>,
     ap_db := (ap_db a) \<lparr> db_now := now \<rparr> \<rparr>"

text \<open>The log consumer forgets the limiters that were not used lately, every 30 seconds; the key task asks the
endpoint of the verification keys, when one is configured.\<close>

definition forget_tick :: "('s, 'k) plant \<Rightarrow> ('s, 'k) siem \<Rightarrow> ('s, 'k) siem" where
  "forget_tick P S = S \<lparr> si_consumer := cleanup_limits (pt_limits P) (timestamp_millis (si_now S)) (si_consumer S) \<rparr>"

definition refresh_tick :: "('s, 'k) plant \<Rightarrow> error + jwk list \<Rightarrow> ('s, 'k) siem \<Rightarrow> ('s, 'k) siem" where
  "refresh_tick P resp S =
     (let W = pt_wiring P; env = ax_env (wi_auth W) in
      case jwks_task env of
        None \<Rightarrow> S
      | Some _ \<Rightarrow> S \<lparr> si_server := (si_server S) \<lparr> sv_keys :=
          jwks_refresh_tick env (jl_build (wi_jwt W)) (sv_now (si_server S)) resp (sv_keys (si_server S)) \<rparr> \<rparr>)"

section \<open>Steps and runs\<close>

datatype periodic =
  Reload | Flush | Board | Sync | Retain | Sweep | Sample | Report | Maintain | Forget
  | Reconnect http_exchange | Refresh_Keys "error + jwk list"

datatype 's siem_event =
    Request incoming
  | Collect log
  | Produce bool
  | Consume channel_env "try_result option"
  | Dispatch "nat \<Rightarrow> bool"
  | Detect nat nat rat "compiled_rule list \<Rightarrow> compiled_rule list" "nat \<Rightarrow> nat \<Rightarrow> bool"
  | Take_Alert channel_env
  | Work
  | Batch
  | Batcher_Tick
  | Batcher_Stop
  | Index_Logs nat batch_world
  | Periodic periodic
  | Clock instant "'s \<Rightarrow> 's"

fun periodic_step :: "('s, 'k) plant \<Rightarrow> periodic \<Rightarrow> ('s, 'k) siem \<Rightarrow> ('s, 'k) siem" where
  "periodic_step P Reload S = reload_tick P S"
| "periodic_step P Flush S = flush_tick P S"
| "periodic_step P Board S = board_tick S"
| "periodic_step P Sync S = on_state (stats_sync_tick (pt_redis P)) S"
| "periodic_step P Retain S = retention_tick S"
| "periodic_step P Sweep S = put_db (sweep_tick (si_db S)) S"
| "periodic_step P Sample S = on_state (sampler_tick P) S"
| "periodic_step P Report S = on_ingest (reporter_tick P) S"
| "periodic_step P Maintain S = put_cache (maintenance_tick P (si_cache S)) S"
| "periodic_step P Forget S = forget_tick P S"
| "periodic_step P (Refresh_Keys resp) S = refresh_tick P resp S"
| "periodic_step P (Reconnect http) S = S \<lparr> si_elastic := elastic_reconnect http (pt_es_host P) (si_elastic S) \<rparr>"

inductive siem_step :: "('s, 'k) plant \<Rightarrow> ('s, 'k) siem \<Rightarrow> 's siem_event \<Rightarrow> ('s, 'k) siem \<Rightarrow> bool" for P where
  request: "siem_step P S (Request r) (S \<lparr> si_server := snd (serve (pt_wiring P) r (si_server S)) \<rparr>)"
| collect: "siem_step P S (Collect l) (S \<lparr> si_logs := si_logs S @ [l] \<rparr>)"
| produce: "ig_sent (sv_ingest (si_server S)) \<noteq> [] \<Longrightarrow> siem_step P S (Produce okay) (produce_tick okay S)"
| consume: "si_logs S \<noteq> [] \<Longrightarrow> lg_running (si_consumer S) \<Longrightarrow>
    siem_step P S (Consume ch idx) (consume_tick P ch idx S)"
| dispatch: "lg_out (si_consumer S) \<noteq> [] \<Longrightarrow> siem_step P S (Dispatch open_box) (dispatch_tick P open_box S)"
| detect: "w < se_workers (pt_settings P) \<Longrightarrow> si_boxes S w \<noteq> [] \<Longrightarrow>
    mset (sched (candidate_rules (si_rules S) (hd (si_boxes S w)))) = mset (candidate_rules (si_rules S) (hd (si_boxes S w))) \<Longrightarrow>
    siem_step P S (Detect w uuid ms sched deliver) (detect_tick P w uuid ms sched deliver S)"
| take_alert: "pl_topic (si_pipe S) \<noteq> [] \<Longrightarrow> al_running (si_alerts S) \<Longrightarrow>
    siem_step P S (Take_Alert ch) (alert_tick P ch S)"
| work: "al_out (si_alerts S) \<noteq> [] \<Longrightarrow> siem_step P S Work (work_tick P S)"
| batch: "wk_batch (si_worker S) \<noteq> [] \<Longrightarrow> bt_running (si_batcher S) \<Longrightarrow> siem_step P S Batch (batch_tick P S)"
| batcher_tick: "siem_step P S Batcher_Tick (batcher_tick P Tick S)"
| batcher_stop: "siem_step P S Batcher_Stop (batcher_tick P Shutdown S)"
| index: "0 < n \<Longrightarrow> n \<le> batch_size \<Longrightarrow> n \<le> length (lg_index (si_consumer S)) \<Longrightarrow>
    siem_step P S (Index_Logs n W) (index_tick P n W S)"
| periodic: "siem_step P S (Periodic p) (periodic_step P p S)"
| clock: "si_now S \<le> now \<Longrightarrow> siem_step P S (Clock now move) (on_state (clock_tick now move) S)"

inductive_cases siem_stepE: "siem_step P S e S'"

inductive_simps siem_step_simps:
  "siem_step P S (Request r) S'" "siem_step P S (Periodic p) S'" "siem_step P S (Clock now move) S'"
  "siem_step P S (Collect l) S'" "siem_step P S (Produce okay) S'"

text \<open>A run and the events on the way.\<close>

inductive siem_run :: "('s, 'k) plant \<Rightarrow> ('s, 'k) siem \<Rightarrow> 's siem_event list \<Rightarrow> ('s, 'k) siem \<Rightarrow> bool" for P where
  start: "siem_run P S [] S"
| step: "siem_run P S es S1 \<Longrightarrow> siem_step P S1 e S2 \<Longrightarrow> siem_run P S (es @ [e]) S2"

section \<open>The start\<close>

text \<open>The service as \<open>main\<close> leaves it before the first request: the database with the development account, the
rules loaded once, and the queues empty.\<close>

definition siem_boot ::
  "('s, 'k) plant \<Rightarrow> env_vars \<Rightarrow> (string \<Rightarrow> string option) \<Rightarrow> http_exchange \<Rightarrow> ('s, 'k) server \<Rightarrow> ('s, 'k) siem" where
  "siem_boot P env hash_password http sv =
     (let a = ig_app (sv_ingest sv) in
      case engine_new (pt_codec P) (seed_admin env hash_password (ap_db a)) of (st, (d, ix)) \<Rightarrow>
      (let c = ap_cache a in
       \<lparr> si_server = sv \<lparr> sv_ingest := (sv_ingest sv) \<lparr> ig_app := a \<lparr> ap_db := d \<rparr>, ig_sent := [] \<rparr> \<rparr>,
         si_logs = [],
         si_consumer = \<lparr> lg_limits = Map.empty, lg_cache = c, lg_paused = False, lg_full = 0, lg_out = [],
                         lg_index = [], lg_running = True \<rparr>,
         si_boxes = (\<lambda>_. []), si_rules = ix, si_stats = st,
         si_pipe = \<lparr> pl_db = d, pl_topic = [], pl_dead = [], pl_live = [], pl_notes = 0, pl_responses = [] \<rparr>,
         si_alerts = \<lparr> al_cache = c, al_logs_paused = False, al_alerts_paused = False, al_full = 0, al_out = [],
                       al_running = True \<rparr>,
         si_worker = \<lparr> wk_cache = c, wk_db = d, wk_batch = [], wk_live = [], wk_stats = [], wk_responses = [] \<rparr>,
         si_batcher = \<lparr> bt_buffer = [], bt_db = d, bt_running = True \<rparr>,
         si_indexer = indexer_new c,
         si_elastic = elastic_start http (pt_es_host P), si_board = [], si_retaining = True \<rparr>))"

end
