(* ===== verification/Runs.thy ===== *)
theory Runs
  imports System
begin

text \<open>Invariants of the running service.  Every step of \<open>System\<close> keeps what the contracts of \<open>Background\<close> keep, so
the interpretations of \<open>Wellformed\<close> and \<open>Growth\<close> hold along every run; and every alert on its way comes from a
log and a rule that were there before.\<close>

section \<open>The database\<close>

lemma tick_db [simp]:
  "si_db (produce_tick okay S) = si_db S" "si_db (consume_tick P ch idx S) = si_db S"
  "si_db (dispatch_tick P f S) = si_db S" "si_db (alert_tick P ch S) = si_db S"
  "si_db (index_tick P n W S) = si_db S" "si_db (flush_tick P S) = si_db S" "si_db (board_tick S) = si_db S"
  "si_db (forget_tick P S) = si_db S" "si_db (refresh_tick P resp S) = si_db S"
  by (auto simp: produce_tick_def consume_tick_def dispatch_tick_def alert_tick_def index_tick_def flush_tick_def
      board_tick_def forget_tick_def refresh_tick_def Let_def si_app_def[of "S\<lparr>si_logs := _\<rparr>"] split: list.split prod.split option.split)
    (simp_all add: si_app_def)

context task_contract
begin

lemma reload_keeps: "I (si_db S) \<Longrightarrow> I (si_db (reload_tick P S))"
  by (auto simp: reload_tick_def reload_rules_def get_enabled_rules_def ignore_def select_cases calls
      split: prod.splits sum.splits)

lemma sample_keeps: "I (ap_db a) \<Longrightarrow> I (ap_db (ignore (record_ingest_availability_sample E P) a))"
  by (auto simp: record_ingest_availability_sample_def all_available_def ignore_def dest!: via_cache_db ping_keeps
      split: prod.splits)

lemma report_keeps: "I (si_db S) \<Longrightarrow> I (ap_db (ig_app (reporter_tick P (sv_ingest (si_server S)))))"
  unfolding reporter_tick_def si_app_def by (rule weekly_keeps)

lemma periodic_keeps: "I (si_db S) \<Longrightarrow> p \<noteq> Retain \<Longrightarrow> I (si_db (periodic_step P p S))"
  by (cases p)
    (auto simp: reload_keeps sweep_tick_def sampler_tick_def sample_keeps report_keeps maintains_ignore[OF sweep_keeps] sync_keeps)

end

text \<open>The steps that write no alert.\<close>

fun calm :: "'s siem_event \<Rightarrow> bool" where
  "calm (Detect w uuid ms sched deliver) = False"
| "calm Work = False"
| "calm Batch = False"
| "calm Batcher_Tick = False"
| "calm Batcher_Stop = False"
| "calm (Periodic p) = (p \<noteq> Retain)"
| "calm e = True"

context task_contract
begin

lemma calm_keeps:
  assumes "siem_step P S e S'" "I (si_db S)" "calm e"
  shows "I (si_db S')"
  using assms(1)
proof cases
  case (request r)
  then show ?thesis using serve_keeps[of "pt_wiring P" r "si_server S"] assms(2)
    by (simp add: si_app_def sv_db_def)
qed (use assms in \<open>auto simp: periodic_keeps clock_tick_def now_free\<close>)

end

context store_contract
begin

lemma detect_keeps: "I (si_db S) \<Longrightarrow> I (si_db (detect_tick P w uuid ms sched deliver S))"
  by (auto simp: detect_tick_def process_log_def intro!: route_alerts_keep split: list.split prod.splits)

lemma work_keeps: "I (si_db S) \<Longrightarrow> I (si_db (work_tick P S))"
  by (auto simp: work_tick_def Let_def intro!: worker_step_keeps split: list.split)

lemma batcher_keeps: "I (si_db S) \<Longrightarrow> I (si_db (batcher_tick P ev S))"
  by (simp add: batcher_tick_def Let_def batcher_step_keeps_db)

lemma batch_keeps: "I (si_db S) \<Longrightarrow> I (si_db (batch_tick P S))"
  by (auto simp: batch_tick_def intro!: batcher_keeps split: list.split)

lemma step_keeps:
  assumes "siem_step P S e S'" "I (si_db S)" "e \<noteq> Periodic Retain"
  shows "I (si_db S')"
proof (cases "calm e")
  case True
  then show ?thesis using calm_keeps assms by blast
next
  case False
  show ?thesis using assms(1)
    by cases (use False assms(2,3) in \<open>auto simp: detect_keeps work_keeps batcher_keeps batch_keeps\<close>)
qed

end

section \<open>Runs\<close>

context store_contract
begin

lemma run_keeps: "siem_run P S es S' \<Longrightarrow> I (si_db S) \<Longrightarrow> Periodic Retain \<notin> set es \<Longrightarrow> I (si_db S')"
  by (induction rule: siem_run.induct) (auto intro: step_keeps)

lemma seed_keeps: "I d \<Longrightarrow> I (seed_admin env h d)"
  by (auto simp: seed_admin_def Let_def get_user_by_email_def select_cases calls intro!: maintains_ignore[OF user_row]
      split: prod.splits sum.splits option.splits)

lemma boot_keeps: "I (sv_db sv) \<Longrightarrow> I (si_db (siem_boot P env h http sv))"
  using seed_keeps[of "sv_db sv" env h]
  by (auto simp: siem_boot_def engine_new_def reload_rules_def get_enabled_rules_def select_cases calls ignore_def
      sv_db_def si_app_def Let_def split: prod.splits sum.splits if_splits)

end

context purge_contract
begin

lemma retain_keeps: "I (si_db S) \<Longrightarrow> I (si_db (retention_tick S))"
  using retention_keeps[of "si_db S" "si_elastic S \<noteq> None"] by (auto simp: retention_tick_def split: prod.split)

lemma step_keeps_all: "siem_step P S e S' \<Longrightarrow> I (si_db S) \<Longrightarrow> I (si_db S')"
  using step_keeps[of P S e S'] retain_keeps[of S]
  by (cases "e = Periodic Retain") (auto simp: siem_step_simps)

lemma run_keeps_all: "siem_run P S es S' \<Longrightarrow> I (si_db S) \<Longrightarrow> I (si_db S')"
  by (induction rule: siem_run.induct) (auto intro: step_keeps_all)

end

section \<open>Where alerts come from\<close>

text \<open>The alerts on their way to the database.\<close>

definition in_flight :: "('s, 'k) siem \<Rightarrow> alert list" where
  "in_flight S = pl_topic (si_pipe S) @ pl_dead (si_pipe S) @ al_out (si_alerts S) @ wk_batch (si_worker S)
     @ bt_buffer (si_batcher S)"

text \<open>\<open>L\<close> holds of the logs past the topic and \<open>C\<close> of the rules of the index; an alert on its way was raised
by such a rule on such a log.\<close>

definition sourced :: "(log \<Rightarrow> bool) \<Rightarrow> (compiled_rule \<Rightarrow> bool) \<Rightarrow> alert \<Rightarrow> bool" where
  "sourced L C a \<longleftrightarrow> (\<exists>l c. L l \<and> C c \<and> rule_tenant c = l_tenant l \<and> alert_for c l a)"

definition traced :: "(log \<Rightarrow> bool) \<Rightarrow> (compiled_rule \<Rightarrow> bool) \<Rightarrow> ('s, 'k) siem \<Rightarrow> bool" where
  "traced L C S \<longleftrightarrow> (\<forall>l \<in> set (lg_out (si_consumer S)). L l) \<and> (\<forall>w. \<forall>l \<in> set (si_boxes S w). L l)
     \<and> (\<forall>t. \<forall>c \<in> set (si_rules S t). C c) \<and> (\<forall>a \<in> set (in_flight S). sourced L C a)"

lemma traced_mono: "traced L C S \<Longrightarrow> (\<And>l. L l \<Longrightarrow> L' l) \<Longrightarrow> (\<And>c. C c \<Longrightarrow> C' c) \<Longrightarrow> traced L' C' S"
  unfolding traced_def sourced_def by meson

text \<open>What each component adds to its queue.\<close>

lemma consume_out: "set (lg_out (consume_log X h cfg p n now ch idx (Some l) st)) \<subseteq> insert l (set (lg_out st))"
  by (auto simp: consume_log_def log_allowed_def Let_def split: prod.splits option.splits sum.splits bool.splits if_splits)

lemma consume_alert_out: "set (al_out (consume_alert X p n now ch (Some a) st)) \<subseteq> insert a (set (al_out st))"
  by (auto simp: consume_alert_def Let_def split: if_splits)

lemma dispatch_boxes: "set (dispatch_log h key n f l boxes w) \<subseteq> insert l (set (boxes w))"
  by (auto simp: dispatch_log_def Let_def)

lemma route_places:
  "set (pl_topic (route_alerts deliver re slack i as pl)) \<subseteq> set (pl_topic pl) \<union> set as
   \<and> set (pl_dead (route_alerts deliver re slack i as pl)) \<subseteq> set (pl_dead pl) \<union> set as"
proof (induction as arbitrary: i pl)
  case (Cons a as)
  have "set (pl_topic (route_alert (deliver i) re slack a pl)) \<subseteq> insert a (set (pl_topic pl))
      \<and> set (pl_dead (route_alert (deliver i) re slack a pl)) \<subseteq> insert a (set (pl_dead pl))"
    by (auto simp: route_alert_def Let_def split: prod.splits sum.splits if_splits)
  then show ?case using Cons[of "i + 1" "route_alert (deliver i) re slack a pl"] by auto
qed simp

lemma worker_batch: "set (wk_batch (worker_step R rd sh re now room a st)) \<subseteq> insert a (set (wk_batch st))"
proof -
  have c: "wk_batch (worker_counters rd a x) = wk_batch x" for x
    by (auto simp: worker_counters_def Let_def split: prod.split sum.split option.split)
  have f: "wk_batch (worker_fallback rd a x) = wk_batch x" for x
    by (auto simp: worker_fallback_def worker_create_def update_alert_counted_def Let_def split: prod.split sum.split list.split)
  show ?thesis by (auto simp: worker_step_def Let_def c f)
qed

lemma batcher_buffer:
  "set (bt_buffer (batcher_step E n ev b)) \<subseteq> set (bt_buffer b) \<union> (case ev of Received a \<Rightarrow> {a} | _ \<Rightarrow> {})"
  by (cases ev) (auto simp: batcher_flush_def Let_def)

lemma detect_sourced:
  assumes "a \<in> set (fst (detect X C sched ix uuid now l p))"
    and "mset (sched (candidate_rules ix l)) = mset (candidate_rules ix l)"
  shows "\<exists>c t. c \<in> set (ix t) \<and> rule_tenant c = l_tenant l \<and> alert_for c l a"
proof -
  obtain st s where p: "p = (st, s)" by fastforce
  have "a \<in> set (alerts_of (fst (evaluate_rules X C (sched (candidate_rules ix l)) uuid now l s)))"
    using assms(1) by (simp add: p detect_def split: prod.splits)
  from evaluate_rules_alerts[OF this]
  obtain c where c: "c \<in> set (sched (candidate_rules ix l))" "alert_for c l a" by blast
  then have k: "c \<in> set (candidate_rules ix l)" using mset_eq_setD[OF assms(2)] by simp
  have "c \<in> set (concat (map ix (infer_tags l))) \<or> c \<in> set (ix Malware)"
    using k by (simp add: candidate_rules_def Let_def split: if_splits)
  then have "\<exists>t. c \<in> set (ix t)" unfolding set_concat by auto
  then show ?thesis using c(2) candidate_tenant[OF k] by blast
qed

lemma traced_put [simp]:
  "traced L C (put_cache c S) = traced L C S" "traced L C (put_db d S) = traced L C S"
  "traced L C (on_state h S) = traced L C S" "traced L C (on_ingest f S) = traced L C S"
  by (simp_all add: traced_def in_flight_def puts)

lemma traced_logs [simp]: "traced L C (S \<lparr> si_logs := ls \<rparr>) = traced L C S"
  by (simp add: traced_def in_flight_def)

lemma consume_traced:
  assumes "traced L C S" "\<forall>l \<in> set (si_logs S). L l"
  shows "traced L C (consume_tick P ch idx S)"
proof (cases "si_logs S")
  case (Cons l ls)
  let ?st = "consume_log (redis_cache (pt_group_hash P) (pt_redis P)) (pt_sample_hash P) (pt_limits P)
      (pt_pause P) (pt_pause_timeout P) (si_now S) ch idx (Some l) ((si_consumer S) \<lparr> lg_cache := si_cache S \<rparr>)"
  have "set (lg_out ?st) \<subseteq> insert l (set (lg_out (si_consumer S)))" by (rule order_trans[OF consume_out]) simp
  then show ?thesis using assms Cons by (auto simp: consume_tick_def Let_def traced_def in_flight_def)
qed (use assms in \<open>simp add: consume_tick_def\<close>)

lemma dispatch_traced: "traced L C S \<Longrightarrow> traced L C (dispatch_tick P f S)"
  using dispatch_boxes[of "pt_fields_hash P" "se_partition_key (pt_settings P)" "se_workers (pt_settings P)" f
      "hd (lg_out (si_consumer S))" "si_boxes S"]
  by (fastforce simp: dispatch_tick_def traced_def in_flight_def split: list.split)

lemma detect_traced:
  assumes "traced L C S"
    and "mset (sched (candidate_rules (si_rules S) (hd (si_boxes S w)))) = mset (candidate_rules (si_rules S) (hd (si_boxes S w)))"
  shows "traced L C (detect_tick P w uuid ms sched deliver S)"
proof (cases "si_boxes S w")
  case (Cons l ls)
  obtain as st c where d: "detect (pt_engine P) (redis_cache (pt_group_hash P) (pt_redis P)) sched (si_rules S) uuid
      (si_now S) l (si_stats S, si_cache S) = (as, (st, c))" by (metis prod.exhaust)
  have as: "sourced L C a" if "a \<in> set as" for a
    using detect_sourced[of a "pt_engine P" _ sched "si_rules S" uuid "si_now S" l "(si_stats S, si_cache S)"] that d assms Cons
    unfolding sourced_def traced_def by (metis fst_conv list.sel(1) list.set_intros(1))
  have ls: "L x" if "x \<in> set ls" for x
    using assms(1) Cons that unfolding traced_def by (metis list.set_intros(2))
  show ?thesis
    using route_places[of deliver "pt_response P" "pt_slack P" 0 as "(si_pipe S) \<lparr> pl_db := si_db S \<rparr>"] as assms(1) ls
    by (auto simp: detect_tick_def process_log_def d Cons traced_def in_flight_def)
qed (use assms in \<open>simp add: detect_tick_def\<close>)

lemma alert_traced: "traced L C S \<Longrightarrow> traced L C (alert_tick P ch S)"
  using consume_alert_out[of "redis_cache (pt_group_hash P) (pt_redis P)" "pt_pause P" "pt_pause_timeout P" "si_now S"
      ch "hd (pl_topic (si_pipe S))" "(si_alerts S) \<lparr> al_cache := si_cache S \<rparr>"]
  by (cases "pl_topic (si_pipe S)") (auto simp: alert_tick_def Let_def traced_def in_flight_def)

lemma work_traced: "traced L C S \<Longrightarrow> traced L C (work_tick P S)"
  using worker_batch[of "wi_rel (pt_wiring P)" "pt_redis P" "ev_uuid (wi_env (pt_wiring P))" "pt_response P" "si_now S"
      "length (wk_batch (si_worker S)) < 1000 \<and> bt_running (si_batcher S)" "hd (al_out (si_alerts S))"
      "(si_worker S) \<lparr> wk_cache := si_cache S, wk_db := si_db S \<rparr>"]
  by (cases "al_out (si_alerts S)") (auto simp: work_tick_def Let_def traced_def in_flight_def)

lemma batcher_traced:
  assumes "traced L C S" "case ev of Received a \<Rightarrow> sourced L C a | _ \<Rightarrow> True"
  shows "traced L C (batcher_tick P ev S)"
  using assms batcher_buffer[of "pt_batch P" 100 ev "(si_batcher S) \<lparr> bt_db := si_db S \<rparr>"]
  by (cases ev) (auto simp: batcher_tick_def Let_def traced_def in_flight_def)

lemma reload_traced:
  assumes "traced L C S" "\<forall>r \<in> set (db_rules (si_db S)). \<forall>c. dr_enabled r \<and> compile_rule (pt_codec P) r = Some c \<longrightarrow> C c"
  shows "traced L C (reload_tick P S)"
proof -
  obtain d ix where r: "ignore (reload_rules (pt_codec P)) (si_db S, si_rules S) = (d, ix)" by fastforce
  have "C c" if "c \<in> set (ix t)" for c t
    using reload_rules_origin[of "pt_codec P" "si_db S" "si_rules S" d ix c t] r assms that
    unfolding ignore_def traced_def by blast
  then show ?thesis using assms(1) by (simp add: reload_tick_def r traced_def in_flight_def)
qed

text \<open>One step, where \<open>L\<close> covers the topic and \<open>C\<close> the enabled rules of the database.\<close>

definition enabled_rule :: "('s, 'k) plant \<Rightarrow> compiled_rule \<Rightarrow> ('s, 'k) siem \<Rightarrow> bool" where
  "enabled_rule P c S \<longleftrightarrow> (\<exists>r \<in> set (db_rules (si_db S)). dr_enabled r \<and> compile_rule (pt_codec P) r = Some c)"

lemma traced_others [simp]:
  "traced L C (S \<lparr> si_stats := st \<rparr>) = traced L C S" "traced L C (S \<lparr> si_elastic := el \<rparr>) = traced L C S"
  "traced L C (S \<lparr> si_indexer := im \<rparr>) = traced L C S" "traced L C (S \<lparr> si_server := sv \<rparr>) = traced L C S"
  "traced L C (S \<lparr> si_retaining := alive \<rparr>) = traced L C S"
  by (simp_all add: traced_def in_flight_def)

lemma periodic_traced:
  assumes "traced L C S" "\<And>c. enabled_rule P c S \<Longrightarrow> C c"
  shows "traced L C (periodic_step P p S)"
proof (cases p)
  case Reload
  then show ?thesis using reload_traced[OF assms(1)] assms(2) by (force simp: enabled_rule_def)
next
  case Board
  then show ?thesis using assms(1)
    by (auto simp: board_tick_def traced_def in_flight_def split: prod.split option.split)
next
  case Forget
  then show ?thesis using assms(1) by (simp add: forget_tick_def traced_def in_flight_def cleanup_limits_def Let_def)
qed (use assms(1) in \<open>simp_all add: flush_tick_def retention_tick_def refresh_tick_def Let_def split: prod.split option.split\<close>)

lemma step_traced:
  assumes "siem_step P S e S'" "traced L C S" "\<forall>l \<in> set (si_logs S). L l" "\<And>c. enabled_rule P c S \<Longrightarrow> C c"
  shows "traced L C S'"
  using assms(1)
proof cases
  case (produce okay)
  then show ?thesis using assms(2) by (simp add: produce_tick_def split: list.split)
next
  case batch
  then obtain a as where w: "wk_batch (si_worker S) = a # as" by (cases "wk_batch (si_worker S)") auto
  then have "traced L C (S \<lparr> si_worker := (si_worker S) \<lparr> wk_batch := as \<rparr> \<rparr>)" "sourced L C a"
    using assms(2) by (simp_all add: traced_def in_flight_def)
  then show ?thesis using batch w batcher_traced[of L C "S \<lparr> si_worker := (si_worker S) \<lparr> wk_batch := as \<rparr> \<rparr>" "Received a" P]
    by (simp add: batch_tick_def)
next
  case (index n W)
  then show ?thesis using assms(2) by (simp add: index_tick_def Let_def) (simp add: traced_def in_flight_def)
next
  case (detect w sched uuid ms deliver)
  then show ?thesis using detect_traced[OF assms(2)] by simp
qed (use assms(2-4) in \<open>simp_all add: consume_traced dispatch_traced alert_traced work_traced batcher_traced periodic_traced\<close>)

text \<open>A state of the run, or an earlier one, satisfies \<open>Q\<close>.\<close>

definition once :: "('s, 'k) plant \<Rightarrow> ('s, 'k) siem \<Rightarrow> 's siem_event list \<Rightarrow> (('s, 'k) siem \<Rightarrow> bool) \<Rightarrow> bool" where
  "once P S0 es Q \<longleftrightarrow> (\<exists>es1 es2 S1. es = es1 @ es2 \<and> siem_run P S0 es1 S1 \<and> Q S1)"

lemma once_now: "siem_run P S0 es S \<Longrightarrow> Q S \<Longrightarrow> once P S0 es Q"
  by (force simp: once_def)

lemma once_later: "once P S0 es Q \<Longrightarrow> once P S0 (es @ [e]) Q"
  by (force simp: once_def)

lemma run_traced:
  assumes "siem_run P S0 es S" "traced (\<lambda>l. l \<in> set (si_logs S0)) (\<lambda>c. enabled_rule P c S0) S0"
  shows "traced (\<lambda>l. once P S0 es (\<lambda>T. l \<in> set (si_logs T))) (\<lambda>c. once P S0 es (enabled_rule P c)) S"
  using assms
proof (induction rule: siem_run.induct)
  case (start S)
  then show ?case by (rule traced_mono) (auto intro: once_now siem_run.start)
next
  case (step S0 es S1 e S2)
  let ?L = "\<lambda>l. once P S0 es (\<lambda>T. l \<in> set (si_logs T))" and ?C = "\<lambda>c. once P S0 es (enabled_rule P c)"
  have "traced ?L ?C S2"
    by (rule step_traced[OF step.hyps(2) step.IH[OF step.prems]]) (auto intro: once_now[OF step.hyps(1)])
  then show ?case by (rule traced_mono) (auto intro: once_later)
qed

lemma boot_traced: "traced L (\<lambda>c. enabled_rule P c (siem_boot P env h http sv)) (siem_boot P env h http sv)"
  by (auto simp: siem_boot_def engine_new_def reload_rules_def get_enabled_rules_def select_cases ignore_def Let_def
      traced_def in_flight_def enabled_rule_def si_app_def index_rules_apply map_filter_set split: if_splits)

end
