(* ===== verification/Conservation.thy ===== *)
theory Conservation
  imports Runs Batcher_Store
begin

text \<open>From the alert topic to the alert table nothing is lost and nothing is counted twice: while no statement
fails, no hand-over is refused and nothing is deleted, every step of the service keeps the number of events that
are stored or on their way.\<close>

section \<open>Alerts on their way\<close>

definition pending :: "('s, 'k) siem \<Rightarrow> alert list" where
  "pending S = pl_topic (si_pipe S) @ al_out (si_alerts S) @ wk_batch (si_worker S) @ bt_buffer (si_batcher S)"

definition alert_events :: "('s, 'k) siem \<Rightarrow> int" where
  "alert_events S = stored_events (db_alerts (si_db S)) + int (total_events (pending S))"

text \<open>A database that answers, and alerts that fit its columns and are new to it.\<close>

definition deliverable :: "db \<Rightarrow> alert list \<Rightarrow> bool" where
  "deliverable d as \<longleftrightarrow> no_faults d \<and> rows_ok (db_alerts d) \<and> list_all alert_fits as \<and> distinct (map a_id as)
     \<and> set (map a_id as) \<inter> set (map ar_id (db_alerts d)) = {}"

definition delivering :: "('s, 'k) siem \<Rightarrow> bool" where
  "delivering S \<longleftrightarrow> deliverable (si_db S) (pending S) \<and> length (pending S) \<le> 1000 \<and> bt_running (si_batcher S)"

lemma deliverable_cong:
  assumes "mset as = mset bs" "alert_view d = alert_view d'"
  shows "deliverable d as = deliverable d' bs"
proof -
  have "mset (map a_id as) = mset (map a_id bs)" using assms(1) by simp
  then have "distinct (map a_id as) = distinct (map a_id bs)" "set (map a_id as) = set (map a_id bs)"
    by (rule mset_eq_imp_distinct_iff, rule mset_eq_setD)
  moreover have "list_all alert_fits as = list_all alert_fits bs"
    using mset_eq_setD[OF assms(1)] by (simp add: list_all_iff)
  ultimately show ?thesis using assms(2) by (simp add: deliverable_def alert_view_def no_faults_def)
qed

lemma total_events_mset: "mset as = mset bs \<Longrightarrow> total_events as = total_events bs"
  unfolding total_events_def by (metis mset_map sum_mset_sum_list)

text \<open>A step that only moves alerts.\<close>

definition moved :: "('s, 'k) siem \<Rightarrow> ('s, 'k) siem \<Rightarrow> bool" where
  "moved S S' \<longleftrightarrow> mset (pending S') = mset (pending S) \<and> alert_view (si_db S') = alert_view (si_db S)
     \<and> bt_running (si_batcher S') = bt_running (si_batcher S)"

lemma moved_keeps: "moved S S' \<Longrightarrow> delivering S \<Longrightarrow> delivering S' \<and> alert_events S' = alert_events S"
proof -
  assume m: "moved S S'" and d: "delivering S"
  have "deliverable (si_db S') (pending S') = deliverable (si_db S) (pending S)"
    by (rule deliverable_cong) (use m in \<open>simp_all add: moved_def\<close>)
  moreover have "length (pending S') = length (pending S)" using m unfolding moved_def by (metis size_mset)
  moreover have "total_events (pending S') = total_events (pending S)"
    by (rule total_events_mset) (use m in \<open>simp add: moved_def\<close>)
  ultimately show ?thesis using m d by (simp add: delivering_def alert_events_def moved_def alert_view_def)
qed

section \<open>The steps\<close>

fun steady :: "'s siem_event \<Rightarrow> bool" where
  "steady (Take_Alert ch) = (ch_try ch = Sent)"
| "steady (Detect w uuid ms sched deliver) = False"
| "steady Batcher_Stop = False"
| "steady (Periodic p) = (p \<noteq> Retain)"
| "steady e = True"

lemma calm_view: "siem_step P S e S' \<Longrightarrow> calm e \<Longrightarrow> alert_view (si_db S') = alert_view (si_db S)"
  using quiet.calm_keeps[of P S e S' "alert_view (si_db S)"] by simp

lemma periodic_pending:
  "pending (periodic_step P p S) = pending S \<and> bt_running (si_batcher (periodic_step P p S)) = bt_running (si_batcher S)"
  by (cases p) (auto simp: pending_def reload_tick_def flush_tick_def board_tick_def retention_tick_def forget_tick_def
      refresh_tick_def Let_def split: prod.split option.split)

lemma calm_pending:
  assumes "siem_step P S e S'" "calm e" "\<And>ch. e \<noteq> Take_Alert ch"
  shows "pending S' = pending S \<and> bt_running (si_batcher S') = bt_running (si_batcher S)"
  using assms(1)
proof cases
  case (produce okay)
  then show ?thesis by (simp add: produce_tick_def pending_def split: list.split)
next
  case (consume ch idx)
  then show ?thesis by (simp add: consume_tick_def pending_def Let_def split: list.split)
next
  case (dispatch open_box)
  then show ?thesis by (simp add: dispatch_tick_def pending_def Let_def split: list.split)
next
  case (index n W)
  then show ?thesis by (simp add: index_tick_def pending_def Let_def)
qed (use assms in \<open>auto simp: pending_def periodic_pending[unfolded pending_def]\<close>)

lemma consume_alert_sent:
  "ch_try ch = Sent \<Longrightarrow> al_running st \<Longrightarrow> al_out (consume_alert X p n now ch (Some a) st) = al_out st @ [a]"
  by (simp add: consume_alert_def hand_over_def Let_def)

lemma take_alert_moves:
  assumes "ch_try ch = Sent" "al_running (si_alerts S)" "pl_topic (si_pipe S) \<noteq> []"
  shows "mset (pending (alert_tick P ch S)) = mset (pending S)
    \<and> bt_running (si_batcher (alert_tick P ch S)) = bt_running (si_batcher S)"
proof (cases "pl_topic (si_pipe S)")
  case (Cons a as)
  then show ?thesis using assms(1,2) by (simp add: alert_tick_def Let_def pending_def consume_alert_sent)
qed (use assms in simp)

lemma work_moves:
  assumes "al_out (si_alerts S) \<noteq> []" "length (wk_batch (si_worker S)) < 1000" "bt_running (si_batcher S)"
  shows "moved S (work_tick P S)"
proof (cases "al_out (si_alerts S)")
  case (Cons a as)
  let ?st = "(si_worker S) \<lparr> wk_cache := si_cache S, wk_db := si_db S \<rparr>"
  have b: "wk_batch (worker_counters rd a x) = wk_batch x" for rd x
    by (auto simp: worker_counters_def Let_def split: prod.split sum.split option.split)
  have "wk_batch (worker_step R rd sh re now True a ?st) = wk_batch (si_worker S) @ [a]" for R rd sh re now
    by (simp add: worker_step_def Let_def b)
  moreover have "alert_view (wk_db (worker_step R rd sh re now True a ?st)) = alert_view (si_db S)" for R rd sh re now
    unfolding worker_step_def Let_def
    by (intro quiet.worker_counters_keep) (simp add: quiet.worker_case_keeps)
  ultimately show ?thesis using assms(2,3) by (simp add: work_tick_def Cons Let_def moved_def pending_def)
qed (use assms in simp)

text \<open>A step of the batcher, whose buffer is the end of what is pending.\<close>

lemma batcher_delivers:
  assumes "batch_laws (pt_batch P)" "delivering S" "alert_events S < 2 ^ 31"
    and "case ev of Shutdown \<Rightarrow> False | Tick \<Rightarrow> True | Received a \<Rightarrow> wk_batch (si_worker S) = a # as"
    and "S0 = (case ev of Received a \<Rightarrow> S \<lparr> si_worker := (si_worker S) \<lparr> wk_batch := as \<rparr> \<rparr> | _ \<Rightarrow> S)"
  shows "delivering (batcher_tick P ev S0) \<and> alert_events (batcher_tick P ev S0) = alert_events S"
proof -
  let ?rest = "pl_topic (si_pipe S0) @ al_out (si_alerts S0) @ wk_batch (si_worker S0)"
  define b where "b = (case ev of Received a \<Rightarrow> (si_batcher S) \<lparr> bt_db := si_db S, bt_buffer := bt_buffer (si_batcher S) @ [a] \<rparr>
      | _ \<Rightarrow> (si_batcher S) \<lparr> bt_db := si_db S \<rparr>)"
  have perm: "mset (bt_buffer b @ ?rest) = mset (pending S)"
    using assms(4,5) by (cases ev) (simp_all add: b_def pending_def)
  have db: "bt_db b = si_db S" "bt_running b" using assms(2) by (cases ev; simp add: b_def delivering_def)+
  have ready: "batcher_ready ?rest b"
    using deliverable_cong[OF perm refl, of "si_db S"] assms(2) by (simp add: batcher_ready_def deliverable_def delivering_def db)
  have ev': "batcher_events b + int (total_events ?rest) = alert_events S"
    using total_events_mset[OF perm] by (simp add: batcher_events_def alert_events_def db)
  then have small: "batcher_events b < 2 ^ 31" using assms(3) by linarith
  obtain c where c: "batcher_step (pt_batch P) 100 ev ((si_batcher S0) \<lparr> bt_db := si_db S0 \<rparr>) = c"
      "batcher_ready ?rest c" "batcher_events c = batcher_events b" "bt_running c" "length (bt_buffer c) \<le> length (bt_buffer b)"
    using batcher_flush_keeps[OF assms(1) ready small] ready db assms(4,5)
    by (cases ev) (auto simp: b_def Let_def batcher_flush_def)
  let ?S' = "batcher_tick P ev S0"
  have S': "si_db ?S' = bt_db c" "mset (pending ?S') = mset (bt_buffer c @ ?rest)" "bt_running (si_batcher ?S')"
    using c(4) by (simp_all add: batcher_tick_def Let_def c(1) pending_def)
  have "deliverable (si_db ?S') (pending ?S') = deliverable (bt_db c) (bt_buffer c @ ?rest)"
    by (rule deliverable_cong) (simp_all add: S')
  moreover have "deliverable (bt_db c) (bt_buffer c @ ?rest)"
    using c(2) by (simp add: deliverable_def batcher_ready_def)
  moreover have "length (pending ?S') \<le> length (pending S)"
    using c(5) arg_cong[OF perm, of size] arg_cong[OF S'(2), of size] by simp
  moreover have "alert_events ?S' = alert_events S"
    using total_events_mset[OF S'(2)] ev' c(3) by (simp add: alert_events_def batcher_events_def S'(1))
  ultimately show ?thesis using assms(2) S'(3) by (simp add: delivering_def)
qed

lemma step_conserves:
  assumes "siem_step P S e S'" "steady e" "batch_laws (pt_batch P)" "delivering S" "alert_events S < 2 ^ 31"
  shows "delivering S' \<and> alert_events S' = alert_events S"
  using assms(1)
proof cases
  case (take_alert ch)
  then have "moved S S'"
    using take_alert_moves[of ch S P] calm_view[OF assms(1)] assms(2) by (simp add: moved_def)
  then show ?thesis using moved_keeps assms(4) by blast
next
  case work
  moreover have "length (wk_batch (si_worker S)) < 1000" "bt_running (si_batcher S)"
    using work assms(4) by (cases "al_out (si_alerts S)"; simp add: delivering_def pending_def)+
  ultimately show ?thesis using moved_keeps[OF work_moves assms(4), of P] by simp
next
  case batch
  then obtain a as where w: "wk_batch (si_worker S) = a # as" by (cases "wk_batch (si_worker S)") auto
  then show ?thesis
    using batcher_delivers[OF assms(3-5), where ev = "Received a", OF _ refl] batch by (simp add: batch_tick_def)
next
  case batcher_tick
  then show ?thesis using batcher_delivers[OF assms(3-5), where ev = Tick, OF _ refl] by simp
next
  case batcher_stop
  then show ?thesis using assms(2) by simp
next
  case detect
  then show ?thesis using assms(2) by simp
next
  case (periodic p)
  then show ?thesis
    using moved_keeps[of S S'] calm_view[OF assms(1)] calm_pending[OF assms(1)] assms(2,4) by (simp add: moved_def)
qed (use moved_keeps[of S S'] calm_view[OF assms(1)] calm_pending[OF assms(1)] assms(4) in \<open>simp_all add: moved_def\<close>)

lemma run_conserves:
  assumes "siem_run P S es S'" "list_all steady es" "batch_laws (pt_batch P)" "delivering S" "alert_events S < 2 ^ 31"
  shows "delivering S' \<and> alert_events S' = alert_events S"
  using assms
proof (induction rule: siem_run.induct)
  case (step S es S1 e S2)
  then have "delivering S1 \<and> alert_events S1 = alert_events S" by simp
  then show ?case using step_conserves[OF step.hyps(2), of] step.prems by simp
qed simp

section \<open>Everything can be delivered\<close>

lemma run_prepend: "siem_run P S1 es S2 \<Longrightarrow> siem_step P S e S1 \<Longrightarrow> siem_run P S (e # es) S2"
proof (induction rule: siem_run.induct)
  case (start T)
  then show ?case using siem_run.step[OF siem_run.start, of P S e T] by simp
next
  case (step T es T1 f T2)
  then show ?case using siem_run.step[of P S "e # es" T1 f T2] by simp
qed

definition open_channel :: channel_env where
  "open_channel = \<lparr> ch_try = Sent, ch_assignment = True, ch_pause_ok = True, ch_resume_ok = True, ch_slow = Delivered \<rparr>"

text \<open>How many steps the alerts are away from the buffer.\<close>

definition distance :: "('s, 'k) siem \<Rightarrow> nat" where
  "distance S = 3 * length (pl_topic (si_pipe S)) + 2 * length (al_out (si_alerts S)) + length (wk_batch (si_worker S))"

lemma consume_alert_runs:
  "ch_try ch = Sent \<Longrightarrow> al_running st \<Longrightarrow> al_running (consume_alert X p n now ch (Some a) st)"
  by (simp add: consume_alert_def hand_over_def Let_def)

lemma worker_batch_room: "wk_batch (worker_step R rd sh re now True a st) = wk_batch st @ [a]"
proof -
  have "wk_batch (worker_counters rd a x) = wk_batch x" for x
    by (auto simp: worker_counters_def Let_def split: prod.split sum.split option.split)
  then show ?thesis by (simp add: worker_step_def Let_def)
qed

lemma take_alert_nearer:
  assumes "al_running (si_alerts S)" "pl_topic (si_pipe S) \<noteq> []"
  shows "distance (alert_tick P open_channel S) < distance S \<and> al_running (si_alerts (alert_tick P open_channel S))"
  using assms by (cases "pl_topic (si_pipe S)")
    (simp_all add: alert_tick_def Let_def distance_def consume_alert_sent consume_alert_runs open_channel_def)

lemma work_nearer:
  assumes "delivering S" "al_out (si_alerts S) \<noteq> []"
  shows "distance (work_tick P S) < distance S \<and> al_running (si_alerts (work_tick P S)) = al_running (si_alerts S)"
proof -
  have "length (wk_batch (si_worker S)) < 1000" "bt_running (si_batcher S)"
    using assms by (cases "al_out (si_alerts S)"; simp add: delivering_def pending_def)+
  then show ?thesis using assms(2) by (cases "al_out (si_alerts S)")
    (simp_all add: work_tick_def Let_def distance_def worker_batch_room)
qed

lemma batch_nearer:
  "wk_batch (si_worker S) \<noteq> [] \<Longrightarrow> distance (batch_tick P S) < distance S
     \<and> al_running (si_alerts (batch_tick P S)) = al_running (si_alerts S)"
  by (cases "wk_batch (si_worker S)") (simp_all add: batch_tick_def batcher_tick_def Let_def distance_def)

lemma flush_delivers:
  assumes "distance S = 0" "bt_running (si_batcher S)"
  shows "pending (batcher_tick P Tick S) = []"
  using assms by (simp add: distance_def pending_def batcher_tick_def Let_def batcher_flush_def)

lemma delivery:
  assumes "batch_laws (pt_batch P)" "delivering S" "alert_events S < 2 ^ 31" "al_running (si_alerts S)"
  shows "\<exists>es S'. siem_run P S es S' \<and> list_all steady es \<and> pending S' = []"
  using assms(2-4)
proof (induction "distance S" arbitrary: S rule: less_induct)
  case less
  have go: "\<exists>es S'. siem_run P S es S' \<and> list_all steady es \<and> pending S' = []"
    if st: "siem_step P S e S1" "steady e" "distance S1 < distance S" "al_running (si_alerts S1)" for e S1
  proof -
    have "delivering S1" "alert_events S1 < 2 ^ 31" using step_conserves[OF st(1,2) assms(1) less.prems(1,2)] less.prems(2) by simp_all
    then obtain es S' where "siem_run P S1 es S'" "list_all steady es" "pending S' = []"
      using less.hyps[OF st(3)] st(4) by blast
    then show ?thesis using run_prepend[OF _ st(1)] st(2) by (intro exI[of _ "e # es"] exI[of _ S']) simp
  qed
  have run: "bt_running (si_batcher S)" using less.prems(1) by (simp add: delivering_def)
  consider "pl_topic (si_pipe S) \<noteq> []" | "al_out (si_alerts S) \<noteq> []" | "wk_batch (si_worker S) \<noteq> []" | "distance S = 0"
    by (auto simp: distance_def)
  then show ?case
  proof cases
    case 1
    show ?thesis
      by (rule go[OF siem_step.take_alert[OF 1 less.prems(3), of P open_channel]])
        (use take_alert_nearer[OF less.prems(3) 1, of P] in \<open>simp_all add: open_channel_def\<close>)
  next
    case 2
    show ?thesis
      by (rule go[OF siem_step.work[OF 2, of P]]) (use work_nearer[OF less.prems(1) 2, of P] less.prems(3) in simp_all)
  next
    case 3
    show ?thesis
      by (rule go[OF siem_step.batch[OF 3 run, of P]]) (use batch_nearer[OF 3, of P] less.prems(3) in simp_all)
  next
    case 4
    show ?thesis
      using run_prepend[OF siem_run.start siem_step.batcher_tick[of P S]] flush_delivers[OF 4 run, of P]
      by (intro exI[of _ "[Batcher_Tick]"] exI[of _ "batcher_tick P Tick S"]) simp
  qed
qed

end
