(* ===== verification/System_Properties.thy ===== *)
theory System_Properties
  imports Conservation Server_Properties Delivery_Properties Samples
begin

text \<open>Properties of the running service over all its runs: the requests, the pipeline and the background tasks
in any order.\<close>

section \<open>A sample service\<close>

definition sample_plant :: "(keyspace, unit) plant" where
  "sample_plant = \<lparr> pt_wiring = sample_wiring,
     pt_settings = \<lparr> se_workers = 1, se_mailbox = 10, se_partition_key = ''tenant'', se_lag_interval = 1,
       se_lag_timeout = 1, se_limits = sample_limits, se_labels = \<lparr> tn_labels = [], tn_limit = 1 \<rparr> \<rparr>,
     pt_codec = sample_codec, pt_engine = sample_engine, pt_group_hash = Inr, pt_fields_hash = List.length,
     pt_sample_hash = (\<lambda>n. n), pt_limits = \<lparr> lc_per_ip = 10, lc_window_ms = 1000, lc_sample_rate = 5 \<rparr>,
     pt_pause = False, pt_pause_timeout = 0, pt_response = response_new, pt_slack = (\<lambda>_. True),
     pt_batch = sample_batch_env, pt_show_slo = (\<lambda>_. JNull), pt_es_host = [] \<rparr>"

lemma sample_plant_simps [simp]:
  "pt_wiring sample_plant = sample_wiring" "pt_codec sample_plant = sample_codec" "pt_engine sample_plant = sample_engine"
  "se_workers (pt_settings sample_plant) = 1" "pt_batch sample_plant = sample_batch_env"
  "pt_limits sample_plant = \<lparr> lc_per_ip = 10, lc_window_ms = 1000, lc_sample_rate = 5 \<rparr>"
  by (simp_all add: sample_plant_def)

definition sample_db :: db where
  "sample_db = (db_empty 0) \<lparr> db_rules := [sample_rule 2 ''acme'' ''gen'' ''generic''], db_next := 3 \<rparr>"

definition sample_boot :: "(keyspace, unit) siem" where
  "sample_boot = siem_boot sample_plant (\<lambda>_. None) (\<lambda>_. None) (\<lambda>_. Inl Search_Error) (sample_server sample_db)"


text \<open>The service with other tables, and one tick of a task.\<close>

definition with_db :: "db \<Rightarrow> (keyspace, unit) siem" where
  "with_db d = put_db d sample_boot"

lemma with_db_simps [simp]: "si_db (with_db d) = d"
  by (simp add: with_db_def)

lemma one_tick: "siem_run P S [Periodic p] (periodic_step P p S)"
  using run_prepend[OF siem_run.start siem_step.periodic] .

definition failed_login :: log where
  "failed_login = sample_log ''acme'' ''10.0.0.9'' ''login_failed'' ''bad'' 100"

definition login_alert :: alert where
  "login_alert = event_alert 7 ''2'' ''gen'' High (''Rule triggered: '' @ ''gen'') failed_login"

definition login_rule :: compiled_rule where
  "login_rule = Generic (generic_new ''acme'' ''2'' ''gen'' ''high'' login_condition)"

lemma sample_db_wf: "db_wf sample_db"
  by (simp add: db_wf_def wf_defs keys_below_def sample_db_def db_empty_def sample_rule_def)

lemma sample_boot_fields:
  "si_rules sample_boot = index_rules sample_codec [sample_rule 2 ''acme'' ''gen'' ''generic''] (\<lambda>_. [])"
  "si_logs sample_boot = []" "lg_out (si_consumer sample_boot) = []" "lg_limits (si_consumer sample_boot) = Map.empty"
  "lg_running (si_consumer sample_boot)" "si_boxes sample_boot = (\<lambda>_. [])" "pl_topic (si_pipe sample_boot) = []"
  "al_running (si_alerts sample_boot)" "si_now sample_boot = 0"
  by (simp_all add: sample_boot_def siem_boot_def engine_new_def seed_admin_def seed_flag_def reload_rules_def
      get_enabled_rules_def select_cases si_app_def sample_server_def sample_db_def db_empty_def ignore_def Let_def sample_rule_def
      split: prod.split)

lemma failed_login_candidate:
  "candidate_rules (si_rules sample_boot) failed_login = [login_rule]"
proof -
  have "infer_tags failed_login = [Auth]" unfolding failed_login_def by code_simp
  moreover have "compile_rule sample_codec (sample_rule 2 ''acme'' ''gen'' ''generic'') = Some login_rule"
    unfolding login_rule_def by code_simp
  ultimately show ?thesis
    by (simp add: sample_boot_fields candidate_rules_def Let_def index_rule_once gr_log_types_def generic_new_def
        login_rule_def failed_login_def)
qed

lemma login_detected:
  "fst (detect sample_engine C id (si_rules sample_boot) 7 now failed_login p) = [login_alert]"
proof -
  have "evaluate no_ssh login_condition failed_login"
    by (simp add: login_condition_def field_value_def apply_op_def Let_def failed_login_def)
  moreover have "rule_severity ''high'' = High" by code_simp
  ultimately show ?thesis
    by (simp add: detect_def failed_login_candidate login_rule_def gr_evaluate_def generic_new_def ok_def sample_engine_def
        login_alert_def split: prod.split)
qed

definition sample_events :: "keyspace siem_event list" where
  "sample_events = [Collect failed_login, Consume open_channel None, Dispatch (\<lambda>_. True),
     Detect 0 7 0 id (\<lambda>_ _. True)]"

lemma run_snoc: "siem_run P S es S1 \<Longrightarrow> siem_step P S1 e S2 \<Longrightarrow> es' = es @ [e] \<Longrightarrow> siem_run P S es' S2"
  by (simp add: siem_run.step)

lemma failed_login_allowed:
  "lg_limits st = Map.empty \<Longrightarrow> 0 \<le> now \<Longrightarrow>
     \<exists>b. log_allowed X h \<lparr> lc_per_ip = 10, lc_window_ms = 1000, lc_sample_rate = 5 \<rparr> now l st
       = (True, st \<lparr> lg_limits := (lg_limits st)(l_source_ip l \<mapsto> b) \<rparr>)"
  by (simp add: log_allowed_def Let_def bucket_allow_def bucket_new_def bucket_touch_def bucket_refill_def as_u32_def
      split: prod.split) blast

lemma sample_consumed:
  assumes "lg_limits st = Map.empty" "lg_running st" "0 \<le> timestamp_millis n"
  shows "lg_out (consume_log X h \<lparr> lc_per_ip = 10, lc_window_ms = 1000, lc_sample_rate = 5 \<rparr> p m n open_channel None (Some l) st)
    = lg_out st @ [l]"
  using failed_login_allowed[OF assms(1), of "timestamp_millis n" X h l] assms(2,3)
  by (auto simp: consume_log_def Let_def hand_over_def open_channel_def)

lemma sample_delivered: "pl_topic (route_alert (\<lambda>_. True) re slack a pl) = pl_topic pl @ [a]"
  by (simp add: route_alert_def Let_def send_alert_with_retry_def send_loop.simps reached_topic_def)

text \<open>A failed login of \<open>acme\<close>, and the alert of its rule on the alert topic.\<close>

lemma service_run:
  obtains S where "siem_run sample_plant sample_boot sample_events S" "pl_topic (si_pipe S) = [login_alert]"
proof -
  let ?P = sample_plant
  define S1 where "S1 = sample_boot \<lparr> si_logs := si_logs sample_boot @ [failed_login] \<rparr>"
  define S2 where "S2 = consume_tick ?P open_channel None S1"
  define S3 where "S3 = dispatch_tick ?P (\<lambda>_. True) S2"
  define S4 where "S4 = detect_tick ?P 0 7 0 id (\<lambda>_ _. True) S3"
  note boot = sample_boot_fields
  have 1: "si_logs S1 = [failed_login]" "si_consumer S1 = si_consumer sample_boot" "si_rules S1 = si_rules sample_boot"
    "si_boxes S1 = (\<lambda>_. [])" "pl_topic (si_pipe S1) = []" "si_now S1 = 0"
    by (simp_all add: S1_def boot)
  have 2: "lg_out (si_consumer S2) = [failed_login]" "si_rules S2 = si_rules sample_boot" "si_boxes S2 = (\<lambda>_. [])"
    "pl_topic (si_pipe S2) = []"
    by (simp_all add: S2_def consume_tick_def Let_def 1 boot sample_consumed timestamp_millis_def)
  have 3: "si_boxes S3 0 = [failed_login]" "si_rules S3 = si_rules sample_boot" "pl_topic (si_pipe S3) = []"
    by (simp_all add: S3_def dispatch_tick_def 2 dispatch_log_def detection_partition_index_def Let_def)
  obtain st c where d: "detect sample_engine (redis_cache (pt_group_hash ?P) (pt_redis ?P)) id (si_rules sample_boot) 7
      (si_now S3) failed_login (si_stats S3, si_cache S3) = ([login_alert], (st, c))"
    by (metis login_detected prod.collapse)
  have 4: "pl_topic (si_pipe S4) = [login_alert]"
    by (simp add: S4_def detect_tick_def 3 process_log_def d sample_delivered)
  have "siem_step ?P sample_boot (Collect failed_login) S1" unfolding S1_def by (rule siem_step.collect)
  moreover have "siem_step ?P S1 (Consume open_channel None) S2"
    unfolding S2_def by (rule siem_step.consume) (simp_all add: 1 boot)
  moreover have "siem_step ?P S2 (Dispatch (\<lambda>_. True)) S3" unfolding S3_def by (rule siem_step.dispatch) (simp add: 2)
  moreover have "siem_step ?P S3 (Detect 0 7 0 id (\<lambda>_ _. True)) S4"
    unfolding S4_def by (rule siem_step.detect) (simp_all add: 3)
  ultimately have "siem_run ?P sample_boot sample_events S4"
    unfolding sample_events_def by (intro run_prepend) (rule siem_run.start)
  then show thesis using 4 by (rule that)
qed

definition sample_event :: audit_event where
  "sample_event = \<lparr> ae_id = 1, ae_tenant = ''acme'', ae_actor_user_id = ''u1'', ae_actor_email = ''a@b'',
     ae_actor_roles = [''admin''], ae_action = ''rule.deleted'', ae_resource_type = ''rule'', ae_resource_id = None,
     ae_target_tenant = None, ae_request_id = None, ae_metadata = JNull, ae_previous_hash = None,
     ae_event_hash = ''h'', ae_signature = ''s'', ae_created = 0 \<rparr>"



section \<open>The database\<close>

text \<open>C7. Every state of the running service has a well-formed database: over any run of requests, pipeline
steps and background tasks from the start of the service, the keys of the tables stay distinct (accounts by
tenant and address, rules by tenant and name, one policy and one row of statistics per tenant, one case per
alert, one link per alert), every case has a readable status with the instants it calls for, and no timeline
event and no link is without its case.\<close>

theorem run_wellformed:
  assumes "db_wf (sv_db sv)" "siem_run P (siem_boot P env hash_password http sv) es S"
  shows "db_wf (si_db S)"
  by (rule formed.run_keeps_all[OF assms(2) formed.boot_keeps[OF assms(1)]])

lemma run_wellformed_witness: "\<exists>S. siem_run sample_plant sample_boot sample_events S \<and> db_wf (si_db S)"
proof -
  have "db_wf (sv_db (sample_server sample_db))" using sample_db_wf by (simp add: sv_db_def sample_server_def)
  moreover obtain S where "siem_run sample_plant sample_boot sample_events S" by (rule service_run)
  ultimately show ?thesis using run_wellformed unfolding sample_boot_def by blast
qed

text \<open>C8. The audit trail is append-only for as long as the service runs: apart from the retention cycle, no
request and no task removes, reorders or rewrites an audit event, an account, a report, a link or a timeline
event; and with it, an event that is still there is as it was written.\<close>

theorem audit_trail_append_only:
  assumes "siem_run P S es S'" "db_wf (si_db S)"
  shows "(Periodic Retain \<notin> set es \<longrightarrow> appended (si_db S) (si_db S'))
    \<and> (\<forall>e \<in> set (db_audit (si_db S)). \<forall>x \<in> set (db_audit (si_db S')). ae_id x = ae_id e \<longrightarrow> x = e)"
proof (intro conjI)
  show "Periodic Retain \<notin> set es \<longrightarrow> appended (si_db S) (si_db S')"
    using grown.run_keeps[OF assms(1)] by simp
  have "unaltered e (si_db S')" if "e \<in> set (db_audit (si_db S))" for e
    by (rule unaltered.run_keeps_all[OF assms(1) unaltered_start[OF assms(2) that]])
  then show "\<forall>e \<in> set (db_audit (si_db S)). \<forall>x \<in> set (db_audit (si_db S')). ae_id x = ae_id e \<longrightarrow> x = e"
    by (simp add: unaltered_def)
qed

lemma audit_trail_append_only_witness:
  "\<exists>S. siem_run sample_plant (with_db (sample_db \<lparr> db_audit := [sample_event] \<rparr>)) [Periodic Sweep] S
     \<and> sample_event \<in> set (db_audit (si_db S))"
proof -
  let ?S = "with_db (sample_db \<lparr> db_audit := [sample_event] \<rparr>)"
  have "db_wf (si_db ?S)"
    using sample_db_wf by (simp add: db_wf_def wf_defs keys_below_def sample_db_def sample_event_def db_empty_def)
  from audit_trail_append_only[OF one_tick[of sample_plant ?S Sweep] this]
  have "prefix [sample_event] (db_audit (si_db (periodic_step sample_plant Sweep ?S)))"
    by (simp add: appended_def)
  then show ?thesis using one_tick[of sample_plant ?S Sweep] by (auto simp: prefix_def)
qed

section \<open>Cases\<close>



section \<open>Alerts\<close>

text \<open>C6. No alert without a cause: an alert that is in flight in any state of the running service, in the
alert topic, its dead-letter topic, the channels of the worker and the batcher or the batcher's buffer,
concerns one log that was on the topic of logs before, names that log's tenant and source address, and was
raised for a rule of that tenant that was enabled in the database before.\<close>

theorem alerts_have_causes:
  assumes "siem_run P (siem_boot P env hash_password http sv) es S" "a \<in> set (in_flight S)"
  shows "\<exists>l r. once P (siem_boot P env hash_password http sv) es (\<lambda>T. l \<in> set (si_logs T))
     \<and> once P (siem_boot P env hash_password http sv) es (\<lambda>T. r \<in> set (db_rules (si_db T)) \<and> dr_enabled r)
     \<and> dr_tenant r = l_tenant l \<and> a_rule_id a = rcx_uuid (pt_codec P) (dr_id r)
     \<and> a_tenant a = l_tenant l \<and> a_source_ip a = l_source_ip l \<and> a_events a = [l]"
proof -
  let ?S0 = "siem_boot P env hash_password http sv"
  obtain l c where l: "once P ?S0 es (\<lambda>T. l \<in> set (si_logs T))" "once P ?S0 es (enabled_rule P c)"
    "rule_tenant c = l_tenant l" "alert_for c l a"
    using run_traced[OF assms(1) boot_traced] assms(2) unfolding traced_def sourced_def by blast
  then obtain es1 es2 S1 r where r: "es = es1 @ es2" "siem_run P ?S0 es1 S1" "r \<in> set (db_rules (si_db S1))" "dr_enabled r"
    "compile_rule (pt_codec P) r = Some c" unfolding once_def enabled_rule_def by blast
  then have "once P ?S0 es (\<lambda>T. r \<in> set (db_rules (si_db T)) \<and> dr_enabled r)" unfolding once_def by blast
  then show ?thesis using l compile_tenant[OF r(5)] compile_id[OF r(5)]
    by (intro exI[of _ l] exI[of _ r]) (simp add: alert_for_def)
qed

lemma alerts_have_causes_witness:
  "\<exists>S. siem_run sample_plant sample_boot sample_events S \<and> login_alert \<in> set (in_flight S)
     \<and> (\<exists>l r. once sample_plant sample_boot sample_events (\<lambda>T. l \<in> set (si_logs T))
          \<and> once sample_plant sample_boot sample_events (\<lambda>T. r \<in> set (db_rules (si_db T)) \<and> dr_enabled r)
          \<and> a_rule_id login_alert = rcx_uuid sample_codec (dr_id r) \<and> a_events login_alert = [l])"
proof -
  obtain S where S: "siem_run sample_plant sample_boot sample_events S" "login_alert \<in> set (in_flight S)"
    by (rule service_run) (simp add: in_flight_def)
  show ?thesis using S alerts_have_causes[OF S(1)[unfolded sample_boot_def] S(2)] unfolding sample_boot_def by auto
qed



end
