(* ===== verification/Tasks.thy ===== *)
theory Tasks
  imports Prelude
begin

text \<open>Effectful code that can be interrupted.  A request handler or a background task of the service runs at the same
time as others; what is atomic is a single statement of the database.  A task is a tree of atomic steps: the change a
step makes, and how the task goes on given the state it saw.  A schedule says whose turn it is, so that a run of
several tasks is any interleaving of their steps.\<close>

section \<open>Tasks\<close>

datatype ('e, 'a, 's) task =
    Finished "'e + 'a"
  | Step "'s \<Rightarrow> 's" "'s \<Rightarrow> ('e, 'a, 's) task"

text \<open>A task that runs alone.\<close>

primrec run_task :: "('e, 'a, 's) task \<Rightarrow> ('e, 'a, 's) eff" where
  "run_task (Finished r) s = (r, s)"
| "run_task (Step f k) s = run_task (k s) (f s)"

definition atomically :: "('e, 'a, 's) eff \<Rightarrow> ('e, 'a, 's) task" where
  "atomically m = Step (\<lambda>s. snd (m s)) (\<lambda>s. Finished (fst (m s)))"

text \<open>Going on with the result, whatever it is; and going on with a value, where an error ends the task.\<close>

primrec after_task :: "('e, 'a, 's) task \<Rightarrow> ('e + 'a \<Rightarrow> ('f, 'b, 's) task) \<Rightarrow> ('f, 'b, 's) task" where
  "after_task (Finished r) g = g r"
| "after_task (Step f k) g = Step f (\<lambda>s. after_task (k s) g)"

definition then_task :: "('e, 'a, 's) task \<Rightarrow> ('a \<Rightarrow> ('e, 'b, 's) task) \<Rightarrow> ('e, 'b, 's) task" where
  "then_task t g = after_task t (\<lambda>r. case r of Inl e \<Rightarrow> Finished (Inl e) | Inr x \<Rightarrow> g x)"

definition return_task :: "'a \<Rightarrow> ('e, 'a, 's) task" where
  "return_task x = Finished (Inr x)"

text \<open>The steps for a list of things, in order, up to the first error; and a task whose result is dropped.\<close>

primrec each_task :: "('a \<Rightarrow> ('e, unit, 's) task) \<Rightarrow> 'a list \<Rightarrow> ('e, unit, 's) task" where
  "each_task g [] = return_task ()"
| "each_task g (x # xs) = then_task (g x) (\<lambda>_. each_task g xs)"

definition drop_result :: "('e, 'a, 's) task \<Rightarrow> ('e, unit, 's) task" where
  "drop_result t = after_task t (\<lambda>_. return_task ())"

section \<open>A task alone does what the code in one piece does\<close>

named_theorems run_task_simps \<open>the run of a task, from the runs of its parts\<close>

lemma run_atomically [run_task_simps]: "run_task (atomically m) = m"
  by (rule ext) (simp add: atomically_def)

lemma run_after [run_task_simps]: "run_task (after_task t g) s = (case run_task t s of (r, s') \<Rightarrow> run_task (g r) s')"
  by (induction t arbitrary: s) simp_all

lemma run_then [run_task_simps]: "run_task (then_task t g) = bind_ok (run_task t) (\<lambda>x. run_task (g x))"
  by (rule ext) (auto simp: then_task_def run_after bind_ok_def split: prod.split sum.split)

lemma run_return [run_task_simps]: "run_task (return_task x) = ok x"
  by (rule ext) (simp add: return_task_def ok_def)

lemma run_each [run_task_simps]: "run_task (each_task g xs) = for_each (\<lambda>x. run_task (g x)) xs"
  by (induction xs) (auto simp: run_task_simps ok_def intro!: ext)

lemma run_drop [run_task_simps]: "snd (run_task (drop_result t) s) = snd (run_task t s)"
  by (simp add: drop_result_def run_task_simps ok_def split: prod.split)

lemma run_option [run_task_simps]: "run_task (case x of None \<Rightarrow> t | Some y \<Rightarrow> g y) = (case x of None \<Rightarrow> run_task t | Some y \<Rightarrow> run_task (g y))"
  by (simp split: option.split)

lemma run_if [run_task_simps]: "run_task (if b then t else t') = (if b then run_task t else run_task t')"
  by simp

text \<open>What follows a composed task.\<close>

lemma after_drop: "then_task (drop_result t) g = after_task t (\<lambda>_. g ())"
  unfolding then_task_def drop_result_def return_task_def by (induction t) simp_all

lemma after_then: "after_task (then_task t g) f = after_task t (\<lambda>r. case r of Inl e \<Rightarrow> f (Inl e) | Inr x \<Rightarrow> after_task (g x) f)"
  unfolding then_task_def by (induction t) (auto split: sum.split)

lemma after_atomically: "after_task (atomically m) g = Step (\<lambda>d. snd (m d)) (\<lambda>d. g (fst (m d)))"
  by (simp add: atomically_def)

lemma after_dropped: "after_task (drop_result t) g = after_task t (\<lambda>_. g (Inr ()))"
  unfolding drop_result_def return_task_def by (induction t) simp_all

lemma then_drop: "then_task (drop_result t) g = after_task (drop_result t) (\<lambda>_. g ())"
  by (simp add: after_drop after_dropped)

section \<open>Schedules\<close>

type_synonym ('e, 'a, 's) config = "('e, 'a, 's) task list \<times> 's"

text \<open>One turn of the \<open>i\<close>th task; a task that has finished, or does not exist, lets it pass.\<close>

definition turn :: "nat \<Rightarrow> ('e, 'a, 's) config \<Rightarrow> ('e, 'a, 's) config" where
  "turn i c = (case c of (ts, s) \<Rightarrow>
     if i < length ts then (case ts ! i of Finished r \<Rightarrow> c | Step f k \<Rightarrow> (ts[i := k s], f s)) else c)"

definition schedule :: "nat list \<Rightarrow> ('e, 'a, 's) config \<Rightarrow> ('e, 'a, 's) config" where
  "schedule is c = fold turn is c"

lemma schedule_simps [simp]: "schedule [] c = c" "schedule (i # is) c = schedule is (turn i c)"
  "schedule (is @ js) c = schedule js (schedule is c)"
  by (simp_all add: schedule_def)

lemma turn_length [simp]: "length (fst (turn i c)) = length (fst c)"
  by (auto simp: turn_def split: prod.split task.split)

lemma turn_step: "i < length ts \<Longrightarrow> ts ! i = Step f k \<Longrightarrow> turn i (ts, s) = (ts[i := k s], f s)"
  by (simp add: turn_def)

lemma turn_passes: "i < length ts \<Longrightarrow> ts ! i = Finished r \<Longrightarrow> turn i (ts, s) = (ts, s)"
  by (simp add: turn_def)

lemma turn_cases [case_names passed stepped]:
  obtains "turn i (ts, s) = (ts, s)"
  | f k where "i < length ts" "ts ! i = Step f k" "turn i (ts, s) = (ts[i := k s], f s)"
  by (cases "i < length ts"; cases "ts ! i") (auto simp: turn_def)

text \<open>A task that has all the turns to itself runs as if it were alone.\<close>

lemma alone_finishes:
  assumes "i < length ts"
  shows "\<exists>n. \<forall>m \<ge> n. schedule (replicate m i) (ts, s)
    = (ts[i := Finished (fst (run_task (ts ! i) s))], snd (run_task (ts ! i) s))"
proof -
  have "\<exists>n. \<forall>m \<ge> n. schedule (replicate m i) (ts[i := t], s)
      = (ts[i := Finished (fst (run_task t s))], snd (run_task t s))" for t
  proof (induction t arbitrary: s)
    case (Finished r)
    have "schedule (replicate m i) (ts[i := Finished r], s) = (ts[i := Finished r], s)" for m
      using assms by (induction m) (simp_all add: turn_passes)
    then show ?case by simp
  next
    case (Step f k)
    then obtain n where n: "\<forall>m \<ge> n. schedule (replicate m i) (ts[i := k s], f s)
        = (ts[i := Finished (fst (run_task (k s) (f s)))], snd (run_task (k s) (f s)))" by blast
    have "turn i (ts[i := Step f k], s) = (ts[i := k s], f s)"
      using assms turn_step[of i "ts[i := Step f k]" f k s] by simp
    then have "schedule (replicate (Suc m) i) (ts[i := Step f k], s)
        = (ts[i := Finished (fst (run_task (k s) (f s)))], snd (run_task (k s) (f s)))" if "n \<le> m" for m
      using n that by simp
    then show ?case by (metis Suc_le_D Suc_le_mono run_task.simps(2))
  qed
  then show ?thesis using assms by (metis list_update_id)
qed

section \<open>Every schedule comes to an end\<close>

text \<open>The turns that do something, and the number of them when a task has no more to do.\<close>

definition all_finished :: "('e, 'a, 's) task list \<Rightarrow> bool" where
  "all_finished ts \<longleftrightarrow> (\<forall>t \<in> set ts. \<exists>r. t = Finished r)"

definition child_task :: "(('e, 'a, 's) task \<times> ('e, 'a, 's) task) set" where
  "child_task = {(k s, Step f k) | f k s. True}"

lemma wf_child: "wf child_task"
proof (rule wfUNIVI)
  fix P :: "('a, 'b, 'c) task \<Rightarrow> bool" and t :: "('a, 'b, 'c) task"
  assume *: "\<forall>t. (\<forall>u. (u, t) \<in> child_task \<longrightarrow> P u) \<longrightarrow> P t"
  show "P t"
  proof (induction t)
    case (Finished r)
    have "(u, Finished r) \<notin> child_task" for u by (simp add: child_task_def)
    then show ?case using * by blast
  next
    case (Step f k)
    then have "P u" if "(u, Step f k) \<in> child_task" for u using that by (auto simp: child_task_def)
    then show ?case using * by blast
  qed
qed

text \<open>A turn of a task that is not finished.\<close>

definition effective :: "('e, 'a, 's) config \<Rightarrow> ('e, 'a, 's) config \<Rightarrow> bool" where
  "effective c c' \<longleftrightarrow> (\<exists>i < length (fst c). (\<nexists>r. fst c ! i = Finished r) \<and> c' = turn i c)"

lemma effective_child: "effective c c' \<Longrightarrow> (fst c', fst c) \<in> listrel1 child_task"
proof -
  assume "effective c c'"
  then obtain i f k where i: "i < length (fst c)" "fst c ! i = Step f k" "c' = turn i c"
    unfolding effective_def by (metis task.exhaust)
  have "fst c' = take i (fst c) @ k (snd c) # drop (Suc i) (fst c)"
    using i by (cases c) (simp add: turn_step upd_conv_take_nth_drop)
  moreover have "fst c = take i (fst c) @ Step f k # drop (Suc i) (fst c)" using id_take_nth_drop[OF i(1)] i(2) by simp
  moreover have "(k (snd c), Step f k) \<in> child_task" by (auto simp: child_task_def)
  ultimately show ?thesis by (metis listrel1I)
qed

lemma turns_end: "wf {(c', c). effective c c'}"
proof -
  have "{(c', c). effective c c'} \<subseteq> inv_image (listrel1 child_task) fst"
    using effective_child by auto
  moreover have "wf (inv_image (listrel1 child_task) fst)" by (intro wf_inv_image) (simp add: wf_child)
  ultimately show ?thesis by (rule wf_subset[rotated])
qed

lemma unfinished_turn: "\<not> all_finished (fst c) \<Longrightarrow> \<exists>i c'. i < length (fst c) \<and> c' = turn i c \<and> effective c c'"
  unfolding all_finished_def effective_def by (metis in_set_conv_nth)

lemma finish_from: "\<exists>is. all_finished (fst (schedule is c))"
proof (induction c rule: wf_induct_rule[OF turns_end])
  case (1 c)
  show ?case
  proof (cases "all_finished (fst c)")
    case True
    then show ?thesis by (metis schedule_simps(1))
  next
    case False
    then obtain i where "effective c (turn i c)" using unfinished_turn by blast
    then obtain js where "all_finished (fst (schedule js (turn i c)))" using 1 by blast
    then show ?thesis by (metis schedule_simps(2))
  qed
qed

section \<open>Interference\<close>

text \<open>\<open>R\<close> is what a task may rely on while others take their turns, and \<open>G\<close> what each of its own steps
guarantees to them.  \<open>safe R G t s\<close>: from any state that may have become of \<open>s\<close>, every step of \<open>t\<close> does what
\<open>G\<close> says.\<close>

primrec safe :: "('s \<Rightarrow> 's \<Rightarrow> bool) \<Rightarrow> ('s \<Rightarrow> 's \<Rightarrow> bool) \<Rightarrow> ('e, 'a, 's) task \<Rightarrow> 's \<Rightarrow> bool" where
  "safe R G (Finished r) s = True"
| "safe R G (Step f k) s = (\<forall>s'. R s s' \<longrightarrow> G s' (f s') \<and> safe R G (k s') (f s'))"

lemma safe_mono: "safe R G t s \<Longrightarrow> (\<And>s s'. R' s s' \<Longrightarrow> R s s') \<Longrightarrow> (\<And>s s'. G s s' \<Longrightarrow> G' s s') \<Longrightarrow> safe R' G' t s"
  by (induction t arbitrary: s) auto

text \<open>A guarantee that holds for every value of a parameter.\<close>

lemma safe_all: "(\<And>x. safe R (G x) t s) \<Longrightarrow> safe R (\<lambda>s s'. \<forall>x. G x s s') t s"
  by (induction t arbitrary: s) auto

locale interference =
  fixes R :: "'s \<Rightarrow> 's \<Rightarrow> bool" and G :: "'s \<Rightarrow> 's \<Rightarrow> bool"
  assumes now: "R s s" and later: "R s s' \<Longrightarrow> R s' s'' \<Longrightarrow> R s s''" and own: "G s s' \<Longrightarrow> R s s'"
begin

lemma safe_later: "safe R G t s \<Longrightarrow> R s s' \<Longrightarrow> safe R G t s'"
  by (cases t) (auto dest: later)

lemma safe_after:
  "safe R G t s \<Longrightarrow> (\<And>r s'. R s s' \<Longrightarrow> safe R G (g r) s') \<Longrightarrow> safe R G (after_task t g) s"
proof (induction t arbitrary: s)
  case (Finished r)
  then show ?case using now by simp
next
  case (Step f k)
  show ?case unfolding after_task.simps safe.simps
  proof (intro allI impI conjI)
    fix s' assume s': "R s s'"
    then show step: "G s' (f s')" using Step.prems(1) by simp
    have "safe R G (k s') (f s')" using Step.prems(1) s' by simp
    then show "safe R G (after_task (k s') g) (f s')"
      by (rule Step.IH[OF rangeI]) (rule Step.prems(2)[OF later[OF s' later[OF own[OF step]]]])
  qed
qed

lemma safe_finished: "safe R G (Finished r) s" "safe R G (return_task x) s"
  by (simp_all add: return_task_def)

lemma safe_then:
  "safe R G t s \<Longrightarrow> (\<And>x s'. R s s' \<Longrightarrow> safe R G (g x) s') \<Longrightarrow> safe R G (then_task t g) s"
  unfolding then_task_def by (rule safe_after) (auto split: sum.split)

lemma safe_each: "(\<And>x s'. x \<in> set xs \<Longrightarrow> R s s' \<Longrightarrow> safe R G (g x) s') \<Longrightarrow> safe R G (each_task g xs) s"
proof (induction xs arbitrary: s)
  case Nil
  then show ?case by (simp add: safe_finished)
next
  case (Cons y ys)
  have "safe R G (each_task g ys) s'" if "R s s'" for s'
    by (rule Cons.IH) (use Cons.prems later that in auto)
  then show ?case using Cons.prems[of y s] now by (auto intro: safe_then)
qed

lemma safe_drop: "safe R G t s \<Longrightarrow> safe R G (drop_result t) s"
  unfolding drop_result_def by (rule safe_after, assumption, rule safe_finished)

text \<open>One statement; and a statement whose answer says something of the state in which the task goes on.\<close>

lemma safe_atomically: "(\<And>s'. R s s' \<Longrightarrow> G s' (snd (m s'))) \<Longrightarrow> safe R G (atomically m) s"
  by (simp add: atomically_def)

lemma safe_result:
  assumes "\<And>s'. R s s' \<Longrightarrow> G s' (snd (m s'))"
    and "\<And>s' r. R s s' \<Longrightarrow> fst (m s') = r \<Longrightarrow> safe R G (g r) (snd (m s'))"
  shows "safe R G (after_task (atomically m) g) s"
  using assms by (simp add: atomically_def)

lemma safe_answer:
  assumes "\<And>s'. R s s' \<Longrightarrow> G s' (snd (m s'))"
    and "\<And>s' x. R s s' \<Longrightarrow> fst (m s') = Inr x \<Longrightarrow> safe R G (g x) (snd (m s'))"
  shows "safe R G (then_task (atomically m) g) s"
  unfolding then_task_def by (rule safe_result) (use assms in \<open>auto split: sum.split\<close>)

end

text \<open>Tasks with a rely and a guarantee of their own, where no task guarantees less than another relies on: a
schedule is a chain of guaranteed changes.\<close>

definition compatible ::
  "(nat \<Rightarrow> 's \<Rightarrow> 's \<Rightarrow> bool) \<Rightarrow> (nat \<Rightarrow> 's \<Rightarrow> 's \<Rightarrow> bool) \<Rightarrow> bool" where
  "compatible R G \<longleftrightarrow> (\<forall>i s. R i s s) \<and> (\<forall>i s s' s''. R i s s' \<longrightarrow> R i s' s'' \<longrightarrow> R i s s'')
     \<and> (\<forall>i j s s'. i \<noteq> j \<longrightarrow> G i s s' \<longrightarrow> R j s s')"

definition all_safe ::
  "(nat \<Rightarrow> 's \<Rightarrow> 's \<Rightarrow> bool) \<Rightarrow> (nat \<Rightarrow> 's \<Rightarrow> 's \<Rightarrow> bool) \<Rightarrow> ('e, 'a, 's) config \<Rightarrow> bool" where
  "all_safe R G c \<longleftrightarrow> (\<forall>i < length (fst c). safe (R i) (G i) (fst c ! i) (snd c))"

lemma turn_safe:
  assumes "compatible R G" "all_safe R G (ts, s)"
  shows "all_safe R G (turn i (ts, s)) \<and> (snd (turn i (ts, s)) = s \<or> i < length ts \<and> G i s (snd (turn i (ts, s))))"
proof (cases rule: turn_cases[of i ts s])
  case passed
  then show ?thesis using assms by simp
next
  case (stepped f k)
  note laws = assms(1)[unfolded compatible_def]
  have "safe (R i) (G i) (Step f k) s" using assms(2) stepped(1,2) by (auto simp: all_safe_def)
  then have own: "G i s (f s)" "safe (R i) (G i) (k s) (f s)" using laws by auto
  have "safe (R j) (G j) (ts[i := k s] ! j) (f s)" if j: "j < length ts" for j
  proof (cases "j = i")
    case True
    then show ?thesis using own(2) stepped(1) by simp
  next
    case False
    have t: "safe (R j) (G j) (ts ! j) s" using assms(2) j by (simp add: all_safe_def)
    have r: "R j s (f s)" using laws own(1) False by metis
    have "R j s s'" if "R j (f s) s'" for s' using laws r that by metis
    then show ?thesis using t False by (cases "ts ! j") auto
  qed
  then show ?thesis using own(1) stepped by (simp add: all_safe_def)
qed

theorem schedule_keeps:
  assumes "compatible R G" "all_safe R G (ts, s)" "I s"
    and "\<And>i s s'. i < length ts \<Longrightarrow> G i s s' \<Longrightarrow> I s \<Longrightarrow> I s'"
  shows "I (snd (schedule is (ts, s)))"
  using assms
proof (induction "is" arbitrary: ts s)
  case (Cons i "is")
  obtain ts' s' where t: "turn i (ts, s) = (ts', s')" by fastforce
  note k = turn_safe[OF Cons.prems(1,2), of i, unfolded t]
  have "length ts' = length ts" using turn_length[of i "(ts, s)"] t by simp
  moreover have "I s'" using k Cons.prems(3,4) by auto
  ultimately have "I (snd (schedule is (ts', s')))" by (intro Cons.IH[OF Cons.prems(1)]) (use k Cons.prems(4) in auto)
  then show ?case using t by simp
qed simp

text \<open>Tasks that all rely on the same and guarantee the same.\<close>

context interference
begin

lemma schedule_invariant:
  assumes "\<forall>t \<in> set ts. safe R G t s" "I s" "\<And>s s'. G s s' \<Longrightarrow> I s \<Longrightarrow> I s'"
  shows "I (snd (schedule is (ts, s)))"
proof (rule schedule_keeps[where R = "\<lambda>_. R" and G = "\<lambda>_. G"])
  show "compatible (\<lambda>_. R) (\<lambda>_. G)" unfolding compatible_def using now later own by blast
  show "all_safe (\<lambda>_. R) (\<lambda>_. G) (ts, s)" using assms(1) by (auto simp: all_safe_def)
qed (use assms in auto)

end

section \<open>What a finished task leaves\<close>

text \<open>\<open>reaches R Q t s\<close>: once \<open>t\<close>, from what has become of \<open>s\<close>, has finished, \<open>Q\<close> holds, whatever follows.\<close>

primrec reaches :: "('s \<Rightarrow> 's \<Rightarrow> bool) \<Rightarrow> ('s \<Rightarrow> bool) \<Rightarrow> ('e, 'a, 's) task \<Rightarrow> 's \<Rightarrow> bool" where
  "reaches R Q (Finished r) s = (\<forall>s'. R s s' \<longrightarrow> Q s')"
| "reaches R Q (Step f k) s = (\<forall>s'. R s s' \<longrightarrow> reaches R Q (k s') (f s'))"

context interference
begin

lemma reaches_later: "reaches R Q t s \<Longrightarrow> R s s' \<Longrightarrow> reaches R Q t s'"
  by (cases t) (auto dest: later)

text \<open>A first part that is safe, and a first part that establishes something for the second.\<close>

lemma reaches_after:
  "safe R G t s \<Longrightarrow> (\<And>r s'. R s s' \<Longrightarrow> reaches R Q (g r) s') \<Longrightarrow> reaches R Q (after_task t g) s"
proof (induction t arbitrary: s)
  case (Step f k)
  have "reaches R Q (after_task (k s') g) (f s')" if s': "R s s'" for s'
  proof -
    have "G s' (f s')" "safe R G (k s') (f s')" using Step.prems(1) s' by simp_all
    then have "R s (f s')" using later[OF s' own] by blast
    then show ?thesis using Step.IH[OF rangeI \<open>safe R G (k s') (f s')\<close>] Step.prems(2) later by blast
  qed
  then show ?case by simp
qed (simp add: now)

lemma reaches_seq:
  "reaches R P t s \<Longrightarrow> (\<And>r s'. P s' \<Longrightarrow> reaches R Q (g r) s') \<Longrightarrow> reaches R Q (after_task t g) s"
  by (induction t arbitrary: s) (auto simp: now)

theorem schedule_reaches:
  assumes "\<forall>t \<in> set ts. safe R G t s" "i < length ts" "reaches R Q (ts ! i) s"
    and "fst (schedule is (ts, s)) ! i = Finished r"
  shows "Q (snd (schedule is (ts, s)))"
  using assms
proof (induction "is" arbitrary: ts s)
  case Nil
  then show ?case using now by simp
next
  case (Cons j "is")
  show ?case
  proof (cases rule: turn_cases[of j ts s])
    case passed
    then show ?thesis using Cons by simp
  next
    case (stepped f k)
    have j: "safe R G (Step f k) s" using Cons.prems(1) stepped(1,2) by (metis nth_mem)
    then have R: "R s (f s)" "safe R G (k s) (f s)" using now own by auto
    have others: "\<forall>t \<in> set (ts[j := k s]). safe R G t (f s)"
    proof
      fix t assume "t \<in> set (ts[j := k s])"
      then consider "t = k s" | "t \<in> set ts" using set_update_subset_insert[of ts j "k s"] by blast
      then show "safe R G t (f s)" by cases (use R safe_later Cons.prems(1) in blast)+
    qed
    have "reaches R Q (ts[j := k s] ! i) (f s)"
    proof (cases "i = j")
      case True
      then show ?thesis using Cons.prems(2,3) stepped(2) now by auto
    next
      case False
      then show ?thesis using reaches_later[OF Cons.prems(3) R(1)] by simp
    qed
    then show ?thesis using Cons.IH[OF others] Cons.prems(2,4) stepped(3) by simp
  qed
qed

end

end
