(* ===== verification/Concurrency.thy ===== *)
theory Concurrency
  imports Tasks Growth Isolation Audit_Chain Batcher Compliance_Api
begin

text \<open>The operations of the store that take several statements, as tasks whose steps are the statements
(\<open>db/postgres.rs\<close>, the audit records of the handlers, the flush of \<open>alerting/db\_batcher.rs\<close>, the retention cycle of \<open>main.rs\<close>).  Each runs alone
as the component's definition says; \<open>Contention\<close> says what holds when several run at once.\<close>

type_synonym 'a dbtask = "(error, 'a, db) task"

text \<open>A step whose error is dropped, as in \<open>let _ = ...\<close>.\<close>

abbreviation attempted :: "'a dbop \<Rightarrow> unit dbtask" where
  "attempted m \<equiv> drop_result (atomically m)"

lemma run_attempted [run_task_simps]: "run_task (attempted m) = (\<lambda>d. (Inr (), ignore m d))"
  by (rule ext) (simp add: drop_result_def run_task_simps ok_def ignore_def split: prod.split)

section \<open>Alerts\<close>

definition update_alert_task :: "alert \<Rightarrow> bool dbtask" where
  "update_alert_task a =
     then_task (atomically (select (\<lambda>d. map_option ar_status (first_row (\<lambda>r. ar_id r = a_id a) (db_alerts d))))) (\<lambda>prev.
     then_task (atomically (execute (update_alert_rows a))) (\<lambda>_.
     return_task (case prev of None \<Rightarrow> False
         | Some s \<Rightarrow> is_open_status s \<and> \<not> is_open_status (show_alert_status (a_status a)))))"

section \<open>Rules and playbooks\<close>

definition update_rule_task :: "string \<Rightarrow> nat \<Rightarrow> rule_update \<Rightarrow> detection_rule dbtask" where
  "update_rule_task t i u =
     then_task (atomically (get_rule_by_id t i)) (\<lambda>ex. case ex of None \<Rightarrow> Finished (Inl Invalid_Input)
       | Some r \<Rightarrow> atomically (write_rule t i (merge_rule u r)))"

definition default_playbook :: "string \<Rightarrow> db \<Rightarrow> playbook" where
  "default_playbook t d = \<lparr> pb_id = db_next d, pb_tenant = t, pb_name = ''Default incident response'',
     pb_description = ''Triaged case path that links alert, ownership, escalation, and postmortem evidence.'',
     pb_severity = ''HIGH'', pb_sla_minutes = 60, pb_escalate_minutes = 120,
     pb_steps = default_steps, pb_enabled = True, pb_created = pg_time (db_now d),
     pb_updated = pg_time (db_now d) \<rparr>"

definition insert_playbook :: "string \<Rightarrow> unit dbop" where
  "insert_playbook t = execute (\<lambda>d. d \<lparr> db_playbooks := db_playbooks d @ [default_playbook t d],
     db_next := db_next d + 1 \<rparr>)"

definition ensure_playbooks_task :: "string \<Rightarrow> unit dbtask" where
  "ensure_playbooks_task t =
     then_task (atomically (select (\<lambda>d. length (filter (\<lambda>p. pb_tenant p = t) (db_playbooks d))))) (\<lambda>n.
       if 0 < n then return_task () else atomically (insert_playbook t))"

section \<open>Cases\<close>

definition choose_playbook_task :: "string \<Rightarrow> nat option \<Rightarrow> playbook option dbtask" where
  "choose_playbook_task t pid = (case pid of
       Some i \<Rightarrow> atomically (get_case_playbook t i)
     | None \<Rightarrow> then_task (ensure_playbooks_task t) (\<lambda>_.
         then_task (atomically (select (\<lambda>d. playbook_order (filter (\<lambda>p. pb_tenant p = t) (db_playbooks d))))) (\<lambda>ps.
         return_task (List.find pb_enabled ps))))"

definition announce_case_task ::
  "(nat \<Rightarrow> string) \<Rightarrow> alert \<Rightarrow> string option \<Rightarrow> string option \<Rightarrow> playbook option \<Rightarrow> nat \<Rightarrow> case_record
   \<Rightarrow> unit dbtask" where
  "announce_case_task sh a uid email pb cid c =
     then_task (attempted (record_case_event (a_tenant a) cid ''case.created''
            ''Case created from incoming alert'' uid email
            (JObj [(''alert_id'', JStr (sh (a_id a))),
                   (''playbook_id'', opt_json (\<lambda>i. JStr (sh i)) (ca_playbook_id c)),
                   (''severity'', JStr (show_alert_severity (a_severity a)))]))) (\<lambda>_.
     then_task (attempted (record_case_event (a_tenant a) cid ''alert.linked''
            ''Primary alert linked to case'' None None
            (JObj [(''alert_id'', JStr (sh (a_id a))), (''rule_id'', JStr (a_rule_id a)),
                   (''source_ip'', JStr (a_source_ip a))]))) (\<lambda>_.
     (case pb of None \<Rightarrow> return_task ()
      | Some p \<Rightarrow> attempted (record_case_event (a_tenant a) cid ''playbook.assigned''
              (''Playbook '' @ [CHR 39] @ pb_name p @ [CHR 39] @ '' assigned to case'') None None
              (JObj [(''playbook_id'', JStr (sh (pb_id p))),
                     (''playbook_name'', JStr (pb_name p)), (''steps'', pb_steps p)])))))"

definition open_case_task ::
  "(nat \<Rightarrow> string) \<Rightarrow> alert \<Rightarrow> string option \<Rightarrow> string option \<Rightarrow> string option \<Rightarrow> string option
   \<Rightarrow> playbook option \<Rightarrow> case_record dbtask" where
  "open_case_task sh a uid email title summ pb =
     then_task (atomically fresh_uuid) (\<lambda>cid.
     then_task (atomically (\<lambda>d. insert_case (new_case a uid email title summ pb cid (db_now d)) d)) (\<lambda>c.
     then_task (atomically (insert_link cid (a_id a) (a_tenant a))) (\<lambda>_.
     then_task (announce_case_task sh a uid email pb cid c) (\<lambda>_. return_task c))))"

definition create_case_task ::
  "(nat \<Rightarrow> string) \<Rightarrow> alert \<Rightarrow> string option \<Rightarrow> string option \<Rightarrow> string option \<Rightarrow> string option
   \<Rightarrow> nat option \<Rightarrow> case_record dbtask" where
  "create_case_task sh a uid email title summ pid =
     then_task (atomically (get_case_by_alert_id (a_tenant a) (a_id a))) (\<lambda>ex. case ex of
       Some c \<Rightarrow> return_task c
     | None \<Rightarrow>
         then_task (ensure_playbooks_task (a_tenant a)) (\<lambda>_.
         then_task (choose_playbook_task (a_tenant a) pid) (\<lambda>pb.
         open_case_task sh a uid email title summ pb)))"

definition status_event_task :: "string \<Rightarrow> nat \<Rightarrow> case_record \<Rightarrow> case_record \<Rightarrow> unit dbtask" where
  "status_event_task t i c r = (if ca_status c \<noteq> ca_status r then
       attempted (record_case_event t i ''case.status_changed''
         (''Case status changed from '' @ ca_status c @ '' to '' @ ca_status r)
         (ca_owner_id r) (ca_owner_email r)
         (JObj [(''from'', JStr (ca_status c)), (''to'', JStr (ca_status r))]))
     else return_task ())"

definition owner_event_task :: "string \<Rightarrow> nat \<Rightarrow> case_record \<Rightarrow> case_record \<Rightarrow> unit dbtask" where
  "owner_event_task t i c r = (if ca_owner_id c \<noteq> ca_owner_id r \<or> ca_owner_email c \<noteq> ca_owner_email r then
       attempted (record_case_event t i ''case.owner_changed'' ''Case ownership updated''
         (ca_owner_id r) (ca_owner_email r)
         (JObj [(''owner_email'', opt_json JStr (ca_owner_email r)),
                (''owner_user_id'', opt_json JStr (ca_owner_id r))]))
     else return_task ())"

definition update_case_task :: "string \<Rightarrow> nat \<Rightarrow> case_changes \<Rightarrow> case_record dbtask" where
  "update_case_task t i ch =
     then_task (atomically (get_case_by_id t i)) (\<lambda>ex. case ex of
       None \<Rightarrow> Finished (Inl Invalid_Input)
     | Some c \<Rightarrow>
         then_task (atomically (\<lambda>d. write_case t i (merged_case ch (db_now d) c) d)) (\<lambda>r.
         then_task (status_event_task t i c r) (\<lambda>_.
         then_task (owner_event_task t i c r) (\<lambda>_. return_task r))))"

definition escalate_one_task :: "case_record \<Rightarrow> nat \<Rightarrow> nat dbtask" where
  "escalate_one_task c n = then_task (update_case_task (ca_tenant c) (ca_id c)
      (no_changes \<lparr> cc_status := Some C_Escalated \<rparr>)) (\<lambda>r.
      return_task (if ca_status r = ''ESCALATED'' then n + 1 else n))"

fun escalate_all_task :: "case_record list \<Rightarrow> nat \<Rightarrow> nat dbtask" where
  "escalate_all_task [] n = return_task n"
| "escalate_all_task (c # cs) n = then_task (escalate_one_task c n) (escalate_all_task cs)"

definition escalate_task :: "nat dbtask" where
  "escalate_task = then_task (atomically (select overdue_cases)) (\<lambda>cs. escalate_all_task cs 0)"

section \<open>The audit trail\<close>

text \<open>What follows the lookup of the last hash, as in \<open>write\_audit\<close>.\<close>

definition write_audit_task ::
  "'s env \<Rightarrow> claims \<Rightarrow> string \<Rightarrow> string \<Rightarrow> string option \<Rightarrow> string option \<Rightarrow> json \<Rightarrow> string option \<Rightarrow> unit dbtask" where
  "write_audit_task E cl act rty rid target meta prev =
     (let payload = audit_payload (cl_tenant cl) (cl_sub cl) (cl_email cl) (cl_roles cl) act rty rid
            target (cl_jti cl) meta;
          h = hash_audit_payload E prev payload in
     (case sign_audit_hash E (ev_signing_key E) h of Inl e \<Rightarrow> Finished (Inl e)
      | Inr sig \<Rightarrow>
     then_task (atomically fresh_uuid) (\<lambda>i. atomically (\<lambda>d. insert_audit_event
          \<lparr> ae_id = i, ae_tenant = cl_tenant cl, ae_actor_user_id = cl_sub cl,
            ae_actor_email = cl_email cl, ae_actor_roles = cl_roles cl, ae_action = act,
            ae_resource_type = rty, ae_resource_id = rid, ae_target_tenant = target,
            ae_request_id = cl_jti cl, ae_metadata = payload, ae_previous_hash = prev,
            ae_event_hash = h, ae_signature = sig, ae_created = db_now d \<rparr> d))))"

definition audit_task ::
  "'s env \<Rightarrow> claims \<Rightarrow> string \<Rightarrow> string \<Rightarrow> string option \<Rightarrow> string option \<Rightarrow> json \<Rightarrow> unit dbtask" where
  "audit_task E cl act rty rid target meta =
     then_task (atomically (latest_audit_hash (cl_tenant cl))) (write_audit_task E cl act rty rid target meta)"

section \<open>The flush of the batcher\<close>

definition flush_tenant_task :: "batch_env \<Rightarrow> string \<Rightarrow> (dedup_key \<times> alert) list \<Rightarrow> unit dbtask" where
  "flush_tenant_task B t kas =
     after_task (atomically (get_open_alerts_by_ips t (remdups (map (\<lambda>(k, a). a_source_ip a) kas)))) (\<lambda>r.
       (case split_batch (index_existing B (result_or [] r)) (be_keys B kas) of (cr, up) \<Rightarrow>
         then_task (if cr = [] then return_task () else atomically (create_alerts_batch cr)) (\<lambda>_.
           if up = [] then return_task () else attempted (upsert_alerts_batch up))))"

definition flush_task :: "batch_env \<Rightarrow> alert list \<Rightarrow> unit dbtask" where
  "flush_task B buffer = (if buffer = [] then return_task ()
     else each_task (\<lambda>(t, kas). flush_tenant_task B t kas) (be_tenants B (group_batch B buffer)))"

section \<open>The retention cycle\<close>

text \<open>The policies are listed once; whether a hold is active is decided with the clock at the tenant's turn.\<close>

definition clock :: "instant dbop" where
  "clock d = (Inr (db_now d), d)"

definition retain_tenant_task :: "compliance_policy \<Rightarrow> (string \<times> instant) list option dbtask" where
  "retain_tenant_task p =
     then_task (atomically clock) (\<lambda>now.
       if hold_active now p then return_task (Some [])
       else (case retention_cutoff now p of
           None \<Rightarrow> return_task None
         | Some cutoff \<Rightarrow>
             then_task (attempted (purge_audit_events_before (cp_tenant p) cutoff)) (\<lambda>_.
             then_task (attempted (purge_alerts_before (cp_tenant p) cutoff)) (\<lambda>_.
             return_task (Some [(cp_tenant p, cutoff)])))))"

fun retain_all_task :: "compliance_policy list \<Rightarrow> ((string \<times> instant) list \<times> bool) dbtask" where
  "retain_all_task [] = return_task ([], True)"
| "retain_all_task (p # ps) = then_task (retain_tenant_task p) (\<lambda>r. case r of
       None \<Rightarrow> return_task ([], False)
     | Some xs \<Rightarrow> then_task (retain_all_task ps) (\<lambda>(ys, alive). return_task (xs @ ys, alive)))"

definition retention_task :: "bool \<Rightarrow> ((string \<times> instant) list \<times> bool) dbtask" where
  "retention_task elastic = after_task (atomically list_compliance_policies) (\<lambda>r. case r of
       Inl _ \<Rightarrow> return_task ([], True)
     | Inr ps \<Rightarrow> then_task (retain_all_task ps) (\<lambda>(xs, alive). return_task (if elastic then xs else [], alive)))"

section \<open>Alone, a task is the operation\<close>

named_theorems run_op_simps \<open>the tasks of the operations\<close>

lemma run_finished [run_task_simps]: "run_task (Finished (Inl e)) = fail e"
  by (rule ext) (simp add: fail_def)

lemma run_update_alert [run_op_simps]: "run_task (update_alert_task a) = update_alert a"
  by (simp add: update_alert_task_def update_alert_def run_task_simps)

lemma run_update_rule [run_op_simps]: "run_task (update_rule_task t i u) = update_rule t i u"
  by (simp add: update_rule_task_def update_rule_def run_task_simps cong: option.case_cong)

lemma run_ensure_playbooks [run_op_simps]: "run_task (ensure_playbooks_task t) = ensure_default_playbooks t"
  by (simp add: ensure_playbooks_task_def ensure_default_playbooks_def insert_playbook_def default_playbook_def
      run_task_simps cong: if_cong)

lemma run_choose_playbook [run_op_simps]: "run_task (choose_playbook_task t pid) = choose_playbook t pid"
  by (simp add: choose_playbook_task_def choose_playbook_def list_case_playbooks_def run_task_simps run_op_simps
      bind_ok_assoc split: option.split)

lemma run_announce [run_op_simps]:
  "run_task (announce_case_task sh a uid em pb i c) = (\<lambda>d. (Inr (), announce_case sh a uid em pb i c d))"
  by (rule ext) (simp add: announce_case_task_def announce_case_def run_task_simps bind_ok_def ok_def Let_def split: option.split)

lemma run_open_case [run_op_simps]: "run_task (open_case_task sh a uid em title summ pb) = open_case sh a uid em title summ pb"
  by (rule ext)
    (simp add: open_case_task_def open_case_def run_task_simps run_op_simps bind_ok_def ok_def split: prod.split sum.split)

lemma run_create_case [run_op_simps]:
  "run_task (create_case_task sh a uid em title summ pid) = create_case_from_alert sh a uid em title summ pid"
  by (simp add: create_case_task_def create_case_from_alert_def run_task_simps run_op_simps cong: option.case_cong)

lemma run_update_case [run_op_simps]: "run_task (update_case_task t i ch) = update_case t i ch"
  unfolding update_case_task_def update_case_def
  by (rule ext)
    (simp add: status_event_task_def owner_event_task_def run_task_simps bind_ok_def ok_def fail_def Let_def
      split: prod.split sum.split option.split)

lemma run_escalate_all [run_op_simps]: "run_task (escalate_all_task cs n) = escalate_all cs n"
  by (induction cs arbitrary: n)
    (simp_all add: escalate_one_task_def escalate_one_def run_task_simps run_op_simps)

lemma run_escalate [run_op_simps]: "run_task escalate_task = escalate_overdue_cases"
  by (simp add: escalate_task_def escalate_overdue_cases_def run_task_simps run_op_simps)

lemma run_audit: "or_status 500 (via_db (run_task (audit_task E cl act rty rid target meta)))
    = record_audit E cl act rty rid target meta"
  by (rule ext)
    (auto simp: audit_task_def write_audit_task_def record_audit_def write_audit_def run_task_simps bind_ok_def or_status_def via_db_def
      fail_def Let_def sign_audit_hash_def fresh_uuid_def split: prod.split sum.split option.split)

lemma run_flush_tenant [run_op_simps]: "run_task (flush_tenant_task B t kas) = flush_tenant B t kas"
  by (rule ext)
    (auto simp: flush_tenant_task_def flush_tenant_def run_task_simps attempt_def bind_ok_def ok_def
      split: prod.split sum.split)

lemma run_flush [run_op_simps]: "run_task (flush_task B buffer) = flush_batch B buffer"
  by (simp add: flush_task_def flush_batch_def run_task_simps run_op_simps case_prod_unfold)

lemma run_retain_tenant:
  "run_task (retain_tenant_task p) d = (case retain_tenant p d of (xs, d') \<Rightarrow> (Inr xs, d'))"
  by (simp add: retain_tenant_task_def retain_tenant_def run_task_simps bind_ok_def ok_def clock_def Let_def split: option.split)

lemma run_retain_all: "run_task (retain_all_task ps) d = (case retain_all ps d of (xs, d') \<Rightarrow> (Inr xs, d'))"
  by (induction ps arbitrary: d)
    (auto simp: run_task_simps run_retain_tenant bind_ok_def ok_def split: prod.splits option.splits)

lemma run_retention:
  "run_task (retention_task elastic) d = (case run_tenant_retention_cycle elastic d of (xs, d') \<Rightarrow> (Inr xs, d'))"
  by (simp add: retention_task_def run_tenant_retention_cycle_def run_task_simps run_retain_all bind_ok_def ok_def
      split: prod.split sum.split)

end
