(* ===== verification/Contention.thy ===== *)
theory Contention
  imports Concurrency
begin

text \<open>Operations of the store at once.  \<open>job_task\<close> is the task of one operation, a worker does one after another,
and a run is any interleaving of the statements of the workers.  The locale \<open>statement_contract\<close> says what a single
statement owes to a guarantee; inside it every operation is shown to give the guarantee, whatever the others do
between its statements.\<close>

section \<open>The operations\<close>

datatype job =
    Write_Audit claims string string "string option" "string option" json
  | Add_Account string string string string
  | Add_Rule rule_create
  | Change_Rule string nat rule_update
  | Drop_Rule string nat
  | Set_Policy compliance_policy
  | Set_Costs cost_policy
  | Add_Report report_create
  | Open_Case alert "string option" "string option" "string option" "string option" "nat option"
  | Change_Case string nat case_changes
  | Sweep_Cases
  | Flush_Alerts "alert list"
  | Put_Alert alert
  | Set_Alert alert
  | Save_Stats string int int int int
  | Run_Retention bool
  | Pass_Time nat

definition pass_time :: "nat \<Rightarrow> unit dbop" where
  "pass_time n d = (Inr (), d \<lparr> db_now := db_now d + int n \<rparr>)"

fun job_task :: "'s env \<Rightarrow> (nat \<Rightarrow> string) \<Rightarrow> batch_env \<Rightarrow> job \<Rightarrow> unit dbtask" where
  "job_task E sh B (Write_Audit cl act rty rid target meta) = drop_result (audit_task E cl act rty rid target meta)"
| "job_task E sh B (Add_Account t email h role) = attempted (create_user t email h role)"
| "job_task E sh B (Add_Rule c) = attempted (create_rule c)"
| "job_task E sh B (Change_Rule t i u) = drop_result (update_rule_task t i u)"
| "job_task E sh B (Drop_Rule t i) = attempted (delete_rule t i)"
| "job_task E sh B (Set_Policy p) = attempted (upsert_compliance_policy p)"
| "job_task E sh B (Set_Costs p) = attempted (upsert_cost_policy p)"
| "job_task E sh B (Add_Report r) = attempted (insert_reliability_report r)"
| "job_task E sh B (Open_Case a uid email title summ pid) = drop_result (create_case_task sh a uid email title summ pid)"
| "job_task E sh B (Change_Case t i ch) = drop_result (update_case_task t i ch)"
| "job_task E sh B Sweep_Cases = drop_result escalate_task"
| "job_task E sh B (Flush_Alerts as) = drop_result (flush_task B as)"
| "job_task E sh B (Put_Alert a) = attempted (create_alert a)"
| "job_task E sh B (Set_Alert a) = drop_result (update_alert_task a)"
| "job_task E sh B (Save_Stats t n_logs n_alerts n_active n_critical) =
     attempted (save_stats t n_logs n_alerts n_active n_critical)"
| "job_task E sh B (Run_Retention elastic) = drop_result (retention_task elastic)"
| "job_task E sh B (Pass_Time n) = attempted (pass_time n)"

text \<open>What an operation does in one piece: the definitions of the components.\<close>

fun job_effect :: "'s env \<Rightarrow> (nat \<Rightarrow> string) \<Rightarrow> batch_env \<Rightarrow> job \<Rightarrow> db \<Rightarrow> db" where
  "job_effect E sh B (Write_Audit cl act rty rid target meta) d =
     snd (run_task (audit_task E cl act rty rid target meta) d)"
| "job_effect E sh B (Add_Account t email h role) d = ignore (create_user t email h role) d"
| "job_effect E sh B (Add_Rule c) d = ignore (create_rule c) d"
| "job_effect E sh B (Change_Rule t i u) d = ignore (update_rule t i u) d"
| "job_effect E sh B (Drop_Rule t i) d = ignore (delete_rule t i) d"
| "job_effect E sh B (Set_Policy p) d = ignore (upsert_compliance_policy p) d"
| "job_effect E sh B (Set_Costs p) d = ignore (upsert_cost_policy p) d"
| "job_effect E sh B (Add_Report r) d = ignore (insert_reliability_report r) d"
| "job_effect E sh B (Open_Case a uid email title summ pid) d =
     ignore (create_case_from_alert sh a uid email title summ pid) d"
| "job_effect E sh B (Change_Case t i ch) d = ignore (update_case t i ch) d"
| "job_effect E sh B Sweep_Cases d = ignore escalate_overdue_cases d"
| "job_effect E sh B (Flush_Alerts as) d = ignore (flush_batch B as) d"
| "job_effect E sh B (Put_Alert a) d = ignore (create_alert a) d"
| "job_effect E sh B (Set_Alert a) d = ignore (update_alert a) d"
| "job_effect E sh B (Save_Stats t n_logs n_alerts n_active n_critical) d =
     ignore (save_stats t n_logs n_alerts n_active n_critical) d"
| "job_effect E sh B (Run_Retention elastic) d = snd (run_tenant_retention_cycle elastic d)"
| "job_effect E sh B (Pass_Time n) d = ignore (pass_time n) d"

lemma run_job: "snd (run_task (job_task E sh B j) d) = job_effect E sh B j d"
  by (cases j) (simp_all add: run_drop run_op_simps run_attempted ignore_def del: run_drop, simp_all add: run_task_simps run_op_simps run_retention ignore_def split: prod.split)

definition worker_task :: "'s env \<Rightarrow> (nat \<Rightarrow> string) \<Rightarrow> batch_env \<Rightarrow> job list \<Rightarrow> unit dbtask" where
  "worker_task E sh B js = each_task (job_task E sh B) js"

text \<open>No job ends with an error of its own: a worker goes on.\<close>

lemma drop_result_ok: "fst (run_task (drop_result t) d) = Inr ()"
  by (simp add: drop_result_def run_task_simps ok_def split: prod.split)

lemma job_ok: "fst (run_task (job_task E sh B j) d) = Inr ()"
  by (cases j) (simp_all add: drop_result_ok)

lemma run_worker: "run_task (worker_task E sh B js) d = (Inr (), fold (job_effect E sh B) js d)"
proof -
  have "run_task (job_task E sh B j) d = (Inr (), job_effect E sh B j d)" for j d
    using run_job[of E sh B j d] job_ok[of E sh B j d] by (metis prod.collapse)
  then have "for_each (\<lambda>j. run_task (job_task E sh B j)) js d = (Inr (), fold (job_effect E sh B) js d)"
    by (induction js arbitrary: d) (simp_all add: bind_ok_def)
  then show ?thesis by (simp add: worker_task_def run_task_simps)
qed

text \<open>The configuration of some workers over a database.\<close>

definition workers :: "'s env \<Rightarrow> (nat \<Rightarrow> string) \<Rightarrow> batch_env \<Rightarrow> job list list \<Rightarrow> db \<Rightarrow> unit dbtask list \<times> db" where
  "workers E sh B ws d = (map (worker_task E sh B) ws, d)"

definition interleaved :: "'s env \<Rightarrow> (nat \<Rightarrow> string) \<Rightarrow> batch_env \<Rightarrow> nat list \<Rightarrow> job list list \<Rightarrow> db \<Rightarrow> db" where
  "interleaved E sh B is ws d = snd (schedule is (workers E sh B ws d))"

section \<open>What time does\<close>

text \<open>Whatever happens, ids are handed out upwards, the clock does not go back, and a case stays.\<close>

definition future :: "db \<Rightarrow> db \<Rightarrow> bool" where
  "future d d' \<longleftrightarrow> db_next d \<le> db_next d' \<and> db_now d \<le> db_now d' \<and> case_keys (db_cases d) \<subseteq> case_keys (db_cases d')"

lemma future_refl [simp]: "future d d"
  by (simp add: future_def)

lemma future_trans: "future d d' \<Longrightarrow> future d' d'' \<Longrightarrow> future d d''"
  by (auto simp: future_def)

lemma future_case: "future d d' \<Longrightarrow> has_case t i d \<Longrightarrow> has_case t i d'"
  by (auto simp: future_def has_case_keys)

lemma future_id: "future d d' \<Longrightarrow> i < db_next d \<Longrightarrow> i < db_next d'"
  by (simp add: future_def)

lemma future_fields:
  "future d (d \<lparr> db_calls := n \<rparr>)" "future d (d \<lparr> db_next := Suc (db_next d) \<rparr>)"
  "db_now d \<le> x \<Longrightarrow> future d (d \<lparr> db_now := x \<rparr>)"
  by (simp_all add: future_def)

definition keeping :: "('s \<Rightarrow> 's \<Rightarrow> bool) \<Rightarrow> ('e, 'a, 's) eff \<Rightarrow> bool" where
  "keeping G m \<longleftrightarrow> (\<forall>s. G s (snd (m s)))"

lemma keepingD: "keeping G m \<Longrightarrow> G s (snd (m s))"
  by (simp add: keeping_def)

lemma future_stmt: "(\<And>d. future d (snd (f d))) \<Longrightarrow> keeping future (stmt f)"
  unfolding keeping_def stmt_def Let_def using future_fields(1) future_trans by fastforce

named_theorems moving \<open>statements lead into the future\<close>

lemma case_keys_written: "(\<And>c. ca_id (w c) = ca_id c \<and> ca_tenant (w c) = ca_tenant c) \<Longrightarrow>
    case_keys (map (\<lambda>c. if P c then w c else c) cs) = case_keys cs"
  unfolding case_keys_def by (subst map_key_update) simp_all

lemma future_statements [moving]:
  "keeping future (create_user t email h role)" "keeping future (create_rule c)"
  "keeping future (write_rule t i m)" "keeping future (delete_rule t i)" "keeping future (insert_audit_event e)"
  "keeping future (upsert_compliance_policy p)" "keeping future (upsert_cost_policy k)"
  "keeping future (insert_reliability_report r)" "keeping future (insert_playbook t)" "keeping future (insert_case x)"
  "keeping future (record_case_event t i ty msg uid em js)" "keeping future (insert_link i n t)"
  "keeping future (insert_alerts as)" "keeping future (execute (update_alert_rows a))"
  "keeping future (save_stats t x1 x2 x3 x4)"
  unfolding create_user_def create_rule_def write_rule_def delete_rule_def insert_audit_event_def upsert_compliance_policy_def
    upsert_cost_policy_def insert_reliability_report_def insert_playbook_def insert_case_def record_case_event_def
    insert_link_def insert_alerts_def update_alert_rows_def save_stats_def execute_def
  by (rule future_stmt, auto simp: future_def Let_def case_keys_def split: option.split)+

lemma future_written [moving]: "keeping future (write_case t i x)"
  unfolding write_case_def by (rule future_stmt) (simp add: future_def Let_def case_keys_written split: option.split)

lemma future_upsert [moving]: "keeping future (upsert_alerts_batch as)"
proof -
  have "keeping future (stmt (\<lambda>d. if P d then (Inr (), d \<lparr> db_alerts := f d \<rparr>) else (Inl Db_Error, d)))" for P f
    by (rule future_stmt) (simp add: future_def)
  then show ?thesis by (simp add: upsert_alerts_batch_def keeping_def ok_def)
qed

lemma future_others [moving]: "keeping future (select f)" "keeping future fresh_uuid" "keeping future (pass_time n)"
  by (simp_all add: keeping_def select_cases future_def fresh_uuid_def pass_time_def)

lemma future_purges [moving]:
  "keeping future (purge_audit_events_before t cutoff)" "keeping future (purge_alerts_before t cutoff)"
  unfolding purge_audit_events_before_def purge_alerts_before_def Let_def
  by (rule future_stmt, simp add: future_def)+

lemma future_clock [moving]: "keeping future clock"
  by (simp add: keeping_def clock_def)

section \<open>What a statement owes\<close>

text \<open>\<open>G\<close> is a guarantee, \<open>T\<close> says for which tenants the statements may write, \<open>A\<close> for which they may write
audit events, \<open>P\<close> for which old audit events and alerts may be purged, \<open>U\<close> which alerts may be updated: that
statement names an id and no tenant.\<close>

locale statement_contract =
  fixes G :: "db \<Rightarrow> db \<Rightarrow> bool" and T :: "string \<Rightarrow> bool" and A :: "string \<Rightarrow> bool"
    and P :: "string \<Rightarrow> bool" and U :: "nat \<Rightarrow> bool"
  assumes idle: "G d d" and calls: "G d (d \<lparr> db_calls := Suc (db_calls d) \<rparr>)" and uuid: "keeping G fresh_uuid" and time_passed: "keeping G (pass_time n)"
    and user_row: "T t \<Longrightarrow> keeping G (create_user t email h role)"
    and rule_row: "T (rc_tenant q) \<Longrightarrow> keeping G (create_rule q)"
    and rule_change: "T t \<Longrightarrow> keeping G (write_rule t i r)"
    and rule_gone: "T t \<Longrightarrow> keeping G (delete_rule t i)"
    and audit_row: "A (ae_tenant e) \<Longrightarrow> ae_id e < db_next d \<Longrightarrow> G d (snd (insert_audit_event e d))"
    and policy_row: "T (cp_tenant p) \<Longrightarrow> keeping G (upsert_compliance_policy p)"
    and cost_row: "T (kp_tenant k) \<Longrightarrow> keeping G (upsert_cost_policy k)"
    and stats_row: "T t \<Longrightarrow> keeping G (save_stats t x1 x2 x3 x4)"
    and alert_change: "U (a_id x) \<Longrightarrow> keeping G (execute (update_alert_rows x))"
    and report_row: "T (rp_tenant rp) \<Longrightarrow> keeping G (insert_reliability_report rp)"
    and playbook_row: "T t \<Longrightarrow> keeping G (insert_playbook t)"
    and event_row: "T t \<Longrightarrow> has_case t i d \<Longrightarrow> G d (snd (record_case_event t i ty msg uid em m d))"
    and case_row: "T (ca_tenant c) \<Longrightarrow> case_ok c \<Longrightarrow> ca_id c < db_next d \<Longrightarrow> G d (snd (insert_case c d))"
    and link_row: "T t \<Longrightarrow> has_case t i d \<Longrightarrow> G d (snd (insert_link i a t d))"
    and case_change: "T t \<Longrightarrow> G d (snd (write_case t i (merged_case ch (db_now d) c) d))"
    and audit_purge: "P t \<Longrightarrow> keeping G (purge_audit_events_before t cutoff)"
    and alert_purge: "P t \<Longrightarrow> keeping G (purge_alerts_before t cutoff)"
    and alert_rows: "T t \<Longrightarrow> \<forall>a \<in> set as. a_tenant a = t \<Longrightarrow> keeping G (insert_alerts as)"
    and alert_changes: "T t \<Longrightarrow> as \<noteq> [] \<Longrightarrow> \<forall>a \<in> set as. a_tenant a = t \<Longrightarrow> keeping G (upsert_alerts_batch as)"

abbreviation (input) both :: "('s \<Rightarrow> 's \<Rightarrow> bool) \<Rightarrow> ('s \<Rightarrow> 's \<Rightarrow> bool) \<Rightarrow> 's \<Rightarrow> 's \<Rightarrow> bool" where
  "both R G \<equiv> \<lambda>s s'. R s s' \<and> G s s'"

sublocale statement_contract \<subseteq> interference future "both future G"
  by unfold_locales (auto intro: future_trans)

context statement_contract
begin

text \<open>A statement that keeps to the guarantee, as a task.\<close>

lemma reading: "keeping G (select f)"
  by (simp add: keeping_def select_cases calls)

lemma safe_statement: "keeping future m \<Longrightarrow> keeping G m \<Longrightarrow> safe future (both future G) (atomically m) d"
  by (rule safe_atomically) (simp add: keepingD)

lemma safe_attempted: "keeping future m \<Longrightarrow> keeping G m \<Longrightarrow> safe future (both future G) (attempted m) d"
  by (rule safe_drop) (rule safe_statement)

lemma safe_reading: "safe future (both future G) (atomically (select f)) d"
  by (rule safe_statement) (rule moving reading)+

lemma safe_event:
  "T t \<Longrightarrow> has_case t i d \<Longrightarrow> safe future (both future G) (attempted (record_case_event t i ty msg uid em m)) d"
  by (intro safe_drop safe_atomically) (simp add: keepingD[OF future_statements(11)] event_row future_case)

lemma safe_update_rule: "T t \<Longrightarrow> safe future (both future G) (update_rule_task t i u) d"
  unfolding update_rule_task_def get_rule_by_id_def
  by (intro safe_then safe_reading) (auto simp: safe_finished intro!: safe_statement moving rule_change split: option.split)

lemma safe_update_alert: "U (a_id a) \<Longrightarrow> safe future (both future G) (update_alert_task a) d"
  unfolding update_alert_task_def
  by (intro safe_then safe_reading) (auto simp: safe_finished intro!: safe_statement moving alert_change)

lemma safe_playbooks: "T t \<Longrightarrow> safe future (both future G) (ensure_playbooks_task t) d"
  unfolding ensure_playbooks_task_def
  by (intro safe_then safe_reading) (auto simp: safe_finished intro!: safe_statement moving playbook_row)

lemma safe_choose: "T t \<Longrightarrow> safe future (both future G) (choose_playbook_task t pid) d"
  unfolding choose_playbook_task_def get_case_playbook_def
  by (auto simp: safe_finished intro!: safe_then safe_reading safe_playbooks split: option.split)

lemma safe_announce:
  assumes "T (a_tenant a)" "has_case (a_tenant a) i d"
  shows "safe future (both future G) (announce_case_task sh a uid em pb i c) d"
  unfolding announce_case_task_def
  by (intro safe_then safe_event)
    (auto simp: safe_finished assms future_case[OF _ assms(2)] future_case[OF _ future_case[OF _ assms(2)]]
      intro!: safe_event split: option.split)

lemma inserted_case: "fst (insert_case c d) = Inr x \<Longrightarrow> has_case (ca_tenant c) (ca_id c) (snd (insert_case c d))"
  using insert_case_ok[of c d x] by (cases "insert_case c d") (simp add: has_case_def)

lemma safe_open_case:
  assumes "T (a_tenant a)"
  shows "safe future (both future G) (open_case_task sh a uid em title summ pb) d"
  unfolding open_case_task_def
proof (rule safe_answer)
  show "both future G d' (snd (fresh_uuid d'))" for d' using keepingD[OF uuid] keepingD[OF future_others(2)] by blast
  fix d1 i assume "fst (fresh_uuid d1) = Inr i"
  then have i: "i < db_next (snd (fresh_uuid d1))" by (simp add: fresh_uuid_def)
  let ?c = "\<lambda>d. new_case a uid em title summ pb i (db_now d)"
  note at = new_case_simps[of a uid em title summ pb i]
  show "safe future (both future G) (then_task (atomically (\<lambda>d. insert_case (?c d) d)) (\<lambda>c.
      then_task (atomically (insert_link i (a_id a) (a_tenant a))) (\<lambda>_.
      then_task (announce_case_task sh a uid em pb i c) (\<lambda>_. return_task c)))) (snd (fresh_uuid d1))"
  proof (rule safe_answer)
    show "both future G d' (snd (insert_case (?c d') d'))" if "future (snd (fresh_uuid d1)) d'" for d'
      using case_row[of "?c d'" d'] new_case_ok keepingD[OF future_statements(10)] future_id[OF that i] assms
      by (simp add: at)
    fix d2 c assume "fst (insert_case (?c d2) d2) = Inr c"
    then have h: "has_case (a_tenant a) i (snd (insert_case (?c d2) d2))" using inserted_case[of "?c d2"] by (simp add: at)
    show "safe future (both future G) (then_task (atomically (insert_link i (a_id a) (a_tenant a))) (\<lambda>_.
        then_task (announce_case_task sh a uid em pb i c) (\<lambda>_. return_task c))) (snd (insert_case (?c d2) d2))"
    proof (intro safe_then safe_atomically safe_announce safe_finished assms)
      show "both future G d' (snd (insert_link i (a_id a) (a_tenant a) d'))" if "future (snd (insert_case (?c d2) d2)) d'" for d'
        using link_row[OF assms future_case[OF that h]] keepingD[OF future_statements(12)] by blast
    qed (rule future_case[OF _ h])
  qed
qed

lemma safe_create_case:
  "T (a_tenant a) \<Longrightarrow> safe future (both future G) (create_case_task sh a uid em title summ pid) d"
  unfolding create_case_task_def get_case_by_alert_id_def
  by (auto simp: safe_finished intro!: safe_then safe_reading safe_playbooks safe_choose safe_open_case split: option.split)

lemma safe_update_case: "T t \<Longrightarrow> safe future (both future G) (update_case_task t i ch) d"
  unfolding update_case_task_def
proof (rule safe_answer)
  assume t: "T t"
  show "both future G d' (snd (get_case_by_id t i d'))" for d'
    unfolding get_case_by_id_def by (simp add: keepingD[OF reading] keepingD[OF future_others(1)])
  fix d1 ex assume "fst (get_case_by_id t i d1) = Inr ex"
  then have h: "has_case t i (snd (get_case_by_id t i d1))" if "ex = Some c" for c
    using that by (auto simp: get_case_by_id_def select_cases has_case_def dest!: first_row_Some split: if_splits)
  have events: "safe future (both future G) (then_task (status_event_task t i c r) (\<lambda>_.
      then_task (owner_event_task t i c r) (\<lambda>_. return_task r))) d2" if "has_case t i d2" for c r d2
    unfolding status_event_task_def owner_event_task_def
    by (intro safe_then) (auto simp: safe_finished t that future_case intro!: safe_event)
  have "safe future (both future G) (then_task (atomically (\<lambda>d. write_case t i (merged_case ch (db_now d) c) d)) (\<lambda>r.
      then_task (status_event_task t i c r) (\<lambda>_. then_task (owner_event_task t i c r) (\<lambda>_. return_task r))))
      (snd (get_case_by_id t i d1))" if "ex = Some c" for c
    by (intro safe_then safe_atomically events)
      (auto simp: case_change[OF t] keepingD[OF future_written] intro: future_case[OF _ h[OF that]])
  then show "safe future (both future G) (case ex of None \<Rightarrow> Finished (Inl Invalid_Input) | Some c \<Rightarrow>
      then_task (atomically (\<lambda>d. write_case t i (merged_case ch (db_now d) c) d)) (\<lambda>r.
      then_task (status_event_task t i c r) (\<lambda>_. then_task (owner_event_task t i c r) (\<lambda>_. return_task r))))
      (snd (get_case_by_id t i d1))" by (simp add: safe_finished split: option.split)
qed

lemma safe_sweep: "(\<And>t. T t) \<Longrightarrow> safe future (both future G) escalate_task d"
proof -
  assume T: "\<And>t. T t"
  have "safe future (both future G) (escalate_all_task cs n) d" for cs n d
    by (induction cs arbitrary: n d)
      (auto simp: safe_finished escalate_one_task_def T intro!: safe_then safe_update_case)
  then show ?thesis unfolding escalate_task_def by (intro safe_then safe_reading)
qed

lemma safe_audit_insert:
  assumes "\<And>i d. A (ae_tenant (e i d)) \<and> ae_id (e i d) = i"
  shows "safe future (both future G) (then_task (atomically fresh_uuid) (\<lambda>i. atomically (\<lambda>d. insert_audit_event (e i d) d))) d"
proof (rule safe_answer)
  show "both future G d' (snd (fresh_uuid d'))" for d' using keepingD[OF uuid] keepingD[OF future_others(2)] by blast
  fix d2 i assume "fst (fresh_uuid d2) = Inr i"
  then have i: "i < db_next (snd (fresh_uuid d2))" by (simp add: fresh_uuid_def)
  show "safe future (both future G) (atomically (\<lambda>d. insert_audit_event (e i d) d)) (snd (fresh_uuid d2))"
    using audit_row[of "e i d" d for d] assms keepingD[OF future_statements(5)] future_id[OF _ i]
    by (intro safe_atomically) simp
qed

lemma safe_audit:
  "A (cl_tenant cl) \<Longrightarrow> safe future (both future G) (audit_task E cl act rty rid target meta) d"
  unfolding audit_task_def write_audit_task_def Let_def latest_audit_hash_def
  by (intro safe_then safe_reading) (auto simp: safe_finished intro!: safe_audit_insert split: sum.split)

end

section \<open>The flush\<close>

lemma batch_tenants: "(t, g) \<in> set (group_batch E as) \<Longrightarrow> t \<in> a_tenant ` set as"
proof -
  have "set (map fst (fold (batch_add E) as m)) \<subseteq> set (map fst m) \<union> a_tenant ` set as" for m
  proof (induction as arbitrary: m)
    case (Cons a as)
    have "set (map fst (batch_add E a m)) \<subseteq> insert (a_tenant a) (set (map fst m))"
      using set_al_update_subset[of "a_tenant a" _ m] by (fastforce simp: batch_add_def)
    then show ?case using Cons[of "batch_add E a m"] by (simp only: fold_simps list.set image_insert) blast
  qed simp
  from this[of "[]"] show "(t, g) \<in> set (group_batch E as) \<Longrightarrow> t \<in> a_tenant ` set as"
    by (force simp: group_batch_def)
qed

lemma indexed_existing: "index_existing E es k = Some e \<Longrightarrow> e \<in> set es"
proof -
  have "fold (\<lambda>e m. let k = alert_dedup_key (be_hash E) e in if m k = None then m(k \<mapsto> e) else m) es m k = Some e
      \<Longrightarrow> m k = Some e \<or> e \<in> set es" for m
    by (induction es arbitrary: m) (fastforce simp: Let_def split: if_splits)+
  then show "index_existing E es k = Some e \<Longrightarrow> e \<in> set es" by (force simp: index_existing_def)
qed

lemma split_tenants:
  assumes "split_batch ex kas = (cr, up)" "\<forall>(k, a) \<in> set kas. a_tenant a = t" "\<forall>k e. ex k = Some e \<longrightarrow> a_tenant e = t"
  shows "(\<forall>a \<in> set cr. a_tenant a = t) \<and> (\<forall>a \<in> set up. a_tenant a = t)"
  using assms
proof (induction ex kas arbitrary: cr up rule: split_batch.induct)
  case (2 ex k a kas)
  have kas: "a_tenant a = t" "\<forall>(k, a) \<in> set kas. a_tenant a = t" using 2(4) by simp_all
  show ?case
  proof (cases "ex k")
    case None
    obtain c1 u1 where r: "split_batch ex kas = (c1, u1)" by fastforce
    then have "cr = a # c1 \<and> up = u1" using 2(3) None by simp
    then show ?thesis using 2(1)[OF None r kas(2) 2(5)] kas(1) by simp
  next
    case (Some e)
    obtain c1 u1 where r: "split_batch (ex(k := None)) kas = (c1, u1)" by fastforce
    then have "cr = c1 \<and> up = merge_alert e a # u1" using 2(3) Some by simp
    moreover have "a_tenant e = t" using 2(5) Some by blast
    moreover have rest: "\<forall>k' e. (ex(k := None)) k' = Some e \<longrightarrow> a_tenant e = t" using 2(5) by (metis fun_upd_apply option.distinct(1))
    ultimately show ?thesis using 2(2)[OF Some r kas(2) rest] by simp
  qed
qed simp

lemma open_alerts_tenant:
  "fst (get_open_alerts_by_ips t ips d) = r \<Longrightarrow> e \<in> set (result_or [] r) \<Longrightarrow> a_tenant e = t"
  by (auto simp: get_open_alerts_by_ips_def ok_def select_cases result_or_def by_last_seen_def alert_of_row_def
      split: if_splits)

text \<open>The tenants an operation writes for, and those for which it writes audit events.\<close>

fun job_tenants :: "job \<Rightarrow> string set" where
  "job_tenants (Write_Audit cl act rty rid target meta) = {}"
| "job_tenants (Add_Account t email h role) = {t}"
| "job_tenants (Add_Rule c) = {rc_tenant c}"
| "job_tenants (Change_Rule t i u) = {t}"
| "job_tenants (Drop_Rule t i) = {t}"
| "job_tenants (Set_Policy p) = {cp_tenant p}"
| "job_tenants (Set_Costs p) = {kp_tenant p}"
| "job_tenants (Add_Report r) = {rp_tenant r}"
| "job_tenants (Open_Case a uid email title summ pid) = {a_tenant a}"
| "job_tenants (Change_Case t i ch) = {t}"
| "job_tenants Sweep_Cases = UNIV"
| "job_tenants (Flush_Alerts as) = a_tenant ` set as"
| "job_tenants (Put_Alert a) = {a_tenant a}"
| "job_tenants (Set_Alert a) = {}"
| "job_tenants (Save_Stats t n_logs n_alerts n_active n_critical) = {t}"
| "job_tenants (Run_Retention elastic) = {}"
| "job_tenants (Pass_Time n) = {}"

text \<open>The retention cycle deletes, for every tenant that has a policy.\<close>

fun job_purges :: "job \<Rightarrow> string set" where
  "job_purges (Run_Retention elastic) = UNIV"
| "job_purges j = {}"

fun job_audits :: "job \<Rightarrow> string set" where
  "job_audits (Write_Audit cl act rty rid target meta) = {cl_tenant cl}"
| "job_audits j = {}"

text \<open>The alerts an operation updates by id alone.  The fallback of a worker looks for an open alert and then is a
\<open>Set_Alert\<close> of what it merged or a \<open>Put_Alert\<close>; here the two may be any alerts at all.\<close>

fun job_alerts :: "job \<Rightarrow> nat set" where
  "job_alerts (Set_Alert a) = {a_id a}"
| "job_alerts j = {}"

text \<open>What the parameters allow.\<close>

abbreviation allowed :: "(string \<Rightarrow> bool) \<Rightarrow> (string \<Rightarrow> bool) \<Rightarrow> (string \<Rightarrow> bool) \<Rightarrow> (nat \<Rightarrow> bool) \<Rightarrow> job \<Rightarrow> bool" where
  "allowed T A P U j \<equiv> (\<forall>t \<in> job_tenants j. T t) \<and> (\<forall>t \<in> job_audits j. A t) \<and> (\<forall>t \<in> job_purges j. P t)
     \<and> (\<forall>i \<in> job_alerts j. U i)"

context statement_contract
begin

lemma safe_flush_tenant:
  assumes "T t" "group_wf t kas" "batch_laws B"
  shows "safe future (both future G) (flush_tenant_task B t kas) d"
  unfolding flush_tenant_task_def
proof (rule safe_result)
  let ?ips = "remdups (map (\<lambda>(k, a). a_source_ip a) kas)"
  show "both future G d' (snd (get_open_alerts_by_ips t ?ips d'))" if "future d d'" for d'
    by (cases "?ips = []")
      (simp_all add: get_open_alerts_by_ips_def ok_def idle keepingD[OF reading] keepingD[OF future_others(1)] del: remdups_eq_nil_iff)
  fix d1 r assume r: "fst (get_open_alerts_by_ips t ?ips d1) = r"
  obtain cr up where s: "split_batch (index_existing B (result_or [] r)) (be_keys B kas) = (cr, up)" by fastforce
  have "mset (be_keys B kas) = mset kas" using assms(3) by (simp add: batch_laws_def)
  then have "\<forall>(k, a) \<in> set (be_keys B kas). a_tenant a = t" using assms(2) by (auto simp: group_wf_def dest: mset_eq_setD)
  moreover have "\<forall>k e. index_existing B (result_or [] r) k = Some e \<longrightarrow> a_tenant e = t"
    using indexed_existing open_alerts_tenant[OF r] by blast
  ultimately have t: "(\<forall>a \<in> set cr. a_tenant a = t) \<and> (\<forall>a \<in> set up. a_tenant a = t)" by (rule split_tenants[OF s])
  show "safe future (both future G) (case split_batch (index_existing B (result_or [] r)) (be_keys B kas) of (cr, up) \<Rightarrow>
      then_task (if cr = [] then return_task () else atomically (create_alerts_batch cr)) (\<lambda>_.
        if up = [] then return_task () else attempted (upsert_alerts_batch up))) (snd (get_open_alerts_by_ips t ?ips d1))"
    using assms(1) t unfolding s prod.case
    by (intro safe_then) (auto simp: safe_finished create_alerts_batch_def
        intro!: safe_statement safe_attempted moving alert_rows alert_changes)
qed

lemma safe_flush:
  assumes "\<forall>a \<in> set as. T (a_tenant a)" "batch_laws B"
  shows "safe future (both future G) (flush_task B as) d"
proof -
  have "mset (be_tenants B (group_batch B as)) = mset (group_batch B as)" using assms(2) by (simp add: batch_laws_def)
  then have s: "set (be_tenants B (group_batch B as)) = set (group_batch B as)" by (rule mset_eq_setD)
  have "T t \<and> group_wf t g" if "(t, g) \<in> set (group_batch B as)" for t g
    using that batch_tenants[OF that] group_batch_facts(1) assms(1) by (auto simp: batch_wf_def)
  then have "safe future (both future G) (each_task (\<lambda>(t, kas). flush_tenant_task B t kas) (be_tenants B (group_batch B as))) d"
    by (intro safe_each) (auto simp: s assms(2) intro!: safe_flush_tenant)
  then show ?thesis by (simp add: flush_task_def safe_finished)
qed

lemma safe_retention: "(\<And>t. P t) \<Longrightarrow> safe future (both future G) (retention_task elastic) d"
proof -
  assume P: "\<And>t. P t"
  have now: "keeping G clock" by (simp add: keeping_def clock_def idle)
  have one: "safe future (both future G) (retain_tenant_task p) d" for p d
    unfolding retain_tenant_task_def Let_def
    by (intro safe_then safe_statement moving now)
      (auto simp: safe_finished intro!: safe_then safe_attempted moving audit_purge alert_purge P split: option.split)
  have all: "safe future (both future G) (retain_all_task ps) d" for ps d
    by (induction ps arbitrary: d) (auto simp: safe_finished intro!: safe_then one split: option.split)
  show ?thesis unfolding retention_task_def list_compliance_policies_def
    by (intro safe_after safe_reading) (auto simp: safe_finished intro!: safe_then all split: sum.split)
qed

lemma safe_job:
  assumes "allowed T A P U j" "batch_laws B"
  shows "safe future (both future G) (job_task E sh B j) d"
  using assms
  by (cases j) (auto intro!: safe_drop safe_audit safe_update_rule safe_create_case safe_update_case safe_sweep safe_flush
      safe_update_alert safe_retention safe_statement moving user_row rule_row rule_gone policy_row cost_row stats_row
      report_row time_passed simp: create_alert_def, (rule moving alert_rows | assumption | simp)+)

lemma safe_worker:
  assumes "\<forall>j \<in> set js. allowed T A P U j" "batch_laws B"
  shows "safe future (both future G) (worker_task E sh B js) d"
  unfolding worker_task_def by (rule safe_each) (use assms safe_job in blast)

text \<open>Any interleaving of any workers.\<close>

theorem interleaved_keeps:
  assumes "\<forall>js \<in> set ws. \<forall>j \<in> set js. allowed T A P U j" "batch_laws B"
    and "I d" "\<And>d d'. future d d' \<Longrightarrow> G d d' \<Longrightarrow> I d \<Longrightarrow> I d'"
  shows "I (interleaved E sh B is ws d)"
  unfolding interleaved_def workers_def
  by (rule schedule_invariant) (auto intro!: safe_worker assms(3) simp: assms(1,2), use assms in blast)

end

end
