(* ===== verification/Races.thy ===== *)
theory Races
  imports Contention
begin

text \<open>What holds of the store under any interleaving of the statements of its operations: the contract of
\<open>Contention\<close> met by well-formedness, by the append-only tables, by the rows of another tenant and by the audit
trail of a tenant for which no one writes an event; and what two interleaved operations can do to each other.\<close>

section \<open>Contracts met\<close>

lemma keeping_invariant: "keeping (\<lambda>d d'. I d \<longrightarrow> I d') m = maintains I m"
  by (simp add: keeping_def maintains_def)

lemma keeping_view: "keeping (\<lambda>d d'. v d' = v d) m = preserves v m"
  by (simp add: keeping_def preserves_def)

text \<open>Well-formedness.\<close>

lemma wf_audit_row: "ae_id e < db_next d \<Longrightarrow> db_wf d \<Longrightarrow> db_wf (snd (insert_audit_event e d))"
  by (auto simp: insert_audit_event_def stmt_def Let_def db_wf_def wf_defs keys_below_def)

lemma wf_case_row: "ca_id c < db_next d \<Longrightarrow> case_ok c \<Longrightarrow> db_wf d \<Longrightarrow> db_wf (snd (insert_case c d))"
  by (auto simp: insert_case_def stmt_def Let_def db_wf_def wf_defs case_keys_def list_all_iff keys_below_def)

lemma wf_playbook_row: "maintains db_wf (insert_playbook t)"
  unfolding insert_playbook_def execute_def default_playbook_def
  by (rule wf_stmt) (auto simp: db_wf_def wf_defs)

lemma wf_alert_change: "maintains db_wf (execute (update_alert_rows a))"
  unfolding execute_def update_alert_rows_def
  by (intro wf_stmt)
    (auto simp: map_key_update wf_alert_ids intro!: wf_alert_rows simp del: map_map list.map_comp)

interpretation tidy: statement_contract "\<lambda>d d'. db_wf d \<longrightarrow> db_wf d'" "\<lambda>_. True" "\<lambda>_. True" "\<lambda>_. True" "\<lambda>_. True"
proof (unfold_locales, unfold keeping_invariant)
  show "maintains db_wf fresh_uuid" by (simp add: maintains_def fresh_uuid_def wf_next)
  show "maintains db_wf (pass_time n)" for n by (simp add: maintains_def pass_time_def db_wf_def wf_defs)
  show "db_wf d \<longrightarrow> db_wf (snd (write_case t i (merged_case ch (db_now d) c) d))" for d t i ch c
    using maintains_snd[OF wf_write_case] by blast
qed (auto simp: tidy_rows wf_write_rule wf_playbook_row wf_audit_row wf_case_row wf_event wf_insert_link
    wf_alert_change)

text \<open>Tables that only grow.\<close>

interpretation growing: statement_contract "\<lambda>d d'. appended d0 d \<longrightarrow> appended d0 d'" "\<lambda>_. True" "\<lambda>_. True" "\<lambda>_. False"
  "\<lambda>_. True" for d0
proof (unfold_locales, unfold keeping_invariant)
  show "maintains (appended d0) fresh_uuid" by (rule appended_uuid)
  show "maintains (appended d0) (pass_time n)" for n by (simp add: maintains_def pass_time_def appended_environment)
  show "maintains (appended d0) (insert_playbook t)" for t
    unfolding insert_playbook_def execute_def by (rule appended_stmt) (auto simp: appended_def)
  show "maintains (appended d0) (execute (update_alert_rows a))" for a
    unfolding update_alert_rows_def execute_def by (rule appended_stmt) (auto simp: appended_def)
qed (auto simp: appending appended_environment maintains_snd[OF appended_statements(4)] maintains_snd[OF appended_statements(8)]
    maintains_snd[OF appended_statements(9)] maintains_snd[OF appended_statements(10)] maintains_snd[OF appended_statements(11)])

text \<open>What the store holds for a tenant: its rows of every table, the two policies and the statistics among them.\<close>

definition priced :: "db \<Rightarrow> cost_policy list \<times> stats_row list" where
  "priced d = (db_cost d, db_stats d)"

type_synonym held_rows = "((alert_row list \<times> user_row list \<times> detection_rule list \<times> audit_event list)
     \<times> (compliance_policy list \<times> reliability_report list)
     \<times> (playbook list \<times> case_record list \<times> alert_link list \<times> timeline_event list))
   \<times> cost_policy list \<times> stats_row list"

definition held :: "string \<Rightarrow> db \<Rightarrow> held_rows" where
  "held t d = (tenant_rows t d, filter (\<lambda>p. kp_tenant p = t) (db_cost d), filter (\<lambda>r. sr_tenant r = t) (db_stats d))"

lemma held_stmt: "preserves (held t) f \<Longrightarrow> preserves (held t) (stmt f)"
  by (simp add: preserves_def stmt_def Let_def held_def)

lemma held_preserves: "preserves (tenant_rows t) m \<Longrightarrow> preserves priced m \<Longrightarrow> preserves (held t) m"
  by (simp add: preserves_def held_def priced_def)

lemma upsert_other: "a_tenant a \<noteq> t \<Longrightarrow> filter (\<lambda>r. ar_tenant r = t) (upsert_row a rows) = filter (\<lambda>r. ar_tenant r = t) rows"
  by (simp add: upsert_row_def row_of_alert_def filter_map_other)

lemma upserts_other:
  "\<forall>a \<in> set as. a_tenant a \<noteq> t \<Longrightarrow> filter (\<lambda>r. ar_tenant r = t) (fold upsert_row as rows) = filter (\<lambda>r. ar_tenant r = t) rows"
  by (induction as arbitrary: rows) (simp_all add: upsert_other)

lemma inserted_other: "\<forall>a \<in> set as. a_tenant a \<noteq> t \<Longrightarrow> filter (\<lambda>r. ar_tenant r = t) (map row_of_alert as) = []"
  by (induction as) (simp_all add: row_of_alert_def)

lemma playbook_other: "u \<noteq> t \<Longrightarrow> preserves (tenant_rows t) (insert_playbook u)"
  unfolding insert_playbook_def by (intro rows_execute) (simp add: tenant_rows_def default_playbook_def)

lemma purge_events_other: "u \<noteq> t \<Longrightarrow> preserves (tenant_rows t) (purge_audit_events_before u cutoff)"
  unfolding purge_audit_events_before_def
  by (intro rows_stmt) (auto simp: preserves_def tenant_rows_def intro!: filter_cong)

lemma purge_alerts_other: "u \<noteq> t \<Longrightarrow> preserves (tenant_rows t) (purge_alerts_before u cutoff)"
  unfolding purge_alerts_before_def Let_def
  by (intro rows_stmt) (auto simp: preserves_def tenant_rows_def intro!: filter_cong)

lemma insert_alerts_other: "\<forall>a \<in> set as. a_tenant a \<noteq> t \<Longrightarrow> preserves (tenant_rows t) (insert_alerts as)"
  unfolding insert_alerts_def by (intro rows_stmt) (simp add: preserves_def tenant_rows_def inserted_other)

lemma upsert_alerts_other:
  "as \<noteq> [] \<Longrightarrow> \<forall>a \<in> set as. a_tenant a \<noteq> t \<Longrightarrow> preserves (tenant_rows t) (upsert_alerts_batch as)"
  unfolding upsert_alerts_batch_def by (simp, intro rows_stmt) (simp add: preserves_def tenant_rows_def upserts_other)

text \<open>Costs and statistics: most statements leave the two tables as they are.\<close>

lemma priced_stmt: "preserves priced f \<Longrightarrow> preserves priced (stmt f)"
  by (simp add: preserves_def stmt_def Let_def priced_def)

lemma priced_kept:
  "preserves priced (create_user u email h role)" "preserves priced (create_rule c)"
  "preserves priced (write_rule u i m)" "preserves priced (delete_rule u i)" "preserves priced (insert_audit_event e)"
  "preserves priced (upsert_compliance_policy p)" "preserves priced (insert_reliability_report r)"
  "preserves priced (insert_playbook u)" "preserves priced (insert_case x)"
  "preserves priced (record_case_event u i ty msg uid em js)" "preserves priced (insert_link i n u)"
  "preserves priced (write_case u i x)" "preserves priced (insert_alerts as)"
  "preserves priced (purge_audit_events_before u cutoff)" "preserves priced (purge_alerts_before u cutoff)"
  unfolding create_user_def create_rule_def write_rule_def delete_rule_def insert_audit_event_def upsert_compliance_policy_def
    insert_reliability_report_def insert_playbook_def insert_case_def record_case_event_def insert_link_def write_case_def
    insert_alerts_def execute_def purge_audit_events_before_def purge_alerts_before_def
  by (rule priced_stmt, simp add: preserves_def priced_def Let_def split: option.split)+

lemma priced_upsert: "as \<noteq> [] \<Longrightarrow> preserves priced (upsert_alerts_batch as)"
  unfolding upsert_alerts_batch_def by (simp, intro priced_stmt) (simp add: preserves_def priced_def)

lemma held_cost: "kp_tenant k \<noteq> t \<Longrightarrow> preserves (held t) (upsert_cost_policy k)"
  unfolding upsert_cost_policy_def
  by (rule held_stmt) (auto simp: preserves_def held_def tenant_rows_def Let_def filter_map_other)

lemma held_stats: "u \<noteq> t \<Longrightarrow> preserves (held t) (save_stats u x1 x2 x3 x4)"
  unfolding save_stats_def execute_def
  by (rule held_stmt) (auto simp: preserves_def held_def tenant_rows_def Let_def filter_map_other)

text \<open>An update by id leaves a tenant alone as long as the id is of none of its alerts.\<close>

definition held_ids :: "held_rows \<Rightarrow> nat set" where
  "held_ids rows = ar_id ` set (fst (fst (fst rows)))"

lemma held_update:
  assumes "a_id a \<notin> held_ids (held t d)"
  shows "held t (snd (execute (update_alert_rows a) d)) = held t d"
proof -
  have "filter (\<lambda>r. ar_tenant r = t) (db_alerts (update_alert_rows a d)) = filter (\<lambda>r. ar_tenant r = t) (db_alerts d)"
    using assms unfolding update_alert_rows_def
    by (simp, intro filter_map_other) (auto simp: held_ids_def held_def tenant_rows_def image_iff)
  then show ?thesis
    by (simp add: execute_def stmt_def Let_def held_def tenant_rows_def update_alert_rows_def)
qed

text \<open>Such are the ids that the fallback of a worker of another tenant finds: the id is the key of the table.\<close>

lemma found_elsewhere:
  assumes "db_wf d" "fst (get_open_alerts_by_ip u ip d) = Inr es" "e \<in> set es" "u \<noteq> t"
  shows "a_id e \<notin> held_ids (held t d)"
proof -
  obtain r where r: "r \<in> set (db_alerts d)" "ar_tenant r = u" "a_id e = ar_id r"
    using assms(2,3)
    by (auto simp: get_open_alerts_by_ip_def select_cases by_last_seen_def alert_of_row_def dest!: in_set_takeD split: if_splits)
  have "distinct (map ar_id (db_alerts d))" using assms(1) by (simp add: db_wf_def wf_defs)
  then have "x = r" if "x \<in> set (db_alerts d)" "ar_id x = ar_id r" for x
    using that r(1) by (auto simp: distinct_map inj_on_def)
  then show ?thesis using r assms(4) by (auto simp: held_ids_def held_def tenant_rows_def)
qed

interpretation elsewhere: statement_contract "\<lambda>d d'. held t d = rows \<longrightarrow> held t d' = rows" "\<lambda>u. u \<noteq> t" "\<lambda>u. u \<noteq> t"
  "\<lambda>u. u \<noteq> t" "\<lambda>i. i \<notin> held_ids rows" for t rows
proof (unfold_locales, unfold keeping_invariant)
  note kept = maintains_view[where v = "held t" and P = "\<lambda>x. x = rows"]
  have env: "held t (d \<lparr> db_next := n \<rparr>) = held t d" "held t (d \<lparr> db_now := x \<rparr>) = held t d"
    "held t (d \<lparr> db_calls := n \<rparr>) = held t d" for d n x
    by (simp_all add: held_def tenant_rows_def)
  show "maintains (\<lambda>d. held t d = rows) fresh_uuid" by (simp add: maintains_def fresh_uuid_def env)
  show "maintains (\<lambda>d. held t d = rows) (pass_time n)" for n by (simp add: maintains_def pass_time_def env)
  show "held t d = rows \<longrightarrow> held t (d \<lparr> db_calls := Suc (db_calls d) \<rparr>) = rows" for d by (simp add: env)
  show "maintains (\<lambda>d. held t d = rows) (execute (update_alert_rows a))" if "a_id a \<notin> held_ids rows" for a
    using that held_update by (auto simp: maintains_def)
  show "maintains (\<lambda>d. held t d = rows) (insert_alerts as)" if "u \<noteq> t" "\<forall>a \<in> set as. a_tenant a = u" for u as
    by (intro kept held_preserves insert_alerts_other priced_kept) (use that in simp)
  show "maintains (\<lambda>d. held t d = rows) (upsert_alerts_batch as)"
    if "u \<noteq> t" "as \<noteq> []" "\<forall>a \<in> set as. a_tenant a = u" for u as
    by (intro kept held_preserves upsert_alerts_other priced_upsert) (use that in simp_all)
  show "held t d = rows \<longrightarrow> held t (snd (insert_audit_event e d)) = rows" if "ae_tenant e \<noteq> t" for e d
    using that by (simp add: preserves_snd[OF held_preserves[OF rows_insert_audit priced_kept(5)]])
  show "held t d = rows \<longrightarrow> held t (snd (record_case_event u i ty msg uid em m d)) = rows" if "u \<noteq> t" for u d i ty msg uid em m
    using that by (simp add: preserves_snd[OF held_preserves[OF rows_record_event priced_kept(10)]])
  show "held t d = rows \<longrightarrow> held t (snd (insert_case c d)) = rows" if "ca_tenant c \<noteq> t" for c d
    using that by (simp add: preserves_snd[OF held_preserves[OF rows_insert_case priced_kept(9)]])
  show "held t d = rows \<longrightarrow> held t (snd (insert_link i a u d)) = rows" if "u \<noteq> t" for u d i a
    using that by (simp add: preserves_snd[OF held_preserves[OF rows_insert_link priced_kept(11)]])
  show "held t d = rows \<longrightarrow> held t (snd (write_case u i (merged_case ch (db_now d) c) d)) = rows" if "u \<noteq> t" for u d i ch c
    using that by (simp add: preserves_snd[OF held_preserves[OF rows_write_case priced_kept(12)]])
qed (auto intro!: maintains_view[where v = "held t" and P = "\<lambda>x. x = rows"] held_preserves held_cost held_stats
    playbook_other purge_events_other purge_alerts_other priced_kept apart)

text \<open>The audit trail of a tenant for which no one writes an event.\<close>

lemma trail_stmt: "preserves (audit_of t) f \<Longrightarrow> preserves (audit_of t) (stmt f)"
  by (simp add: preserves_def stmt_def Let_def)

lemma trail_kept:
  "preserves (audit_of t) (create_user u email h role)" "preserves (audit_of t) (create_rule c)"
  "preserves (audit_of t) (write_rule u i m)" "preserves (audit_of t) (delete_rule u i)"
  "preserves (audit_of t) (upsert_compliance_policy p)" "preserves (audit_of t) (upsert_cost_policy k)"
  "preserves (audit_of t) (insert_reliability_report r)" "preserves (audit_of t) (insert_playbook u)"
  "preserves (audit_of t) (insert_case x)" "preserves (audit_of t) (record_case_event u i ty msg uid em js)"
  "preserves (audit_of t) (insert_link i n u)" "preserves (audit_of t) (write_case u i x)"
  "preserves (audit_of t) (insert_alerts as)" "preserves (audit_of t) (execute (update_alert_rows a))"
  "preserves (audit_of t) (save_stats u x1 x2 x3 x4)"
  unfolding create_user_def create_rule_def write_rule_def delete_rule_def upsert_compliance_policy_def
    upsert_cost_policy_def insert_reliability_report_def insert_playbook_def insert_case_def record_case_event_def
    insert_link_def write_case_def insert_alerts_def update_alert_rows_def save_stats_def execute_def
  by (rule trail_stmt, simp add: preserves_def audit_of_def Let_def split: option.split)+

interpretation untouched: statement_contract "\<lambda>d d'. audit_of t d' = audit_of t d" "\<lambda>_. True" "\<lambda>u. u \<noteq> t" "\<lambda>u. u \<noteq> t"
  "\<lambda>_. True" for t
proof (unfold_locales, unfold keeping_view)
  show "audit_of t (snd (insert_audit_event e d)) = audit_of t d" if "ae_tenant e \<noteq> t" for e d
    using that by (simp add: insert_audit_event_def stmt_def Let_def audit_of_def)
  show "preserves (audit_of t) (purge_audit_events_before u cutoff)" if "u \<noteq> t" for u cutoff
    unfolding purge_audit_events_before_def using that
    by (intro trail_stmt) (auto simp: preserves_def audit_of_def intro!: filter_cong)
  show "preserves (audit_of t) (purge_alerts_before u cutoff)" for u cutoff
    unfolding purge_alerts_before_def Let_def by (intro trail_stmt) (simp add: preserves_def audit_of_def)
  show "preserves (audit_of t) (upsert_alerts_batch as)" if "as \<noteq> []" for as
    unfolding upsert_alerts_batch_def using that
    by (simp, intro trail_stmt) (simp add: preserves_def audit_of_def)
qed (auto simp: trail_kept trail_kept[THEN preserves_snd], simp_all add: preserves_def audit_of_def fresh_uuid_def pass_time_def)

section \<open>One writer of a trail\<close>

text \<open>The trail of a tenant is chained, and no event is younger than the clock.\<close>

definition settled :: "'s env \<Rightarrow> string \<Rightarrow> db \<Rightarrow> bool" where
  "settled E t d \<longleftrightarrow> audit_chain E t d \<and> (\<forall>e \<in> set (audit_of t d). ae_created e \<le> pg_time (db_now d))"

text \<open>Requests of one tenant, one after another: a microsecond or more passes before each writes its event.\<close>

fun audit_rounds :: "string \<Rightarrow> job list \<Rightarrow> bool" where
  "audit_rounds t [] = True"
| "audit_rounds t (Pass_Time n # Write_Audit cl act rty rid target meta # js)
     = (1000 \<le> n \<and> cl_tenant cl = t \<and> audit_rounds t js)"
| "audit_rounds t js = False"

text \<open>What others do to the trail: nothing.\<close>

definition trail_apart :: "string \<Rightarrow> db \<Rightarrow> db \<Rightarrow> bool" where
  "trail_apart t d d' \<longleftrightarrow> future d d' \<and> audit_of t d' = audit_of t d"

definition keeps_chain :: "'s env \<Rightarrow> string \<Rightarrow> db \<Rightarrow> db \<Rightarrow> bool" where
  "keeps_chain E t d d' \<longleftrightarrow> future d d' \<and> (audit_chain E t d \<longrightarrow> audit_chain E t d')"

lemma trail_apart_refl: "trail_apart t d d"
  by (simp add: trail_apart_def)

lemma trail_apart_trans: "trail_apart t d d' \<Longrightarrow> trail_apart t d' d'' \<Longrightarrow> trail_apart t d d''"
  by (auto simp: trail_apart_def intro: future_trans)

lemma trail_apart_chain: "trail_apart t d d' \<Longrightarrow> audit_chain E t d' = audit_chain E t d"
  by (simp add: trail_apart_def audit_chain_def)

lemma trail_apart_settled: "trail_apart t d d' \<Longrightarrow> settled E t d \<Longrightarrow> settled E t d'"
  using pg_time_mono[of "db_now d" "db_now d'"]
  by (fastforce simp: settled_def trail_apart_def audit_chain_def future_def)

lemma trail_apart_keeps: "trail_apart t d d' \<Longrightarrow> keeps_chain E t d d'"
  using trail_apart_chain[of t d d' E] by (simp add: keeps_chain_def trail_apart_def)

lemma apart_steps:
  "trail_apart t d (snd (select f d))" "trail_apart t d (snd (fresh_uuid d))" "trail_apart t d (snd (pass_time n d))"
  by (simp_all add: trail_apart_def keepingD[OF future_others(1)] keepingD[OF future_others(2)] keepingD[OF future_others(3)],
    simp_all add: select_cases fresh_uuid_def pass_time_def audit_of_def)

text \<open>The trail ends in \<open>prev\<close>, and its events are older than the clock.\<close>

definition ready :: "'s env \<Rightarrow> string \<Rightarrow> string option \<Rightarrow> db \<Rightarrow> bool" where
  "ready E t prev d \<longleftrightarrow> audit_chain E t d \<and> chain_end None (audit_of t d) = prev
     \<and> (\<forall>e \<in> set (audit_of t d). ae_created e < pg_time (db_now d))"

lemma ready_apart: "trail_apart t d d' \<Longrightarrow> ready E t prev d \<Longrightarrow> ready E t prev d'"
  using pg_time_mono[of "db_now d" "db_now d'"]
  by (fastforce simp: ready_def trail_apart_def audit_chain_def future_def)

lemma ready_settled: "ready E t prev d \<Longrightarrow> settled E t d"
  by (auto simp: ready_def settled_def)

lemma settled_ready: "settled E t d \<Longrightarrow> 1000 \<le> n \<Longrightarrow> ready E t (chain_end None (audit_of t d)) (snd (pass_time n d))"
proof -
  assume s: "settled E t d" and n: "1000 \<le> n"
  have "pg_time (db_now d) < pg_time (db_now d + int n)" using n by (simp add: pg_time_def)
  moreover have "trail_apart t d (snd (pass_time n d))" by (rule apart_steps)
  then have "audit_chain E t (snd (pass_time n d)) = audit_chain E t d" by (rule trail_apart_chain)
  ultimately show ?thesis using s by (fastforce simp: settled_def ready_def pass_time_def audit_of_def)
qed

abbreviation chain_safe :: "'s env \<Rightarrow> string \<Rightarrow> unit dbtask \<Rightarrow> db \<Rightarrow> bool" where
  "chain_safe E t \<equiv> safe (trail_apart t) (keeps_chain E t)"

text \<open>The insertion of the event on top of the hash that was read.\<close>

lemma audit_row_settled:
  assumes "ready E t prev d" "ae_tenant e = t" "audit_link E prev e" "ae_created e = db_now d"
  shows "settled E t (snd (insert_audit_event e d)) \<and> keeps_chain E t d (snd (insert_audit_event e d))"
proof -
  let ?d = "snd (insert_audit_event e d)" and ?e = "e \<lparr> ae_created := pg_time (db_now d) \<rparr>"
  have now: "db_now ?d = db_now d" by (simp add: insert_audit_event_def stmt_def Let_def)
  have link: "audit_link E prev ?e" using assms(3) by (auto simp: audit_link_def)
  consider "audit_of t ?d = audit_of t d" | "audit_of t ?d = audit_of t d @ [?e]"
  proof -
    have "audit_of t ?d = audit_of t d \<or> audit_of t ?d = audit_of t d @ [?e]"
      using assms(2,4) by (simp add: insert_audit_event_def stmt_def Let_def audit_of_def)
    then show thesis using that by blast
  qed
  then have "settled E t ?d"
  proof cases
    case 1
    then show ?thesis using assms(1) now by (fastforce simp: ready_def settled_def audit_chain_def)
  next
    case 2
    then show ?thesis using assms(1) link now
      by (fastforce simp: ready_def settled_def audit_chain_def audit_links_snoc sorted_wrt_append)
  qed
  then show ?thesis using keepingD[OF future_statements(5)] by (simp add: settled_def keeps_chain_def)
qed

lemma chain_safe_step:
  assumes "\<And>d'. trail_apart t d d' \<Longrightarrow> keeps_chain E t d' (snd (m d')) \<and> chain_safe E t (g (fst (m d'))) (snd (m d'))"
  shows "chain_safe E t (after_task (atomically m) g) d"
  using assms by (simp add: atomically_def)

lemma insert_chain_safe:
  assumes "ready E t prev d" "\<And>d. ae_tenant (e d) = t \<and> audit_link E prev (e d) \<and> ae_created (e d) = db_now d"
    and "\<And>d'. settled E t d' \<Longrightarrow> chain_safe E t rest d'"
  shows "chain_safe E t (after_task (atomically (\<lambda>d. insert_audit_event (e d) d)) (\<lambda>_. rest)) d"
  by (rule chain_safe_step) (use audit_row_settled[of E t prev _ "e _"] ready_apart assms in metis)

lemma write_chain_safe:
  assumes "ready E t prev d" "cl_tenant cl = t" "\<And>d'. settled E t d' \<Longrightarrow> chain_safe E t rest d'"
  shows "chain_safe E t (after_task (write_audit_task E cl act rty rid target meta prev) (\<lambda>_. rest)) d"
proof -
  have uuid: "chain_safe E t (after_task (then_task (atomically fresh_uuid) (\<lambda>i. atomically (\<lambda>d. insert_audit_event (e i d) d)))
      (\<lambda>_. rest)) d"
    if e: "\<And>i d. ae_tenant (e i d) = t \<and> audit_link E prev (e i d) \<and> ae_created (e i d) = db_now d" for e
    unfolding after_then
  proof (rule chain_safe_step)
    fix d' assume "trail_apart t d d'"
    moreover have "trail_apart t d' (snd (fresh_uuid d'))" by (rule apart_steps)
    ultimately have "ready E t prev (snd (fresh_uuid d'))" "keeps_chain E t d' (snd (fresh_uuid d'))"
      using ready_apart assms(1) trail_apart_keeps by blast+
    then show "keeps_chain E t d' (snd (fresh_uuid d')) \<and> chain_safe E t (case fst (fresh_uuid d') of Inl e \<Rightarrow> rest
        | Inr i \<Rightarrow> after_task (atomically (\<lambda>d. insert_audit_event (e i d) d)) (\<lambda>_. rest)) (snd (fresh_uuid d'))"
      using insert_chain_safe[OF _ e assms(3)] by (simp add: fresh_uuid_def)
  qed
  show ?thesis using assms(3)[OF ready_settled[OF assms(1)]]
    by (auto simp: write_audit_task_def Let_def sign_audit_hash_def audit_link_def assms(2) intro!: uuid split: option.split)
qed

text \<open>One write, and many, in the middle of what others do.\<close>

lemma audit_chain_safe:
  assumes "ready E t prev d" "cl_tenant cl = t" "\<And>d'. settled E t d' \<Longrightarrow> chain_safe E t rest d'"
  shows "chain_safe E t (then_task (job_task E sh B (Write_Audit cl act rty rid target meta)) (\<lambda>_. rest)) d"
  unfolding job_task.simps after_drop audit_task_def after_then
proof (rule chain_safe_step)
  fix d' assume d': "trail_apart t d d'"
  have r: "ready E t prev d'" by (rule ready_apart[OF d' assms(1)])
  have s: "trail_apart t d' (snd (latest_audit_hash (cl_tenant cl) d'))" unfolding latest_audit_hash_def by (rule apart_steps)
  have r2: "ready E t prev (snd (latest_audit_hash (cl_tenant cl) d'))" by (rule ready_apart[OF s r])
  have "fst (latest_audit_hash (cl_tenant cl) d') = Inl Db_Error \<or> fst (latest_audit_hash (cl_tenant cl) d') = Inr prev"
    using latest_of_chain[of E t d'] r assms(2) by (simp add: ready_def)
  then show "keeps_chain E t d' (snd (latest_audit_hash (cl_tenant cl) d'))
      \<and> chain_safe E t (case fst (latest_audit_hash (cl_tenant cl) d') of Inl e \<Rightarrow> rest
        | Inr x \<Rightarrow> after_task (write_audit_task E cl act rty rid target meta x) (\<lambda>_. rest)) (snd (latest_audit_hash (cl_tenant cl) d'))"
    using trail_apart_keeps[OF s] assms(3)[OF ready_settled[OF r2]] write_chain_safe[OF r2 assms(2,3)] by auto
qed

lemma rounds_chain_safe: "audit_rounds t js \<Longrightarrow> settled E t d \<Longrightarrow> chain_safe E t (worker_task E sh B js) d"
proof (induction t js arbitrary: d rule: audit_rounds.induct)
  case (2 t n cl act rty rid target meta js)
  have "chain_safe E t (then_task (job_task E sh B (Pass_Time n)) (\<lambda>_.
      then_task (job_task E sh B (Write_Audit cl act rty rid target meta)) (\<lambda>_. worker_task E sh B js))) d"
    unfolding job_task.simps(17) after_drop
  proof (rule chain_safe_step)
    fix d' assume d': "trail_apart t d d'"
    have "keeps_chain E t d' (snd (pass_time n d'))" by (rule trail_apart_keeps) (rule apart_steps)
    moreover have "ready E t (chain_end None (audit_of t d')) (snd (pass_time n d'))"
      by (rule settled_ready[OF trail_apart_settled[OF d' 2(3)]]) (use 2(2) in simp)
    then have "chain_safe E t (then_task (job_task E sh B (Write_Audit cl act rty rid target meta)) (\<lambda>_. worker_task E sh B js))
        (snd (pass_time n d'))"
      by (rule audit_chain_safe) (use 2 in auto)
    ultimately show "keeps_chain E t d' (snd (pass_time n d')) \<and> chain_safe E t (then_task (job_task E sh B
        (Write_Audit cl act rty rid target meta)) (\<lambda>_. worker_task E sh B js)) (snd (pass_time n d'))" by blast
  qed
  then show ?case by (simp add: worker_task_def)
qed (simp_all add: worker_task_def return_task_def)

section \<open>Two changes of a case at once\<close>

lemma update_case_writes:
  assumes "no_faults d" "first_row (\<lambda>c. ca_tenant c = t \<and> ca_id c = i) (db_cases d) = Some c"
  shows "db_cases (snd (update_case t i ch d))
      = rewrite_case t i (written_case (merged_case ch (db_now d) c) (db_now d)) (db_cases d)"
    and "no_faults (snd (update_case t i ch d))" and "db_now (snd (update_case t i ch d)) = db_now d"
proof -
  let ?d1 = "d \<lparr> db_calls := db_calls d + 1 \<rparr>"
  have same: "same_but_timeline x (if b then ignore (record_case_event t i ty msg u e m) x else x)" for b x ty msg u e m
    by (simp add: record_event_same)
  define m where "m = merged_case ch (db_now d) c"
  define d2 where "d2 = d \<lparr> db_calls := db_calls d + 2,
      db_cases := rewrite_case t i (written_case m (db_now d)) (db_cases d) \<rparr>"
  have w: "write_case t i m ?d1 = (Inr (written_case m (db_now d) c), d2)"
    using assms by (simp add: no_faults_def write_case_def stmt_def Let_def d2_def rewrite_case_def written_case_def numeral_2_eq_2)
  have "same_but_timeline d2 (snd (update_case t i ch d))"
    using assms w
    by (auto simp: no_faults_def update_case_def bind_ok_def get_case_by_id_def select_cases m_def[symmetric] Let_def
        intro: same_trans record_event_same)
  then show "db_cases (snd (update_case t i ch d))
      = rewrite_case t i (written_case (merged_case ch (db_now d) c) (db_now d)) (db_cases d)"
    "no_faults (snd (update_case t i ch d))" "db_now (snd (update_case t i ch d)) = db_now d"
    using assms(1) by (simp_all add: same_but_timeline_def d2_def m_def no_faults_def)
qed

text \<open>The columns an update writes are all of those that an update before it wrote.\<close>

lemma rewritten_twice:
  "rewrite_case t i (written_case m now) (rewrite_case t i (written_case m' now') cs) = rewrite_case t i (written_case m now) cs"
  unfolding rewrite_case_def by (induction cs) (simp_all add: written_case_def)

lemma first_rewritten:
  "first_row (\<lambda>c. ca_tenant c = t \<and> ca_id c = i) cs = Some c \<Longrightarrow>
     first_row (\<lambda>c. ca_tenant c = t \<and> ca_id c = i) (rewrite_case t i (written_case m now) cs) = Some (written_case m now c)"
  unfolding rewrite_case_def first_row_def by (induction cs) (auto split: if_splits)

text \<open>A change, after its lookup.\<close>

definition change_after :: "string \<Rightarrow> nat \<Rightarrow> case_changes \<Rightarrow> case_record \<Rightarrow> unit dbtask" where
  "change_after t i ch c = after_task (then_task (atomically (\<lambda>d. write_case t i (merged_case ch (db_now d) c) d)) (\<lambda>r.
     then_task (status_event_task t i c r) (\<lambda>_. then_task (owner_event_task t i c r) (\<lambda>_. return_task r))))
     (\<lambda>_. return_task ())"

lemma change_looked_up:
  assumes "no_faults d" "first_row (\<lambda>c. ca_tenant c = t \<and> ca_id c = i) (db_cases d) = Some c"
  shows "turn 0 (worker_task E sh B [Change_Case t i ch] # ts, d) = (change_after t i ch c # ts, d \<lparr> db_calls := db_calls d + 1 \<rparr>)"
proof -
  have "get_case_by_id t i d = (Inr (Some c), d \<lparr> db_calls := db_calls d + 1 \<rparr>)"
    using assms by (simp add: no_faults_def get_case_by_id_def select_cases)
  moreover have "worker_task E sh B [Change_Case t i ch] = after_task (update_case_task t i ch) (\<lambda>_. return_task ())"
    by (simp add: worker_task_def after_drop)
  ultimately show ?thesis
    by (simp only: turn_def update_case_task_def after_then[of "atomically _"] after_atomically) (simp add: change_after_def)
qed

lemma change_written:
  assumes "no_faults d" "first_row (\<lambda>c. ca_tenant c = t \<and> ca_id c = i) (db_cases d) = Some c'"
  shows "db_cases (snd (turn 0 (change_after t i ch c # ts, d)))
    = rewrite_case t i (written_case (merged_case ch (db_now d) c) (db_now d)) (db_cases d)"
  using assms by (simp add: turn_def change_after_def after_then after_atomically no_faults_def write_case_def stmt_def Let_def rewrite_case_def written_case_def)

lemma change_lost:
  assumes "no_faults d" "first_row (\<lambda>c. ca_tenant c = t \<and> ca_id c = i) (db_cases d) = Some c"
  shows "\<exists>n. db_cases (interleaved E sh B (0 # replicate n 1) [[Change_Case t i ch], [Change_Case t i ch']] d)
        = db_cases (snd (update_case t i ch' d))
     \<and> db_cases (interleaved E sh B (0 # replicate n 1 @ [0]) [[Change_Case t i ch], [Change_Case t i ch']] d)
        = db_cases (snd (update_case t i ch d))"
proof -
  let ?u = "worker_task E sh B [Change_Case t i ch']" and ?d1 = "d \<lparr> db_calls := db_calls d + 1 \<rparr>"
  let ?d2 = "snd (update_case t i ch' ?d1)"
  have d1: "no_faults ?d1" "first_row (\<lambda>c. ca_tenant c = t \<and> ca_id c = i) (db_cases ?d1) = Some c"
    using assms by (simp_all add: no_faults_def)
  obtain n where n: "schedule (replicate n 1) ([change_after t i ch c, ?u], ?d1)
      = ([change_after t i ch c, Finished (fst (run_task ?u ?d1))], snd (run_task ?u ?d1))"
    using alone_finishes[of 1 "[change_after t i ch c, ?u]" ?d1] by auto
  have d2: "snd (run_task ?u ?d1) = ?d2" by (simp add: run_worker ignore_def)
  note W = update_case_writes[OF d1] and W0 = update_case_writes(1)[OF assms]
  have first: "first_row (\<lambda>c. ca_tenant c = t \<and> ca_id c = i) (db_cases ?d2)
      = Some (written_case (merged_case ch' (db_now d) c) (db_now d) c)"
    using W(1)[of ch'] first_rewritten[OF assms(2)] by simp
  have "db_cases (snd (turn 0 ([change_after t i ch c, Finished (fst (run_task ?u ?d1))], ?d2)))
      = rewrite_case t i (written_case (merged_case ch (db_now d) c) (db_now d)) (db_cases d)"
    using change_written[OF W(2)[of ch'] first] W(1,3)[of ch'] by (simp add: rewritten_twice)
  moreover have "db_cases ?d2 = db_cases (snd (update_case t i ch' d))" using W(1)[of ch'] W0[of ch'] by simp
  ultimately show ?thesis using n d2 W0[of ch]
    by (intro exI[of _ n]) (simp add: interleaved_def workers_def change_looked_up[OF assms])
qed

section \<open>Two first cases of a tenant at once\<close>

text \<open>Both find no playbook, and both create the default one.\<close>

lemma playbooks_twice:
  assumes "no_faults d" "\<forall>p \<in> set (db_playbooks d). pb_tenant p \<noteq> t"
  shows "\<exists>p q. db_playbooks (snd (schedule [0, 1, 0, 1] ([ensure_playbooks_task t, ensure_playbooks_task t], d)))
      = db_playbooks d @ [p, q] \<and> pb_tenant p = t \<and> pb_tenant q = t \<and> pb_name p = pb_name q"
proof -
  have "filter (\<lambda>p. pb_tenant p = t) (db_playbooks d) = []" using assms(2) by (simp add: filter_empty_conv)
  then show ?thesis using assms(1)
    by (simp add: turn_def ensure_playbooks_task_def then_task_def after_atomically insert_playbook_def execute_def stmt_def
        Let_def no_faults_def select_cases atomically_def default_playbook_def)
qed

section \<open>A legal hold that comes too late\<close>

text \<open>The cycle decides on the policies as they were when it listed them: a hold set after that is stored, and the
old audit events of the tenant are purged all the same.\<close>

lemma worker_dropped: "job_task E sh B j = drop_result t \<Longrightarrow> worker_task E sh B [j] = after_task t (\<lambda>_. return_task ())"
  by (simp add: worker_task_def after_drop)

lemma hold_ignored:
  assumes "no_faults d" "db_compliance d = [p]" "\<not> hold_active (db_now d) p" "retention_cutoff (db_now d) p = Some cutoff"
    and "q = p \<lparr> cp_legal_hold := True, cp_hold_until := None \<rparr>"
    and "d' = interleaved E sh B [0, 1, 0, 0] [[Run_Retention elastic], [Set_Policy q]] d"
  shows "\<forall>x \<in> set (db_compliance d'). hold_active (db_now d') x"
    and "db_audit d' = filter (\<lambda>e. \<not> (ae_tenant e = cp_tenant p
      \<and> ae_created e < pg_time cutoff)) (db_audit d)"
proof -
  have u: "worker_task E sh B [Set_Policy q] = Step (\<lambda>d. snd (upsert_compliance_policy q d)) (\<lambda>d. return_task ())"
    by (simp add: worker_dropped[of _ _ _ _ "atomically (upsert_compliance_policy q)"] after_atomically)
  have w: "worker_task E sh B [Run_Retention elastic] = Step (\<lambda>d. snd (list_compliance_policies d)) (\<lambda>d.
      after_task (case fst (list_compliance_policies d) of Inl _ \<Rightarrow> return_task ([], True)
        | Inr ps \<Rightarrow> then_task (retain_all_task ps) (\<lambda>(xs, alive). return_task (if elastic then xs else [], alive)))
      (\<lambda>_. return_task ()))"
    by (simp add: worker_dropped[of _ _ _ _ "retention_task elastic"] retention_task_def atomically_def)
  have now: "db_now (snd (upsert_compliance_policy q x)) = db_now x" for x
    by (simp add: upsert_compliance_policy_def stmt_def Let_def)
  have l: "list_compliance_policies d = (Inr [p], d \<lparr> db_calls := db_calls d + 1 \<rparr>)"
    using assms(1,2) by (simp add: list_compliance_policies_def select_cases no_faults_def)
  note run = assms(6) interleaved_def workers_def turn_def
  have "d' = snd (purge_audit_events_before (cp_tenant p) cutoff
      (snd (upsert_compliance_policy q (d \<lparr> db_calls := db_calls d + 1 \<rparr>))))"
    using assms(3,4)
    by (simp add: run u w l now after_then after_atomically retain_tenant_task_def clock_def after_dropped Let_def return_task_def)
  then show "\<forall>x \<in> set (db_compliance d'). hold_active (db_now d') x"
    and "db_audit d' = filter (\<lambda>e. \<not> (ae_tenant e = cp_tenant p
      \<and> ae_created e < pg_time cutoff)) (db_audit d)"
    using assms(1,2,5) by (simp_all add: purge_audit_events_before_def upsert_compliance_policy_def stmt_def Let_def
        no_faults_def hold_active_def)
qed

end
