(* ===== verification/Token_Races.thy ===== *)
theory Token_Races
  imports Tasks Token_Store
begin

text \<open>The refresh tokens of \<open>db/redis.rs\<close> when several requests use them at once: the operations as tasks whose
steps are the commands sent to the server.  A token that is revoked stays unknown whatever runs at the same time,
as long as nobody stores it; but a token that is stored while all tokens of its user are revoked can outlive that
and every later revocation of all.\<close>

type_synonym ('a, 's) rtask = "(error, 'a, 's rcache) task"

section \<open>The operations\<close>

definition hashed_task :: "error + string \<Rightarrow> (string \<Rightarrow> ('a, 's) rtask) \<Rightarrow> ('a, 's) rtask" where
  "hashed_task r g = (case r of Inl e \<Rightarrow> Finished (Inl e) | Inr h \<Rightarrow> g h)"

definition store_token_task ::
  "(string \<Rightarrow> error + string) \<Rightarrow> 's redis \<Rightarrow> string \<Rightarrow> string \<Rightarrow> string \<Rightarrow> nat \<Rightarrow> (unit, 's) rtask" where
  "store_token_task hash rd user tenant token ttl = hashed_task (hash token) (\<lambda>h.
     then_task (atomically (on_server (rd_setex rd (token_key h) (tenant @ '':'' @ user) ttl))) (\<lambda>_.
     then_task (atomically (on_server (rd_sadd rd (user_tokens_key user) h))) (\<lambda>_.
     atomically (on_server (rd_expire_ms rd (user_tokens_key user) (u64_as_i64 ttl * 1000))))))"

lemma then_atomically: "then_task (atomically m) g = Step (\<lambda>s. snd (m s)) (\<lambda>s. case fst (m s) of
    Inl e \<Rightarrow> Finished (Inl e) | Inr x \<Rightarrow> g x)"
  by (simp add: then_task_def atomically_def)

definition lookup_token_task ::
  "(string \<Rightarrow> error + string) \<Rightarrow> 's redis \<Rightarrow> string \<Rightarrow> (string option, 's) rtask" where
  "lookup_token_task hash rd token =
     hashed_task (hash token) (\<lambda>h. atomically (on_server (rd_get rd (token_key h))))"

definition revoke_token_task :: "(string \<Rightarrow> error + string) \<Rightarrow> 's redis \<Rightarrow> string \<Rightarrow> (unit, 's) rtask" where
  "revoke_token_task hash rd token = hashed_task (hash token) (\<lambda>h.
     then_task (lookup_token_task hash rd token) (\<lambda>r. case r of
         None \<Rightarrow> return_task ()
       | Some v \<Rightarrow> (let user = last (split_on CHR '':'' v) in
           then_task (atomically (on_server (rd_del rd (token_key h)))) (\<lambda>_.
           atomically (on_server (rd_srem rd (user_tokens_key user) h))))))"

definition revoke_all_task :: "'s redis \<Rightarrow> string \<Rightarrow> (unit, 's) rtask" where
  "revoke_all_task rd user =
     then_task (atomically (on_server (rd_smembers rd (user_tokens_key user)))) (\<lambda>hs.
     then_task (each_task (\<lambda>h. atomically (on_server (rd_del rd (token_key h)))) hs) (\<lambda>_.
     atomically (on_server (rd_del rd (user_tokens_key user)))))"

text \<open>Alone, they are the operations of the cache.\<close>

lemma run_hashed: "run_task (hashed_task r g) = bind_ok (lift_result r) (\<lambda>h. run_task (g h))"
  by (rule ext) (simp add: hashed_task_def lift_result_def bind_ok_def split: sum.split)

lemma run_store_token: "run_task (store_token_task hash rd user tenant token ttl) = store_refresh_token hash rd user tenant token ttl"
  by (simp add: store_token_task_def store_refresh_token_def run_hashed run_task_simps)

lemma run_lookup_token: "run_task (lookup_token_task hash rd token) = get_user_id_by_refresh_token hash rd token"
  by (simp add: lookup_token_task_def get_user_id_by_refresh_token_def run_hashed run_task_simps)

lemma run_revoke_token: "run_task (revoke_token_task hash rd token) = revoke_refresh_token hash rd token"
  by (simp add: revoke_token_task_def revoke_refresh_token_def run_hashed run_task_simps run_lookup_token Let_def
      cong: option.case_cong)

lemma run_revoke_all: "run_task (revoke_all_task rd user) = revoke_all_user_tokens rd user"
  by (simp add: revoke_all_task_def revoke_all_user_tokens_def run_task_simps)

section \<open>Workers\<close>

datatype token_job = Issue string string string nat | Look_Up string | Revoke string | Revoke_All string

fun token_task :: "(string \<Rightarrow> error + string) \<Rightarrow> 's redis \<Rightarrow> token_job \<Rightarrow> (unit, 's) rtask" where
  "token_task hash rd (Issue user tenant token ttl) = drop_result (store_token_task hash rd user tenant token ttl)"
| "token_task hash rd (Look_Up token) = drop_result (lookup_token_task hash rd token)"
| "token_task hash rd (Revoke token) = drop_result (revoke_token_task hash rd token)"
| "token_task hash rd (Revoke_All user) = drop_result (revoke_all_task rd user)"

lemma token_then: "then_task (token_task hash rd j) g = after_task (token_task hash rd j) (\<lambda>_. g ())"
  by (cases j) (simp_all add: then_drop)

definition token_worker :: "(string \<Rightarrow> error + string) \<Rightarrow> 's redis \<Rightarrow> token_job list \<Rightarrow> (unit, 's) rtask" where
  "token_worker hash rd js = each_task (token_task hash rd) js"

section \<open>Revoked tokens stay revoked\<close>

text \<open>A key of the server is left as it is, or deleted.\<close>

definition unset_only :: "('s \<Rightarrow> bool) \<Rightarrow> ('s \<Rightarrow> keyspace) \<Rightarrow> string \<Rightarrow> 's rcache \<Rightarrow> 's rcache \<Rightarrow> bool" where
  "unset_only up view k st st' \<longleftrightarrow> (up (rc_srv st) \<longrightarrow> up (rc_srv st')
     \<and> (ks_val (view (rc_srv st')) k = ks_val (view (rc_srv st)) k \<or> ks_val (view (rc_srv st')) k = None))"

interpretation unset: interference "unset_only up view k" "unset_only up view k" for up :: "'s \<Rightarrow> bool" and view k
  by unfold_locales (auto simp: unset_only_def)

text \<open>The jobs that do not store a token with the hash \<open>h\<close>.\<close>

fun issues :: "(string \<Rightarrow> error + string) \<Rightarrow> string \<Rightarrow> token_job \<Rightarrow> bool" where
  "issues hash h (Issue user tenant token ttl) = (hash token = Inr h)"
| "issues hash h j = False"

context redis_server
begin

lemma on_server_unsets:
  assumes "simulates up view f g"
    and "\<And>s. ks_val (snd (g s)) k = ks_val s k \<or> ks_val (snd (g s)) k = None"
  shows "unset_only up view k st (snd (on_server f st))"
proof -
  have "up (rc_srv st) \<Longrightarrow> view (snd (f (rc_srv st))) = snd (g (view (rc_srv st))) \<and> up (snd (f (rc_srv st)))"
    using simulatesD[OF assms(1)] by (metis snd_conv)
  then show ?thesis using assms(2)[of "view (rc_srv st)"]
    by (cases "f (rc_srv st)") (auto simp: unset_only_def on_server_def)
qed

lemma command_unsets:
  "unset_only up view k st (snd (on_server (rd_get rd k') st))"
  "unset_only up view k st (snd (on_server (rd_del rd k') st))"
  "unset_only up view k st (snd (on_server (rd_smembers rd k') st))"
  "k' \<noteq> k \<Longrightarrow> unset_only up view k st (snd (on_server (rd_setex rd k' v n) st))"
  "k' \<noteq> k \<Longrightarrow> unset_only up view k st (snd (on_server (rd_sadd rd k' v) st))"
  "k' \<noteq> k \<Longrightarrow> unset_only up view k st (snd (on_server (rd_srem rd k' v) st))"
  "unset_only up view k st (snd (on_server (rd_expire_ms rd k' i) st))"
proof -
  show "unset_only up view k st (snd (on_server (rd_get rd k') st))"
    by (rule on_server_unsets[OF sim_get]) (auto simp: ks_get_def split: option.split rval.split)
  show "unset_only up view k st (snd (on_server (rd_del rd k') st))"
    by (rule on_server_unsets[OF sim_del]) (auto simp: ks_delete_def ks_del_def)
  show "unset_only up view k st (snd (on_server (rd_smembers rd k') st))"
    by (rule on_server_unsets[OF sim_smembers]) (auto simp: ks_smembers_def split: option.split rval.split)
  show "unset_only up view k st (snd (on_server (rd_setex rd k' v n) st))" if "k' \<noteq> k"
    by (rule on_server_unsets[OF sim_setex]) (use that in \<open>auto simp: ks_setex_def ks_put_def\<close>)
  show "unset_only up view k st (snd (on_server (rd_sadd rd k' v) st))" if "k' \<noteq> k"
    by (rule on_server_unsets[OF sim_sadd]) (use that in \<open>auto simp: ks_sadd_def ks_put_def split: option.split rval.split\<close>)
  show "unset_only up view k st (snd (on_server (rd_srem rd k' v) st))" if "k' \<noteq> k"
    by (rule on_server_unsets[OF sim_srem])
      (use that in \<open>auto simp: ks_srem_def ks_put_def ks_del_def Let_def split: option.split rval.split\<close>)
  show "unset_only up view k st (snd (on_server (rd_expire_ms rd k' i) st))"
    by (rule on_server_unsets[OF sim_expire]) (auto simp: ks_expire_ms_def ks_del_def)
qed

lemmas safe_commands = unset.safe_atomically[OF command_unsets(1)] unset.safe_atomically[OF command_unsets(2)]
  unset.safe_atomically[OF command_unsets(3)] unset.safe_atomically[OF command_unsets(4)]
  unset.safe_atomically[OF command_unsets(5)] unset.safe_atomically[OF command_unsets(6)]
  unset.safe_atomically[OF command_unsets(7)]

abbreviation token_safe :: "string \<Rightarrow> ('a, 's) rtask \<Rightarrow> 's rcache \<Rightarrow> bool" where
  "token_safe h \<equiv> safe (unset_only up view (token_key h)) (unset_only up view (token_key h))"

lemma safe_token_task: "\<not> issues hash h j \<Longrightarrow> token_safe h (token_task hash rd j) st"
  by (cases j) (auto simp: store_token_task_def lookup_token_task_def revoke_token_task_def revoke_all_task_def hashed_task_def
      Let_def unset.safe_finished intro!: unset.safe_drop unset.safe_then unset.safe_each safe_commands
      split: sum.split option.split)

lemma safe_token_worker: "\<forall>j \<in> set js. \<not> issues hash h j \<Longrightarrow> token_safe h (token_worker hash rd js) st"
  unfolding token_worker_def by (rule unset.safe_each) (use safe_token_task in blast)

text \<open>The token is unknown; and a server that works and holds nothing but a text at the token's key.\<close>

definition token_gone :: "string \<Rightarrow> 's rcache \<Rightarrow> bool" where
  "token_gone h st \<longleftrightarrow> (up (rc_srv st) \<longrightarrow> ks_val (view (rc_srv st)) (token_key h) = None)"

definition token_ready :: "string \<Rightarrow> 's rcache \<Rightarrow> bool" where
  "token_ready h st \<longleftrightarrow> up (rc_srv st) \<and> token_typed (view (rc_srv st)) h"

lemma ready_later: "unset_only up view (token_key h) st st' \<Longrightarrow> token_ready h st \<Longrightarrow> token_ready h st'"
  by (auto simp: unset_only_def token_ready_def token_typed_def)

lemma gone_later:
  "unset_only up view (token_key h) st st' \<Longrightarrow> token_ready h st \<Longrightarrow> token_gone h st \<Longrightarrow> token_ready h st' \<and> token_gone h st'"
  by (auto simp: unset_only_def token_gone_def token_ready_def token_typed_def)

abbreviation token_ends :: "string \<Rightarrow> ('a, 's) rtask \<Rightarrow> 's rcache \<Rightarrow> bool" where
  "token_ends h \<equiv> reaches (unset_only up view (token_key h)) (\<lambda>st. token_ready h st \<and> token_gone h st)"

lemma ends_safe:
  assumes "token_safe h t st" "token_ready h st" "token_gone h st"
  shows "token_ends h t st"
proof -
  have "token_ends h (after_task t Finished) st"
    using assms by (intro unset.reaches_after) (auto dest: gone_later)
  moreover have "after_task t Finished = t" by (induction t) simp_all
  ultimately show ?thesis by simp
qed

text \<open>A revocation that is over.\<close>

lemma ends_revoke:
  assumes "hash tok = Inr h" "token_ready h st"
  shows "token_ends h (revoke_token_task hash rd tok) st"
proof -
  have deleted: "token_ready h s \<and> token_gone h s"
    if "token_ready h s0" "s = snd (on_server (rd_del rd (token_key h)) s0)" for s s0
  proof -
    have u: "up (rc_srv s0)" using that(1) by (simp add: token_ready_def)
    have "view (snd (rd_del rd (token_key h) (rc_srv s0))) = ks_del (token_key h) (view (rc_srv s0))"
      using simulatesD(1)[OF sim_del u, of "token_key h"] by (simp add: ks_delete_def)
    then show ?thesis using simulatesD(2)[OF sim_del u, of "token_key h"] that(2)
      by (cases "rd_del rd (token_key h) (rc_srv s0)")
        (simp add: token_ready_def token_gone_def token_typed_def on_server_def ks_del_def)
  qed
  have rest: "token_ends h (case ov of None \<Rightarrow> return_task () | Some v \<Rightarrow>
      then_task (atomically (on_server (rd_del rd (token_key h)))) (\<lambda>_.
      atomically (on_server (rd_srem rd (user_tokens_key (last (split_on CHR '':'' v))) h)))) s"
    if s: "token_ready h s" and n: "ov = None \<Longrightarrow> token_gone h s" for ov s
  proof (cases ov)
    case None
    then show ?thesis using s n by (simp add: return_task_def) (use gone_later in blast)
  next
    case (Some v)
    have "token_safe h (atomically (on_server (rd_srem rd k h))) s'" if "k \<noteq> token_key h" for k s'
      using that by (intro safe_commands)
    then have "token_ends h (atomically (on_server (rd_srem rd (user_tokens_key (last (split_on CHR '':'' v))) h)))
        (snd (on_server (rd_del rd (token_key h)) s'))" if "unset_only up view (token_key h) s s'" for s'
      by (intro ends_safe) (use deleted[OF ready_later[OF that s] refl] in auto)
    moreover have "fst (on_server (rd_del rd (token_key h)) s') = Inr ()" if "unset_only up view (token_key h) s s'" for s'
      using simulatesD(1)[OF sim_del, of "rc_srv s'" "token_key h"] ready_later[OF that s]
      by (simp add: token_ready_def on_server_def ks_delete_def split: prod.split)
    ultimately show ?thesis using Some by (simp add: then_task_def atomically_def)
  qed
  have got: "\<exists>ov. fst (on_server (rd_get rd (token_key h)) s) = Inr ov
      \<and> (ov = None \<longrightarrow> token_gone h (snd (on_server (rd_get rd (token_key h)) s)))
      \<and> token_ready h (snd (on_server (rd_get rd (token_key h)) s))" if "token_ready h s" for s
    using that simulatesD[OF sim_get, of "rc_srv s" "token_key h"]
    by (auto simp: token_ready_def token_gone_def token_typed_def on_server_def ks_get_def split: prod.split)
  show ?thesis unfolding revoke_token_task_def lookup_token_task_def hashed_task_def assms(1) sum.case Let_def
    then_atomically[of "on_server (rd_get rd (token_key h))"] reaches.simps
  proof (intro allI impI)
    fix s assume "unset_only up view (token_key h) st s"
    then have s: "token_ready h s" using ready_later assms(2) by blast
    obtain ov where ov: "fst (on_server (rd_get rd (token_key h)) s) = Inr ov"
      "ov = None \<Longrightarrow> token_gone h (snd (on_server (rd_get rd (token_key h)) s))"
      "token_ready h (snd (on_server (rd_get rd (token_key h)) s))" using got[OF s] by blast
    show "token_ends h (case fst (on_server (rd_get rd (token_key h)) s) of Inl e \<Rightarrow> Finished (Inl e)
        | Inr x \<Rightarrow> (case x of None \<Rightarrow> return_task () | Some v \<Rightarrow>
          then_task (atomically (on_server (rd_del rd (token_key h)))) (\<lambda>_.
          atomically (on_server (rd_srem rd (user_tokens_key (last (split_on CHR '':'' v))) h)))))
        (snd (on_server (rd_get rd (token_key h)) s))"
      using rest[OF ov(3,2)] by (simp add: ov(1))
  qed
qed

lemma ends_worker:
  assumes "hash tok = Inr h" "Revoke tok \<in> set js" "\<forall>j \<in> set js. \<not> issues hash h j" "token_ready h st"
  shows "token_ends h (token_worker hash rd js) st"
  using assms(2-4) unfolding token_worker_def
proof (induction js arbitrary: st)
  case (Cons j js)
  have rest: "token_safe h (each_task (token_task hash rd) js) s" for s
    using safe_token_worker[of js] Cons.prems(2) by (simp add: token_worker_def)
  show ?case
  proof (cases "j = Revoke tok")
    case True
    have "token_ends h (token_task hash rd j) st"
      unfolding True token_task.simps drop_result_def
      by (rule unset.reaches_seq, rule ends_revoke, rule assms(1), rule Cons.prems(3)) (auto simp: return_task_def dest: gone_later)
    then show ?thesis unfolding each_task.simps token_then
      by (rule unset.reaches_seq) (auto intro: ends_safe rest)
  next
    case False
    have "token_safe h (token_task hash rd j) st" using Cons.prems(2) by (intro safe_token_task) simp
    moreover have "token_ends h (each_task (token_task hash rd) js) s" if "unset_only up view (token_key h) st s" for s
      using Cons.IH Cons.prems False ready_later[OF that] by simp
    ultimately show ?thesis unfolding each_task.simps token_then by (rule unset.reaches_after)
  qed
qed simp

text \<open>A revocation that is over, in any schedule.\<close>

lemma revocation_final:
  assumes "up (rc_srv st)" "hash tok = Inr h" "token_typed (view (rc_srv st)) h"
    and "\<forall>js \<in> set ws. \<forall>j \<in> set js. \<not> issues hash h j" "i < length ws" "Revoke tok \<in> set (ws ! i)"
    and "schedule is (map (token_worker hash rd) ws, st) = (ts, st')" "ts ! i = Finished r"
  shows "fst (get_user_id_by_refresh_token hash rd tok st') = Inr None"
proof -
  have ready: "token_ready h st" using assms(1,3) by (simp add: token_ready_def)
  have "\<forall>j \<in> set (ws ! i). \<not> issues hash h j" using assms(4) nth_mem[OF assms(5)] by blast
  from ends_worker[OF assms(2,6) this ready] have "token_ends h (map (token_worker hash rd) ws ! i) st"
    using assms(5) by simp
  moreover have "\<forall>t \<in> set (map (token_worker hash rd) ws). token_safe h t st" using assms(4) safe_token_worker by auto
  ultimately have "token_ready h st' \<and> token_gone h st'"
    using unset.schedule_reaches[of "map (token_worker hash rd) ws" up view "token_key h" st i
        "\<lambda>st. token_ready h st \<and> token_gone h st" "is" r] assms(5,7,8) by simp
  then show ?thesis using get_token(1)[of st' hash tok h] assms(2)
    by (simp add: token_ready_def token_gone_def token_entry_def)
qed

end

section \<open>A token that outlives the revocation of all\<close>

text \<open>The tokens of the user are listed, the new one is stored, and then the list is revoked and the set of the
user's tokens deleted: the new token is valid, and no later revocation of all finds it.\<close>

lemma token_outlives:
  assumes "hash tok = Inr h" "issued_to (rc_srv st) user = Some hs" "h \<notin> set hs" "0 < ttl" "ttl < 2 ^ 63"
  shows "\<exists>m n st'. snd (schedule (0 # replicate m 1 @ replicate n 0)
        ([token_worker hash mem_redis [Revoke_All user], token_worker hash mem_redis [Issue user tenant tok ttl]], st)) = st'
     \<and> token_entry (rc_srv st') h = Some (tenant @ '':'' @ user)
     \<and> token_entry (rc_srv (snd (revoke_all_user_tokens mem_redis user st'))) h = Some (tenant @ '':'' @ user)"
proof -
  define rest where "rest = after_task (then_task (each_task (\<lambda>h. atomically (on_server (rd_del mem_redis (token_key h)))) hs) (\<lambda>_.
     atomically (on_server (rd_del mem_redis (user_tokens_key user))))) (\<lambda>_. return_task () :: (unit, keyspace) rtask)"
  let ?issue = "token_worker hash mem_redis [Issue user tenant tok ttl]"
  have "ks_smembers (user_tokens_key user) (rc_srv st) = (Inr hs, rc_srv st)"
    using assms(2) by (auto simp: ks_smembers_def issued_to_def split: option.splits rval.splits)
  then have listed: "turn 0 (token_worker hash mem_redis [Revoke_All user] # ts, st) = (rest # ts, st)" for ts
    by (simp add: token_worker_def after_drop revoke_all_task_def after_then[of "atomically _"] after_atomically turn_def
        on_server_def mem_redis_def[THEN arg_cong[where f = rd_smembers]] rest_def)
  have issue: "run_task ?issue st = (Inr (), snd (store_refresh_token hash mem_redis user tenant tok ttl st))"
    by (simp add: token_worker_def after_drop run_task_simps run_store_token ok_def split: prod.split)
  obtain s1 where s1: "store_refresh_token hash mem_redis user tenant tok ttl st = (Inr (), st \<lparr> rc_srv := s1 \<rparr>)"
    "ks_val s1 = stored h user (tenant @ '':'' @ user) hs (ks_val (rc_srv st))"
    using mem_store_token[of hash tok h st user hs ttl tenant] assms by blast
  obtain m where m: "schedule (replicate m 1) ([rest, ?issue], st) = ([rest, Finished (Inr ())], st \<lparr> rc_srv := s1 \<rparr>)"
    using alone_finishes[of 1 "[rest, ?issue]" st] issue s1(1) by auto
  define s2 where "s2 = ks_del (user_tokens_key user) (fold (\<lambda>h. ks_del (token_key h)) hs s1)"
  have rest: "run_task rest (st \<lparr> rc_srv := s1 \<rparr>) = (Inr (), st \<lparr> rc_srv := s2 \<rparr>)"
    using mem_delete_tokens[of hs "st \<lparr> rc_srv := s1 \<rparr>"]
    by (simp add: rest_def run_task_simps bind_ok_def ok_def on_server_def mem_redis_def ks_delete_def s2_def split: prod.split)
  obtain n where n: "schedule (replicate n 0) ([rest, Finished (Inr ())], st \<lparr> rc_srv := s1 \<rparr>)
      = ([Finished (Inr ()), Finished (Inr ())], st \<lparr> rc_srv := s2 \<rparr>)"
    using alone_finishes[of 0 "[rest, Finished (Inr ())]" "st \<lparr> rc_srv := s1 \<rparr>"] rest by auto
  have e: "token_entry s2 h = Some (tenant @ '':'' @ user)"
    using assms(3) s1(2) by (auto simp: s2_def token_entry_def fold_del_val stored_def)
  have i: "issued_to (rc_srv (st \<lparr> rc_srv := s2 \<rparr>)) user = Some []" by (simp add: s2_def issued_to_def ks_del_def)
  have "snd (schedule (0 # replicate m 1 @ replicate n 0) ([token_worker hash mem_redis [Revoke_All user], ?issue], st))
      = st \<lparr> rc_srv := s2 \<rparr>" using m n by (simp add: listed)
  moreover have "token_entry (rc_srv (snd (revoke_all_user_tokens mem_redis user (st \<lparr> rc_srv := s2 \<rparr>)))) h
      = Some (tenant @ '':'' @ user)" using mem_revoke_all[OF i] e by auto
  ultimately show ?thesis using e by (intro exI[of _ m] exI[of _ n] exI[of _ "st \<lparr> rc_srv := s2 \<rparr>"]) simp
qed

end
