(* ===== verification/Concurrency_Properties.thy ===== *)
theory Concurrency_Properties
  imports Races Token_Races Api_Samples
begin

text \<open>What the store promises when operations run at once: any interleaving of their statements keeps the database
well-formed and its append-only tables, and keeps tenants apart in all tables; the audit trail stays a chain while the requests of
a tenant write one after another; of two changes of a case the one that looked the case up first can undo the
other; and a revoked refresh token stays unknown whatever else is done with tokens at the same time.\<close>

definition plain_batches :: batch_env where
  "plain_batches = \<lparr> be_hash = (\<lambda>_. 0), be_tenants = (\<lambda>m. m), be_keys = (\<lambda>m. m) \<rparr>"

lemma plain_laws: "batch_laws plain_batches"
  by (simp add: batch_laws_def plain_batches_def)

lemma wf_empty: "db_wf (db_empty now)"
  by (simp add: db_wf_def wf_defs db_empty_def keys_below_def)

section \<open>Interleavings\<close>

text \<open>C9. Whatever operations run at once, in whatever order their statements come and whichever of them fail, the
database stays well-formed - keys are unique, a tenant has one account per address, one rule per name and one case
per alert, links and timeline events belong to a case of their tenant - and accounts, audit events, reports,
playbooks, links and timeline events are only appended, as long as no retention cycle runs.\<close>

theorem concurrent_wellformed:
  assumes "db_wf d" "batch_laws B"
  shows "db_wf (interleaved E sh B is ws d)
     \<and> ((\<forall>js \<in> set ws. \<forall>j \<in> set js. job_purges j = {}) \<longrightarrow> appended d (interleaved E sh B is ws d))"
proof (intro conjI impI)
  show "db_wf (interleaved E sh B is ws d)"
    by (rule tidy.interleaved_keeps[where I = db_wf]) (use assms in auto)
  show "appended d (interleaved E sh B is ws d)" if "\<forall>js \<in> set ws. \<forall>j \<in> set js. job_purges j = {}"
    by (rule growing.interleaved_keeps[where I = "appended d" and d0 = d]) (use assms that in auto)
qed

lemma concurrent_wellformed_witness:
  "db_wf (interleaved sample_env (\<lambda>_. ''1'') plain_batches [0, 1, 2, 1, 0, 1]
     [[Add_Account ''t'' ''a'' ''h'' ''admin''], [Open_Case (alert_new 7 5 ''t'' ''r'' ''n'' High ''d'' ''i'' []) None None None None None],
      [Flush_Alerts [alert_new 7 5 ''t'' ''r'' ''n'' High ''d'' ''i'' []]]] (db_empty 0))"
  using concurrent_wellformed[OF wf_empty plain_laws] by blast

text \<open>C10. While other tenants run any operations of the store at once, what the database holds for a tenant - its
rows of all twelve tables: alerts, users, rules, audit events, both kinds of policy, reports, playbooks, cases, links,
timeline and statistics - stays the same.  One statement, the update of an alert, names no tenant but an id alone: it
is one of the operations under the condition that the id is not that of an alert of the tenant.\<close>

theorem concurrent_isolation:
  assumes "\<forall>js \<in> set ws. \<forall>j \<in> set js. t \<notin> job_tenants j \<and> t \<notin> job_audits j \<and> t \<notin> job_purges j
      \<and> (\<forall>r \<in> set (db_alerts d). ar_tenant r = t \<longrightarrow> ar_id r \<notin> job_alerts j)"
    and "batch_laws B"
  shows "held t (interleaved E sh B is ws d) = held t d"
proof (rule elsewhere.interleaved_keeps[where I = "\<lambda>x. held t x = held t d" and t = t and rows = "held t d"])
  have "i \<notin> held_ids (held t d)" if "i \<in> job_alerts j" "j \<in> set js" "js \<in> set ws" for i j js
    using that assms(1) by (auto simp: held_ids_def held_def tenant_rows_def)
  then show "\<forall>js \<in> set ws. \<forall>j \<in> set js. allowed (\<lambda>u. u \<noteq> t) (\<lambda>u. u \<noteq> t) (\<lambda>u. u \<noteq> t) (\<lambda>i. i \<notin> held_ids (held t d)) j"
    using assms(1) by blast
qed (use assms(2) in auto)

lemma concurrent_isolation_witness:
  "held ''t'' (interleaved sample_env (\<lambda>_. ''1'') plain_batches [0, 1, 1, 0, 2, 2, 1, 2]
     [[Change_Case ''u'' 1 no_changes, Save_Stats ''u'' 1 1 0 0], [Drop_Rule ''u'' 1, Add_Account ''u'' ''a'' ''h'' ''admin''],
      [Put_Alert (alert_new 7 5 ''u'' ''r'' ''n'' High ''d'' ''i'' []), Set_Alert (alert_new 7 6 ''u'' ''r'' ''n'' High ''d'' ''i'' [])]]
     (db_empty 0 \<lparr> db_alerts := [row_of_alert (alert_new 3 5 ''t'' ''r'' ''n'' High ''d'' ''i'' [])] \<rparr>))
   = held ''t'' (db_empty 0 \<lparr> db_alerts := [row_of_alert (alert_new 3 5 ''t'' ''r'' ''n'' High ''d'' ''i'' [])] \<rparr>)"
  by (rule concurrent_isolation) (simp_all add: plain_laws alert_new_def row_of_alert_def)

text \<open>An operation that has all the turns to itself does what the operation does in one piece: a worker that
runs alone leaves the database that its operations leave one after another, and the task of an audit event is the
recording of the event.\<close>

lemma tasks_refine_operations:
  assumes "i < length ws"
  shows "(\<exists>n. \<forall>m \<ge> n. interleaved E sh B (replicate m i) ws d = fold (job_effect E sh B) (ws ! i) d)
     \<and> or_status 500 (via_db (run_task (audit_task E cl act rty rid target meta))) = record_audit E cl act rty rid target meta"
proof
  obtain n where "\<forall>m \<ge> n. schedule (replicate m i) (map (worker_task E sh B) ws, d)
      = ((map (worker_task E sh B) ws)[i := Finished (fst (run_task (map (worker_task E sh B) ws ! i) d))],
         snd (run_task (map (worker_task E sh B) ws ! i) d))"
    using alone_finishes[of i "map (worker_task E sh B) ws" d] assms by auto
  then show "\<exists>n. \<forall>m \<ge> n. interleaved E sh B (replicate m i) ws d = fold (job_effect E sh B) (ws ! i) d"
    using assms by (intro exI[of _ n]) (simp add: interleaved_def workers_def run_worker)
qed (rule run_audit)

section \<open>The audit trail\<close>

text \<open>C12. While one request at a time writes audit events for a tenant, with the clock moving by a microsecond in
between, and other requests and tasks do anything else but purge events at the same time, the trail of the tenant
stays a chain: each event names the hash of the one before it, carries the hash of its payload on top of it and a valid signature.\<close>

theorem concurrent_audit_chain:
  assumes "settled E t d" "i < length ws" "audit_rounds t (ws ! i)" "batch_laws B"
    and "\<forall>k < length ws. k \<noteq> i \<longrightarrow> (\<forall>j \<in> set (ws ! k). t \<notin> job_audits j \<and> t \<notin> job_purges j)"
  shows "audit_chain E t (interleaved E sh B is ws d)"
  unfolding interleaved_def workers_def
proof (rule schedule_keeps)
  let ?R = "\<lambda>k. if k = i then trail_apart t else future" and ?G = "\<lambda>k. if k = i then keeps_chain E t else trail_apart t"
  have now: "?R k s s" for k s by (simp add: trail_apart_refl)
  have later: "?R k s s'' " if "?R k s s'" "?R k s' s''" for k s s' s''
    using that trail_apart_trans[of t s s' s''] future_trans[of s s' s''] by (simp split: if_splits)
  have "?R j s s'" if "k \<noteq> j" "?G k s s'" for k j s s'
    using that by (simp add: keeps_chain_def trail_apart_def split: if_splits)
  then show "compatible ?R ?G" unfolding compatible_def using now later by blast
  have same: "both future (\<lambda>d d'. audit_of t d' = audit_of t d) = trail_apart t" by (intro ext) (simp add: trail_apart_def)
  have "safe future (trail_apart t) (worker_task E sh B (ws ! k)) d" if "k < length ws" "k \<noteq> i" for k
    unfolding same[symmetric] by (rule untouched.safe_worker[OF _ assms(4)]) (use assms(5) that in auto)
  then show "all_safe ?R ?G (map (worker_task E sh B) ws, d)"
    using rounds_chain_safe[OF assms(3,1)] by (auto simp: all_safe_def)
  show "audit_chain E t d" using assms(1) by (simp add: settled_def)
  show "audit_chain E t d'" if "k < length (map (worker_task E sh B) ws)" "?G k s d'" "audit_chain E t s" for k s d'
    using that trail_apart_chain[of t s d' E] by (auto simp: keeps_chain_def split: if_splits)
qed

lemma concurrent_audit_chain_witness:
  "audit_chain sample_env ''t'' (interleaved sample_env (\<lambda>_. ''1'') plain_batches [0, 0, 1, 0, 1, 0, 1, 1]
     [[Pass_Time 1000, Write_Audit (sample_claims ''t'' []) ''a'' ''case'' None None JNull],
      [Write_Audit (sample_claims ''u'' []) ''b'' ''case'' None None JNull, Add_Account ''t'' ''a'' ''h'' ''admin'']] (db_empty 5000))"
proof (rule concurrent_audit_chain[where i = 0])
  show "settled sample_env ''t'' (db_empty 5000)" by (simp add: settled_def audit_chain_def audit_of_def db_empty_def)
qed (simp_all add: plain_laws sample_claims_def less_Suc_eq)

section \<open>Lost changes\<close>

text \<open>C20. The lookup and the update of a case are two statements: when a second request changes a case between the
lookup and the update of a first, whatever it changed - the status, the instant of the resolution, the owner, the
outcome - is gone, and the cases are as if the first request had been alone.\<close>

theorem concurrent_change_lost:
  assumes "no_faults d" "first_row (\<lambda>c. ca_tenant c = t \<and> ca_id c = i) (db_cases d) = Some c"
  shows "\<exists>n. db_cases (interleaved E sh B (0 # replicate n 1) [[Change_Case t i ch], [Change_Case t i ch']] d)
        = db_cases (snd (update_case t i ch' d))
     \<and> db_cases (interleaved E sh B (0 # replicate n 1 @ [0]) [[Change_Case t i ch], [Change_Case t i ch']] d)
        = db_cases (snd (update_case t i ch d))"
  by (rule change_lost[OF assms])

definition open_sample :: case_record where
  "open_sample = \<lparr> ca_id = 1, ca_tenant = ''t'', ca_alert_id = 1, ca_title = ''x'', ca_summary = ''y'',
     ca_severity = ''HIGH'', ca_status = ''NEW'', ca_owner_id = None, ca_owner_email = None,
     ca_playbook_id = None, ca_sla_due = None, ca_escalation = None, ca_escalated = None,
     ca_resolved = None, ca_outcome = None, ca_postmortem = None, ca_created = 0, ca_updated = 0 \<rparr>"

lemma concurrent_change_lost_witness:
  "\<exists>n. db_cases (interleaved sample_env (\<lambda>_. ''1'') plain_batches (0 # replicate n 1 @ [0])
       [[Change_Case ''t'' 1 (no_changes \<lparr> cc_owner_id := Some (Some ''u'') \<rparr>)],
        [Change_Case ''t'' 1 (no_changes \<lparr> cc_status := Some C_Resolved \<rparr>)]] (db_empty 0 \<lparr> db_cases := [open_sample] \<rparr>))
     = [open_sample \<lparr> ca_owner_id := Some ''u'' \<rparr>]"
proof -
  let ?d = "db_empty 0 \<lparr> db_cases := [open_sample] \<rparr>"
  have d: "no_faults ?d" "first_row (\<lambda>c. ca_tenant c = ''t'' \<and> ca_id c = 1) (db_cases ?d) = Some open_sample"
    by (simp_all add: no_faults_def db_empty_def first_row_def open_sample_def)
  have "parse_case_status ''NEW'' = Some C_New" using parse_show_case_status[of C_New] by simp
  then have "db_cases (snd (update_case ''t'' 1 (no_changes \<lparr> cc_owner_id := Some (Some ''u'') \<rparr>) ?d))
      = [open_sample \<lparr> ca_owner_id := Some ''u'' \<rparr>]"
    unfolding update_case_writes(1)[OF d]
    by (simp add: rewrite_case_def written_case_def merged_case_def no_changes_def open_sample_def db_empty_def
        is_final_status_def option_or_def pg_time_def)
  then show ?thesis
    using concurrent_change_lost[OF d, of sample_env "\<lambda>_. ''1''" plain_batches "no_changes \<lparr> cc_owner_id := Some (Some ''u'') \<rparr>"
        "no_changes \<lparr> cc_status := Some C_Resolved \<rparr>"] by metis
qed

section \<open>Refresh tokens\<close>

text \<open>C27. Once a request that revokes a refresh token is over, the token is unknown, in whatever order the commands
of that request and of others - look-ups, revocations, tokens issued - reach the server, as long as nobody stores
that very token.\<close>

theorem concurrent_revocation:
  assumes "redis_server rd up view" "up (rc_srv st)" "hash tok = Inr h" "token_typed (view (rc_srv st)) h"
    and "\<forall>js \<in> set ws. \<forall>j \<in> set js. \<not> issues hash h j" "i < length ws" "Revoke tok \<in> set (ws ! i)"
    and "schedule is (map (token_worker hash rd) ws, st) = (ts, st')" "ts ! i = Finished r"
  shows "fst (get_user_id_by_refresh_token hash rd tok st') = Inr None"
  by (rule redis_server.revocation_final[OF assms])

lemma concurrent_revocation_witness:
  "fst (get_user_id_by_refresh_token Inr mem_redis ''t'' (snd (schedule [0, 1, 0, 1, 0]
     (map (token_worker Inr mem_redis) [[Revoke ''t''], [Look_Up ''t'', Issue ''7'' ''acme'' ''u'' 60]],
      rcache_new (ks_put (token_key ''t'') (RStr ''acme:7'') ks_empty) 0)))) = Inr None"
proof -
  let ?ws = "[[Revoke ''t''], [Look_Up ''t'', Issue ''7'' ''acme'' ''u'' 60]]"
  let ?st = "rcache_new (ks_put (token_key ''t'') (RStr ''acme:7'') ks_empty) 0"
  let ?run = "schedule [0, 1, 0, 1, 0] (map (token_worker Inr mem_redis) ?ws, ?st)"
  have "fst ?run ! 0 = Finished (Inr ())"
    by (simp add: turn_def token_worker_def hashed_task_def revoke_token_task_def lookup_token_task_def store_token_task_def
        after_drop after_then after_atomically then_atomically return_task_def on_server_def mem_redis_def ks_get_def
        ks_delete_def ks_del_def ks_srem_def rcache_new_def ks_put_def ks_empty_def Let_def)
  then obtain ts st' where r: "?run = (ts, st')" "ts ! 0 = Finished (Inr ())" by (metis prod.collapse)
  have "fst (get_user_id_by_refresh_token Inr mem_redis ''t'' st') = Inr None"
    by (rule concurrent_revocation[where h = "''t''", OF mem.redis_server_axioms TrueI _ _ _ _ _ r]) (simp_all add: token_typed_def rcache_new_def)
  then show ?thesis using r(1) by simp
qed

end
