(* ===== verification/Slack.thy ===== *)
theory Slack
  imports Actions
begin

text \<open>The Slack messages of \<open>alerting/slack.rs\<close>: the layout of an alert as an attachment, and the post.  The module
is not part of the crate (\<open>alerting/mod.rs\<close> does not name it); the service uses \<open>alerting/notifiers/slack.rs\<close>, which
is \<open>Actions.slack_send\<close>.  The HTTP client and the text of an instant are parameters; text outside ASCII is the bytes of
its UTF-8 encoding.\<close>

record slack_notifier =
  sn_url :: string
  sn_enabled :: bool

definition slack_new :: "string option \<Rightarrow> slack_notifier" where
  "slack_new url = \<lparr> sn_url = option_or [] url, sn_enabled = (url \<noteq> None) \<rparr>"

fun slack_color :: "alert_severity \<Rightarrow> string" where
  "slack_color Critical = ''danger''"
| "slack_color High = ''warning''"
| "slack_color Medium = ''warning''"
| "slack_color Low = ''good''"
| "slack_color Info = ''#808080''"

text \<open>The siren in front of the title.\<close>

definition siren :: string where
  "siren = [CHR 0xF0, CHR 0x9F, CHR 0x9A, CHR 0xA8]"

definition slack_field :: "string \<Rightarrow> string \<Rightarrow> json" where
  "slack_field title val = JObj [(''short'', JBool True), (''title'', JStr title), (''value'', JStr val)]"

definition slack_payload :: "(instant \<Rightarrow> string) \<Rightarrow> alert \<Rightarrow> json" where
  "slack_payload fmt a = JObj [(''attachments'', JArr [JObj
     [(''color'', JStr (slack_color (a_severity a))),
      (''fields'', JArr
         [slack_field ''Source IP'' (a_source_ip a),
          slack_field ''Events Count'' (show_nat (a_events_count a)),
          slack_field ''First Seen'' (fmt (a_first_seen a)),
          slack_field ''Last Seen'' (fmt (a_last_seen a))]),
      (''footer'', JStr ''Mini SIEM''),
      (''text'', JStr (a_description a)),
      (''title'', JStr (siren @ '' '' @ show_alert_severity (a_severity a) @ '': '' @ a_rule_name a)),
      (''ts'', JNum (if 0 \<le> timestamp (a_last_seen a) then PosInt (nat (timestamp (a_last_seen a)))
                     else NegInt (timestamp (a_last_seen a))))]])]"

text \<open>The posts that are made, and the result: only a request that could not be sent is an error, a refused one is
logged.\<close>

definition slack_send_alert ::
  "(string \<Rightarrow> json \<Rightarrow> nat option) \<Rightarrow> (instant \<Rightarrow> string) \<Rightarrow> slack_notifier \<Rightarrow> alert
   \<Rightarrow> (string \<times> json) list \<times> (error + unit)" where
  "slack_send_alert post fmt sn a =
     (if \<not> sn_enabled sn then ([], Inr ())
      else (let p = slack_payload fmt a in
        ([(sn_url sn, p)], case post (sn_url sn) p of None \<Rightarrow> Inl Queue_Error | Some code \<Rightarrow> Inr ())))"

section \<open>Facts\<close>

text \<open>Without a webhook nothing is posted; with one, every alert is posted once, and a refusal is no error.\<close>

lemma slack_posts:
  "fst (slack_send_alert post fmt (slack_new url) a)
     = (case url of None \<Rightarrow> [] | Some u \<Rightarrow> [(u, slack_payload fmt a)])"
  by (simp add: slack_send_alert_def slack_new_def option_or_def Let_def split: option.split)

lemma slack_errors:
  "snd (slack_send_alert post fmt (slack_new url) a) = Inl e
     \<longleftrightarrow> e = Queue_Error \<and> (\<exists>u. url = Some u \<and> post u (slack_payload fmt a) = None)"
  by (auto simp: slack_send_alert_def slack_new_def option_or_def Let_def split: option.split)

end
