(* ===== verification/Repository_Tests.thy ===== *)
theory Repository_Tests
  imports Samples Batcher Response Auth_Api
begin

text \<open>The unit tests of the repository, stated of the model: those of \<open>types/log.rs\<close>,
\<open>detection/rules/malware.rs\<close> and \<open>alerting/db_batcher.rs\<close>, and those of \<open>backend/tests\<close> (with the tenant
arguments the constructors have gained since).  Each lemma has the name of its test.\<close>

section \<open>Logs\<close>

definition create_test_log :: "nat \<Rightarrow> instant \<Rightarrow> string \<Rightarrow> string \<Rightarrow> log" where
  "create_test_log uuid now event_type msg = \<lparr> l_id = uuid, l_tenant = ''tenant-1'', l_timestamp = now,
     l_event_type = event_type, l_source_ip = ''127.0.0.1'', l_target_user = None, l_service = None,
     l_message = msg, l_severity = LInfo, l_metadata = JNull, l_received = now \<rparr>"

lemma test_is_failed_login:
  "is_failed_login (create_test_log u n ''login_failed'' ''Failed to login'')"
  "is_failed_login (create_test_log u n ''system'' ''Failed password for root from 192.168.1.1 port 22 ssh2'')"
  "is_failed_login (create_test_log u n ''auth''
     ''authentication failure; logname= uid=0 euid=0 tty=ssh ruser= rhost=192.168.1.1'')"
  "\<not> is_failed_login (create_test_log u n ''system'' ''Some other message'')"
  by (simp_all add: is_failed_login_def create_test_log_def starts_with_def)

lemma test_is_successful_login:
  "is_successful_login (create_test_log u n ''login_success'' ''User root logged in'')"
  "is_successful_login (create_test_log u n ''ssh'' ''Accepted password for root from 192.168.1.1 port 22 ssh2'')"
  "\<not> is_successful_login (create_test_log u n ''system'' ''Some other message'')"
  by (simp_all add: is_successful_login_def create_test_log_def starts_with_def)

section \<open>Malware indicators\<close>

lemma test_find_simple_iocs:
  assumes "iocs = find_simple_iocs sample_ioc ''Connecting to malware.com and also evil.org/path with powershell -enc''"
  shows "''malware.com'' \<in> set iocs \<and> ''evil.org'' \<in> set iocs \<and> ''powershell'' \<in> set iocs"
  unfolding assms by code_simp

lemma test_matches_complex_patterns:
  assumes "ioc_laws M"
  shows "complex_match M ''powershell.exe -enc Zm9v''" "complex_match M ''wget http://evil.com/malware''"
    "\<not> complex_match M ''ls -la /tmp''"
proof -
  have "complex_match M t \<longleftrightarrow> list_ex (\<lambda>p. is_match p t) malicious_complex_patterns" for t
    using assms by (simp add: ioc_laws_def is_match_occurs list_ex_iff)
  moreover have "list_ex (\<lambda>p. is_match p ''powershell.exe -enc Zm9v'') malicious_complex_patterns"
    "list_ex (\<lambda>p. is_match p ''wget http://evil.com/malware'') malicious_complex_patterns"
    "\<not> list_ex (\<lambda>p. is_match p ''ls -la /tmp'') malicious_complex_patterns"
    by code_simp+
  ultimately show "complex_match M ''powershell.exe -enc Zm9v''" "complex_match M ''wget http://evil.com/malware''"
    "\<not> complex_match M ''ls -la /tmp''" by simp_all
qed

section \<open>Deduplication keys\<close>

definition test_log :: log where
  "test_log = \<lparr> l_id = 1, l_tenant = ''tenant-a'', l_timestamp = seconds 1700000000, l_event_type = ''login_failed'',
     l_source_ip = ''10.0.0.1'', l_target_user = Some ''alice'', l_service = Some ''ssh'',
     l_message = ''Failed password for alice from 10.0.0.1'', l_severity = LHigh, l_metadata = JNull,
     l_received = seconds 1700000000 \<rparr>"

definition test_alert :: "string \<Rightarrow> string \<Rightarrow> string \<Rightarrow> int \<Rightarrow> alert" where
  "test_alert descr rule_id ip t =
     (alert_new 2 0 ''tenant-a'' rule_id ''rule-name'' High descr ip [test_log])
       \<lparr> a_first_seen := seconds t, a_last_seen := seconds t \<rparr>"

definition base_text :: string where
  "base_text = ''Possible brute force attack from 10.0.0.1: 5 failed attempts''"

definition same_text :: string where
  "same_text = ''possible brute force attack from 10.0.0.1: 9 failed attempts''"

lemma same_fingerprint: "normalize_fingerprint base_text = normalize_fingerprint same_text"
  by code_simp

lemma dedup_key_changes_for_required_dimensions:
  defines "base \<equiv> test_alert base_text ''rule-a'' ''10.0.0.1'' 1700000000"
  shows "alert_dedup_key h base = alert_dedup_key h (test_alert same_text ''rule-a'' ''10.0.0.1'' 1700000030)"
    "alert_dedup_key h base \<noteq> alert_dedup_key h (test_alert same_text ''rule-b'' ''10.0.0.1'' 1700000030)"
    "alert_dedup_key h base \<noteq> alert_dedup_key h (test_alert same_text ''rule-a'' ''10.0.0.2'' 1700000030)"
    "alert_dedup_key h base \<noteq> alert_dedup_key h (test_alert same_text ''rule-a'' ''10.0.0.1'' 1700000090)"
  by (simp_all add: base_def test_alert_def alert_dedup_key_def dedup_window_bucket_def dedup_window_seconds_def
      alert_new_def same_fingerprint)

section \<open>Conditions and normalization\<close>

definition is_eq :: "string \<Rightarrow> json \<Rightarrow> rule_condition" where
  "is_eq field v = Field field ''=='' v"

definition fires :: "ssh_regex \<Rightarrow> rule_condition \<Rightarrow> log \<Rightarrow> bool" where
  "fires re c l \<longleftrightarrow> evaluate re c l"

lemma fires_alert:
  "gr_evaluate re (generic_new t i name sev c) uuid l s
     = (Inr (if fires re c l then Some (event_alert uuid i name (rule_severity sev) (''Rule triggered: '' @ name) l)
             else None), s)"
  by (simp add: gr_evaluate_def fires_def generic_new_def ok_def)

definition admin_login :: rule_condition where
  "admin_login = All [is_eq ''user.name'' (JStr ''admin''), is_eq ''event.outcome'' (JStr ''success'')]"

definition ssh_test_log :: log where
  "ssh_test_log = (log_new 1 0 ''tenant-1'' ''ssh'' ''1.2.3.4'' ''Accepted password for admin from 1.2.3.4 port 22 ssh2'')
     \<lparr> l_service := Some ''ssh'' \<rparr>"

definition user_test_log :: log where
  "user_test_log = (log_new 1 0 ''tenant-1'' ''login_success'' ''1.2.3.4'' ''User admin logged in'')
     \<lparr> l_target_user := Some ''admin'' \<rparr>"

lemma admin_login_fires:
  "fires re admin_login l \<longleftrightarrow> e_user_name (normalize_log re l) = Some ''admin'' \<and> e_outcome (normalize_log re l) = Some ''success''"
  by (auto simp: fires_def admin_login_def is_eq_def field_value_def apply_op_def Let_def opt_string_def split: option.split)

lemma ssh_test_captures:
  "find_match ssh_accepted_pattern ''Accepted password for admin from 1.2.3.4 port 22 ssh2''
     = Some [(''user'', ''admin''), (''ip'', ''1.2.3.4''), (''port'', ''22'')]"
proof -
  have "list_all not_space ''admin''" "list_all not_space ''1.2.3.4''" "list_all is_digit ''22''" "\<not> is_digit (hd '' ssh2'')"
    by code_simp+
  then show ?thesis
    using login_found[of "''admin''" "''1.2.3.4''" "''22''" "'' ssh2''" "''Accepted password for ''" "[]"]
    by (simp add: first_in_def login_line_def ssh_accepted_pattern_def)
qed

lemma test_ecs_normalization_rule: "fires pattern_ssh admin_login ssh_test_log" "fires pattern_ssh admin_login user_test_log"
proof -
  have "\<not> is_failed_login ssh_test_log" "is_successful_login ssh_test_log" "\<not> is_failed_login user_test_log"
    "is_successful_login user_test_log"
    by code_simp+
  then show "fires pattern_ssh admin_login ssh_test_log" "fires pattern_ssh admin_login user_test_log"
    by (simp_all add: admin_login_fires normalize_outcome ssh_test_captures normalize_user_explicit)
      (simp_all add: normalize_defs ssh_test_log_def user_test_log_def log_new_def pattern_ssh_def ssh_test_captures ssh_groups_def option_or_def)
qed

lemma test_source_ip_mapping:
  "fires pattern_ssh (is_eq ''source.ip'' (JStr ''8.8.8.8'')) (log_new 1 0 ''tenant-1'' ''test'' ''8.8.8.8'' ''some message'')"
  by code_simp

definition powershell_condition :: rule_condition where
  "powershell_condition = Field ''message'' ''contains'' (JStr ''powershell -e'')"

lemma test_generic_rule_simple_field:
  "fires pattern_ssh powershell_condition
     (log_new 1 0 ''tenant-1'' ''process_start'' ''10.0.0.5'' ''User executed powershell -e base64payload'')"
  "\<not> fires pattern_ssh powershell_condition (log_new 1 0 ''tenant-1'' ''process_start'' ''10.0.0.5'' ''User executed ls -la'')"
  by code_simp+

definition complex_condition :: rule_condition where
  "complex_condition = Any [All [is_eq ''event_type'' (JStr ''login_failed''), is_eq ''severity'' (JStr ''CRITICAL'')],
     is_eq ''source_ip'' (JStr ''192.168.1.100'')]"

lemma test_generic_rule_complex_condition:
  "fires pattern_ssh complex_condition
     ((log_new 1 0 ''tenant-1'' ''login_failed'' ''1.1.1.1'' ''Failed login'') \<lparr> l_severity := LCritical \<rparr>)"
  "fires pattern_ssh complex_condition (log_new 1 0 ''tenant-1'' ''info_event'' ''192.168.1.100'' ''Regular activity'')"
  "\<not> fires pattern_ssh complex_condition
     ((log_new 1 0 ''tenant-1'' ''login_failed'' ''1.1.1.1'' ''Failed login'') \<lparr> l_severity := LLow \<rparr>)"
  by code_simp+

definition metadata_log :: "json \<Rightarrow> log" where
  "metadata_log j = (log_new 1 0 ''tenant-1'' ''test'' ''127.0.0.1'' ''test message'') \<lparr> l_metadata := j \<rparr>"

lemma test_generic_rule_metadata:
  "\<not> fires pattern_ssh (is_eq ''process_id'' (JNum (PosInt 1234))) (metadata_log JNull)"
  "fires pattern_ssh (is_eq ''process_id'' (JNum (PosInt 1234)))
     (metadata_log (JObj [(''process_id'', JNum (PosInt 1234)), (''user'', JStr ''admin'')]))"
  "\<not> fires pattern_ssh (is_eq ''process_id'' (JNum (PosInt 1234))) (metadata_log (JObj [(''process_id'', JNum (PosInt 5678))]))"
  by code_simp+

section \<open>Correlation\<close>

definition short_window :: "corr_stage list \<Rightarrow> corr_definition" where
  "short_window stages = \<lparr> cd_window_seconds = 10, cd_version = default_version,
     cd_max_active_groups = default_max_active_groups, cd_lateness = default_watermark_lateness_seconds,
     cd_state_ttl = default_state_ttl_seconds, cd_eviction = Oldest_First, cd_group_by = [''source_ip''],
     cd_stages = stages \<rparr>"

definition failed_then_vpn :: corr_rule where
  "failed_then_vpn = corr_new ''tenant-1'' ''corr_1'' ''Brute Force then VPN'' ''High'' (short_window
     [\<lparr> cs_name = ''failed_login'', cs_condition = is_eq ''event_type'' (JStr ''login_failed''), cs_min_count = 2 \<rparr>,
      \<lparr> cs_name = ''vpn_login'', cs_condition = is_eq ''service'' (JStr ''vpn''), cs_min_count = 1 \<rparr>])"

definition vpn_logs :: "log list" where
  "vpn_logs = [log_new 1 (seconds 100) ''tenant-1'' ''login_failed'' ''10.0.0.1'' [],
     log_new 2 (seconds 100) ''tenant-1'' ''login_failed'' ''10.0.0.1'' [],
     (log_new 3 (seconds 101) ''tenant-1'' ''login_success'' ''10.0.0.1'' []) \<lparr> l_service := Some ''vpn'' \<rparr>]"

lemma is_eq_holds [simp]:
  "evaluate re (is_eq ''event_type'' (JStr v)) l \<longleftrightarrow> l_event_type l = v"
  "evaluate re (is_eq ''service'' (JStr v)) l \<longleftrightarrow> l_service l = Some v"
  by (auto simp: is_eq_def field_value_def apply_op_def Let_def opt_string_def split: option.split)

lemmas correlation_steps = groups_step_def group_state_def corr_step_def is_stale_by_watermark_def sat_sub_i64_def
  lateness_def reset_state_def match_stage_def advance_window_def wrap_i64_def u64_as_i64_def Let_def corr_new_def
  get_group_key_def group_part_def short_window_def default_watermark_lateness_seconds_def log_new_def

lemma test_correlation_sequence: "groups_run pattern_ssh failed_then_vpn (\<lambda>_. None) vpn_logs = [False, False, True]"
  by (simp add: vpn_logs_def failed_then_vpn_def correlation_steps)

definition two_of_a_kind :: corr_rule where
  "two_of_a_kind = corr_new ''tenant-1'' ''corr_2'' ''Test'' ''Low'' (short_window
     [\<lparr> cs_name = ''any'', cs_condition = is_eq ''event_type'' (JStr ''test''), cs_min_count = 2 \<rparr>])"

definition log_of :: "string \<Rightarrow> log" where
  "log_of ip = log_new 1 (seconds 100) ''tenant-1'' ''test'' ip []"

lemma test_correlation_grouping:
  "groups_run pattern_ssh two_of_a_kind (\<lambda>_. None) [log_of ''IP_A'', log_of ''IP_B'', log_of ''IP_A'', log_of ''IP_B'']
     = [False, False, True, True]"
  by (simp add: two_of_a_kind_def log_of_def correlation_steps)

section \<open>Responses and claims\<close>

definition mock_action :: action where
  "mock_action = \<lparr> act_name = ''test_action'', act_run = (\<lambda>_. True) \<rparr>"

definition test_incident :: "string \<Rightarrow> alert_severity \<Rightarrow> alert" where
  "test_incident rule_id sev = alert_new 1 0 ''tenant-1'' rule_id ''Test Rule'' sev ''Test description'' ''1.1.1.1'' []"

lemmas response_defs = response_handle_def collect_actions_def add_severity_policy_def add_rule_policy_def
  push_action_def response_new_def option_or_def test_incident_def alert_new_def mock_action_def

lemma test_response_engine_triggers_on_severity:
  "response_handle (add_severity_policy None Critical mock_action response_new) (test_incident ''rule_1'' Critical)
     = [(''test_action'', True)]"
  by (simp add: response_defs)

lemma test_response_engine_triggers_on_rule_id:
  "response_handle (add_rule_policy ''tenant-1'' ''target_rule'' mock_action response_new) (test_incident ''target_rule'' Info)
     = [(''test_action'', True)]"
  by (simp add: response_defs)

lemma test_response_engine_no_trigger_on_mismatch:
  "response_handle (add_severity_policy None Critical mock_action response_new) (test_incident ''rule_1'' Low) = []"
  by (simp add: response_defs)

lemma test_jwt_lifecycle:
  assumes "0 \<le> now" "timestamp (now + minutes 60) < 2 ^ 63"
    and "c = create_claims env now ''user_123'' ''tenant-1'' ''test@example.com'' [''admin''] 60"
  shows "cl_sub c = ''user_123'' \<and> cl_email c = ''test@example.com'' \<and> ''admin'' \<in> set (cl_roles c) \<and> cl_iat c < cl_exp c"
proof -
  have "timestamp (now + minutes 60) = timestamp now + 3600"
    by (simp add: minutes_def seconds_def timestamp_def)
  moreover have "0 \<le> timestamp now" using assms(1) by (simp add: timestamp_def pos_imp_zdiv_nonneg_iff)
  ultimately show ?thesis using assms by (simp add: create_claims_def int_as_u64_id)
qed

section \<open>Accounts\<close>

text \<open>A registration without an address, or with a short password, is refused.\<close>

lemma test_register_validation: "fst (register E X t [] ''short'' s) = Inl 400"
  by (simp add: register_def Let_def bind_ok_def require_def fail_def)

lemma test_user_response_conversion:
  "us_id (user_response_of u) = u_id u" "us_email (user_response_of u) = u_email u"
  "us_role (user_response_of u) = u_role u"
  by (simp_all add: user_response_of_def)

end
