(* ===== verification/Spec2Isabelle.thy ===== *)
theory Spec2Isabelle
  imports Detection_Properties Cache_Properties Delivery_Properties Storage_Properties Pipeline_Properties
    Server_Properties System_Properties Concurrency_Properties Slack Repository_Tests
begin

text \<open>
A verification development for the backend of mini-siem, the Rust program under
\<open>mini-siem/backend/src\<close>: log ingestion over HTTP and Kafka, detection rules, alerts, cases, tenants and their
policies.

\<^bold>\<open>The program.\<close> A log arrives by HTTP (\<open>api/handlers/logs.rs\<close>, through the cost controller \<open>costs.rs\<close>) or from
the collectors on the topic of logs.  The log consumer (\<open>queue/kafka.rs\<close>) limits each source address and hands the
logs to the dispatcher and to the indexer (\<open>main.rs\<close>).  The dispatcher spreads them over detection workers, which
evaluate the rules of the log's tenant (\<open>detection/\<close>) and send the alerts to the alert topic, with the alert
manager as the fallback (\<open>alerting/manager.rs\<close>).  The alert worker (\<open>alerting/worker.rs\<close>) opens a case, runs the
response actions (\<open>response/\<close>) and hands the alert to the batcher (\<open>alerting/db_batcher.rs\<close>), which merges
duplicates and writes them to PostgreSQL (\<open>db/postgres.rs\<close>).  The HTTP server (\<open>api/\<close>) reads and changes rules,
cases, policies, accounts and the audit trail.  Redis (\<open>db/redis.rs\<close>) holds counters, rate-limit windows,
correlation states and refresh tokens.

\<^bold>\<open>The model.\<close> Each theory translates the files it names in its own opening text, one definition per function or
handler, in the order of the code and with all its branches.
  \<^item> Foundations: \<open>Prelude\<close> (strings, decimal texts, casts, instants, effectful code), \<open>Types\<close> (\<open>types/\<close>),
    \<open>Patterns\<close> (regular expressions), \<open>Frames\<close> (properties of effectful code along its structure).
  \<^item> Detection: \<open>Conditions\<close> (normalization and rule conditions), \<open>Rules\<close>, \<open>Correlation\<close>, \<open>Engine\<close>, \<open>Runtime\<close>.
  \<^item> Cache: \<open>Redis_Server\<close> (the commands and their documented meaning), \<open>Redis_Cache\<close>, \<open>Windows\<close> and
    \<open>Token_Life\<close> (rate-limit windows and refresh tokens over time, keys expiring).
  \<^item> Database: \<open>Database\<close>, \<open>Policies\<close>, \<open>Case_Store\<close>; tables are lists of rows, every SQL statement of the code is
    one function, and an oracle decides which statements fail.  The events of an alert are a column of the row: their
    way through JSON is not modelled.
  \<^item> Pipeline: \<open>Queue\<close>, \<open>Consumers\<close>, \<open>Pipeline\<close>, \<open>Batcher\<close>, \<open>Response\<close>, \<open>Actions\<close>, \<open>Slack\<close>,
    \<open>Indexing\<close>.
  \<^item> HTTP: \<open>Config\<close>, \<open>App\<close> (state, quotas, audit), \<open>Tokens\<close>, \<open>Auth_Api\<close>, \<open>Cases_Api\<close>, \<open>Rules_Api\<close>,
    \<open>Compliance_Api\<close>, \<open>Costs\<close>, \<open>Ingest\<close>, \<open>Packs\<close>, \<open>Reliability\<close>, \<open>Operations\<close>, and \<open>Server\<close>, which has the table of
    routes and serves a request.  What the web framework answers before a handler runs (a body too large, a method not
    allowed, a route hidden by a scope registered before it) is the parameter \<open>wi_front\<close> of the wiring.
  \<^item> The process: \<open>Startup\<close> (settings, keys, first account, shutdown) and \<open>System\<close>, the state of the whole
    service with one step per task of \<open>main.rs\<close> (\<open>siem_step\<close>), its runs (\<open>siem_run\<close>) and its start
    (\<open>siem_boot\<close>).  A retention cycle can end its task: a policy with too many days makes the subtraction of the
    cutoff panic (\<open>si_retaining\<close>).
  \<^item> Concurrency: \<open>Tasks\<close> (effectful code as a tree of atomic steps, schedules of several such trees, and
    rely-guarantee reasoning about them), \<open>Concurrency\<close> (the operations of the store that take several statements,
    as tasks whose steps are the statements, each shown to run alone as the component's definition says), \<open>Contention\<close>
    (workers that run these operations, under any schedule: changes of accounts, rules, policies, reports, statistics,
    cases and alerts, the audit record, the flush, escalation and retention), \<open>Races\<close>, and \<open>Token_Races\<close> (the operations on refresh
    tokens, whose steps are the commands sent to the cache).
An operation is a function from the state to a result and the next state; \<open>Inl\<close> is an error value, for a handler
the HTTP status.  Integers are \<open>nat\<close> or \<open>int\<close> with the casts and wrap-arounds of the code written out
(\<open>as_u32\<close>, \<open>int_as_u64\<close>, \<open>sat_sub_i64\<close>, \<open>wrap_i64\<close>, \<open>i32_of\<close>).  Instants are nanoseconds, identifiers numbers, text ASCII.

\<^bold>\<open>Contracts between components.\<close> A locale states what a client relies on; its lemmas are proved once and its
interpretation on the model's definitions discharges the laws.
  \<^item> \<open>redis_server\<close>: a server that, while it is up, answers as the keyspace does; met by the keyspace
    itself (\<open>mem\<close>).  On it rest \<open>redis_client\<close> and \<open>typed_client\<close>, which give \<open>counter_cache\<close> to the brute-force rule
    and \<open>index_cache\<close> to the correlation rule (\<open>sublocale\<close>), and the windows and tokens (\<open>Windows\<close>, \<open>Token_Store\<close>).
  \<^item> \<open>db_contract\<close> (\<open>Upkeep\<close>): what the statements of the handlers owe to an invariant; inside it, that every
    request keeps it (\<open>serve_keeps\<close>).  \<open>task_contract\<close>, \<open>store_contract\<close> and \<open>purge_contract\<close> (\<open>Background\<close>) add the
    statements of the background tasks, of the alert path and of the retention cycle; inside them, that every step
    and every run of the service keeps it (\<open>Runs\<close>).  Interpretations: \<open>other\<close> (the rows of another tenant,
    \<open>Isolation\<close>), \<open>formed\<close> (keys and references of all tables, \<open>Wellformed\<close>), \<open>grown\<close>, \<open>unaltered\<close>,
    \<open>followed\<close> and \<open>quiet\<close> (append-only tables, single audit events, the life of a case, the alert table,
    \<open>Growth\<close>).
  \<^item> \<open>interference\<close> (\<open>Tasks\<close>): what tasks may rely on and have to guarantee to each other; \<open>statement_contract\<close>
    (\<open>Contention\<close>) is what a single statement owes, and inside it every operation keeps to the guarantee whatever
    others do between its statements.  Interpretations in \<open>Races\<close>: \<open>tidy\<close> (well-formedness), \<open>growing\<close> (append-only
    tables), \<open>elsewhere\<close> (what the tables hold for another tenant), \<open>untouched\<close> (the audit trail of another tenant).

\<^bold>\<open>What is shown.\<close> The properties are the theorems with a number; each stands after its statement in words.
  \<^item> Server: a tenant's rows are out of reach of the requests of others, with the two endpoints that name another
    tenant as the stated exceptions; a refused request changes no table; protected routes answer
    nobody without a token that is signed with a key the service trusts and whose claims are valid.
  \<^item> Service: over all runs, the database stays well formed, the audit trail only grows, cases persist, every
    alert has a log and an enabled rule as its cause, and alerts are neither lost nor counted twice
    on their way to the table, which a run brings them to.
  \<^item> Detection: a rule evaluated on a stream over the cache agrees with one pure machine per group, and a
    machine that fires has seen its stages in order; the verdicts of the other rules; how often a rule is evaluated;
    what is read off an ssh login.
  \<^item> Delivery: the batcher's conservation and its refinement to merging by key, the token bucket, bounded retries,
    back-pressure without loss, order per partition, what becomes of the logs the indexer takes (bulk requests may store a
    part of a batch), the drain, bounded by the grace period and the time aborted tasks take to stop.
  \<^item> Storage and cache: what the recorded audit trail reveals about tampering, the
    escalation and retention passes, the single case of an alert, rate-limit windows, refresh tokens from their issue
    to their end.
  \<^item> Concurrency: under every interleaving of the statements of the operations the database stays well formed, the
    append-only tables grow, tenants stay apart, and the audit trail stays a chain as long as the requests of one tenant write
    one after another; and how a change of a case is lost to another that overlaps it.  A revoked token stays revoked; one stored
    while all tokens of its user are revoked outlives that (\<open>token_outlives\<close>).
  \<^item> \<open>Repository_Tests\<close>: the unit tests of the repository, as lemmas of the model.
Some properties state what the code does where it is not what one expects (a rule evaluated once per tag, curated
rules that never run, a window that renews itself, a failed flush that drops the buffer).

\<^bold>\<open>Bounds.\<close> The development uses no fuel: the loops of the code are structural recursions over lists, retry
counts or events, and the loops that never end (the tasks) are steps.  The conservation of alerts
assumes fewer than \<open>2 ^ 31\<close> events altogether, the range of the column; counters are exact below \<open>2 ^ 32\<close>; windows and
lifetimes are below \<open>2 ^ 63\<close> seconds.  A real server also refuses a lifetime whose end lies beyond \<open>2 ^ 63\<close>
milliseconds; the keyspace keeps it.

\<^bold>\<open>Parameters and assumptions.\<close> What is not in the repository's Rust sources is an argument, with its documented behaviour as a
hypothesis where a property needs it: the Redis server (\<open>redis_server\<close>), the \<open>regex\<close> and \<open>aho-corasick\<close> crates
(\<open>ssh_laws\<close>, \<open>ioc_laws\<close>), the order of hash maps (\<open>batch_laws\<close>), serializers and readers (\<open>corr_ready\<close>,
\<open>rule_codec\<close>), the JWT library (its laws in \<open>Tokens\<close>), SHA-256 and HMAC (injectivity is named where it is used),
password hashing, the outcome of each send to Kafka, each HTTP exchange and each bounded channel.  Of \<open>actix-web\<close> the
model takes that a request is answered by the framework itself (\<open>wi_front\<close>, any status) or reaches the handler of its
route, behind the token middleware as \<open>api/server.rs\<close> nests the scopes.  In \<open>System\<close> a request, a message or a tick is one step; interleavings of the statements
of the store are in \<open>Concurrency\<close>, those of the cache commands on refresh tokens in \<open>Token_Races\<close>; other cache
commands are not interleaved.  Keys of the cache expire in the timed theories of windows and tokens; the
runs of \<open>System\<close> let no key expire.  Floating-point
sums of samples are exact.

\<^bold>\<open>Not modelled.\<close> The frontend and the collector agent are other programs, in other languages.  \<open>api/rules.rs\<close> holds
unrouted stubs without bodies (\<open>alerting/slack.rs\<close> is not part of the crate either; \<open>Slack\<close> models it).  Log lines, spans, the metrics exporters, CORS, the
binding of sockets, signal handling of the operating system, the connection pool and the migrations have no effect on the
modelled state; of \<open>monitoring/\<close> and \<open>telemetry.rs\<close> the bounded labels, the normalized routes, the
counters and the settings are modelled.
\<close>

end
